(* ===== verification/Prelude.thy ===== *)
theory Prelude
  imports Complex_Main "HOL-Library.AList"
begin

text \<open>
  Shared vocabulary of the development.  Python raises become \<^verbatim>\<open>Inl\<close> of an
  error and returned values \<^verbatim>\<open>Inr\<close>; \<^verbatim>\<open>bindE\<close> sequences two fallible steps.
  An insertion-ordered Python dict is an association list updated in place.
  Instants are integers: microseconds since the Unix epoch in UTC.  The generic
  lemmas on results, dictionaries, minima and sorted lists that the component
  theories share are collected here, in the simpset or in the named collections
  \<^verbatim>\<open>result_simps\<close> and \<^verbatim>\<open>model_defs\<close>.
  Two locales state the interfaces that several components rely on: a table of rows
  with a unique key, and a transition system with an inductive invariant.
\<close>

named_theorems result_simps
named_theorems model_defs

type_synonym instant = int
type_synonym ('k, 'v) dict = "('k \<times> 'v) list"

subsection \<open>Fallible computations\<close>

definition bindE :: "('e + 'a) \<Rightarrow> ('a \<Rightarrow> 'e + 'b) \<Rightarrow> 'e + 'b" where
  "bindE m f = (case m of Inl e \<Rightarrow> Inl e | Inr x \<Rightarrow> f x)"

lemma bindE_simps [simp]:
  "bindE (Inl e) f = Inl e"
  "bindE (Inr x) f = f x"
  by (simp_all add: bindE_def)

lemma bindE_eq_Inr [result_simps]:
  "bindE m f = Inr y \<longleftrightarrow> (\<exists>x. m = Inr x \<and> f x = Inr y)"
  by (cases m) auto

lemma bindE_eq_Inl [result_simps]:
  "bindE m f = Inl e \<longleftrightarrow> m = Inl e \<or> (\<exists>x. m = Inr x \<and> f x = Inl e)"
  by (cases m) auto

text \<open>A check that raises when its condition fails.\<close>

definition guard :: "bool \<Rightarrow> 'e \<Rightarrow> 'e + unit" where
  "guard ok e = (if ok then Inr () else Inl e)"

lemma guard_Inr [simp]: "guard b e = Inr u \<longleftrightarrow> b"
  by (simp add: guard_def)

lemma guard_Inl [result_simps]: "guard b e = Inl e' \<longleftrightarrow> \<not> b \<and> e' = e"
  by (auto simp: guard_def)

text \<open>Reading a computed result.\<close>

lemma returned_pair:
  "(case x of Inl _ \<Rightarrow> False | Inr (a, b) \<Rightarrow> P a b) \<Longrightarrow> \<exists>a b. x = Inr (a, b) \<and> P a b"
  by (auto split: sum.splits)

text \<open>A loop whose body may raise: the first error stops it.\<close>

fun foldE :: "('a \<Rightarrow> 's \<Rightarrow> 'e + 's) \<Rightarrow> 'a list \<Rightarrow> 's \<Rightarrow> 'e + 's" where
  "foldE f [] s = Inr s"
| "foldE f (x # xs) s = bindE (f x s) (foldE f xs)"

lemma foldE_append: "foldE f (xs @ ys) s = bindE (foldE f xs s) (foldE f ys)"
proof (induction xs arbitrary: s)
  case Nil
  then show ?case by simp
next
  case (Cons x xs)
  then show ?case by (cases "f x s") auto
qed

text \<open>An invariant that every successful step of the body keeps holds after the loop.\<close>

lemma foldE_invariant:
  assumes "foldE f xs s = Inr t" and "P s"
    and "\<And>x s t. x \<in> set xs \<Longrightarrow> f x s = Inr t \<Longrightarrow> P s \<Longrightarrow> P t"
  shows "P t"
  using assms
proof (induction xs arbitrary: s)
  case Nil
  then show ?case by simp
next
  case (Cons x xs)
  from Cons.prems(1) obtain u where u: "f x s = Inr u" and rest: "foldE f xs u = Inr t"
    by (auto simp: bindE_eq_Inr)
  have "P u" using Cons.prems(3)[OF _ u Cons.prems(2)] by simp
  then show ?case by (rule Cons.IH[OF rest]) (use Cons.prems(3) in auto)
qed

text \<open>A loop with a body that never raises on states satisfying an invariant returns.\<close>

lemma foldE_total:
  assumes "P s" and "\<And>x s. x \<in> set xs \<Longrightarrow> P s \<Longrightarrow> \<exists>t. f x s = Inr t \<and> P t"
  shows "\<exists>t. foldE f xs s = Inr t \<and> P t"
  using assms
proof (induction xs arbitrary: s)
  case Nil
  then show ?case by simp
next
  case (Cons x xs)
  from Cons.prems(2)[OF _ Cons.prems(1)] obtain u where u: "f x s = Inr u" "P u" by auto
  have "\<exists>t. foldE f xs u = Inr t \<and> P t"
    by (rule Cons.IH[OF u(2)]) (use Cons.prems(2) in auto)
  with u show ?case by simp
qed

subsection \<open>Dictionaries\<close>

definition dict_get :: "('k, 'v) dict \<Rightarrow> 'k \<Rightarrow> 'v \<Rightarrow> 'v" where
  "dict_get d k v = (case map_of d k of None \<Rightarrow> v | Some w \<Rightarrow> w)"

definition dict_set :: "('k, 'v) dict \<Rightarrow> 'k \<Rightarrow> 'v \<Rightarrow> ('k, 'v) dict" where
  "dict_set d k v = AList.update k v d"

lemma map_of_dict_set [simp]: "map_of (dict_set d k v) = (map_of d)(k \<mapsto> v)"
  by (simp add: dict_set_def update_conv')

lemma dict_get_set [simp]:
  "dict_get (dict_set d k v) k' w = (if k' = k then v else dict_get d k' w)"
  by (simp add: dict_get_def)

lemma distinct_dict_set [simp]:
  "distinct (map fst d) \<Longrightarrow> distinct (map fst (dict_set d k v))"
  by (simp add: dict_set_def distinct_update)

subsection \<open>Minimum and maximum with a default\<close>

definition min_opt :: "'a::linorder list \<Rightarrow> 'a option" where
  "min_opt xs = (if xs = [] then None else Some (Min (set xs)))"

definition max_opt :: "'a::linorder list \<Rightarrow> 'a option" where
  "max_opt xs = (if xs = [] then None else Some (Max (set xs)))"

lemma min_opt_None [simp]: "min_opt xs = None \<longleftrightarrow> xs = []"
  by (simp add: min_opt_def)

lemma max_opt_None [simp]: "max_opt xs = None \<longleftrightarrow> xs = []"
  by (simp add: max_opt_def)

lemma min_opt_Some: "min_opt xs = Some m \<longleftrightarrow> m \<in> set xs \<and> (\<forall>x\<in>set xs. m \<le> x)"
  by (auto simp: min_opt_def intro!: Min_eqI)

lemma max_opt_Some: "max_opt xs = Some m \<longleftrightarrow> m \<in> set xs \<and> (\<forall>x\<in>set xs. x \<le> m)"
  by (auto simp: max_opt_def intro!: Max_eqI)

text \<open>The first row of an ordered query.\<close>

lemma sort_key_head:
  assumes "sort_key f xs = y # ys"
  shows "y \<in> set xs" and "\<And>x. x \<in> set xs \<Longrightarrow> f y \<le> f x"
proof -
  have eq: "set (y # ys) = set xs" using set_sort[of f xs] unfolding assms .
  then show "y \<in> set xs" by auto
  have "sorted (map f (y # ys))" using sorted_sort_key[of f xs] unfolding assms .
  then show "f y \<le> f x" if "x \<in> set xs" for x using that eq by auto
qed

subsection \<open>Python truthiness of optional strings\<close>

definition truthy :: "string option \<Rightarrow> bool" where
  "truthy s = (case s of None \<Rightarrow> False | Some t \<Rightarrow> t \<noteq> [])"

lemma truthy_simps [simp]: "\<not> truthy None" "truthy (Some t) \<longleftrightarrow> t \<noteq> []"
  by (simp_all add: truthy_def)

definition or_else :: "'a option \<Rightarrow> 'a option \<Rightarrow> 'a option" where
  "or_else a b = (case a of None \<Rightarrow> b | Some x \<Rightarrow> Some x)"

lemma or_else_simps [simp]: "or_else None b = b" "or_else (Some x) b = Some x"
  by (simp_all add: or_else_def)

lemma find_append: "find P (xs @ ys) = or_else (find P xs) (find P ys)"
  by (induction xs) auto

subsection \<open>Decimal text of integers\<close>

fun digits_text :: "nat \<Rightarrow> string" where
  "digits_text n =
     (if n < 10 then [char_of (48 + n)] else digits_text (n div 10) @ [char_of (48 + n mod 10)])"

declare digits_text.simps [simp del]

definition int_text :: "int \<Rightarrow> string" where
  "int_text i = (if i < 0 then ''-'' @ digits_text (nat (- i)) else digits_text (nat i))"

definition pad_left :: "nat \<Rightarrow> string \<Rightarrow> string" where
  "pad_left n s = replicate (n - length s) (CHR ''0'') @ s"

subsection \<open>Interface: a table whose rows have a unique key\<close>

text \<open>
  Several tables of the database have a unique constraint beside their check
  constraints.  A client relies on two laws: a valid row with a fresh key is appended,
  and a row that is invalid or whose key is taken is refused.
\<close>

locale unique_table =
  fixes key :: "'r \<Rightarrow> 'k"
    and valid :: "'r \<Rightarrow> bool"
    and rows :: "'t \<Rightarrow> 'r list"
    and insert_row :: "'r \<Rightarrow> 't \<Rightarrow> 'e + 't"
  assumes insert_ok: "valid r \<Longrightarrow> key r \<notin> key ` set (rows t) \<Longrightarrow>
      \<exists>t'. insert_row r t = Inr t' \<and> rows t' = rows t @ [r]"
    and insert_refused: "\<not> valid r \<or> key r \<in> key ` set (rows t) \<Longrightarrow> \<exists>e. insert_row r t = Inl e"
begin

definition unique :: "'t \<Rightarrow> bool" where
  "unique t \<longleftrightarrow> distinct (map key (rows t)) \<and> (\<forall>r\<in>set (rows t). valid r)"

lemma insert_Inr_iff:
  "(\<exists>t'. insert_row r t = Inr t') \<longleftrightarrow> valid r \<and> key r \<notin> key ` set (rows t)"
  using insert_ok[of r t] insert_refused[of r t] by fastforce

lemma insert_rows: "insert_row r t = Inr t' \<Longrightarrow> rows t' = rows t @ [r]"
  using insert_ok[of r t] insert_Inr_iff[of r t] by fastforce

lemma insert_unique: "unique t \<Longrightarrow> insert_row r t = Inr t' \<Longrightarrow> unique t'"
  using insert_Inr_iff[of r t] insert_rows[of r t t'] by (auto simp: unique_def)

lemma insert_twice_refused:
  assumes "insert_row r t = Inr t'" and "key r' = key r"
  shows "\<exists>e. insert_row r' t' = Inl e"
  using insert_rows[OF assms(1)] assms(2) insert_refused[of r' t'] by simp

text \<open>Inserting a list of rows succeeds exactly when all are valid and the keys stay distinct.\<close>

lemma insert_all:
  assumes "distinct (map key rs)" and "\<forall>r\<in>set rs. valid r"
    and "key ` set rs \<inter> key ` set (rows t) = {}"
  shows "\<exists>t'. foldE insert_row rs t = Inr t' \<and> rows t' = rows t @ rs"
  using assms
proof (induction rs arbitrary: t)
  case Nil
  then show ?case by simp
next
  case (Cons r rs)
  then obtain u where u: "insert_row r t = Inr u" "rows u = rows t @ [r]"
    using insert_ok[of r t] by auto
  have "\<exists>t'. foldE insert_row rs u = Inr t' \<and> rows t' = rows u @ rs"
    using Cons.prems u(2) by (intro Cons.IH) auto
  with u show ?case by auto
qed

lemma unique_row:
  "unique t \<Longrightarrow> r \<in> set (rows t) \<Longrightarrow> r' \<in> set (rows t) \<Longrightarrow> key r = key r' \<Longrightarrow> r = r'"
  unfolding unique_def by (metis distinct_map inj_on_contraD)

end

subsection \<open>Interface: a transition system with an inductive invariant\<close>

locale invariant_system =
  fixes init :: "'s \<Rightarrow> bool"
    and step :: "'s \<Rightarrow> 's \<Rightarrow> bool"
    and inv :: "'s \<Rightarrow> bool"
  assumes inv_init: "init s \<Longrightarrow> inv s"
    and inv_step: "inv s \<Longrightarrow> step s t \<Longrightarrow> inv t"
begin

lemma inv_steps: "step\<^sup>*\<^sup>* s t \<Longrightarrow> inv s \<Longrightarrow> inv t"
  by (induction rule: rtranclp_induct) (auto intro: inv_step)

lemma reachable_inv: "init s \<Longrightarrow> step\<^sup>*\<^sup>* s t \<Longrightarrow> inv t"
  by (blast intro: inv_init inv_steps)

end

end
