(* ===== verification/Decimals.thy ===== *)
theory Decimals
  imports Prelude
begin

text \<open>
  Python's \<^verbatim>\<open>decimal.Decimal\<close> under the default context: a number is a rational,
  and every arithmetic operation rounds its exact result to 28 significant digits,
  ties to even (\<^verbatim>\<open>dec28\<close>).  Comparison, \<^verbatim>\<open>min\<close>, \<^verbatim>\<open>max\<close>, \<^verbatim>\<open>abs\<close> of a representable
  number and construction from text are exact.  The exponent limits of the context
  (beyond ten to the power of 999999) and the special values are outside the model:
  the values of this program are prices, energies and durations.
  The laws of correctly rounded arithmetic that the rate engine relies on are the
  locale \<^verbatim>\<open>decimal_context\<close>, interpreted on \<^verbatim>\<open>dec28\<close>.
\<close>

type_synonym decimal = rat

named_theorems decimal_defs

subsection \<open>Rounding to an integer\<close>

text \<open>\<^verbatim>\<open>ROUND_HALF_EVEN\<close>, \<^verbatim>\<open>ROUND_HALF_UP\<close>, \<^verbatim>\<open>ROUND_FLOOR\<close> and \<^verbatim>\<open>ROUND_CEILING\<close>.\<close>

definition round_half_even :: "rat \<Rightarrow> int" where
  "round_half_even x =
     (let f = \<lfloor>x\<rfloor>; r = x - of_int f
      in if r < 1/2 then f else if 1/2 < r then f + 1 else if even f then f else f + 1)"

definition round_half_up :: "rat \<Rightarrow> int" where
  "round_half_up x = (if 0 \<le> x then \<lfloor>x + 1/2\<rfloor> else - \<lfloor>- x + 1/2\<rfloor>)"

lemma round_half_even_bounds: "\<bar>of_int (round_half_even x) - x\<bar> \<le> 1/2"
proof -
  have "of_int \<lfloor>x\<rfloor> \<le> x" "x < of_int \<lfloor>x\<rfloor> + 1" by linarith+
  then show ?thesis by (auto simp: round_half_even_def Let_def abs_le_iff)
qed

lemma round_half_even_of_int [simp]: "round_half_even (of_int i) = i"
  by (simp add: round_half_even_def)

lemma round_half_even_cases:
  "round_half_even x = \<lfloor>x\<rfloor> \<and> x \<le> of_int \<lfloor>x\<rfloor> + 1/2
   \<or> round_half_even x = \<lfloor>x\<rfloor> + 1 \<and> of_int \<lfloor>x\<rfloor> + 1/2 \<le> x"
  unfolding round_half_even_def Let_def by (auto split: if_splits)

lemma round_half_even_mono:
  assumes "x \<le> y" shows "round_half_even x \<le> round_half_even y"
proof (cases "\<lfloor>x\<rfloor> = \<lfloor>y\<rfloor>")
  case True
  then show ?thesis using assms
    unfolding round_half_even_def Let_def by (auto split: if_splits)
next
  case False
  with floor_mono[OF assms] have "\<lfloor>x\<rfloor> + 1 \<le> \<lfloor>y\<rfloor>" by linarith
  then show ?thesis using round_half_even_cases[of x] round_half_even_cases[of y] by linarith
qed

lemma round_half_even_le_of_int: "x \<le> of_int i \<Longrightarrow> round_half_even x \<le> i"
  using round_half_even_mono[of x "of_int i"] by simp

lemma round_half_even_ge_of_int: "of_int i \<le> x \<Longrightarrow> i \<le> round_half_even x"
  using round_half_even_mono[of "of_int i" x] by simp

lemma round_half_even_minus: "round_half_even (- x) = - round_half_even x"
proof (cases "x = of_int \<lfloor>x\<rfloor>")
  case True
  then obtain i where "x = of_int i" by blast
  then show ?thesis using round_half_even_of_int[of "- i"] by simp
next
  case False
  have lo: "of_int \<lfloor>x\<rfloor> < x" using False by linarith
  have hi: "x < of_int \<lfloor>x\<rfloor> + 1" by linarith
  have fl: "\<lfloor>- x\<rfloor> = - \<lfloor>x\<rfloor> - 1" using lo hi by (intro floor_unique) simp_all
  show ?thesis
    unfolding round_half_even_def Let_def fl by auto
qed

lemma round_half_up_mono:
  assumes "x \<le> y" shows "round_half_up x \<le> round_half_up y"
proof (cases "0 \<le> x")
  case True
  then show ?thesis using assms by (auto simp: round_half_up_def intro: floor_mono)
next
  case neg: False
  show ?thesis
  proof (cases "0 \<le> y")
    case True
    have "- \<lfloor>- x + 1/2\<rfloor> \<le> \<lfloor>y + 1/2\<rfloor>" using neg True by linarith
    with neg True show ?thesis by (simp only: round_half_up_def if_True if_False)
  next
    case False
    with neg assms show ?thesis by (auto simp: round_half_up_def intro: floor_mono)
  qed
qed

lemma round_half_up_of_int [simp]: "round_half_up (of_int i) = i"
proof -
  have "\<lfloor>of_int i + (1/2 :: rat)\<rfloor> = i" "\<lfloor>- of_int i + (1/2 :: rat)\<rfloor> = - i"
    by (intro floor_unique; simp)+
  then show ?thesis by (simp add: round_half_up_def)
qed

subsection \<open>Decimal exponent\<close>

fun digit_count :: "int \<Rightarrow> nat" where
  "digit_count n = (if n < 10 then 1 else Suc (digit_count (n div 10)))"

declare digit_count.simps [simp del]

lemma digit_count_bounds:
  "1 \<le> n \<Longrightarrow> 1 \<le> digit_count n \<and> 10 ^ (digit_count n - 1) \<le> n \<and> n < 10 ^ digit_count n"
proof (induction n rule: digit_count.induct)
  case (1 n)
  show ?case
  proof (cases "n < 10")
    case True
    then show ?thesis using "1.prems" by (simp add: digit_count.simps[of n])
  next
    case False
    let ?k = "digit_count (n div 10)"
    from False have "1 \<le> n div 10" by simp
    with "1.IH" False have IH: "1 \<le> ?k" "10 ^ (?k - 1) \<le> n div 10" "n div 10 < 10 ^ ?k" by auto
    have "10 ^ ?k = 10 * (10::int) ^ (?k - 1)" using IH(1) by (cases ?k) auto
    also have "\<dots> \<le> n" using IH(2) by linarith
    finally have "10 ^ ?k \<le> n" .
    moreover have "n < 10 * 10 ^ ?k" using IH(3) by linarith
    ultimately show ?thesis using False by (simp add: digit_count.simps[of n])
  qed
qed

text \<open>The exponent of the leading digit, \<^verbatim>\<open>Decimal.adjusted\<close>.\<close>

definition dec_exp :: "rat \<Rightarrow> int" where
  "dec_exp x =
     (let (n, d) = quotient_of \<bar>x\<bar>; k = digit_count d; m = n * 10 ^ k div d
      in int (digit_count m) - 1 - int k)"

definition dec28 :: "rat \<Rightarrow> rat" where
  "dec28 x =
     (if x = 0 then 0
      else let q = 10 powi (dec_exp x - 27) in of_int (round_half_even (x / q)) * q)"

lemma powi10_pos [simp]: "0 < (10::rat) powi i"
  by (simp add: power_int_def)

lemma powi10_mono: "i \<le> j \<Longrightarrow> (10::rat) powi i \<le> 10 powi j"
  by (rule power_int_increasing) auto

lemma powi10_less_iff: "(10::rat) powi i < 10 powi j \<longleftrightarrow> i < j"
  by (meson linorder_not_less one_less_numeral_iff power_int_strict_increasing powi10_mono
      semiring_norm(76))

lemma powi10_add: "(10::rat) powi (i + j) = 10 powi i * 10 powi j"
  by (simp add: power_int_add)

lemma dec_exp_scaled:
  assumes "0 < n" and "0 < d" and "k = digit_count d" and "m = n * 10 ^ k div d"
  shows "(10::rat) ^ (digit_count m - 1) \<le> of_int n / of_int d * 10 ^ k
     \<and> of_int n / of_int d * 10 ^ k < (10::rat) ^ digit_count m \<and> 1 \<le> digit_count m"
proof -
  have "d < 10 ^ k" using digit_count_bounds[of d] assms by simp
  also have "(10::int) ^ k \<le> n * 10 ^ k" using assms(1) by simp
  finally have "1 \<le> m" using assms(2,4) by (simp add: pos_imp_zdiv_pos_iff int_one_le_iff_zero_less)
  then have m: "1 \<le> digit_count m" "10 ^ (digit_count m - 1) \<le> m" "m < 10 ^ digit_count m"
    using digit_count_bounds by auto
  let ?y = "of_int n / of_int d * (10::rat) ^ k"
  have "\<lfloor>of_int (n * 10 ^ k) / (of_int d :: rat)\<rfloor> = m"
    using assms(4) by (simp only: floor_divide_of_int_eq)
  then have fl: "\<lfloor>?y\<rfloor> = m" by (simp add: field_simps)
  have "of_int ((10::int) ^ (digit_count m - 1)) \<le> ?y"
    using m(2) fl by (metis le_floor_iff)
  moreover have "?y < of_int ((10::int) ^ digit_count m)"
    using m(3) fl by (metis floor_less_iff)
  ultimately show ?thesis using m(1) by simp
qed

lemma dec_exp_bounds:
  assumes "x \<noteq> 0"
  shows "10 powi (dec_exp x) \<le> \<bar>x\<bar> \<and> \<bar>x\<bar> < 10 powi (dec_exp x + 1)"
proof -
  obtain n d where q: "quotient_of \<bar>x\<bar> = (n, d)" by fastforce
  have d: "0 < d" and x: "\<bar>x\<bar> = of_int n / of_int d"
    using quotient_of_denom_pos[OF q] quotient_of_div[OF q] by auto
  have "0 < \<bar>x\<bar>" using assms by simp
  then have n: "0 < n" using d x by (simp add: zero_less_divide_iff)
  define k where "k = digit_count d"
  define m where "m = n * 10 ^ k div d"
  note sc = dec_exp_scaled[OF n d k_def m_def]
  have e: "dec_exp x = int (digit_count m) - 1 - int k"
    by (simp add: dec_exp_def q k_def m_def Let_def)
  have p: "(10::rat) powi (int a) = 10 ^ a" for a by simp
  have lo: "10 powi (dec_exp x + int k) = (10::rat) ^ (digit_count m - 1)"
  proof -
    have "dec_exp x + int k = int (digit_count m - 1)" using sc e by linarith
    then show ?thesis by (simp only: p)
  qed
  have hi: "10 powi (dec_exp x + 1 + int k) = (10::rat) ^ digit_count m"
    using e p[of "digit_count m"] by simp
  have "10 powi (dec_exp x) * 10 ^ k \<le> \<bar>x\<bar> * 10 ^ k"
    using sc lo x powi10_add[of "dec_exp x" "int k"] by simp
  moreover have "\<bar>x\<bar> * 10 ^ k < 10 powi (dec_exp x + 1) * 10 ^ k"
    using sc hi x powi10_add[of "dec_exp x + 1" "int k"] by simp
  ultimately show ?thesis by simp
qed

lemma dec_exp_unique:
  assumes "10 powi a \<le> \<bar>x\<bar>" and "\<bar>x\<bar> < 10 powi (a + 1)"
  shows "dec_exp x = a"
proof -
  have "x \<noteq> 0" using assms(1) powi10_pos[of a] by (metis abs_zero linorder_not_less)
  note b = dec_exp_bounds[OF this]
  have "10 powi (dec_exp x) < (10::rat) powi (a + 1)" using b assms by linarith
  moreover have "10 powi a < (10::rat) powi (dec_exp x + 1)" using b assms by linarith
  ultimately show ?thesis by (simp add: powi10_less_iff)
qed

lemma dec_exp_minus [simp]: "dec_exp (- x) = dec_exp x"
  by (simp add: dec_exp_def)

lemma dec_exp_mono: "0 < x \<Longrightarrow> x \<le> y \<Longrightarrow> dec_exp x \<le> dec_exp y"
proof -
  assume "0 < x" "x \<le> y"
  then have "10 powi (dec_exp x) < (10::rat) powi (dec_exp y + 1)"
    using dec_exp_bounds[of x] dec_exp_bounds[of y] by auto
  then show ?thesis by (simp add: powi10_less_iff)
qed

subsection \<open>Laws of the rounding\<close>

definition dec_ulp :: "rat \<Rightarrow> rat" where
  "dec_ulp x = 10 powi (dec_exp x - 27)"

lemma dec_ulp_pos [simp]: "0 < dec_ulp x"
  by (simp add: dec_ulp_def)

lemma dec_ulp_nonzero [simp]: "dec_ulp x \<noteq> 0"
  using dec_ulp_pos[of x] by linarith

lemma dec_ulp_mono: "0 < x \<Longrightarrow> x \<le> y \<Longrightarrow> dec_ulp x \<le> dec_ulp y"
  unfolding dec_ulp_def by (intro powi10_mono) (simp add: dec_exp_mono)

lemma dec28_alt: "x \<noteq> 0 \<Longrightarrow> dec28 x = of_int (round_half_even (x / dec_ulp x)) * dec_ulp x"
  by (simp add: dec28_def dec_ulp_def Let_def)

lemma dec28_0 [simp]: "dec28 0 = 0"
  by (simp add: dec28_def)

lemma dec28_minus [simp]: "dec28 (- x) = - dec28 x"
  by (simp add: dec28_def Let_def round_half_even_minus)

lemma scaled_bounds:
  assumes "0 < x"
  shows "10 ^ 27 \<le> x / dec_ulp x \<and> x / dec_ulp x < 10 ^ 28"
proof -
  have b: "10 powi (dec_exp x) \<le> x" "x < 10 powi (dec_exp x + 1)"
    using dec_exp_bounds[of x] assms by auto
  have "10 powi (dec_exp x) = 10 ^ 27 * dec_ulp x" "10 powi (dec_exp x + 1) = 10 ^ 28 * dec_ulp x"
    using powi10_add[of 27 "dec_exp x - 27"] powi10_add[of 28 "dec_exp x - 27"]
    by (simp_all add: dec_ulp_def algebra_simps)
  with b show ?thesis by (simp add: field_simps)
qed

lemma dec28_bounds:
  assumes "0 < x"
  shows "10 powi (dec_exp x) \<le> dec28 x \<and> dec28 x \<le> 10 powi (dec_exp x + 1)"
proof -
  let ?r = "round_half_even (x / dec_ulp x)"
  have "10 ^ 27 \<le> ?r" "?r \<le> 10 ^ 28"
    using scaled_bounds[OF assms] round_half_even_ge_of_int[of "10 ^ 27"]
      round_half_even_le_of_int[of _ "10 ^ 28"] by auto
  then have r: "of_int (10 ^ 27) \<le> (of_int ?r :: rat)" "(of_int ?r :: rat) \<le> of_int (10 ^ 28)"
    by (simp_all only: of_int_le_iff)
  have "10 powi (dec_exp x) = 10 ^ 27 * dec_ulp x" "10 powi (dec_exp x + 1) = 10 ^ 28 * dec_ulp x"
    using powi10_add[of 27 "dec_exp x - 27"] powi10_add[of 28 "dec_exp x - 27"]
    by (simp_all add: dec_ulp_def algebra_simps)
  with r show ?thesis using assms
    by (auto simp: dec28_alt intro!: mult_right_mono less_imp_le)
qed

lemma dec28_pos [simp]: "0 < x \<Longrightarrow> 0 < dec28 x"
  using dec28_bounds[of x] powi10_pos[of "dec_exp x"] by linarith

lemma dec28_mono_pos:
  assumes "0 < x" and "x \<le> y"
  shows "dec28 x \<le> dec28 y"
proof (cases "dec_exp x = dec_exp y")
  case True
  then have u: "dec_ulp x = dec_ulp y" by (simp add: dec_ulp_def)
  have "x / dec_ulp y \<le> y / dec_ulp y" using assms by (simp add: divide_right_mono less_imp_le)
  from round_half_even_mono[OF this] show ?thesis
    using assms u by (simp add: dec28_alt)
next
  case False
  with dec_exp_mono[OF assms] have "dec_exp x + 1 \<le> dec_exp y" by simp
  from powi10_mono[OF this] dec28_bounds[OF assms(1)] dec28_bounds[of y] assms
  show ?thesis by linarith
qed

lemma dec28_mono: "x \<le> y \<Longrightarrow> dec28 x \<le> dec28 y"
proof -
  assume le: "x \<le> y"
  consider "0 < x" | "x \<le> 0" "0 \<le> y" | "y < 0" using le by linarith
  then show ?thesis
  proof cases
    case 1 then show ?thesis using le by (rule dec28_mono_pos)
  next
    case 2
    have "dec28 x \<le> 0" using dec28_pos[of "- x"] 2 by (cases "x = 0") auto
    moreover have "0 \<le> dec28 y" using dec28_pos[of y] 2 by (cases "y = 0") (auto simp: less_imp_le)
    ultimately show ?thesis by simp
  next
    case 3
    then have "dec28 (- y) \<le> dec28 (- x)" using le by (intro dec28_mono_pos) auto
    then show ?thesis by simp
  qed
qed

lemma dec28_nonneg [simp]: "0 \<le> x \<Longrightarrow> 0 \<le> dec28 x"
  using dec28_mono[of 0 x] by simp

lemma dec28_eq_0 [simp]: "dec28 x = 0 \<longleftrightarrow> x = 0"
proof
  assume "dec28 x = 0"
  then show "x = 0" using dec28_pos[of x] dec28_pos[of "- x"] by (cases "0 < x"; cases "x < 0") auto
qed simp

subsection \<open>Representable numbers\<close>

definition representable :: "rat \<Rightarrow> bool" where
  "representable x \<longleftrightarrow> dec28 x = x"

lemma representable_minus [simp]: "representable (- x) \<longleftrightarrow> representable x"
  by (auto simp: representable_def)

lemma representable_0 [simp]: "representable 0"
  by (simp add: representable_def)

lemma representable_if_multiple:
  assumes "x \<noteq> 0" and "x / dec_ulp x = of_int r"
  shows "representable x"
proof -
  have "dec28 x = of_int r * dec_ulp x" using assms by (simp add: dec28_alt)
  also have "\<dots> = x" using assms(2) by (simp add: field_simps)
  finally show ?thesis by (simp add: representable_def)
qed

lemma representable_grid:
  assumes "x = of_int m * 10 powi e" and "\<bar>m\<bar> \<le> 10 ^ 28"
  shows "representable x"
proof -
  have pos: "representable (of_int m * 10 powi e)" if m: "0 < m" "m \<le> 10 ^ 28" for m :: int and e
  proof (cases "m = 10 ^ 28")
    case True
    let ?x = "(10::rat) powi (e + 28)"
    have x: "of_int m * 10 powi e = ?x" using True powi10_add[of e 28] by simp
    have "dec_exp ?x = e + 28" by (rule dec_exp_unique) (simp_all add: powi10_less_iff)
    then have "?x / dec_ulp ?x = of_int (10 ^ 27)"
      using powi10_add[of "e + 1" 27] by (simp add: dec_ulp_def field_simps)
    then show ?thesis unfolding x by (rule representable_if_multiple[rotated]) simp
  next
    case False
    let ?x = "of_int m * (10::rat) powi e"
    define k where "k = dec_exp ?x - 27"
    have xp: "0 < ?x" using m by simp
    have "of_int m < (of_int (10 ^ 28) :: rat)" using m False by (simp only: of_int_less_iff)
    then have "?x < 10 powi (28 + e)" using powi10_add[of 28 e] by simp
    then have "10 powi (dec_exp ?x) < (10::rat) powi (28 + e)"
      using dec_exp_bounds[of ?x] xp by linarith
    then have k: "k \<le> e" by (simp add: powi10_less_iff k_def)
    have pw: "(10::rat) powi e = of_int (10 ^ nat (e - k)) * 10 powi k"
      using k powi10_add[of "e - k" k] by (simp add: power_int_def)
    have "?x / dec_ulp ?x = ?x / 10 powi k" by (simp add: dec_ulp_def k_def)
    also have "\<dots> = of_int (m * 10 ^ nat (e - k))" unfolding pw by simp
    finally have "?x / dec_ulp ?x = of_int (m * 10 ^ nat (e - k))" .
    then show ?thesis by (rule representable_if_multiple[rotated]) (use m in simp)
  qed
  consider "m = 0" | "0 < m" | "m < 0" by linarith
  then show ?thesis
  proof cases
    case 1 then show ?thesis using assms by simp
  next
    case 2 then show ?thesis using pos[of m e] assms by simp
  next
    case 3 then show ?thesis using pos[of "- m" e] assms representable_minus[of x] by simp
  qed
qed

lemma representable_of_int: "\<bar>m\<bar> \<le> 10 ^ 28 \<Longrightarrow> representable (of_int m)"
  by (rule representable_grid[of _ m 0]) simp_all

lemma dec28_representable [simp]: "representable (dec28 x)"
proof -
  have pos: "representable (dec28 x)" if "0 < x" for x
  proof (rule representable_grid)
    show "dec28 x = of_int (round_half_even (x / dec_ulp x)) * 10 powi (dec_exp x - 27)"
      using that by (simp add: dec28_alt dec_ulp_def)
    have "0 \<le> round_half_even (x / dec_ulp x)" "round_half_even (x / dec_ulp x) \<le> 10 ^ 28"
      using scaled_bounds[OF that] round_half_even_ge_of_int[of 0]
        round_half_even_le_of_int[of _ "10 ^ 28"] by (auto simp: that less_imp_le)
    then show "\<bar>round_half_even (x / dec_ulp x)\<bar> \<le> 10 ^ 28" by simp
  qed
  show ?thesis
    using pos[of x] pos[of "- x"] by (cases "x = 0"; cases "0 < x") auto
qed

lemma dec28_idem [simp]: "dec28 (dec28 x) = dec28 x"
  using dec28_representable[of x] by (simp add: representable_def)

lemma representable_multiple:
  assumes "representable x" and "0 < x" and "0 < u" and "u \<le> x"
  shows "\<exists>m. x = of_int m * dec_ulp u"
proof -
  have x: "x = of_int (round_half_even (x / dec_ulp x)) * dec_ulp x"
    using assms(1,2) by (simp add: representable_def dec28_alt)
  have le: "dec_exp u \<le> dec_exp x" using assms by (intro dec_exp_mono) auto
  have "dec_ulp x = of_int (10 ^ nat (dec_exp x - dec_exp u)) * dec_ulp u"
    using le powi10_add[of "dec_exp x - dec_exp u" "dec_exp u - 27"]
    by (simp add: dec_ulp_def power_int_def)
  then have "x = of_int (round_half_even (x / dec_ulp x) * 10 ^ nat (dec_exp x - dec_exp u)) * dec_ulp u"
    using x by (metis (no_types, lifting) mult.assoc of_int_mult)
  then show ?thesis by blast
qed

text \<open>Between a representable number and the next one lies a whole unit in the last place.\<close>

lemma representable_gap:
  assumes "representable c" and "representable u" and "0 < c" and "c < u"
  shows "c + dec_ulp c \<le> u"
proof -
  obtain m where m: "c = of_int m * dec_ulp c"
    using representable_multiple[OF assms(1,3,3)] by auto
  obtain n where n: "u = of_int n * dec_ulp c"
    using representable_multiple[OF assms(2) _ assms(3)] assms by fastforce
  have "of_int m * dec_ulp c < of_int n * dec_ulp c" using assms(4) m n by simp
  then have "m < n" by (simp add: mult_less_cancel_right_pos)
  then have "of_int (m + 1) \<le> (of_int n :: rat)" by (simp only: of_int_le_iff)
  then have "of_int (m + 1) * dec_ulp c \<le> of_int n * dec_ulp c"
    by (rule mult_right_mono) (simp add: less_imp_le)
  then show ?thesis using m n by (simp add: algebra_simps)
qed

lemma representable_ulp [simp]: "representable (dec_ulp c)"
  by (rule representable_grid[of _ 1]) (simp_all add: dec_ulp_def)

lemma representable_succ:
  assumes "representable c" and "0 < c"
  shows "representable (c + dec_ulp c)"
proof -
  let ?r = "round_half_even (c / dec_ulp c)"
  have c: "c = of_int ?r * dec_ulp c"
    using assms by (simp add: representable_def dec28_alt)
  then have "c / dec_ulp c = of_int ?r" by (simp add: divide_eq_eq)
  then have "of_int ?r < (of_int (10 ^ 28) :: rat)" "of_int 0 \<le> (of_int ?r :: rat)"
    using scaled_bounds[OF assms(2)] by auto
  then have "?r < 10 ^ 28" "0 \<le> ?r" by (simp_all only: of_int_less_iff of_int_le_iff)
  then have "\<bar>?r + 1\<bar> \<le> 10 ^ 28" by simp
  moreover have "c + dec_ulp c = of_int (?r + 1) * 10 powi (dec_exp c - 27)"
    using c by (simp add: dec_ulp_def algebra_simps)
  ultimately show ?thesis by (rule representable_grid[rotated])
qed

subsection \<open>Interface: correctly rounded arithmetic\<close>

text \<open>
  What the allocation loops of the rate engine rely on: rounding is monotone and keeps
  representable numbers, and two representable numbers differ by at least the spacing
  \<^verbatim>\<open>ulp\<close> at the smaller one.
\<close>

locale decimal_context =
  fixes rd :: "rat \<Rightarrow> rat" and ulp :: "rat \<Rightarrow> rat"
  assumes rd_0: "rd 0 = 0"
    and rd_mono: "x \<le> y \<Longrightarrow> rd x \<le> rd y"
    and rd_idem: "rd (rd x) = rd x"
    and rd_pos: "0 < x \<Longrightarrow> 0 < rd x"
    and ulp_pos: "0 < ulp c"
    and ulp_mono: "0 < c \<Longrightarrow> c \<le> d \<Longrightarrow> ulp c \<le> ulp d"
    and rd_ulp: "rd (ulp c) = ulp c"
    and rd_succ: "rd c = c \<Longrightarrow> 0 < c \<Longrightarrow> rd (c + ulp c) = c + ulp c"
    and rd_gap: "rd c = c \<Longrightarrow> rd u = u \<Longrightarrow> 0 < c \<Longrightarrow> c < u \<Longrightarrow> c + ulp c \<le> u"
begin

lemma rd_nonneg: "0 \<le> x \<Longrightarrow> 0 \<le> rd x"
  using rd_mono[of 0 x] rd_0 by simp

lemma rd_below: "rd u = u \<Longrightarrow> x \<le> u \<Longrightarrow> rd x \<le> u"
  using rd_mono[of x u] by simp

lemma rd_above: "rd u = u \<Longrightarrow> u \<le> x \<Longrightarrow> u \<le> rd x"
  using rd_mono[of u x] by simp

text \<open>
  Adding the rounded distance to a bound moves at least one unit towards it, however
  small the distance is: accumulating towards a bound never stalls.
\<close>

lemma advance:
  assumes "rd c = c" and "rd u = u" and "0 < c" and "c < u"
  shows "c + ulp c \<le> rd (c + rd (u - c))"
proof -
  have "ulp c \<le> u - c" using rd_gap[OF assms] by simp
  then have "ulp c \<le> rd (u - c)" by (rule rd_above[OF rd_ulp])
  then show ?thesis by (intro rd_above rd_succ assms) simp
qed

end

interpretation dec: decimal_context dec28 dec_ulp
proof unfold_locales
  show "dec28 c = c \<Longrightarrow> dec28 u = u \<Longrightarrow> 0 < c \<Longrightarrow> c < u \<Longrightarrow> c + dec_ulp c \<le> u" for c u
    using representable_gap by (simp add: representable_def)
  show "dec28 c = c \<Longrightarrow> 0 < c \<Longrightarrow> dec28 (c + dec_ulp c) = c + dec_ulp c" for c
    using representable_succ by (simp add: representable_def)
  show "dec28 (dec_ulp c) = dec_ulp c" for c
    using representable_ulp by (simp add: representable_def)
qed (auto intro: dec28_mono dec_ulp_mono)

subsection \<open>The operators of the source\<close>

definition dadd :: "decimal \<Rightarrow> decimal \<Rightarrow> decimal" where
  "dadd a b = dec28 (a + b)"

definition dsub :: "decimal \<Rightarrow> decimal \<Rightarrow> decimal" where
  "dsub a b = dec28 (a - b)"

definition dmul :: "decimal \<Rightarrow> decimal \<Rightarrow> decimal" where
  "dmul a b = dec28 (a * b)"

text \<open>Every division of the modelled code has a divisor that its guards make non-zero.\<close>

definition ddiv :: "decimal \<Rightarrow> decimal \<Rightarrow> decimal" where
  "ddiv a b = dec28 (a / b)"

definition dabs :: "decimal \<Rightarrow> decimal" where
  "dabs a = dec28 \<bar>a\<bar>"

definition dneg :: "decimal \<Rightarrow> decimal" where
  "dneg a = dec28 (- a)"

lemmas [decimal_defs] = dadd_def dsub_def dmul_def ddiv_def dabs_def dneg_def

definition dsum :: "decimal list \<Rightarrow> decimal" where
  "dsum xs = foldl dadd 0 xs"

text \<open>
  \<^verbatim>\<open>quantize\<close> to a number of decimal places: a result of more than 28 digits is
  \<^verbatim>\<open>InvalidOperation\<close>, here \<^verbatim>\<open>None\<close>.
\<close>

definition quantize :: "(rat \<Rightarrow> int) \<Rightarrow> nat \<Rightarrow> decimal \<Rightarrow> decimal option" where
  "quantize mode places x =
     (let c = mode (x * 10 ^ places)
      in if 10 ^ 28 \<le> \<bar>c\<bar> then None else Some (of_int c / 10 ^ places))"

lemma representable_dadd [simp]: "representable (dadd a b)"
  and representable_dsub [simp]: "representable (dsub a b)"
  and representable_dmul [simp]: "representable (dmul a b)"
  and representable_ddiv [simp]: "representable (ddiv a b)"
  by (simp_all add: decimal_defs)

lemma dadd_nonneg: "0 \<le> a \<Longrightarrow> 0 \<le> b \<Longrightarrow> 0 \<le> dadd a b"
  and dmul_nonneg: "0 \<le> a \<Longrightarrow> 0 \<le> b \<Longrightarrow> 0 \<le> dmul a b"
  and ddiv_nonneg: "0 \<le> a \<Longrightarrow> 0 < b \<Longrightarrow> 0 \<le> ddiv a b"
  by (simp_all add: decimal_defs)

lemma dadd_ge: "representable a \<Longrightarrow> 0 \<le> b \<Longrightarrow> a \<le> dadd a b"
  unfolding dadd_def by (rule dec.rd_above) (simp_all add: representable_def)

lemma foldl_dadd_nonneg:
  "0 \<le> a \<Longrightarrow> (\<And>x. x \<in> set xs \<Longrightarrow> 0 \<le> x) \<Longrightarrow> 0 \<le> foldl dadd a xs"
  by (induction xs arbitrary: a) (simp_all add: dadd_nonneg)

lemma dsum_nonneg: "(\<And>x. x \<in> set xs \<Longrightarrow> 0 \<le> x) \<Longrightarrow> 0 \<le> dsum xs"
  by (simp add: dsum_def foldl_dadd_nonneg)

subsection \<open>Exact arithmetic on a decimal grid\<close>

text \<open>
  Numbers with at most \<^verbatim>\<open>k\<close> decimal places that stay below the 28-digit limit add and
  subtract exactly.
\<close>

definition on_grid :: "nat \<Rightarrow> rat \<Rightarrow> bool" where
  "on_grid k x \<longleftrightarrow> x * 10 ^ k = of_int \<lfloor>x * 10 ^ k\<rfloor>"

lemma on_grid_iff: "on_grid k x \<longleftrightarrow> (\<exists>m. x * 10 ^ k = of_int m)"
proof
  assume "\<exists>m. x * 10 ^ k = of_int m"
  then obtain m where m: "x * 10 ^ k = of_int m" by blast
  show "on_grid k x" unfolding on_grid_def m by simp
qed (auto simp: on_grid_def)

lemma on_gridI: "x * 10 ^ k = of_int m \<Longrightarrow> on_grid k x"
  by (auto simp: on_grid_iff)

lemma on_grid_add:
  assumes "on_grid k x" and "on_grid k y"
  shows "on_grid k (x + y)"
proof -
  from assms obtain m n where "x * 10 ^ k = of_int m" "y * 10 ^ k = of_int n"
    unfolding on_grid_iff by blast
  then show ?thesis by (intro on_gridI[of _ _ "m + n"]) (simp add: distrib_right)
qed

lemma on_grid_diff:
  assumes "on_grid k x" and "on_grid k y"
  shows "on_grid k (x - y)"
proof -
  from assms obtain m n where "x * 10 ^ k = of_int m" "y * 10 ^ k = of_int n"
    unfolding on_grid_iff by blast
  then show ?thesis by (intro on_gridI[of _ _ "m - n"]) (simp add: left_diff_distrib)
qed

lemma dec28_exact:
  assumes "on_grid k x" and "\<bar>x\<bar> * 10 ^ k \<le> 10 ^ 28"
  shows "dec28 x = x"
proof -
  obtain m where m: "x * 10 ^ k = of_int m" using assms(1) unfolding on_grid_iff by blast
  have "of_int \<bar>m\<bar> = \<bar>x\<bar> * 10 ^ k" using m by (simp add: abs_mult flip: m)
  with assms(2) have "of_int \<bar>m\<bar> \<le> (of_int (10 ^ 28) :: rat)" by simp
  then have b: "\<bar>m\<bar> \<le> 10 ^ 28" by (simp only: of_int_le_iff)
  have "x = of_int m * 10 powi (- int k)"
    unfolding m[symmetric] by (simp add: power_int_minus)
  then have "representable x" using b by (rule representable_grid)
  then show ?thesis by (simp add: representable_def)
qed

lemma dadd_exact: "on_grid k a \<Longrightarrow> on_grid k b \<Longrightarrow> \<bar>a + b\<bar> * 10 ^ k \<le> 10 ^ 28 \<Longrightarrow> dadd a b = a + b"
  unfolding dadd_def by (rule dec28_exact[OF on_grid_add])

lemma dsub_exact: "on_grid k a \<Longrightarrow> on_grid k b \<Longrightarrow> \<bar>a - b\<bar> * 10 ^ k \<le> 10 ^ 28 \<Longrightarrow> dsub a b = a - b"
  unfolding dsub_def by (rule dec28_exact[OF on_grid_diff])

end
