(* ===== verification/Ingestion_Model.thy ===== *)
theory Ingestion_Model
  imports Decimals "HOL-Library.Product_Lexorder"
begin

text \<open>
  The reading ingestion service, \<^verbatim>\<open>src/backend/app/ingestion/service.py\<close>: energy
  normalisation, the data-generation gate, permanent-loss ranges, the synchronisation
  cursor with its gap table, and \<^verbatim>\<open>ingest_readings\<close> itself, on an explicit database
  state.  The tables are lists of rows in insertion order; the unique and check
  constraints that the service can violate are part of the insert operations, so a
  violation is the value \<^verbatim>\<open>IntegrityError\<close> and, like every raise, discards the
  transaction.  SQLAlchemy's default autoflush makes every query see the pending rows,
  hence adds take effect at once.  Log calls are omitted.  The numeric scale of the
  columns is not modelled.
\<close>

section \<open>Rows\<close>

record reading =
  rd_data_generation :: "int option"
  rd_sequence :: int
  rd_boot_id :: string
  rd_interval_start :: instant
  rd_interval_end :: instant
  rd_time_trusted :: bool
  rd_voltage_avg :: "decimal option"
  rd_voltage_min :: "decimal option"
  rd_voltage_max :: "decimal option"
  rd_current_avg :: "decimal option"
  rd_current_min :: "decimal option"
  rd_current_max :: "decimal option"
  rd_power_avg :: "decimal option"
  rd_power_min :: "decimal option"
  rd_power_max :: "decimal option"
  rd_power_factor :: "decimal option"
  rd_frequency_hz :: "decimal option"
  rd_pzem_energy_start_wh :: "decimal option"
  rd_pzem_energy_end_wh :: "decimal option"
  rd_device_lifetime_energy_wh :: "decimal option"
  rd_interval_energy_wh :: "decimal option"
  rd_energy_method :: string
  rd_ct_rating_amps :: decimal
  rd_quality_flags :: "string list"
  rd_firmware_version :: string
  rd_record_hash :: "string option"

record raw_reading =
  raw_id :: nat
  raw_device_id :: string
  raw_site_id :: string
  raw_data_generation :: int
  raw_sequence :: int
  raw_boot_id :: string
  raw_interval_start :: instant
  raw_interval_end :: instant
  raw_time_trusted :: bool
  raw_voltage_avg :: "decimal option"
  raw_voltage_min :: "decimal option"
  raw_voltage_max :: "decimal option"
  raw_current_avg :: "decimal option"
  raw_current_min :: "decimal option"
  raw_current_max :: "decimal option"
  raw_power_avg :: "decimal option"
  raw_power_min :: "decimal option"
  raw_power_max :: "decimal option"
  raw_power_factor :: "decimal option"
  raw_frequency_hz :: "decimal option"
  raw_pzem_energy_start_wh :: "decimal option"
  raw_pzem_energy_end_wh :: "decimal option"
  raw_device_lifetime_energy_wh :: "decimal option"
  raw_device_interval_energy_wh :: "decimal option"
  raw_energy_method :: string
  raw_ct_rating_amps :: decimal
  raw_quality_flags :: "string list"
  raw_firmware_version :: string
  raw_record_hash :: string
  raw_original_payload :: reading
  raw_ingestion_source :: string
  raw_ingested_at :: instant

record energy_selection =
  device_energy_wh :: "decimal option"
  server_energy_wh :: "decimal option"
  selected_energy_wh :: "decimal option"
  selected_method :: string
  validation_result :: string
  validation_reason :: string

record device_row =
  dev_site_id :: string
  dev_utility_account_id :: "string option"

record data_state =
  ds_data_generation :: int
  ds_reset_boundary :: int
  ds_ingestion_gate :: string
  ds_reset_required_on_reconnect :: bool

record sync_cursor =
  highest_contiguous_sequence :: int
  maximum_seen_sequence :: int
  cursor_data_generation :: int
  cursor_reset_boundary :: int
  cursor_updated_at :: instant

record sequence_gap =
  gap_device_id :: string
  start_sequence :: int
  end_sequence :: int
  detected_at :: instant
  resolved_at :: "instant option"
  permanent_loss :: bool

record device_event =
  ev_device_id :: string
  ev_event_id :: string
  ev_occurred_at :: instant
  ev_received_at :: instant
  ev_category :: string
  ev_severity :: string
  ev_sequence :: int
  ev_stored_hash :: string
  ev_incoming_hash :: string

record normalized_interval =
  ni_raw_reading_id :: nat
  ni_device_id :: string
  ni_interval_start :: instant
  ni_interval_end :: instant
  ni_selection :: energy_selection

record billing_cycle =
  bc_utility_account_id :: string
  bc_starts_at :: instant
  bc_ends_at :: instant
  bc_status :: string
  bc_updated_at :: instant
  bc_finalized_at :: "instant option"

record db =
  devices :: "string \<rightharpoonup> device_row"
  data_states :: "string \<rightharpoonup> data_state"
  cursors :: "string \<rightharpoonup> sync_cursor"
  raw_readings :: "raw_reading list"
  normalized_intervals :: "normalized_interval list"
  sequence_gaps :: "sequence_gap list"
  device_events :: "device_event list"
  billing_cycles :: "billing_cycle list"
  next_uuid :: nat

datatype ingest_error =
    ValueError string
  | ProblemError int string "(string \<times> int) list"
  | IntegrityError string

record rejected_reading =
  rej_sequence :: int
  rej_code :: string
  rej_detail :: string

record batch_response =
  accepted :: "int list"
  duplicates :: "int list"
  rejected :: "rejected_reading list"
  highest_contiguous_accepted_sequence :: int
  missing_ranges :: "(int \<times> int) list"
  response_data_generation :: int
  response_reset_boundary :: int

section \<open>Energy normalisation\<close>

text \<open>
  \<^verbatim>\<open>Decimal(str(delta.total_seconds()))\<close>.  Shorter intervals than 31 years have at most 15
  significant digits in seconds and microseconds, which the shortest decimal text of a double
  reproduces exactly.
\<close>

definition total_seconds :: "int \<Rightarrow> decimal" where
  "total_seconds us = of_int us / 10 ^ 6"

text \<open>The \<^verbatim>\<open>.3f\<close> format of a non-negative decimal.\<close>

definition format_3f :: "decimal \<Rightarrow> string" where
  "format_3f v =
     (let n = round_half_even (v * 1000)
      in int_text (n div 1000) @ ''.'' @ pad_left 3 (digits_text (nat (n mod 1000))))"

definition selection ::
  "decimal option \<Rightarrow> decimal option \<Rightarrow> decimal option \<Rightarrow> string \<Rightarrow> string \<Rightarrow> string \<Rightarrow> energy_selection"
where
  "selection d s sel m r why =
     \<lparr>device_energy_wh = d, server_energy_wh = s, selected_energy_wh = sel,
      selected_method = m, validation_result = r, validation_reason = why\<rparr>"

definition power_energy :: "reading \<Rightarrow> decimal option" where
  "power_energy r =
     map_option (\<lambda>p. ddiv (dmul p (total_seconds (rd_interval_end r - rd_interval_start r))) 3600)
       (rd_power_avg r)"

definition counter_energy :: "reading \<Rightarrow> decimal option" where
  "counter_energy r =
     (case (rd_pzem_energy_start_wh r, rd_pzem_energy_end_wh r) of
        (Some a, Some b) \<Rightarrow> (let delta = dsub b a in if 0 \<le> delta then Some delta else None)
      | _ \<Rightarrow> None)"

definition use_power_integration :: "reading \<Rightarrow> bool" where
  "use_power_integration r =
     (case power_energy r of
        None \<Rightarrow> False
      | Some p \<Rightarrow> 0 \<le> p \<and>
          (rd_energy_method r = ''power_integration''
           \<or> (counter_energy r = Some 0 \<and> 0 < p)))"

definition server_energy :: "reading \<Rightarrow> decimal option" where
  "server_energy r =
     (if use_power_integration r then power_energy r
      else if counter_energy r \<noteq> None then counter_energy r else power_energy r)"

definition energy_variance :: "decimal \<Rightarrow> decimal \<Rightarrow> decimal" where
  "energy_variance dev srv = dmul (ddiv (dabs (dsub dev srv)) (max (dabs srv) (1 / 1000))) 100"

definition normalize_energy :: "decimal \<Rightarrow> reading \<Rightarrow> energy_selection" where
  "normalize_energy tolerance_percent r =
     (case (rd_interval_energy_wh r, server_energy r) of
        (None, None) \<Rightarrow> selection None None None ''unknown'' ''unavailable'' ''No energy source''
      | (None, Some s) \<Rightarrow>
          selection None (Some s) (Some s) ''server-derived'' ''accepted''
            ''Device omitted interval energy''
      | (Some d, None) \<Rightarrow>
          selection (Some d) None (Some d) ''device-reported'' ''unverified''
            ''No independent server estimate''
      | (Some d, Some s) \<Rightarrow>
          (let variance = energy_variance d s in
           if variance \<le> tolerance_percent \<and> ''counter_reset'' \<notin> set (rd_quality_flags r)
           then selection (Some d) (Some s) (Some d) ''device-reported'' ''accepted''
                  (''Independent variance '' @ format_3f variance @ ''%'')
           else if ''time_untrusted'' \<in> set (rd_quality_flags r) \<or> \<not> rd_time_trusted r
           then selection (Some d) (Some s) None ''unknown'' ''rejected''
                  (''Energy mismatch '' @ format_3f variance @ ''% with untrusted time'')
           else selection (Some d) (Some s) (Some s) ''server-derived'' ''corrected''
                  (''Device energy differed by '' @ format_3f variance @ ''%'')))"

section \<open>Raw readings\<close>

text \<open>
  \<^verbatim>\<open>content_hash\<close> stands for \<^verbatim>\<open>reading_content_hash\<close>: SHA-256 over pydantic's canonical
  dump of the reading.
\<close>

definition incoming_hash :: "(reading \<Rightarrow> string) \<Rightarrow> reading \<Rightarrow> string" where
  "incoming_hash content_hash r =
     (if truthy (rd_record_hash r) then the (rd_record_hash r) else content_hash r)"

definition to_raw ::
  "(reading \<Rightarrow> string) \<Rightarrow> nat \<Rightarrow> string \<Rightarrow> string \<Rightarrow> reading \<Rightarrow> string \<Rightarrow> instant \<Rightarrow> int \<Rightarrow> raw_reading"
where
  "to_raw content_hash uuid device_id site_id r source now data_generation =
     \<lparr>raw_id = uuid, raw_device_id = device_id, raw_site_id = site_id,
      raw_data_generation = data_generation, raw_sequence = rd_sequence r,
      raw_boot_id = rd_boot_id r, raw_interval_start = rd_interval_start r,
      raw_interval_end = rd_interval_end r, raw_time_trusted = rd_time_trusted r,
      raw_voltage_avg = rd_voltage_avg r, raw_voltage_min = rd_voltage_min r,
      raw_voltage_max = rd_voltage_max r, raw_current_avg = rd_current_avg r,
      raw_current_min = rd_current_min r, raw_current_max = rd_current_max r,
      raw_power_avg = rd_power_avg r, raw_power_min = rd_power_min r,
      raw_power_max = rd_power_max r, raw_power_factor = rd_power_factor r,
      raw_frequency_hz = rd_frequency_hz r,
      raw_pzem_energy_start_wh = rd_pzem_energy_start_wh r,
      raw_pzem_energy_end_wh = rd_pzem_energy_end_wh r,
      raw_device_lifetime_energy_wh = rd_device_lifetime_energy_wh r,
      raw_device_interval_energy_wh = rd_interval_energy_wh r,
      raw_energy_method = rd_energy_method r, raw_ct_rating_amps = rd_ct_rating_amps r,
      raw_quality_flags = rd_quality_flags r, raw_firmware_version = rd_firmware_version r,
      raw_record_hash = incoming_hash content_hash r, raw_original_payload = r,
      raw_ingestion_source = source, raw_ingested_at = now\<rparr>"

text \<open>The check constraints of \<^verbatim>\<open>raw_readings\<close> and its unique key.\<close>

definition raw_checks :: "raw_reading \<Rightarrow> bool" where
  "raw_checks w \<longleftrightarrow>
     0 \<le> raw_data_generation w \<and> 0 < raw_sequence w \<and> raw_interval_start w < raw_interval_end w
     \<and> raw_ingestion_source w \<in> {''pull'', ''push''}
     \<and> (case raw_power_factor w of None \<Rightarrow> True | Some p \<Rightarrow> 0 \<le> p \<and> p \<le> 1)"

definition raw_key :: "raw_reading \<Rightarrow> string \<times> int" where
  "raw_key w = (raw_device_id w, raw_sequence w)"

definition add_raw :: "raw_reading \<Rightarrow> db \<Rightarrow> ingest_error + db" where
  "add_raw w s =
     (if raw_key w \<in> raw_key ` set (raw_readings s) then Inl (IntegrityError ''uq_raw_device_sequence'')
      else if \<not> raw_checks w then Inl (IntegrityError ''raw_readings'')
      else Inr (s\<lparr>raw_readings := raw_readings s @ [w], next_uuid := Suc (next_uuid s)\<rparr>))"

definition generation_rows :: "db \<Rightarrow> string \<Rightarrow> int \<Rightarrow> raw_reading list" where
  "generation_rows s device_id g =
     filter (\<lambda>w. raw_device_id w = device_id \<and> raw_data_generation w = g) (raw_readings s)"

definition find_raw :: "db \<Rightarrow> string \<Rightarrow> int \<Rightarrow> int \<Rightarrow> raw_reading option" where
  "find_raw s device_id g q = find (\<lambda>w. raw_sequence w = q) (generation_rows s device_id g)"

section \<open>Gaps\<close>

definition gap_key :: "sequence_gap \<Rightarrow> string \<times> int \<times> int" where
  "gap_key g = (gap_device_id g, start_sequence g, end_sequence g)"

definition gap_checks :: "sequence_gap \<Rightarrow> bool" where
  "gap_checks g \<longleftrightarrow> 0 < start_sequence g \<and> start_sequence g \<le> end_sequence g"

definition add_gap :: "sequence_gap \<Rightarrow> db \<Rightarrow> ingest_error + db" where
  "add_gap g s =
     (if gap_key g \<in> gap_key ` set (sequence_gaps s) then Inl (IntegrityError ''uq_sequence_gap'')
      else if \<not> gap_checks g then Inl (IntegrityError ''gap_bounds'')
      else Inr (s\<lparr>sequence_gaps := sequence_gaps s @ [g]\<rparr>))"

definition permanent_gap_row :: "string \<Rightarrow> instant \<Rightarrow> int \<times> int \<Rightarrow> sequence_gap" where
  "permanent_gap_row device_id now b =
     \<lparr>gap_device_id = device_id, start_sequence = fst b, end_sequence = snd b,
      detected_at = now, resolved_at = Some now, permanent_loss = True\<rparr>"

definition open_gap_row :: "string \<Rightarrow> instant \<Rightarrow> int \<times> int \<Rightarrow> sequence_gap" where
  "open_gap_row device_id now b =
     \<lparr>gap_device_id = device_id, start_sequence = fst b, end_sequence = snd b,
      detected_at = now, resolved_at = None, permanent_loss = False\<rparr>"

text \<open>
  Select the gap with these bounds or add it, then mark it as a resolved permanent loss:
  lines 309-319 and 509-525.
\<close>

definition put_permanent_gap :: "string \<Rightarrow> instant \<Rightarrow> int \<times> int \<Rightarrow> db \<Rightarrow> ingest_error + db" where
  "put_permanent_gap device_id now b s =
     (if (device_id, b) \<in> gap_key ` set (sequence_gaps s)
      then Inr (s\<lparr>sequence_gaps :=
             map (\<lambda>g. if gap_key g = (device_id, b)
                      then g\<lparr>resolved_at := Some now, permanent_loss := True\<rparr> else g)
               (sequence_gaps s)\<rparr>)
      else add_gap (permanent_gap_row device_id now b) s)"

text \<open>The maximal runs of consecutive numbers in a sorted list: lines 299-307.\<close>

fun segments_from :: "int \<Rightarrow> int \<Rightarrow> int list \<Rightarrow> (int \<times> int) list" where
  "segments_from start previous [] = [(start, previous)]"
| "segments_from start previous (q # qs) =
     (if q = previous + 1 then segments_from start q qs
      else (start, previous) # segments_from q q qs)"

fun segments :: "int list \<Rightarrow> (int \<times> int) list" where
  "segments [] = []"
| "segments (q # qs) = segments_from q q qs"

definition declared_sequences :: "(int \<times> int) list \<Rightarrow> int list" where
  "declared_sequences ranges = concat (map (\<lambda>(a, b). [a..b]) ranges)"

definition unavailable_sequences :: "db \<Rightarrow> string \<Rightarrow> int \<Rightarrow> (int \<times> int) list \<Rightarrow> int list" where
  "unavailable_sequences s device_id g ranges =
     sort (remdups (filter (\<lambda>q. q \<notin> raw_sequence ` set (generation_rows s device_id g))
       (declared_sequences ranges)))"

definition record_permanent_loss_ranges ::
  "string \<Rightarrow> (int \<times> int) list \<Rightarrow> instant \<Rightarrow> int \<Rightarrow> db \<Rightarrow> ingest_error + db"
where
  "record_permanent_loss_ranges device_id ranges now g s =
     foldE (put_permanent_gap device_id now) (segments (unavailable_sequences s device_id g ranges)) s"

section \<open>The synchronisation cursor\<close>

text \<open>The two scans over the sorted coverage list: lines 223-228 and 246-260.\<close>

fun advance_expected :: "(int \<times> int) list \<Rightarrow> int \<Rightarrow> int" where
  "advance_expected [] expected = expected"
| "advance_expected ((a, b) # cs) expected =
     (if b < expected then advance_expected cs expected
      else if expected < a then expected
      else advance_expected cs (max expected (b + 1)))"

fun scan_missing :: "int \<Rightarrow> (int \<times> int) list \<Rightarrow> int \<Rightarrow> (int \<times> int) list" where
  "scan_missing maximum_seen [] expected = []"
| "scan_missing maximum_seen ((a, b) # cs) expected =
     (if maximum_seen < expected then []
      else if b < expected then scan_missing maximum_seen cs expected
      else (if expected < a then [(expected, min (a - 1) maximum_seen)] else [])
             @ scan_missing maximum_seen cs (max expected (b + 1)))"

definition new_cursor :: "int \<Rightarrow> instant \<Rightarrow> sync_cursor" where
  "new_cursor g now =
     \<lparr>highest_contiguous_sequence = 0, maximum_seen_sequence = 0, cursor_data_generation = g,
      cursor_reset_boundary = 0, cursor_updated_at = now\<rparr>"

definition cursor_or_new :: "db \<Rightarrow> string \<Rightarrow> int \<Rightarrow> instant \<Rightarrow> sync_cursor" where
  "cursor_or_new s device_id g now =
     (case cursors s device_id of None \<Rightarrow> new_cursor g now | Some c \<Rightarrow> c)"

definition coverage :: "db \<Rightarrow> string \<Rightarrow> int \<Rightarrow> int \<Rightarrow> (int \<times> int) list" where
  "coverage s device_id g hc =
     sort (map (\<lambda>w. (raw_sequence w, raw_sequence w))
             (filter (\<lambda>w. hc < raw_sequence w) (generation_rows s device_id g))
           @ map (\<lambda>x. (start_sequence x, end_sequence x))
             (filter (\<lambda>x. gap_device_id x = device_id \<and> permanent_loss x
                          \<and> resolved_at x \<noteq> None \<and> hc < end_sequence x) (sequence_gaps s)))"

definition recalculate_cursor ::
  "string \<Rightarrow> instant \<Rightarrow> int \<Rightarrow> db \<Rightarrow> ingest_error + (sync_cursor \<times> db)"
where
  "recalculate_cursor device_id now g s =
     (let c = cursor_or_new s device_id g now;
          cov = coverage s device_id g (highest_contiguous_sequence c);
          hc = advance_expected cov (highest_contiguous_sequence c + 1) - 1;
          top = (case max_opt (map raw_sequence (generation_rows s device_id g)) of
                   None \<Rightarrow> 0 | Some m \<Rightarrow> m);
          maximum_seen = max top (cursor_reset_boundary c);
          c' = c\<lparr>highest_contiguous_sequence := hc, maximum_seen_sequence := maximum_seen,
                 cursor_updated_at := now\<rparr>;
          s1 = s\<lparr>cursors := (cursors s)(device_id \<mapsto> c'),
                 sequence_gaps := filter (\<lambda>x. \<not> (gap_device_id x = device_id \<and> resolved_at x = None))
                   (sequence_gaps s)\<rparr>
      in bindE (foldE add_gap
                  (map (open_gap_row device_id now) (scan_missing maximum_seen cov (hc + 1))) s1)
           (\<lambda>s2. Inr (c', s2)))"

section \<open>The data-generation gate\<close>

text \<open>Lines 363-386: the generation that a batch claims, if it claims one.\<close>

definition supplied_generation :: "int option \<Rightarrow> reading list \<Rightarrow> ingest_error + int option" where
  "supplied_generation batch_generation readings =
     (let gens = remdups (List.map_filter rd_data_generation readings) in
      if 1 < length gens then Inl (ProblemError 422 ''data_generation_mixed'' [])
      else
        let reading_generation = (case gens of [] \<Rightarrow> None | v # _ \<Rightarrow> Some v) in
        if batch_generation \<noteq> None \<and> reading_generation \<noteq> None
           \<and> batch_generation \<noteq> reading_generation
        then Inl (ProblemError 422 ''data_generation_mismatch'' [])
        else Inr (or_else batch_generation reading_generation))"

definition enforce_data_generation_gate ::
  "db \<Rightarrow> string \<Rightarrow> reading list \<Rightarrow> int option \<Rightarrow> (int \<times> int) list \<Rightarrow> ingest_error + int"
where
  "enforce_data_generation_gate s device_id readings batch_generation ranges =
     (let state = data_states s device_id;
          expected = (case state of None \<Rightarrow> 0 | Some d \<Rightarrow> ds_data_generation d);
          boundary = (case state of None \<Rightarrow> 0 | Some d \<Rightarrow> ds_reset_boundary d)
      in
      if (case state of None \<Rightarrow> False
          | Some d \<Rightarrow> ds_ingestion_gate d \<noteq> ''open'' \<or> ds_reset_required_on_reconnect d)
      then Inl (ProblemError 409 ''sensor_reset_required''
                 [(''required_data_generation'', expected), (''reset_boundary'', boundary)])
      else bindE (supplied_generation batch_generation readings) (\<lambda>supplied.
          if supplied = None \<and> 0 < expected
          then Inl (ProblemError 422 ''data_generation_required''
                     [(''required_data_generation'', expected)])
          else
            let v = (case supplied of None \<Rightarrow> 0 | Some v \<Rightarrow> v) in
            if v < expected
            then Inl (ProblemError 409 ''data_generation_obsolete''
                   [(''required_data_generation'', expected), (''received_data_generation'', v)])
            else if expected < v
            then Inl (ProblemError 409 ''data_generation_ahead''
                   [(''required_data_generation'', expected), (''received_data_generation'', v)])
            else
              let offending =
                or_else (min_opt (filter (\<lambda>q. q \<le> boundary) (map rd_sequence readings)))
                        (min_opt (filter (\<lambda>q. q \<le> boundary) (map fst ranges)))
              in (case offending of
                    Some q \<Rightarrow> Inl (ProblemError 409 ''reading_precedes_reset_boundary''
                       [(''reset_boundary'', boundary), (''received_sequence'', q)])
                  | None \<Rightarrow> Inr expected)))"

section \<open>Ingesting a batch\<close>

text \<open>Lines 473-484: the cursor row is created on first contact.\<close>

definition ensure_cursor :: "string \<Rightarrow> int \<Rightarrow> instant \<Rightarrow> db \<Rightarrow> db" where
  "ensure_cursor device_id g now s =
     s\<lparr>cursors := (cursors s)(device_id \<mapsto> cursor_or_new s device_id g now)\<rparr>"

text \<open>
  Lines 492-535: a first batch that starts where the sensor's retained history starts
  moves the cursor to just below it and records the earlier range as lost.
\<close>

definition bootstrap_applies ::
  "string \<Rightarrow> reading list \<Rightarrow> int option \<Rightarrow> int \<Rightarrow> db \<Rightarrow> int option"
where
  "bootstrap_applies device_id readings first_available g s =
     (let minimum_existing = min_opt (map raw_sequence (generation_rows s device_id g));
          first_incoming = min_opt (map rd_sequence readings);
          hc = (case cursors s device_id of None \<Rightarrow> 0 | Some c \<Rightarrow> highest_contiguous_sequence c)
      in case first_incoming of
           None \<Rightarrow> None
         | Some f \<Rightarrow>
             if hc = 0 \<and> 1 < f \<and> first_available = Some f
                \<and> (minimum_existing = None \<or> minimum_existing = Some f)
             then Some f else None)"

definition bootstrap_cursor ::
  "string \<Rightarrow> reading list \<Rightarrow> int option \<Rightarrow> int \<Rightarrow> instant \<Rightarrow> db \<Rightarrow> ingest_error + db"
where
  "bootstrap_cursor device_id readings first_available g now s =
     (case bootstrap_applies device_id readings first_available g s of
        None \<Rightarrow> Inr s
      | Some f \<Rightarrow>
          put_permanent_gap device_id now (1, f - 1)
            (s\<lparr>cursors := (cursors s)(device_id \<mapsto>
                (cursor_or_new s device_id g now)\<lparr>highest_contiguous_sequence := f - 1,
                  maximum_seen_sequence := f - 1, cursor_updated_at := now\<rparr>)\<rparr>))"

definition event_key :: "device_event \<Rightarrow> string \<times> string" where
  "event_key e = (ev_device_id e, ev_event_id e)"

definition add_event :: "device_event \<Rightarrow> db \<Rightarrow> ingest_error + db" where
  "add_event e s =
     (if event_key e \<in> event_key ` set (device_events s) then Inl (IntegrityError ''uq_device_event'')
      else Inr (s\<lparr>device_events := device_events s @ [e]\<rparr>))"

definition conflict_event ::
  "string \<Rightarrow> instant \<Rightarrow> int \<Rightarrow> string \<Rightarrow> string \<Rightarrow> device_event"
where
  "conflict_event device_id now q stored incoming =
     \<lparr>ev_device_id = device_id,
      ev_event_id = ''conflict-'' @ int_text q @ ''-'' @ take 12 incoming,
      ev_occurred_at = now, ev_received_at = now, ev_category = ''security'', ev_severity = ''critical'',
      ev_sequence = q, ev_stored_hash = stored, ev_incoming_hash = incoming\<rparr>"

record batch_state =
  bs_db :: db
  bs_accepted :: "int list"
  bs_duplicates :: "int list"
  bs_rejected :: "rejected_reading list"
  bs_windows :: "(instant \<times> instant) list"

record ingest_env =
  env_device_id :: string
  env_device :: device_row
  env_source :: string
  env_now :: instant
  env_generation :: int
  env_max_clock_skew_seconds :: int

definition reject :: "int \<Rightarrow> string \<Rightarrow> string \<Rightarrow> batch_state \<Rightarrow> batch_state" where
  "reject q code detail b =
     b\<lparr>bs_rejected := bs_rejected b @ [\<lparr>rej_sequence = q, rej_code = code, rej_detail = detail\<rparr>]\<rparr>"

text \<open>Lines 628-679: the reading is new, so it is stored with its normalised interval.\<close>

definition store_reading ::
  "(reading \<Rightarrow> string) \<Rightarrow> ingest_env \<Rightarrow> reading \<Rightarrow> batch_state \<Rightarrow> ingest_error + batch_state"
where
  "store_reading content_hash env r b =
     (let s = bs_db b;
          raw = to_raw content_hash (next_uuid s) (env_device_id env)
                  (dev_site_id (env_device env)) r (env_source env) (env_now env)
                  (env_generation env)
      in bindE (add_raw raw s) (\<lambda>s1.
           Inr (b\<lparr>bs_db := s1\<lparr>normalized_intervals := normalized_intervals s1 @
                      [\<lparr>ni_raw_reading_id = raw_id raw, ni_device_id = env_device_id env,
                        ni_interval_start = rd_interval_start r,
                        ni_interval_end = rd_interval_end r,
                        ni_selection = normalize_energy 10 r\<rparr>]\<rparr>,
                  bs_accepted := bs_accepted b @ [rd_sequence r],
                  bs_windows := bs_windows b @ [(rd_interval_start r, rd_interval_end r)]\<rparr>)))"

text \<open>Lines 543-704: the loop body.\<close>

definition ingest_one ::
  "(reading \<Rightarrow> string) \<Rightarrow> ingest_env \<Rightarrow> reading \<Rightarrow> batch_state \<Rightarrow> ingest_error + batch_state"
where
  "ingest_one content_hash env r b =
     (if env_now env + env_max_clock_skew_seconds env * 10 ^ 6 < rd_interval_end r
      then Inr (reject (rd_sequence r) ''measurement_timestamp_in_future''
                   ''Reading timestamp exceeds the permitted device clock skew'' b)
      else
        let h = incoming_hash content_hash r in
        case find_raw (bs_db b) (env_device_id env) (env_generation env) (rd_sequence r) of
          Some existing \<Rightarrow>
            if raw_record_hash existing = h
            then Inr (b\<lparr>bs_duplicates := bs_duplicates b @ [rd_sequence r]\<rparr>)
            else bindE (add_event (conflict_event (env_device_id env) (env_now env)
                          (rd_sequence r) (raw_record_hash existing) h) (bs_db b))
                   (\<lambda>s1. Inr (reject (rd_sequence r) ''conflicting_duplicate''
                       ''Sequence already exists with different content'' (b\<lparr>bs_db := s1\<rparr>)))
        | None \<Rightarrow> store_reading content_hash env r b)"

text \<open>Lines 705-722: open billing cycles that an accepted window touches are recalculated.\<close>

definition mark_cycles ::
  "device_row \<Rightarrow> instant \<Rightarrow> (instant \<times> instant) list \<Rightarrow> db \<Rightarrow> db"
where
  "mark_cycles device now windows s =
     (if windows \<noteq> [] \<and> truthy (dev_utility_account_id device)
      then let earliest = Min (set (map fst windows)); latest = Max (set (map snd windows))
           in s\<lparr>billing_cycles := map (\<lambda>c.
                  if Some (bc_utility_account_id c) = dev_utility_account_id device
                     \<and> bc_finalized_at c = None \<and> bc_starts_at c < latest \<and> earliest < bc_ends_at c
                  then c\<lparr>bc_status := ''recalculating'', bc_updated_at := now\<rparr> else c)
                (billing_cycles s)\<rparr>
      else s)"

definition open_gaps :: "db \<Rightarrow> string \<Rightarrow> (int \<times> int) list" where
  "open_gaps s device_id =
     map (\<lambda>x. (start_sequence x, end_sequence x))
       (sort_key start_sequence
         (filter (\<lambda>x. gap_device_id x = device_id \<and> resolved_at x = None) (sequence_gaps s)))"

definition prepare_batch ::
  "string \<Rightarrow> reading list \<Rightarrow> int option \<Rightarrow> (int \<times> int) list \<Rightarrow> int \<Rightarrow> instant \<Rightarrow> db \<Rightarrow> ingest_error + db"
where
  "prepare_batch device_id readings first_available ranges g now s =
     (let s1 = ensure_cursor device_id g now s in
      if cursor_data_generation (cursor_or_new s device_id g now) \<noteq> g
      then Inl (ProblemError 409 ''data_generation_cursor_mismatch'' [])
      else bindE (bootstrap_cursor device_id readings first_available g now s1)
             (record_permanent_loss_ranges device_id ranges now g))"

definition finish_batch ::
  "string \<Rightarrow> device_row \<Rightarrow> int \<Rightarrow> instant \<Rightarrow> batch_state \<Rightarrow> ingest_error + (db \<times> batch_response)"
where
  "finish_batch device_id device g now b =
     bindE (recalculate_cursor device_id now g
              (mark_cycles device now (bs_windows b) (bs_db b)))
       (\<lambda>(c, s). Inr (s,
          \<lparr>accepted = bs_accepted b, duplicates = bs_duplicates b, rejected = bs_rejected b,
           highest_contiguous_accepted_sequence = highest_contiguous_sequence c,
           missing_ranges = open_gaps s device_id,
           response_data_generation = g,
           response_reset_boundary = cursor_reset_boundary c\<rparr>))"

definition ingest_readings ::
  "(reading \<Rightarrow> string) \<Rightarrow> instant \<Rightarrow> string \<Rightarrow> reading list \<Rightarrow> string \<Rightarrow> int option \<Rightarrow> int option
   \<Rightarrow> (int \<times> int) list \<Rightarrow> int \<Rightarrow> db \<Rightarrow> ingest_error + (db \<times> batch_response)"
where
  "ingest_readings content_hash now device_id readings source data_generation first_available
     ranges max_skew s =
     (if source \<notin> {''pull'', ''push''} then Inl (ValueError ''source must be pull or push'')
      else case devices s device_id of
        None \<Rightarrow> Inl (ValueError ''device must exist before reading ingestion'')
      | Some device \<Rightarrow>
          bindE (enforce_data_generation_gate s device_id readings data_generation ranges) (\<lambda>g.
          bindE (prepare_batch device_id readings first_available ranges g now s) (\<lambda>s1.
          bindE (foldE (ingest_one content_hash
                   \<lparr>env_device_id = device_id, env_device = device, env_source = source,
                    env_now = now, env_generation = g, env_max_clock_skew_seconds = max_skew\<rparr>) readings
                   \<lparr>bs_db = s1, bs_accepted = [], bs_duplicates = [], bs_rejected = [],
                    bs_windows = []\<rparr>)
            (finish_batch device_id device g now))))"

end
