(* ===== verification/Ingestion.thy ===== *)
theory Ingestion
  imports Ingestion_Model "HOL-Library.Multiset" "HOL-Library.Sublist"
begin

text \<open>
  The ingestion service keeps its promises: the cursor and the gap table describe exactly
  what is stored, raw readings are unique and immutable, a retried batch is recognised,
  the generation gate admits exactly the current generation, and energy selection never
  invents a value.
\<close>

section \<open>The coverage scans\<close>

definition covered :: "(int \<times> int) list \<Rightarrow> int \<Rightarrow> bool" where
  "covered cs x \<longleftrightarrow> (\<exists>(a, b)\<in>set cs. a \<le> x \<and> x \<le> b)"

definition proper_ranges :: "(int \<times> int) list \<Rightarrow> bool" where
  "proper_ranges cs \<longleftrightarrow> (\<forall>(a, b)\<in>set cs. a \<le> b)"

lemma covered_simps [simp]:
  "\<not> covered [] x"
  "covered ((a, b) # cs) x \<longleftrightarrow> (a \<le> x \<and> x \<le> b) \<or> covered cs x"
  by (auto simp: covered_def)

lemma proper_ranges_simps [simp]:
  "proper_ranges []"
  "proper_ranges ((a, b) # cs) \<longleftrightarrow> a \<le> b \<and> proper_ranges cs"
  by (auto simp: proper_ranges_def)

lemma sorted_starts:
  "sorted ((a, b) # cs) \<Longrightarrow> (c, d) \<in> set cs \<Longrightarrow> a \<le> c"
  by (auto simp: less_eq_prod_def)

lemma sorted_not_covered_below:
  "sorted ((a, b) # cs) \<Longrightarrow> x < a \<Longrightarrow> \<not> covered cs x"
  unfolding covered_def by (auto dest: sorted_starts)

lemma advance_expected_spec:
  assumes "sorted cs"
  shows "e \<le> advance_expected cs e
    \<and> (\<forall>x. e \<le> x \<and> x < advance_expected cs e \<longrightarrow> covered cs x)
    \<and> \<not> covered cs (advance_expected cs e)"
  using assms
proof (induction cs e rule: advance_expected.induct)
  case (1 e)
  then show ?case by simp
next
  case (2 a b cs e)
  have tl: "sorted cs" using "2.prems" by simp
  consider "b < e" | "e \<le> b" "e < a" | "e \<le> b" "a \<le> e" by linarith
  then show ?case
  proof cases
    case 1
    then show ?thesis using "2.IH"(1)[OF _ tl] by auto
  next
    case 2
    then show ?thesis using sorted_not_covered_below[OF "2.prems"] by auto
  next
    case 3
    then show ?thesis using "2.IH"(2)[OF _ _ tl]
      by (auto simp: max_def) (meson add1_zle_eq not_le)
  qed
qed

definition range_union :: "(int \<times> int) list \<Rightarrow> int set" where
  "range_union rs = (\<Union>(p, q)\<in>set rs. {p..q})"

lemma range_union_simps [simp]:
  "range_union [] = {}"
  "range_union ((p, q) # rs) = {p..q} \<union> range_union rs"
  "range_union (rs @ rs') = range_union rs \<union> range_union rs'"
  by (auto simp: range_union_def)

lemma range_union_covered: "x \<in> range_union rs \<longleftrightarrow> covered rs x"
  unfolding range_union_def covered_def by fastforce

lemma scan_missing_spec:
  assumes "sorted cs" and "proper_ranges cs"
  shows "range_union (scan_missing m cs e) =
    {x. e \<le> x \<and> x \<le> m \<and> \<not> covered cs x \<and> (\<exists>(a, b)\<in>set cs. x < a)}"
  using assms
proof (induction m cs e rule: scan_missing.induct)
  case (1 m e)
  then show ?case by simp
next
  case (2 m a b cs e)
  have tl: "sorted cs" "proper_ranges cs" "a \<le> b" using "2.prems" by simp_all
  note below = sorted_not_covered_below[OF "2.prems"(1)]
  consider "m < e" | "e \<le> m" "b < e" | "e \<le> m" "e \<le> b" by linarith
  then show ?case
  proof cases
    case 1
    then show ?thesis by auto
  next
    case 2
    then show ?thesis using "2.IH"(1)[OF _ _ tl(1,2)] tl(3) by auto
  next
    case 3
    then have step: "range_union (scan_missing m ((a, b) # cs) e) =
        (if e < a then {e..min (a - 1) m} else {}) \<union> range_union (scan_missing m cs (b + 1))"
      by auto
    have IH: "range_union (scan_missing m cs (b + 1)) =
        {x. b + 1 \<le> x \<and> x \<le> m \<and> \<not> covered cs x \<and> (\<exists>(a, b)\<in>set cs. x < a)}"
      using "2.IH"(2)[OF _ _ tl(1,2)] 3 by (simp add: max_def)
    have "\<exists>(a', b')\<in>set ((a, b) # cs). x < a'" if "x < a" for x using that by auto
    then show ?thesis unfolding step IH using 3 tl(3) below by (auto split: if_splits)
  qed
qed

lemma scan_missing_order:
  assumes "sorted cs" and "proper_ranges cs"
  shows "sorted_wrt (\<lambda>(p, q) (p', q'). q < p') (scan_missing m cs e)
    \<and> (\<forall>(p, q)\<in>set (scan_missing m cs e). e \<le> p \<and> p \<le> q \<and> q \<le> m)"
  using assms
proof (induction m cs e rule: scan_missing.induct)
  case (1 m e)
  then show ?case by simp
next
  case (2 m a b cs e)
  have tl: "sorted cs" "proper_ranges cs" "a \<le> b" using "2.prems" by simp_all
  consider "m < e" | "e \<le> m" "b < e" | "e \<le> m" "e \<le> b" by linarith
  then show ?case
  proof cases
    case 1
    then show ?thesis by simp
  next
    case 2
    then show ?thesis using "2.IH"(1)[OF _ _ tl(1,2)] by simp
  next
    case 3
    then have "max e (b + 1) = b + 1" by simp
    with 3 show ?thesis using "2.IH"(2)[OF _ _ tl(1,2)] tl(3) by (fastforce split: if_splits)
  qed
qed

lemma ordered_ranges_distinct:
  "sorted_wrt (\<lambda>(p, q) (p', q'). q < p') rs \<Longrightarrow> \<forall>(p, q)\<in>set rs. p \<le> (q::int) \<Longrightarrow> distinct rs"
  by (induction rs) auto

lemma scan_missing_distinct:
  assumes "sorted cs" and "proper_ranges cs"
  shows "distinct (scan_missing m cs e)"
  using scan_missing_order[OF assms, of m e] by (intro ordered_ranges_distinct) auto

section \<open>Runs of consecutive sequences\<close>

lemma segments_from_spec:
  assumes "sorted_wrt (<) (p # qs)" and "a \<le> p"
  shows "range_union (segments_from a p qs) = {a..p} \<union> set qs
    \<and> sorted_wrt (\<lambda>(_, q) (p', _). q + 1 < p') (segments_from a p qs)
    \<and> (\<forall>(x, y)\<in>set (segments_from a p qs). a \<le> x \<and> x \<le> y)"
  using assms
proof (induction a p qs rule: segments_from.induct)
  case (1 a p)
  then show ?case by simp
next
  case (2 a p q qs)
  show ?case
  proof (cases "q = p + 1")
    case True
    then show ?thesis using 2 by (auto simp: range_union_def)
  next
    case False
    with "2.prems" have "p + 1 < q" by auto
    with False 2 show ?thesis by (fastforce simp: range_union_def)
  qed
qed

lemma segments_spec:
  assumes "sorted_wrt (<) qs"
  shows "range_union (segments qs) = set qs
    \<and> sorted_wrt (\<lambda>(_, q) (p', _). q + 1 < p') (segments qs)
    \<and> (\<forall>(x, y)\<in>set (segments qs). x \<le> y \<and> x \<in> set qs)"
proof (cases qs)
  case Nil
  then show ?thesis by simp
next
  case (Cons q qs')
  have s: "range_union (segments qs) = set qs"
    "sorted_wrt (\<lambda>(_, q) (p', _). q + 1 < p') (segments qs)"
    "\<forall>(x, y)\<in>set (segments qs). x \<le> y"
    using segments_from_spec[of q qs' q] assms Cons by auto
  moreover have "x \<in> set qs" if "(x, y) \<in> set (segments qs)" for x y
    using that s(1,3) by (fastforce simp: range_union_def)
  ultimately show ?thesis by auto
qed

section \<open>The tables\<close>

lemmas row_defs = raw_key_def gap_key_def event_key_def permanent_gap_row_def open_gap_row_def
  gap_checks_def

interpretation raws: unique_table raw_key raw_checks raw_readings add_raw
  by unfold_locales (auto simp: add_raw_def)

interpretation gaps: unique_table gap_key gap_checks sequence_gaps add_gap
  by unfold_locales (auto simp: add_gap_def)

interpretation events: unique_table event_key "\<lambda>_. True" device_events add_event
  by unfold_locales (auto simp: add_event_def)

text \<open>
  The database invariant: unique keys, the check constraints, and only permanent losses
  are ever resolved.
\<close>

definition gaps_ok :: "db \<Rightarrow> bool" where
  "gaps_ok s \<longleftrightarrow> gaps.unique s \<and> (\<forall>g\<in>set (sequence_gaps s). resolved_at g \<noteq> None \<longrightarrow> permanent_loss g)"

definition db_ok :: "db \<Rightarrow> bool" where
  "db_ok s \<longleftrightarrow> raws.unique s \<and> gaps_ok s \<and> events.unique s
     \<and> (\<forall>d c. cursors s d = Some c \<longrightarrow> 0 \<le> highest_contiguous_sequence c)"

text \<open>What a step may not touch.\<close>

definition same_but_gaps :: "db \<Rightarrow> db \<Rightarrow> bool" where
  "same_but_gaps s t \<longleftrightarrow> t = s\<lparr>sequence_gaps := sequence_gaps t\<rparr>"

lemma same_but_gaps_refl [simp]: "same_but_gaps s s"
  by (simp add: same_but_gaps_def)

lemma same_but_gaps_trans: "same_but_gaps s t \<Longrightarrow> same_but_gaps t u \<Longrightarrow> same_but_gaps s u"
  by (cases s; cases t; cases u) (simp add: same_but_gaps_def)

lemma same_but_gaps_simps:
  assumes "same_but_gaps s t"
  shows "devices t = devices s" "data_states t = data_states s" "cursors t = cursors s"
    "raw_readings t = raw_readings s" "device_events t = device_events s"
    "billing_cycles t = billing_cycles s" "normalized_intervals t = normalized_intervals s"
  using assms by (cases s; cases t; simp add: same_but_gaps_def)+

lemma add_gap_same: "add_gap g s = Inr t \<Longrightarrow> same_but_gaps s t"
  by (auto simp: add_gap_def same_but_gaps_def split: if_splits)

lemma foldE_add_gap_same: "foldE add_gap gs s = Inr t \<Longrightarrow> same_but_gaps s t"
  by (rule foldE_invariant[where P = "same_but_gaps s"])
     (auto intro: same_but_gaps_trans add_gap_same)

lemma put_permanent_gap_same: "put_permanent_gap d now b s = Inr t \<Longrightarrow> same_but_gaps s t"
  by (auto simp: put_permanent_gap_def dest: add_gap_same split: if_splits)
     (simp add: same_but_gaps_def)

lemma put_permanent_gap_total:
  assumes "0 < fst b" and "fst b \<le> snd b"
  shows "\<exists>t. put_permanent_gap d now b s = Inr t"
  using assms by (auto simp: put_permanent_gap_def add_gap_def row_defs split: prod.splits)

lemma gap_key_mark [simp]: "gap_key (g\<lparr>resolved_at := r, permanent_loss := p\<rparr>) = gap_key g"
  by (simp add: gap_key_def)

lemma gap_checks_mark [simp]: "gap_checks (g\<lparr>resolved_at := r, permanent_loss := p\<rparr>) = gap_checks g"
  by (simp add: gap_checks_def)

lemma gaps_ok_cursors [simp]: "gaps_ok (s\<lparr>cursors := f\<rparr>) \<longleftrightarrow> gaps_ok s"
  by (simp add: gaps_ok_def gaps.unique_def)

lemma put_permanent_gap_ok:
  assumes "gaps_ok s" and "put_permanent_gap d now b s = Inr t"
  shows "gaps_ok t"
proof (cases "(d, b) \<in> gap_key ` set (sequence_gaps s)")
  case True
  have k: "map gap_key (sequence_gaps t) = map gap_key (sequence_gaps s)"
    using assms(2) True by (auto simp: put_permanent_gap_def)
  show ?thesis
    using assms True k by (auto simp: put_permanent_gap_def gaps_ok_def gaps.unique_def)
next
  case False
  then have a: "add_gap (permanent_gap_row d now b) s = Inr t"
    using assms(2) by (simp add: put_permanent_gap_def)
  have "gaps.unique t" using gaps.insert_unique[OF _ a] assms(1) by (simp add: gaps_ok_def)
  then show ?thesis
    using gaps.insert_rows[OF a] assms(1) by (simp add: gaps_ok_def permanent_gap_row_def)
qed

section \<open>The cursor\<close>

text \<open>A sequence is accounted for when it is stored or part of a resolved permanent loss.\<close>

definition stored :: "db \<Rightarrow> string \<Rightarrow> int \<Rightarrow> int \<Rightarrow> bool" where
  "stored s d g q \<longleftrightarrow> q \<in> raw_sequence ` set (generation_rows s d g)"

definition lost :: "db \<Rightarrow> string \<Rightarrow> int \<Rightarrow> bool" where
  "lost s d q \<longleftrightarrow> (\<exists>x\<in>set (sequence_gaps s). gap_device_id x = d \<and> permanent_loss x
     \<and> resolved_at x \<noteq> None \<and> start_sequence x \<le> q \<and> q \<le> end_sequence x)"

abbreviation accounted :: "db \<Rightarrow> string \<Rightarrow> int \<Rightarrow> int \<Rightarrow> bool" where
  "accounted s d g q \<equiv> stored s d g q \<or> lost s d q"

lemma sorted_coverage [simp]: "sorted (coverage s d g hc)"
  by (simp add: coverage_def)

lemma proper_coverage: "gaps_ok s \<Longrightarrow> proper_ranges (coverage s d g hc)"
  by (auto simp: coverage_def proper_ranges_def gaps_ok_def gaps.unique_def gap_checks_def)

lemma covered_coverage:
  assumes "hc < q"
  shows "covered (coverage s d g hc) q \<longleftrightarrow> accounted s d g q"
proof -
  have "covered (coverage s d g hc) q \<longleftrightarrow>
      (\<exists>w\<in>set (generation_rows s d g). hc < raw_sequence w \<and> raw_sequence w = q)
      \<or> (\<exists>x\<in>set (sequence_gaps s). gap_device_id x = d \<and> permanent_loss x \<and> resolved_at x \<noteq> None
           \<and> hc < end_sequence x \<and> start_sequence x \<le> q \<and> q \<le> end_sequence x)"
    unfolding covered_def coverage_def by auto
  then show ?thesis using assms unfolding stored_def lost_def by auto
qed

definition top_sequence :: "db \<Rightarrow> string \<Rightarrow> int \<Rightarrow> int" where
  "top_sequence s d g =
     (case max_opt (map raw_sequence (generation_rows s d g)) of None \<Rightarrow> 0 | Some m \<Rightarrow> m)"

text \<open>The gap ranges that a recalculation opens: none is resolved already.\<close>

lemma new_gap_keys_fresh:
  assumes "gaps_ok s" and "hc \<le> hc'"
  shows "gap_key ` open_gap_row d now ` set (scan_missing m (coverage s d g hc) (hc' + 1))
    \<inter> gap_key ` set (filter (\<lambda>x. \<not> (gap_device_id x = d \<and> resolved_at x = None)) (sequence_gaps s)) = {}"
proof -
  let ?cov = "coverage s d g hc"
  have False if r: "(p, q) \<in> set (scan_missing m ?cov (hc' + 1))" and x: "x \<in> set (sequence_gaps s)"
    and k: "gap_key x = (d, p, q)" and res: "resolved_at x \<noteq> None" for p q x
  proof -
    have pq: "hc' + 1 \<le> p" "p \<le> q"
      using scan_missing_order[OF sorted_coverage proper_coverage[OF assms(1)]] r by fastforce+
    have "p \<in> range_union (scan_missing m ?cov (hc' + 1))"
      using r pq by (fastforce simp: range_union_def)
    then have "\<not> covered ?cov p"
      unfolding scan_missing_spec[OF sorted_coverage proper_coverage[OF assms(1)]] by blast
    moreover have "permanent_loss x" using assms(1) x res by (simp add: gaps_ok_def)
    then have "lost s d p" using x k res pq by (auto simp: lost_def gap_key_def)
    ultimately show False using covered_coverage[of hc p s d g] assms(2) pq by simp
  qed
  then show ?thesis by (fastforce simp: gap_key_def open_gap_row_def)
qed

lemma recalculate_cursor_result:
  assumes ok: "gaps_ok s" and c: "c = cursor_or_new s d g now"
    and pos: "0 \<le> highest_contiguous_sequence c"
  shows "\<exists>c' s'. recalculate_cursor d now g s = Inr (c', s')
    \<and> c' = c\<lparr>highest_contiguous_sequence :=
               advance_expected (coverage s d g (highest_contiguous_sequence c))
                 (highest_contiguous_sequence c + 1) - 1,
             maximum_seen_sequence := max (top_sequence s d g) (cursor_reset_boundary c),
             cursor_updated_at := now\<rparr>
    \<and> s' = s\<lparr>cursors := (cursors s)(d \<mapsto> c'), sequence_gaps := sequence_gaps s'\<rparr>
    \<and> sequence_gaps s' =
        filter (\<lambda>x. \<not> (gap_device_id x = d \<and> resolved_at x = None)) (sequence_gaps s)
        @ map (open_gap_row d now)
            (scan_missing (maximum_seen_sequence c')
              (coverage s d g (highest_contiguous_sequence c))
              (highest_contiguous_sequence c' + 1))"
proof -
  let ?hc = "highest_contiguous_sequence c"
  let ?cov = "coverage s d g ?hc"
  define hc' where "hc' = advance_expected ?cov (?hc + 1) - 1"
  define m where "m = max (top_sequence s d g) (cursor_reset_boundary c)"
  define c' where "c' = c\<lparr>highest_contiguous_sequence := hc', maximum_seen_sequence := m,
    cursor_updated_at := now\<rparr>"
  define kept where "kept = filter (\<lambda>x. \<not> (gap_device_id x = d \<and> resolved_at x = None)) (sequence_gaps s)"
  define s1 where "s1 = s\<lparr>cursors := (cursors s)(d \<mapsto> c'), sequence_gaps := kept\<rparr>"
  define new where "new = map (open_gap_row d now) (scan_missing m ?cov (hc' + 1))"
  note proper = proper_coverage[OF ok]
  have le: "?hc \<le> hc'" using advance_expected_spec[OF sorted_coverage, of "?hc + 1"]
    unfolding hc'_def by (smt (verit))
  have "distinct (map gap_key new)"
    using scan_missing_distinct[OF sorted_coverage proper, of m]
    by (auto simp: new_def distinct_map inj_on_def row_defs)
  moreover have "\<forall>x\<in>set new. gap_checks x"
    using scan_missing_order[OF sorted_coverage proper, of m] pos le
    by (fastforce simp: new_def row_defs)
  moreover have "gap_key ` set new \<inter> gap_key ` set (sequence_gaps s1) = {}"
    using new_gap_keys_fresh[OF ok le, of d now m g]
    by (simp add: new_def s1_def kept_def image_image)
  ultimately obtain s' where s': "foldE add_gap new s1 = Inr s'" "sequence_gaps s' = kept @ new"
    using gaps.insert_all[of new s1] by (auto simp: s1_def)
  have "same_but_gaps s1 s'" by (rule foldE_add_gap_same[OF s'(1)])
  then have "s' = s\<lparr>cursors := (cursors s)(d \<mapsto> c'), sequence_gaps := sequence_gaps s'\<rparr>"
    by (simp add: same_but_gaps_def s1_def)
  moreover have "recalculate_cursor d now g s = Inr (c', s')"
    using s'(1) unfolding recalculate_cursor_def Let_def c[symmetric]
    by (simp add: hc'_def m_def c'_def s1_def kept_def new_def top_sequence_def)
  ultimately show ?thesis
    using s'(2) by (auto simp: c'_def hc'_def m_def kept_def new_def)
qed

lemma cursor_advances:
  assumes "gaps_ok s" and "c = cursor_or_new s d g now" and "0 \<le> highest_contiguous_sequence c"
    and "recalculate_cursor d now g s = Inr (c', s')"
  shows "highest_contiguous_sequence c \<le> highest_contiguous_sequence c'"
    and "\<And>q. highest_contiguous_sequence c < q \<Longrightarrow> q \<le> highest_contiguous_sequence c' \<Longrightarrow> accounted s d g q"
    and "\<not> accounted s d g (highest_contiguous_sequence c' + 1)"
proof -
  let ?hc = "highest_contiguous_sequence c"
  let ?n = "advance_expected (coverage s d g ?hc) (?hc + 1)"
  have h: "highest_contiguous_sequence c' = ?n - 1"
    using recalculate_cursor_result[OF assms(1-3)] assms(4) by auto
  note spec = advance_expected_spec[OF sorted_coverage, of "?hc + 1" s d g ?hc]
  show le: "?hc \<le> highest_contiguous_sequence c'" using spec unfolding h by linarith
  show "accounted s d g q" if "?hc < q" "q \<le> highest_contiguous_sequence c'" for q
  proof -
    have "covered (coverage s d g ?hc) q" using spec that unfolding h by simp
    then show ?thesis using covered_coverage[OF that(1)] by blast
  qed
  show "\<not> accounted s d g (highest_contiguous_sequence c' + 1)"
    using spec le covered_coverage[of ?hc "?n"] unfolding h by simp
qed

lemma open_gaps_after_recalculation:
  assumes ok: "gaps_ok s" and c: "c = cursor_or_new s d g now"
    and pos: "0 \<le> highest_contiguous_sequence c"
    and r: "recalculate_cursor d now g s = Inr (c', s')"
  shows "open_gaps s' d = scan_missing (maximum_seen_sequence c')
           (coverage s d g (highest_contiguous_sequence c)) (highest_contiguous_sequence c' + 1)"
    (is "_ = ?rs")
proof -
  have gaps: "sequence_gaps s' =
      filter (\<lambda>x. \<not> (gap_device_id x = d \<and> resolved_at x = None)) (sequence_gaps s)
      @ map (open_gap_row d now) ?rs"
    using recalculate_cursor_result[OF ok c pos] r by auto
  have "filter (\<lambda>x. gap_device_id x = d \<and> resolved_at x = None) (sequence_gaps s')
      = map (open_gap_row d now) ?rs"
    unfolding gaps by (auto simp: filter_map o_def open_gap_row_def filter_empty_conv)
  moreover have "sorted (map start_sequence (map (open_gap_row d now) ?rs))"
  proof -
    have "sorted_wrt (\<lambda>(p, q) (p', q'). q < p') ?rs" "\<forall>(p, q)\<in>set ?rs. p \<le> q"
      using scan_missing_order[OF sorted_coverage proper_coverage[OF ok]] by fastforce+
    then have "sorted_wrt (\<lambda>x y. fst x \<le> fst y) ?rs"
      by (elim sorted_wrt_mono_rel[rotated]) fastforce
    then show ?thesis by (simp add: sorted_map open_gap_row_def sorted_wrt_map)
  qed
  ultimately show ?thesis
    by (simp add: open_gaps_def sort_key_id_if_sorted o_def open_gap_row_def)
qed

lemma top_sequence_max:
  "stored s d g q \<Longrightarrow> q \<le> top_sequence s d g"
  "top_sequence s d g \<noteq> 0 \<Longrightarrow> stored s d g (top_sequence s d g)"
  unfolding stored_def top_sequence_def by (auto split: option.splits simp: max_opt_Some)

lemma recalculated_gaps_exact:
  assumes ok: "gaps_ok s" and c: "c = cursor_or_new s d g now"
    and pos: "0 \<le> highest_contiguous_sequence c"
    and bnd: "cursor_reset_boundary c \<le> max (highest_contiguous_sequence c) (top_sequence s d g)"
    and r: "recalculate_cursor d now g s = Inr (c', s')"
  shows "range_union (open_gaps s' d) =
    {q. highest_contiguous_sequence c' < q \<and> q \<le> top_sequence s d g \<and> \<not> accounted s d g q}"
proof -
  let ?hc = "highest_contiguous_sequence c" and ?hc' = "highest_contiguous_sequence c'"
  let ?cov = "coverage s d g ?hc" and ?top = "top_sequence s d g"
  have m: "maximum_seen_sequence c' = max ?top (cursor_reset_boundary c)"
    using recalculate_cursor_result[OF ok c pos] r by auto
  have le: "?hc \<le> ?hc'" by (rule cursor_advances(1)[OF ok c pos r])
  have later: "\<exists>(a, b)\<in>set ?cov. q < a" if "?hc' < q" "q \<le> ?top" "\<not> accounted s d g q" for q
  proof -
    have st: "stored s d g ?top" using top_sequence_max(2) that pos le by fastforce
    with that have "q < ?top" by (metis order_le_less)
    moreover have "(?top, ?top) \<in> set ?cov"
      using st that le by (fastforce simp: coverage_def stored_def)
    ultimately show ?thesis by blast
  qed
  have cov: "covered ?cov q \<longleftrightarrow> accounted s d g q" if "?hc' < q" for q
    using covered_coverage that le by simp
  show ?thesis
    unfolding open_gaps_after_recalculation[OF ok c pos r]
      scan_missing_spec[OF sorted_coverage proper_coverage[OF ok]]
    using later cov bnd le unfolding m by fastforce
qed

section \<open>The batch loop\<close>

text \<open>What the loop body may change: it only appends raw readings and events.\<close>

definition appends :: "db \<Rightarrow> db \<Rightarrow> bool" where
  "appends s t \<longleftrightarrow> prefix (raw_readings s) (raw_readings t)
     \<and> prefix (normalized_intervals s) (normalized_intervals t)
     \<and> devices t = devices s \<and> data_states t = data_states s \<and> cursors t = cursors s
     \<and> sequence_gaps t = sequence_gaps s \<and> billing_cycles t = billing_cycles s"

lemma appends_refl [simp]: "appends s s"
  by (simp add: appends_def)

lemma appends_trans: "appends s t \<Longrightarrow> appends t u \<Longrightarrow> appends s u"
  by (auto simp: appends_def)

lemma add_raw_cases:
  "add_raw w s = Inr t \<longleftrightarrow> raw_key w \<notin> raw_key ` set (raw_readings s) \<and> raw_checks w
     \<and> t = s\<lparr>raw_readings := raw_readings s @ [w], next_uuid := Suc (next_uuid s)\<rparr>"
  by (auto simp: add_raw_def)

lemma add_event_cases:
  "add_event e s = Inr t \<longleftrightarrow> event_key e \<notin> event_key ` set (device_events s)
     \<and> t = s\<lparr>device_events := device_events s @ [e]\<rparr>"
  by (auto simp: add_event_def)

lemma store_reading_appends: "store_reading H env r b = Inr b' \<Longrightarrow> appends (bs_db b) (bs_db b')"
  by (auto simp: store_reading_def Let_def result_simps add_raw_cases appends_def)

lemma ingest_one_appends: "ingest_one H env r b = Inr b' \<Longrightarrow> appends (bs_db b) (bs_db b')"
  by (auto simp: ingest_one_def Let_def result_simps reject_def add_event_cases appends_def
      split: if_splits option.splits dest: store_reading_appends)

lemma ingest_loop_appends:
  assumes "foldE (ingest_one H env) rs b = Inr b'"
  shows "appends (bs_db b) (bs_db b')"
  using assms
  by (rule foldE_invariant[where P = "\<lambda>x. appends (bs_db b) (bs_db x)"])
     (auto intro: appends_trans ingest_one_appends)

text \<open>The loop keeps the uniqueness of raw readings and events.\<close>

lemma ingest_one_unique:
  assumes "ingest_one H env r b = Inr b'" and "raws.unique (bs_db b)" and "events.unique (bs_db b)"
  shows "raws.unique (bs_db b')" and "events.unique (bs_db b')"
  using assms
  by (auto simp: ingest_one_def store_reading_def Let_def result_simps reject_def add_event_cases
      add_raw_cases raws.unique_def events.unique_def split: if_splits option.splits)

lemma ingest_loop_unique:
  assumes "foldE (ingest_one H env) rs b = Inr b'"
    and "raws.unique (bs_db b) \<and> events.unique (bs_db b)"
  shows "raws.unique (bs_db b') \<and> events.unique (bs_db b')"
  using assms
  by (rule foldE_invariant[where P = "\<lambda>x. raws.unique (bs_db x) \<and> events.unique (bs_db x)"])
     (auto dest: ingest_one_unique)

text \<open>Every reading ends in exactly one of the three answers.\<close>

definition answered :: "batch_state \<Rightarrow> int list" where
  "answered b = bs_accepted b @ bs_duplicates b @ map rej_sequence (bs_rejected b)"

lemma ingest_one_answers:
  "ingest_one H env r b = Inr b' \<Longrightarrow> mset (answered b') = mset (answered b) + {#rd_sequence r#}"
  by (auto simp: ingest_one_def store_reading_def Let_def result_simps reject_def answered_def
      split: if_splits option.splits)

lemma ingest_loop_answers:
  "foldE (ingest_one H env) rs b = Inr b' \<Longrightarrow>
     mset (answered b') = mset (answered b) + mset (map rd_sequence rs)"
proof (induction rs arbitrary: b)
  case Nil
  then show ?case by simp
next
  case (Cons r rs)
  then show ?case by (fastforce simp: bindE_eq_Inr dest: ingest_one_answers)
qed

text \<open>A reading is held when its row is stored under the same content hash.\<close>

definition held :: "(reading \<Rightarrow> string) \<Rightarrow> ingest_env \<Rightarrow> db \<Rightarrow> reading \<Rightarrow> bool" where
  "held H env s r \<longleftrightarrow> (\<exists>w. find_raw s (env_device_id env) (env_generation env) (rd_sequence r) = Some w
     \<and> raw_record_hash w = incoming_hash H r)"

definition not_future :: "ingest_env \<Rightarrow> reading \<Rightarrow> bool" where
  "not_future env r \<longleftrightarrow> rd_interval_end r \<le> env_now env + env_max_clock_skew_seconds env * 10 ^ 6"

lemma find_raw_appends:
  "find_raw s d g q = Some w \<Longrightarrow> appends s t \<Longrightarrow> find_raw t d g q = Some w"
  by (auto simp: find_raw_def generation_rows_def appends_def prefix_def find_append)

lemma held_appends: "held H env s r \<Longrightarrow> appends s t \<Longrightarrow> held H env t r"
  unfolding held_def by (blast dest: find_raw_appends)

lemma store_reading_held:
  assumes "store_reading H env r b = Inr b'"
    and "find_raw (bs_db b) (env_device_id env) (env_generation env) (rd_sequence r) = None"
  shows "held H env (bs_db b') r"
  using assms
  by (auto simp: store_reading_def Let_def result_simps add_raw_cases held_def find_raw_def
      generation_rows_def to_raw_def find_append)

lemma ingest_one_rejected_mono:
  "ingest_one H env r b = Inr b' \<Longrightarrow> prefix (bs_rejected b) (bs_rejected b')"
  by (auto simp: ingest_one_def store_reading_def Let_def result_simps reject_def
      split: if_splits option.splits)

lemma ingest_one_held:
  assumes "ingest_one H env r b = Inr b'" and "bs_rejected b' = []"
  shows "held H env (bs_db b') r \<and> not_future env r"
  using assms store_reading_held[of H env r b b']
  by (auto simp: ingest_one_def Let_def result_simps reject_def held_def not_future_def
      split: if_splits option.splits)

lemma ingest_loop_held:
  assumes "foldE (ingest_one H env) rs b = Inr b'" and "bs_rejected b' = []" and "r \<in> set rs"
  shows "held H env (bs_db b') r \<and> not_future env r"
proof -
  obtain xs ys where rs: "rs = xs @ r # ys" using assms(3) by (meson split_list)
  obtain u v where v: "ingest_one H env r u = Inr v" and rest: "foldE (ingest_one H env) ys v = Inr b'"
    using assms(1) unfolding rs by (auto simp: foldE_append result_simps)
  have "prefix (bs_rejected v) (bs_rejected b')"
    by (rule foldE_invariant[OF rest]) (auto dest: ingest_one_rejected_mono)
  then have "bs_rejected v = []" using assms(2) by simp
  then show ?thesis
    using ingest_one_held[OF v] held_appends ingest_loop_appends[OF rest] by blast
qed

text \<open>A batch of held readings is a batch of duplicates and writes nothing.\<close>

lemma ingest_loop_duplicates:
  assumes "\<forall>r\<in>set rs. held H env (bs_db b) r \<and> not_future env r"
  shows "foldE (ingest_one H env) rs b
    = Inr (b\<lparr>bs_duplicates := bs_duplicates b @ map rd_sequence rs\<rparr>)"
  using assms
proof (induction rs arbitrary: b)
  case Nil
  then show ?case by simp
next
  case (Cons r rs)
  have one: "ingest_one H env r b = Inr (b\<lparr>bs_duplicates := bs_duplicates b @ [rd_sequence r]\<rparr>)"
    using Cons.prems by (auto simp: ingest_one_def held_def not_future_def)
  show ?case using Cons.prems by (simp add: one Cons.IH)
qed

section \<open>Preparing a batch\<close>

lemma same_but_gaps_cursor_or_new:
  "same_but_gaps s t \<Longrightarrow> cursor_or_new t d g now = cursor_or_new s d g now"
  by (simp add: cursor_or_new_def same_but_gaps_simps)

lemma unavailable_sequences_spec:
  "sorted_wrt (<) (unavailable_sequences s d g ranges)
   \<and> set (unavailable_sequences s d g ranges) =
       {q. covered ranges q \<and> \<not> stored s d g q}"
proof -
  have "set (declared_sequences ranges) = {q. covered ranges q}"
    unfolding declared_sequences_def covered_def by fastforce
  then show ?thesis
    by (auto simp: unavailable_sequences_def stored_def strict_sorted_iff)
qed

definition positive_ranges :: "(int \<times> int) list \<Rightarrow> bool" where
  "positive_ranges rs \<longleftrightarrow> (\<forall>(a, b)\<in>set rs. 0 < a \<and> a \<le> b)"

lemma loss_segments_positive:
  assumes "positive_ranges ranges"
  shows "\<forall>b\<in>set (segments (unavailable_sequences s d g ranges)). 0 < fst b \<and> fst b \<le> snd b"
proof -
  note u = unavailable_sequences_spec[of s d g ranges]
  have "\<forall>q\<in>set (unavailable_sequences s d g ranges). 0 < q"
    using u assms by (fastforce simp: covered_def positive_ranges_def)
  then show ?thesis using segments_spec u by fastforce
qed

lemma put_all_total:
  assumes "\<forall>b\<in>set bs. 0 < fst b \<and> fst b \<le> snd b"
  shows "\<exists>t. foldE (put_permanent_gap d now) bs s = Inr t"
proof -
  have "\<exists>t. foldE (put_permanent_gap d now) bs s = Inr t \<and> True"
    by (rule foldE_total) (use assms put_permanent_gap_total in auto)
  then show ?thesis by blast
qed

lemma put_all_same:
  "foldE (put_permanent_gap d now) bs s = Inr t \<Longrightarrow> same_but_gaps s t"
  by (rule foldE_invariant[where P = "same_but_gaps s"])
     (auto intro: same_but_gaps_trans put_permanent_gap_same)

lemma put_all_ok:
  "foldE (put_permanent_gap d now) bs s = Inr t \<Longrightarrow> gaps_ok s \<Longrightarrow> gaps_ok t"
  by (rule foldE_invariant[where P = gaps_ok]) (auto intro: put_permanent_gap_ok)

text \<open>Preparation touches the device's cursor and the gap table only.\<close>

lemma bootstrap_cursor_result:
  assumes "bootstrap_cursor d rs fa g now s = Inr t" and "cursors s d = Some c"
  shows "\<exists>c'. same_but_gaps (s\<lparr>cursors := (cursors s)(d \<mapsto> c')\<rparr>) t
    \<and> cursor_data_generation c' = cursor_data_generation c
    \<and> cursor_reset_boundary c' = cursor_reset_boundary c
    \<and> highest_contiguous_sequence c \<le> highest_contiguous_sequence c'"
proof (cases "bootstrap_applies d rs fa g s")
  case None
  then show ?thesis
    using assms by (intro exI[of _ c]) (auto simp: bootstrap_cursor_def fun_upd_idem)
next
  case (Some f)
  then have "highest_contiguous_sequence c = 0" "1 < f"
    using assms(2) by (auto simp: bootstrap_applies_def Let_def split: option.splits if_splits)
  with Some show ?thesis using assms
    by (intro exI[of _ "c\<lparr>highest_contiguous_sequence := f - 1, maximum_seen_sequence := f - 1,
          cursor_updated_at := now\<rparr>"])
       (simp add: bootstrap_cursor_def cursor_or_new_def put_permanent_gap_same)
qed

lemma bootstrap_cursor_total: "\<exists>t. bootstrap_cursor d rs fa g now s = Inr t"
proof (cases "bootstrap_applies d rs fa g s")
  case (Some f)
  then have "1 < f"
    by (auto simp: bootstrap_applies_def Let_def split: option.splits if_splits)
  with Some show ?thesis by (simp add: bootstrap_cursor_def put_permanent_gap_total)
qed (simp add: bootstrap_cursor_def)

lemma bootstrap_cursor_ok:
  "bootstrap_cursor d rs fa g now s = Inr t \<Longrightarrow> gaps_ok s \<Longrightarrow> gaps_ok t"
  unfolding bootstrap_cursor_def
  by (auto split: option.splits dest!: put_permanent_gap_ok[rotated])

lemma prepare_batch_result:
  assumes "prepare_batch d rs fa ranges g now s = Inr t" and "c = cursor_or_new s d g now"
  shows "cursor_data_generation c = g
    \<and> (\<exists>c'. same_but_gaps (s\<lparr>cursors := (cursors s)(d \<mapsto> c')\<rparr>) t
    \<and> cursor_data_generation c' = g
    \<and> cursor_reset_boundary c' = cursor_reset_boundary c
    \<and> highest_contiguous_sequence c \<le> highest_contiguous_sequence c')"
proof -
  let ?s1 = "ensure_cursor d g now s"
  from assms obtain u where g: "cursor_data_generation c = g"
    and u: "bootstrap_cursor d rs fa g now ?s1 = Inr u"
    and t: "record_permanent_loss_ranges d ranges now g u = Inr t"
    by (auto simp: prepare_batch_def Let_def result_simps split: if_splits)
  have "cursors ?s1 d = Some c" using assms(2) by (simp add: ensure_cursor_def)
  then obtain c' where c': "same_but_gaps (?s1\<lparr>cursors := (cursors ?s1)(d \<mapsto> c')\<rparr>) u"
    "cursor_data_generation c' = g" "cursor_reset_boundary c' = cursor_reset_boundary c"
    "highest_contiguous_sequence c \<le> highest_contiguous_sequence c'"
    using bootstrap_cursor_result[OF u] g by metis
  have "same_but_gaps u t" using put_all_same t by (simp add: record_permanent_loss_ranges_def)
  from same_but_gaps_trans[OF c'(1) this]
  have "same_but_gaps (s\<lparr>cursors := (cursors s)(d \<mapsto> c')\<rparr>) t" by (simp add: ensure_cursor_def)
  with c' g show ?thesis by blast
qed

lemma prepare_batch_total:
  assumes "cursor_data_generation (cursor_or_new s d g now) = g" and "positive_ranges ranges"
  shows "\<exists>t. prepare_batch d rs fa ranges g now s = Inr t"
proof -
  obtain u where "bootstrap_cursor d rs fa g now (ensure_cursor d g now s) = Inr u"
    using bootstrap_cursor_total by blast
  with assms show ?thesis
    using put_all_total[OF loss_segments_positive[OF assms(2)]]
    by (simp add: prepare_batch_def record_permanent_loss_ranges_def)
qed

lemma prepare_batch_ok:
  assumes "prepare_batch d rs fa ranges g now s = Inr t" and "gaps_ok s"
  shows "gaps_ok t"
proof -
  have "gaps_ok (ensure_cursor d g now s)"
    using assms(2) by (simp add: ensure_cursor_def)
  with assms(1) show ?thesis
    by (auto simp: prepare_batch_def Let_def result_simps record_permanent_loss_ranges_def
        split: if_splits dest!: bootstrap_cursor_ok put_all_ok)
qed

lemma prepare_batch_db_ok:
  assumes "prepare_batch d rs fa ranges g now s = Inr t" and "db_ok s"
  shows "db_ok t"
proof -
  have ok: "gaps_ok t" using prepare_batch_ok[OF assms(1)] assms(2) by (simp add: db_ok_def)
  obtain c' where c': "same_but_gaps (s\<lparr>cursors := (cursors s)(d \<mapsto> c')\<rparr>) t"
    "highest_contiguous_sequence (cursor_or_new s d g now) \<le> highest_contiguous_sequence c'"
    using prepare_batch_result[OF assms(1) refl] by auto
  have "0 \<le> highest_contiguous_sequence (cursor_or_new s d g now)"
    using assms(2) by (auto simp: cursor_or_new_def new_cursor_def db_ok_def split: option.splits)
  with c' ok assms(2) show ?thesis
    by (auto simp: db_ok_def raws.unique_def events.unique_def same_but_gaps_simps)
qed

section \<open>A whole batch\<close>

definition batch_env ::
  "string \<Rightarrow> device_row \<Rightarrow> string \<Rightarrow> instant \<Rightarrow> int \<Rightarrow> int \<Rightarrow> ingest_env"
where
  "batch_env d device source now g skew =
     \<lparr>env_device_id = d, env_device = device, env_source = source, env_now = now,
      env_generation = g, env_max_clock_skew_seconds = skew\<rparr>"

definition empty_batch :: "db \<Rightarrow> batch_state" where
  "empty_batch s = \<lparr>bs_db = s, bs_accepted = [], bs_duplicates = [], bs_rejected = [], bs_windows = []\<rparr>"

lemma batch_env_simps [simp]:
  "env_device_id (batch_env d device source now g skew) = d"
  "env_generation (batch_env d device source now g skew) = g"
  by (simp_all add: batch_env_def)

lemma empty_batch_simps [simp]:
  "bs_db (empty_batch s) = s" "bs_rejected (empty_batch s) = []" "bs_accepted (empty_batch s) = []"
  "bs_duplicates (empty_batch s) = []" "bs_windows (empty_batch s) = []" "answered (empty_batch s) = []"
  by (simp_all add: empty_batch_def answered_def)

text \<open>The phases of a successful batch.\<close>

lemma ingest_readings_phases:
  "ingest_readings H now d rs source dg fa ranges skew s = Inr (s', resp) \<longleftrightarrow>
   source \<in> {''pull'', ''push''} \<and>
   (\<exists>device g s1 b. devices s d = Some device
     \<and> enforce_data_generation_gate s d rs dg ranges = Inr g
     \<and> prepare_batch d rs fa ranges g now s = Inr s1
     \<and> foldE (ingest_one H (batch_env d device source now g skew)) rs (empty_batch s1) = Inr b
     \<and> finish_batch d device g now b = Inr (s', resp))"
  unfolding ingest_readings_def batch_env_def empty_batch_def
  by (auto simp: result_simps split: option.splits)

lemma mark_cycles_same [simp]:
  "raw_readings (mark_cycles dv now ws s) = raw_readings s"
  "normalized_intervals (mark_cycles dv now ws s) = normalized_intervals s"
  "sequence_gaps (mark_cycles dv now ws s) = sequence_gaps s"
  "device_events (mark_cycles dv now ws s) = device_events s"
  "cursors (mark_cycles dv now ws s) = cursors s"
  "devices (mark_cycles dv now ws s) = devices s"
  "data_states (mark_cycles dv now ws s) = data_states s"
  by (simp_all add: mark_cycles_def Let_def)

lemma mark_cycles_db_ok [simp]: "db_ok (mark_cycles dv now ws s) = db_ok s"
  by (simp add: db_ok_def gaps_ok_def raws.unique_def gaps.unique_def events.unique_def)

lemma cursor_or_new_nonneg:
  "db_ok s \<Longrightarrow> 0 \<le> highest_contiguous_sequence (cursor_or_new s d g now)"
  by (auto simp: cursor_or_new_def new_cursor_def db_ok_def split: option.splits)

lemma accounted_cong:
  "raw_readings t = raw_readings s \<Longrightarrow>
   filter (\<lambda>x. resolved_at x \<noteq> None) (sequence_gaps t) = filter (\<lambda>x. resolved_at x \<noteq> None) (sequence_gaps s)
   \<Longrightarrow> accounted t d g q = accounted s d g q"
proof -
  assume raw: "raw_readings t = raw_readings s"
    and gap: "filter (\<lambda>x. resolved_at x \<noteq> None) (sequence_gaps t)
      = filter (\<lambda>x. resolved_at x \<noteq> None) (sequence_gaps s)"
  have "{x\<in>set (sequence_gaps t). resolved_at x \<noteq> None} = {x\<in>set (sequence_gaps s). resolved_at x \<noteq> None}"
    using arg_cong[OF gap, of set] by simp
  then show ?thesis using raw unfolding stored_def lost_def generation_rows_def by auto
qed

text \<open>The last phase: recalculation on the final tables.\<close>

lemma finish_batch_result:
  assumes ok: "db_ok (bs_db b)" and f: "finish_batch d device g now b = Inr (s', resp)"
  defines "c \<equiv> cursor_or_new (bs_db b) d g now"
  shows "\<exists>c'.
    recalculate_cursor d now g (mark_cycles device now (bs_windows b) (bs_db b)) = Inr (c', s')
    \<and> cursors s' = (cursors (bs_db b))(d \<mapsto> c')
    \<and> raw_readings s' = raw_readings (bs_db b)
    \<and> normalized_intervals s' = normalized_intervals (bs_db b)
    \<and> device_events s' = device_events (bs_db b)
    \<and> (\<forall>d' g' q. accounted s' d' g' q = accounted (bs_db b) d' g' q)
    \<and> resp = \<lparr>accepted = bs_accepted b, duplicates = bs_duplicates b, rejected = bs_rejected b,
       highest_contiguous_accepted_sequence = highest_contiguous_sequence c',
       missing_ranges = open_gaps s' d, response_data_generation = g,
       response_reset_boundary = cursor_reset_boundary c'\<rparr>
    \<and> cursor_data_generation c' = cursor_data_generation c
    \<and> cursor_reset_boundary c' = cursor_reset_boundary c"
proof -
  let ?m = "mark_cycles device now (bs_windows b) (bs_db b)"
  have mok: "gaps_ok ?m" "0 \<le> highest_contiguous_sequence c"
    using ok cursor_or_new_nonneg[OF ok] mark_cycles_db_ok[of device now "bs_windows b" "bs_db b"]
    by (auto simp: db_ok_def c_def simp del: mark_cycles_db_ok)
  have c: "c = cursor_or_new ?m d g now" by (simp add: c_def cursor_or_new_def)
  obtain c' where r: "recalculate_cursor d now g ?m = Inr (c', s')"
    and resp: "resp = \<lparr>accepted = bs_accepted b, duplicates = bs_duplicates b, rejected = bs_rejected b,
       highest_contiguous_accepted_sequence = highest_contiguous_sequence c',
       missing_ranges = open_gaps s' d, response_data_generation = g,
       response_reset_boundary = cursor_reset_boundary c'\<rparr>"
    using f by (auto simp: finish_batch_def result_simps)
  note res = recalculate_cursor_result[OF mok(1) c mok(2)]
  have s': "s' = ?m\<lparr>cursors := (cursors ?m)(d \<mapsto> c'), sequence_gaps := sequence_gaps s'\<rparr>"
    and gaps: "filter (\<lambda>x. resolved_at x \<noteq> None) (sequence_gaps s')
        = filter (\<lambda>x. resolved_at x \<noteq> None) (sequence_gaps ?m)"
    and gen: "cursor_data_generation c' = cursor_data_generation c"
      "cursor_reset_boundary c' = cursor_reset_boundary c"
    using res r by (auto simp: filter_map o_def open_gap_row_def intro!: filter_cong)
  have raws: "raw_readings s' = raw_readings (bs_db b)" by (subst s') simp
  have cur: "cursors s' = (cursors (bs_db b))(d \<mapsto> c')" by (subst s') simp
  have other: "normalized_intervals s' = normalized_intervals (bs_db b)" "device_events s' = device_events (bs_db b)"
    by (subst s', simp)+
  have "accounted s' d' g' q = accounted (bs_db b) d' g' q" for d' g' q
    using raws gaps by (intro accounted_cong) simp_all
  with r resp gen raws cur other show ?thesis by blast
qed

lemma finish_batch_total:
  assumes "db_ok (bs_db b)"
  shows "\<exists>s' resp. finish_batch d device g now b = Inr (s', resp)"
proof -
  let ?m = "mark_cycles device now (bs_windows b) (bs_db b)"
  have ok: "db_ok ?m" using assms by simp
  then have "gaps_ok ?m" by (simp only: db_ok_def)
  from recalculate_cursor_result[OF this refl cursor_or_new_nonneg[OF ok]]
  have "\<exists>x. recalculate_cursor d now g ?m = Inr x" by blast
  then show ?thesis by (auto simp: finish_batch_def)
qed

lemma finish_batch_db_ok:
  assumes ok: "db_ok (bs_db b)" and f: "finish_batch d device g now b = Inr (s', resp)"
  shows "db_ok s'"
proof -
  let ?m = "mark_cycles device now (bs_windows b) (bs_db b)"
  define c where "c = cursor_or_new ?m d g now"
  have mok: "db_ok ?m" using ok by simp
  have c0: "0 \<le> highest_contiguous_sequence c" "gaps_ok ?m"
    using cursor_or_new_nonneg[OF mok] mok by (auto simp: c_def db_ok_def)
  obtain c' where r: "recalculate_cursor d now g ?m = Inr (c', s')"
    using f by (auto simp: finish_batch_def result_simps)
  note res = recalculate_cursor_result[OF c0(2) c_def c0(1)]
  have s': "s' = ?m\<lparr>cursors := (cursors ?m)(d \<mapsto> c'), sequence_gaps := sequence_gaps s'\<rparr>"
    and gaps: "sequence_gaps s' =
        filter (\<lambda>x. \<not> (gap_device_id x = d \<and> resolved_at x = None)) (sequence_gaps ?m)
        @ map (open_gap_row d now)
            (scan_missing (maximum_seen_sequence c') (coverage ?m d g (highest_contiguous_sequence c))
              (highest_contiguous_sequence c' + 1))" (is "_ = ?kept @ ?new")
    using res r by auto
  have hc: "highest_contiguous_sequence c \<le> highest_contiguous_sequence c'"
    by (rule cursor_advances(1)[OF c0(2) c_def c0(1) r])
  note sm = scan_missing_order[OF sorted_coverage proper_coverage[OF c0(2)]]
    scan_missing_distinct[OF sorted_coverage proper_coverage[OF c0(2)]]
  have "distinct (map gap_key ?kept)"
    using c0(2) by (auto simp: gaps_ok_def gaps.unique_def distinct_map_filter)
  moreover have "distinct (map gap_key ?new)"
    using sm(2) by (auto simp: distinct_map inj_on_def row_defs)
  moreover have "gap_key ` set ?new \<inter> gap_key ` set ?kept = {}"
    using new_gap_keys_fresh[OF c0(2) hc] by (simp add: image_image)
  ultimately have "distinct (map gap_key (sequence_gaps s'))" unfolding gaps
    by (simp only: map_append distinct_append set_map set_append) blast
  moreover have "\<forall>x\<in>set (sequence_gaps s'). gap_checks x \<and> (resolved_at x \<noteq> None \<longrightarrow> permanent_loss x)"
    unfolding gaps using c0 sm(1) hc
    by (fastforce simp: gaps_ok_def gaps.unique_def row_defs)
  ultimately have g: "gaps_ok s'" by (simp add: gaps_ok_def gaps.unique_def)
  have "raw_readings s' = raw_readings ?m" "device_events s' = device_events ?m"
    "cursors s' = (cursors ?m)(d \<mapsto> c')"
    by (subst s', simp)+
  with g mok hc c0(1) show ?thesis
    by (auto simp: db_ok_def raws.unique_def events.unique_def simp del: mark_cycles_db_ok)
qed

lemma ingest_loop_db_ok:
  assumes "foldE (ingest_one H env) rs b = Inr b'" and "db_ok (bs_db b)"
  shows "db_ok (bs_db b')"
  using ingest_loop_appends[OF assms(1)] ingest_loop_unique[OF assms(1)] assms(2)
  by (auto simp: db_ok_def gaps_ok_def gaps.unique_def appends_def)

lemma ingest_readings_db_ok:
  assumes "db_ok s" and "ingest_readings H now d rs source dg fa ranges skew s = Inr (s', resp)"
  shows "db_ok s'"
proof -
  obtain device g s1 b where p: "prepare_batch d rs fa ranges g now s = Inr s1"
    and l: "foldE (ingest_one H (batch_env d device source now g skew)) rs (empty_batch s1) = Inr b"
    and f: "finish_batch d device g now b = Inr (s', resp)"
    using assms(2) unfolding ingest_readings_phases by blast
  have "db_ok s1" by (rule prepare_batch_db_ok[OF p assms(1)])
  then have "db_ok (bs_db b)" by (intro ingest_loop_db_ok[OF l]) simp
  then show ?thesis by (rule finish_batch_db_ok[OF _ f])
qed

text \<open>The loss table only grows, so an accounted sequence stays accounted.\<close>

lemma put_permanent_gap_lost:
  assumes "put_permanent_gap d now b s = Inr t"
  shows "lost s d' q \<Longrightarrow> lost t d' q" and "fst b \<le> q \<Longrightarrow> q \<le> snd b \<Longrightarrow> lost t d q"
proof -
  let ?f = "\<lambda>g. if gap_key g = (d, b) then g\<lparr>resolved_at := Some now, permanent_loss := True\<rparr> else g"
  consider (upd) "(d, b) \<in> gap_key ` set (sequence_gaps s)" "sequence_gaps t = map ?f (sequence_gaps s)"
    | (new) "sequence_gaps t = sequence_gaps s @ [permanent_gap_row d now b]"
    using assms by (auto simp: put_permanent_gap_def split: if_splits dest: gaps.insert_rows)
  note c = this
  have f: "gap_device_id (?f x) = gap_device_id x" "start_sequence (?f x) = start_sequence x"
    "end_sequence (?f x) = end_sequence x" "permanent_loss x \<Longrightarrow> permanent_loss (?f x)"
    "resolved_at x \<noteq> None \<Longrightarrow> resolved_at (?f x) \<noteq> None" for x by auto
  show "lost t d' q" if L: "lost s d' q"
  proof -
    obtain x where x: "x \<in> set (sequence_gaps s)" "gap_device_id x = d'" "permanent_loss x"
      "resolved_at x \<noteq> None" "start_sequence x \<le> q" "q \<le> end_sequence x"
      using L unfolding lost_def by blast
    from c show ?thesis
    proof cases
      case upd
      then have "?f x \<in> set (sequence_gaps t)" using x(1) by simp
      with x f[of x] show ?thesis unfolding lost_def by metis
    next
      case new
      with x show ?thesis unfolding lost_def by auto
    qed
  qed
  show "lost t d q" if "fst b \<le> q" "q \<le> snd b"
    using c
  proof cases
    case upd
    then obtain x where "x \<in> set (sequence_gaps s)" "gap_key x = (d, b)" by fastforce
    with upd(2) that show ?thesis
      unfolding lost_def by (intro bexI[of _ "?f x"]) (auto simp: gap_key_def)
  next
    case new
    with that show ?thesis by (simp add: lost_def permanent_gap_row_def)
  qed
qed

lemma put_all_lost:
  assumes "foldE (put_permanent_gap d now) bs s = Inr t" and "lost s d' q"
  shows "lost t d' q"
  by (rule foldE_invariant[where P = "\<lambda>u. lost u d' q", OF assms])
     (auto dest: put_permanent_gap_lost(1))

lemma put_all_covers:
  "foldE (put_permanent_gap d now) bs s = Inr t \<Longrightarrow> q \<in> range_union bs \<Longrightarrow> lost t d q"
proof (induction bs arbitrary: s)
  case Nil
  then show ?case by simp
next
  case (Cons b bs)
  then obtain u where u: "put_permanent_gap d now b s = Inr u"
    "foldE (put_permanent_gap d now) bs u = Inr t" by (auto simp: result_simps)
  consider "q \<in> range_union bs" | "fst b \<le> q" "q \<le> snd b" using Cons.prems by (cases b) auto
  then show ?case
  proof cases
    case 1
    then show ?thesis by (rule Cons.IH[OF u(2)])
  next
    case 2
    then show ?thesis by (intro put_all_lost[OF u(2)] put_permanent_gap_lost(2)[OF u(1)])
  qed
qed

text \<open>What preparation skips, it records as lost.\<close>

lemma bootstrap_cursor_lost:
  assumes "bootstrap_cursor d rs fa g now s = Inr t" and "cursors s d = Some c"
    and "cursors t d = Some c'"
    and "highest_contiguous_sequence c < q" and "q \<le> highest_contiguous_sequence c'"
  shows "lost t d q"
proof (cases "bootstrap_applies d rs fa g s")
  case None
  then show ?thesis using assms by (simp add: bootstrap_cursor_def)
next
  case (Some f)
  let ?c1 = "c\<lparr>highest_contiguous_sequence := f - 1, maximum_seen_sequence := f - 1, cursor_updated_at := now\<rparr>"
  have p: "put_permanent_gap d now (1, f - 1) (s\<lparr>cursors := (cursors s)(d \<mapsto> ?c1)\<rparr>) = Inr t"
    using assms(1,2) Some by (simp add: bootstrap_cursor_def cursor_or_new_def)
  have "highest_contiguous_sequence c = 0"
    using assms(2) Some by (auto simp: bootstrap_applies_def Let_def split: option.splits if_splits)
  moreover have "cursors t d = Some ?c1"
    using same_but_gaps_simps(3)[OF put_permanent_gap_same[OF p]] by simp
  ultimately show ?thesis using put_permanent_gap_lost(2)[OF p] assms by simp
qed

lemma prepare_batch_lost:
  assumes "prepare_batch d rs fa ranges g now s = Inr t" and "cursors t d = Some c'"
    and "highest_contiguous_sequence (cursor_or_new s d g now) < q"
    and "q \<le> highest_contiguous_sequence c'"
  shows "lost t d q"
proof -
  let ?s1 = "ensure_cursor d g now s"
  obtain u where u: "bootstrap_cursor d rs fa g now ?s1 = Inr u"
    and t: "foldE (put_permanent_gap d now) (segments (unavailable_sequences u d g ranges)) u = Inr t"
    using assms(1)
    by (auto simp: prepare_batch_def record_permanent_loss_ranges_def Let_def result_simps split: if_splits)
  have "cursors u d = Some c'" using same_but_gaps_simps(3)[OF put_all_same[OF t]] assms(2) by simp
  then have "lost u d q"
    using assms(3,4) by (intro bootstrap_cursor_lost[OF u]) (auto simp: ensure_cursor_def)
  then show ?thesis by (rule put_all_lost[OF t])
qed

lemma appends_lost: "appends s t \<Longrightarrow> lost t d q = lost s d q"
  by (simp add: appends_def lost_def)

lemma same_but_gaps_generation_rows:
  "same_but_gaps (s\<lparr>cursors := f\<rparr>) t \<Longrightarrow> generation_rows t d g = generation_rows s d g"
  by (simp add: generation_rows_def same_but_gaps_simps)

text \<open>The rows that a batch adds are its accepted readings, in order.\<close>

definition added_rows :: "ingest_env \<Rightarrow> batch_state \<Rightarrow> batch_state \<Rightarrow> raw_reading list \<Rightarrow> bool" where
  "added_rows env b b' ws \<longleftrightarrow>
     raw_readings (bs_db b') = raw_readings (bs_db b) @ ws
     \<and> bs_accepted b' = bs_accepted b @ map raw_sequence ws
     \<and> (\<forall>w\<in>set ws. raw_device_id w = env_device_id env \<and> raw_data_generation w = env_generation env
          \<and> raw_interval_end w \<le> env_now env + env_max_clock_skew_seconds env * 10 ^ 6)"

lemma ingest_one_added:
  "ingest_one H env r b = Inr b' \<Longrightarrow> \<exists>ws. added_rows env b b' ws"
  by (auto simp: ingest_one_def store_reading_def Let_def result_simps reject_def add_event_cases
      add_raw_cases added_rows_def to_raw_def split: if_splits option.splits)

lemma added_rows_trans:
  "added_rows env a b us \<Longrightarrow> added_rows env b c vs \<Longrightarrow> added_rows env a c (us @ vs)"
  by (auto simp: added_rows_def)

lemma ingest_loop_added:
  assumes "foldE (ingest_one H env) rs b = Inr b'"
  shows "\<exists>ws. added_rows env b b' ws"
proof (rule foldE_invariant[where P = "\<lambda>x. \<exists>ws. added_rows env b x ws", OF assms])
  show "\<exists>ws. added_rows env b b ws" by (intro exI[of _ "[]"]) (simp add: added_rows_def)
qed (meson added_rows_trans ingest_one_added)

lemma ingest_readings_rows:
  assumes "db_ok s" and "ingest_readings H now d rs source dg fa ranges skew s = Inr (s', resp)"
  shows "\<exists>ws. raw_readings s' = raw_readings s @ ws \<and> accepted resp = map raw_sequence ws
    \<and> (\<forall>w\<in>set ws. raw_device_id w = d \<and> raw_data_generation w = response_data_generation resp
         \<and> raw_interval_end w \<le> now + skew * 10 ^ 6)"
proof -
  obtain device g s1 b where p: "prepare_batch d rs fa ranges g now s = Inr s1"
    and l: "foldE (ingest_one H (batch_env d device source now g skew)) rs (empty_batch s1) = Inr b"
    and f: "finish_batch d device g now b = Inr (s', resp)"
    using assms(2) unfolding ingest_readings_phases by blast
  have ok: "db_ok (bs_db b)"
    using ingest_loop_db_ok[OF l] prepare_batch_db_ok[OF p assms(1)] by simp
  have raw1: "raw_readings s1 = raw_readings s"
    using prepare_batch_result[OF p refl] by (auto dest: same_but_gaps_simps(4))
  obtain ws where "added_rows (batch_env d device source now g skew) (empty_batch s1) b ws"
    using ingest_loop_added[OF l] by blast
  then have ws: "raw_readings (bs_db b) = raw_readings s @ ws" "bs_accepted b = map raw_sequence ws"
    "\<forall>w\<in>set ws. raw_device_id w = d \<and> raw_data_generation w = g \<and> raw_interval_end w \<le> now + skew * 10 ^ 6"
    by (auto simp: added_rows_def raw1 batch_env_def)
  have "raw_readings s' = raw_readings (bs_db b)" "accepted resp = bs_accepted b"
    "response_data_generation resp = g"
    using finish_batch_result[OF ok f] by (elim exE conjE; simp)+
  with ws show ?thesis by auto
qed

text \<open>A successful batch ends with one recalculation on its final tables.\<close>

lemma ingest_recalculation:
  assumes "db_ok s"
    and "ingest_readings H now d rs source dg fa ranges skew s = Inr (s', resp)"
    and "g = response_data_generation resp" and "c = cursor_or_new s d g now"
  shows "\<exists>m c1 c'. gaps_ok m \<and> c1 = cursor_or_new m d g now \<and> 0 \<le> highest_contiguous_sequence c1
    \<and> recalculate_cursor d now g m = Inr (c', s')
    \<and> raw_readings m = raw_readings s' \<and> (\<forall>q. accounted m d g q = accounted s' d g q)
    \<and> highest_contiguous_sequence c \<le> highest_contiguous_sequence c1
    \<and> (\<forall>q. highest_contiguous_sequence c < q \<and> q \<le> highest_contiguous_sequence c1 \<longrightarrow> accounted s' d g q)
    \<and> cursor_reset_boundary c1 = cursor_reset_boundary c
    \<and> cursors s' d = Some c' \<and> missing_ranges resp = open_gaps s' d
    \<and> highest_contiguous_accepted_sequence resp = highest_contiguous_sequence c'"
proof -
  obtain device g' s1 b where p: "prepare_batch d rs fa ranges g' now s = Inr s1"
    and l: "foldE (ingest_one H (batch_env d device source now g' skew)) rs (empty_batch s1) = Inr b"
    and f: "finish_batch d device g' now b = Inr (s', resp)"
    using assms(2) unfolding ingest_readings_phases by blast
  have ok: "db_ok (bs_db b)"
    using ingest_loop_db_ok[OF l] prepare_batch_db_ok[OF p assms(1)] by simp
  let ?m = "mark_cycles device now (bs_windows b) (bs_db b)"
  obtain c' where c': "recalculate_cursor d now g' ?m = Inr (c', s')"
    "cursors s' d = Some c'" "raw_readings s' = raw_readings (bs_db b)"
    "\<forall>q. accounted s' d g' q = accounted (bs_db b) d g' q"
    "highest_contiguous_accepted_sequence resp = highest_contiguous_sequence c'"
    "missing_ranges resp = open_gaps s' d" "response_data_generation resp = g'"
    using finish_batch_result[OF ok f] by (elim exE conjE) simp
  have g: "g' = g" using c'(7) assms(3) by simp
  have ap: "appends s1 (bs_db b)" using ingest_loop_appends[OF l] by simp
  obtain c1 where c1: "same_but_gaps (s\<lparr>cursors := (cursors s)(d \<mapsto> c1)\<rparr>) s1"
    "cursor_reset_boundary c1 = cursor_reset_boundary c"
    "highest_contiguous_sequence c \<le> highest_contiguous_sequence c1"
    using prepare_batch_result[OF p refl] assms(4) g by blast
  have cur: "cursors s1 d = Some c1" "cursors (bs_db b) d = Some c1"
    using same_but_gaps_simps(3)[OF c1(1)] ap by (auto simp: appends_def)
  have "accounted ?m d g q = accounted (bs_db b) d g q" for q by (rule accounted_cong) simp_all
  moreover have "gaps_ok ?m" "0 \<le> highest_contiguous_sequence c1"
    using ok cur(2) by (simp_all add: db_ok_def gaps_ok_def gaps.unique_def)
  moreover have "accounted s' d g q" if "highest_contiguous_sequence c < q"
    "q \<le> highest_contiguous_sequence c1" for q
    using prepare_batch_lost[OF p cur(1)] that assms(4) c'(4) appends_lost[OF ap] g by blast
  ultimately show ?thesis
    using c' c1 cur(2) unfolding g
    by (intro exI[of _ ?m] exI[of _ c1] exI[of _ c']) (simp add: cursor_or_new_def)
qed

lemma ingest_keeps_configuration:
  assumes "db_ok s" and "ingest_readings H now d rs source dg fa ranges skew s = Inr (s', resp)"
  shows "devices s' = devices s" and "data_states s' = data_states s"
    and "\<exists>c'. cursors s' d = Some c' \<and> cursor_data_generation c' = response_data_generation resp"
proof -
  obtain device g s1 b where p: "prepare_batch d rs fa ranges g now s = Inr s1"
    and l: "foldE (ingest_one H (batch_env d device source now g skew)) rs (empty_batch s1) = Inr b"
    and f: "finish_batch d device g now b = Inr (s', resp)"
    using assms(2) unfolding ingest_readings_phases by blast
  have ok: "db_ok (bs_db b)"
    using ingest_loop_db_ok[OF l] prepare_batch_db_ok[OF p assms(1)] by simp
  let ?m = "mark_cycles device now (bs_windows b) (bs_db b)"
  have mok: "db_ok ?m" using ok by simp
  then have gok: "gaps_ok ?m" by (simp only: db_ok_def)
  obtain c' where c': "recalculate_cursor d now g ?m = Inr (c', s')" "cursors s' d = Some c'"
    "response_data_generation resp = g"
    "cursor_data_generation c' = cursor_data_generation (cursor_or_new (bs_db b) d g now)"
    using finish_batch_result[OF ok f] by (elim exE conjE) simp
  have s': "s' = ?m\<lparr>cursors := (cursors ?m)(d \<mapsto> c'), sequence_gaps := sequence_gaps s'\<rparr>"
  proof -
    define c where "c = cursor_or_new ?m d g now"
    have "0 \<le> highest_contiguous_sequence c" using cursor_or_new_nonneg[OF mok] by (simp add: c_def)
    from recalculate_cursor_result[OF gok c_def this] c'(1) show ?thesis by auto
  qed
  have ap: "appends s1 (bs_db b)" using ingest_loop_appends[OF l] by simp
  obtain c1 where c1: "same_but_gaps (s\<lparr>cursors := (cursors s)(d \<mapsto> c1)\<rparr>) s1"
    "cursor_data_generation c1 = g"
    using prepare_batch_result[OF p refl] by blast
  have "devices s' = devices ?m" "data_states s' = data_states ?m" by (subst s', simp)+
  then show "devices s' = devices s" "data_states s' = data_states s"
    using ap same_but_gaps_simps(1,2)[OF c1(1)] by (simp_all add: appends_def)
  have "cursors (bs_db b) d = Some c1"
    using same_but_gaps_simps(3)[OF c1(1)] ap by (simp add: appends_def)
  then show "\<exists>c'. cursors s' d = Some c' \<and> cursor_data_generation c' = response_data_generation resp"
    using c' c1(2) by (auto simp: cursor_or_new_def)
qed

lemma ingest_holds:
  assumes "db_ok s" and "ingest_readings H now d rs source dg fa ranges skew s = Inr (s', resp)"
    and "rejected resp = []" and "r \<in> set rs" and "now \<le> now'"
  shows "held H (batch_env d dv src' now' (response_data_generation resp) skew) s' r"
    and "not_future (batch_env d dv src' now' (response_data_generation resp) skew) r"
proof -
  obtain device g s1 b where p: "prepare_batch d rs fa ranges g now s = Inr s1"
    and l: "foldE (ingest_one H (batch_env d device source now g skew)) rs (empty_batch s1) = Inr b"
    and f: "finish_batch d device g now b = Inr (s', resp)"
    using assms(2) unfolding ingest_readings_phases by blast
  have ok: "db_ok (bs_db b)"
    using ingest_loop_db_ok[OF l] prepare_batch_db_ok[OF p assms(1)] by simp
  have r: "raw_readings s' = raw_readings (bs_db b)" "rejected resp = bs_rejected b"
    "response_data_generation resp = g"
    using finish_batch_result[OF ok f] by (elim exE conjE; simp)+
  have "held H (batch_env d device source now g skew) (bs_db b) r"
    "not_future (batch_env d device source now g skew) r"
    using ingest_loop_held[OF l _ assms(4)] r(2) assms(3) by auto
  then show "held H (batch_env d dv src' now' (response_data_generation resp) skew) s' r"
    "not_future (batch_env d dv src' now' (response_data_generation resp) skew) r"
    using r assms(5)
    by (auto simp: held_def not_future_def batch_env_def find_raw_def generation_rows_def)
qed

text \<open>The gate looks at the stored state of the device only.\<close>

lemma gate_cong:
  "data_states t = data_states s \<Longrightarrow>
   enforce_data_generation_gate t d rs dg ranges = enforce_data_generation_gate s d rs dg ranges"
  by (simp add: enforce_data_generation_gate_def)

lemma gate_generation:
  assumes "ingest_readings H now d rs source dg fa ranges skew s = Inr (s', resp)" and "db_ok s"
  shows "enforce_data_generation_gate s d rs dg ranges = Inr (response_data_generation resp)"
proof -
  obtain device g s1 b where g: "enforce_data_generation_gate s d rs dg ranges = Inr g"
    and f: "finish_batch d device g now b = Inr (s', resp)"
    using assms(1) unfolding ingest_readings_phases by blast
  then show ?thesis by (auto simp: finish_batch_def result_simps)
qed

lemma set_map_filter: "set (List.map_filter f xs) = {y. \<exists>x\<in>set xs. f x = Some y}"
  by (induction xs) (auto split: option.splits)

lemma remdups_shape:
  "remdups xs = [] \<Longrightarrow> set xs = {}"
  "remdups xs = [v] \<Longrightarrow> set xs = {v}"
  "remdups xs = v # w # ws \<Longrightarrow> v \<noteq> w \<and> {v, w} \<subseteq> set xs"
  using distinct_remdups[of xs] set_remdups[of xs] by auto

text \<open>A claimed generation is the one that the batch and every reading name.\<close>

lemma supplied_generation_iff:
  "(\<exists>x. supplied_generation dg rs = Inr x \<and> (case x of None \<Rightarrow> 0 | Some v \<Rightarrow> v) = g) \<longleftrightarrow>
     (\<forall>v. dg = Some v \<longrightarrow> v = g)
     \<and> (\<forall>r\<in>set rs. \<forall>v. rd_data_generation r = Some v \<longrightarrow> v = g)
     \<and> (dg = None \<and> (\<forall>r\<in>set rs. rd_data_generation r = None) \<longrightarrow> g = 0)"
proof -
  define gens where "gens = List.map_filter rd_data_generation rs"
  have mem: "(\<forall>r\<in>set rs. \<forall>v. rd_data_generation r = Some v \<longrightarrow> v = g) \<longleftrightarrow> (\<forall>v\<in>set gens. v = g)"
    "(\<forall>r\<in>set rs. rd_data_generation r = None) \<longleftrightarrow> set gens = {}"
    by (auto simp: gens_def set_map_filter) (metis not_None_eq)
  consider (nil) "remdups gens = []" | (one) v where "remdups gens = [v]"
    | (many) v w ws where "remdups gens = v # w # ws"
    by (metis neq_Nil_conv)
  then show ?thesis
  proof cases
    case nil
    then show ?thesis unfolding mem using remdups_shape(1)[OF nil]
      by (cases dg) (auto simp: supplied_generation_def gens_def[symmetric])
  next
    case one
    then show ?thesis unfolding mem using remdups_shape(2)[OF one]
      by (cases dg) (auto simp: supplied_generation_def gens_def[symmetric])
  next
    case many
    have "\<not> (\<forall>x\<in>set gens. x = g)" using remdups_shape(3)[OF many] by (metis insert_subset)
    with many show ?thesis unfolding mem
      by (simp add: supplied_generation_def gens_def[symmetric])
  qed
qed

end
