(* ===== verification/Ingestion_Runs.thy ===== *)
theory Ingestion_Runs
  imports Ingestion
begin

text \<open>
  Batches one after another: what a run of batches leaves in the tables, what exactly a batch
  appends, and what becomes of a batch that is sent again.
\<close>

section \<open>Exact losses\<close>

lemma put_permanent_gap_lost_iff:
  assumes "put_permanent_gap d now b s = Inr t"
  shows "lost t d' q \<longleftrightarrow> lost s d' q \<or> d' = d \<and> fst b \<le> q \<and> q \<le> snd b"
proof
  let ?f = "\<lambda>g. if gap_key g = (d, b) then g\<lparr>resolved_at := Some now, permanent_loss := True\<rparr> else g"
  assume "lost t d' q"
  then obtain y where y: "y \<in> set (sequence_gaps t)" "gap_device_id y = d'" "permanent_loss y"
    "resolved_at y \<noteq> None" "start_sequence y \<le> q" "q \<le> end_sequence y"
    unfolding lost_def by blast
  consider (upd) "sequence_gaps t = map ?f (sequence_gaps s)"
    | (new) "sequence_gaps t = sequence_gaps s @ [permanent_gap_row d now b]"
    using assms by (auto simp: put_permanent_gap_def split: if_splits dest: gaps.insert_rows)
  then show "lost s d' q \<or> d' = d \<and> fst b \<le> q \<and> q \<le> snd b"
  proof cases
    case upd
    then obtain x where x: "x \<in> set (sequence_gaps s)" "y = ?f x" using y(1) by auto
    show ?thesis
    proof (cases "gap_key x = (d, b)")
      case True
      with x y show ?thesis by (auto simp: gap_key_def)
    next
      case False
      with x y show ?thesis unfolding lost_def by auto
    qed
  next
    case new
    with y show ?thesis unfolding lost_def by (auto simp: permanent_gap_row_def)
  qed
qed (use put_permanent_gap_lost[OF assms] in blast)

lemma put_all_lost_iff:
  "foldE (put_permanent_gap d now) bs s = Inr t \<Longrightarrow>
   lost t d' q \<longleftrightarrow> lost s d' q \<or> d' = d \<and> q \<in> range_union bs"
proof (induction bs arbitrary: s)
  case (Cons b bs)
  then obtain u where u: "put_permanent_gap d now b s = Inr u"
    "foldE (put_permanent_gap d now) bs u = Inr t" by (auto simp: result_simps)
  show ?case using Cons.IH[OF u(2)] put_permanent_gap_lost_iff[OF u(1), of d' q] by (cases b) auto
qed simp

section \<open>What a batch keeps\<close>

lemma prepare_batch_lost_mono:
  assumes "prepare_batch d rs fa ranges g now s = Inr t" and "lost s d' q"
  shows "lost t d' q"
proof -
  let ?s1 = "ensure_cursor d g now s"
  obtain u where u: "bootstrap_cursor d rs fa g now ?s1 = Inr u"
    and t: "foldE (put_permanent_gap d now) (segments (unavailable_sequences u d g ranges)) u = Inr t"
    using assms(1)
    by (auto simp: prepare_batch_def record_permanent_loss_ranges_def Let_def result_simps split: if_splits)
  have c: "lost (x\<lparr>cursors := f\<rparr>) d' q = lost x d' q" for x f by (simp add: lost_def)
  have "lost ?s1 d' q" using assms(2) by (simp add: ensure_cursor_def c)
  then have "lost u d' q"
    using u c by (auto simp: bootstrap_cursor_def split: option.splits dest: put_permanent_gap_lost(1))
  then show ?thesis by (rule put_all_lost[OF t])
qed

lemma ingest_keeps_history:
  assumes "db_ok s" and "ingest_readings H now d rs source dg fa ranges skew s = Inr (s', resp)"
  shows "accounted s d' g' q \<Longrightarrow> accounted s' d' g' q" and "d' \<noteq> d \<Longrightarrow> cursors s' d' = cursors s d'"
proof -
  obtain device g s1 b where p: "prepare_batch d rs fa ranges g now s = Inr s1"
    and l: "foldE (ingest_one H (batch_env d device source now g skew)) rs (empty_batch s1) = Inr b"
    and f: "finish_batch d device g now b = Inr (s', resp)"
    using assms(2) unfolding ingest_readings_phases by blast
  have ok: "db_ok (bs_db b)"
    using ingest_loop_db_ok[OF l] prepare_batch_db_ok[OF p assms(1)] by simp
  obtain c' where c': "cursors s' = (cursors (bs_db b))(d \<mapsto> c')"
    "\<forall>d' g' q. accounted s' d' g' q = accounted (bs_db b) d' g' q"
    using finish_batch_result[OF ok f] by (elim exE conjE) simp
  have ap: "appends s1 (bs_db b)" using ingest_loop_appends[OF l] by simp
  obtain c1 where c1: "same_but_gaps (s\<lparr>cursors := (cursors s)(d \<mapsto> c1)\<rparr>) s1"
    using prepare_batch_result[OF p refl] by blast
  show "accounted s' d' g' q" if a: "accounted s d' g' q"
  proof -
    have "stored s1 d' g' q = stored s d' g' q"
      using same_but_gaps_generation_rows[OF c1] by (simp add: stored_def)
    then have "accounted s1 d' g' q" using a prepare_batch_lost_mono[OF p] by blast
    then have "accounted (bs_db b) d' g' q"
      using ap by (auto simp: stored_def lost_def generation_rows_def appends_def prefix_def)
    then show ?thesis using c'(2) by simp
  qed
  show "cursors s' d' = cursors s d'" if "d' \<noteq> d"
    using that c'(1) ap same_but_gaps_simps(3)[OF c1] by (simp add: appends_def)
qed

section \<open>Runs of batches\<close>

inductive ingest_run :: "(reading \<Rightarrow> string) \<Rightarrow> db \<Rightarrow> db \<Rightarrow> bool" for H where
  start: "ingest_run H s s"
| batch: "ingest_run H s t \<Longrightarrow> ingest_readings H now d rs source dg fa ranges skew t = Inr (u, resp)
    \<Longrightarrow> ingest_run H s u"

text \<open>The acknowledged sequence of a device, zero before its first contact, and its committed generation.\<close>

definition acknowledged :: "db \<Rightarrow> string \<Rightarrow> int" where
  "acknowledged s d = (case cursors s d of None \<Rightarrow> 0 | Some c \<Rightarrow> highest_contiguous_sequence c)"

definition committed_generation :: "db \<Rightarrow> string \<Rightarrow> int" where
  "committed_generation s d = (case data_states s d of None \<Rightarrow> 0 | Some x \<Rightarrow> ds_data_generation x)"

lemma acknowledged_cursor: "highest_contiguous_sequence (cursor_or_new s d g now) = acknowledged s d"
  by (simp add: cursor_or_new_def new_cursor_def acknowledged_def split: option.splits)

lemma batch_generation:
  assumes "db_ok s" and "ingest_readings H now d rs source dg fa ranges skew s = Inr (s', resp)"
  shows "response_data_generation resp = committed_generation s d"
  using gate_generation[OF assms(2,1)] unfolding enforce_data_generation_gate_def Let_def committed_generation_def
  by (auto simp: result_simps split: if_splits option.splits)

lemma batch_cursor_exact:
  assumes "db_ok s" and "ingest_readings H now d rs source dg fa ranges skew s = Inr (s', resp)"
  shows "acknowledged s d \<le> acknowledged s' d"
    and "acknowledged s d < q \<Longrightarrow> q \<le> acknowledged s' d \<Longrightarrow> accounted s' d (committed_generation s d) q"
    and "\<not> accounted s' d (committed_generation s d) (acknowledged s' d + 1)"
    and "\<exists>c. cursors s' d = Some c \<and> highest_contiguous_sequence c = highest_contiguous_accepted_sequence resp"
    and "acknowledged s' d = highest_contiguous_accepted_sequence resp"
proof -
  let ?g = "committed_generation s d"
  let ?c = "cursor_or_new s d ?g now"
  obtain m c1 c' where m: "gaps_ok m" "c1 = cursor_or_new m d ?g now"
    "0 \<le> highest_contiguous_sequence c1" "recalculate_cursor d now ?g m = Inr (c', s')"
    and acc: "\<forall>q. accounted m d ?g q = accounted s' d ?g q"
    and old: "highest_contiguous_sequence ?c \<le> highest_contiguous_sequence c1"
      "\<forall>q. highest_contiguous_sequence ?c < q \<and> q \<le> highest_contiguous_sequence c1 \<longrightarrow> accounted s' d ?g q"
    and new: "cursors s' d = Some c'"
      "highest_contiguous_accepted_sequence resp = highest_contiguous_sequence c'"
    using ingest_recalculation[OF assms refl refl] batch_generation[OF assms] by auto
  have a: "highest_contiguous_sequence ?c = acknowledged s d" "acknowledged s' d = highest_contiguous_sequence c'"
    using new(1) by (simp_all add: acknowledged_cursor) (simp add: acknowledged_def)
  note adv = cursor_advances[OF m]
  show "acknowledged s d \<le> acknowledged s' d" using adv(1) old(1) a by simp
  show "accounted s' d ?g q" if "acknowledged s d < q" "q \<le> acknowledged s' d" for q
    using old(2) adv(2)[of q] acc that a by (cases "q \<le> highest_contiguous_sequence c1") auto
  show "\<not> accounted s' d ?g (acknowledged s' d + 1)" using adv(3) acc a by simp
  show "\<exists>c. cursors s' d = Some c \<and> highest_contiguous_sequence c = highest_contiguous_accepted_sequence resp"
    "acknowledged s' d = highest_contiguous_accepted_sequence resp"
    using new a by auto
qed

lemma run_history:
  assumes "ingest_run H s t" and "db_ok s"
  shows "db_ok t \<and> data_states t = data_states s \<and>
    (\<forall>d. acknowledged s d \<le> acknowledged t d \<and>
      (\<forall>q. acknowledged s d < q \<and> q \<le> acknowledged t d \<longrightarrow> accounted t d (committed_generation s d) q))"
  using assms
proof induction
  case (batch s t now d rs source dg fa ranges skew u resp)
  then have t: "db_ok t" "data_states t = data_states s"
    "\<And>d. acknowledged s d \<le> acknowledged t d"
    "\<And>d q. acknowledged s d < q \<Longrightarrow> q \<le> acknowledged t d \<Longrightarrow> accounted t d (committed_generation s d) q"
    by blast+
  note b = batch_cursor_exact[OF t(1) batch.hyps(2)]
  note k = ingest_keeps_history[OF t(1) batch.hyps(2)]
  have g: "committed_generation t d' = committed_generation s d'" for d'
    using t(2) by (simp add: committed_generation_def)
  have other: "acknowledged u d' = acknowledged t d'" if "d' \<noteq> d" for d'
    using k(2)[OF that] by (simp add: acknowledged_def)
  have le: "acknowledged t d' \<le> acknowledged u d'" for d' using b(1) other by (cases "d' = d") auto
  have "accounted u d' (committed_generation s d') q"
    if "acknowledged s d' < q" "q \<le> acknowledged u d'" for d' q
  proof (cases "q \<le> acknowledged t d'")
    case True
    then show ?thesis using t(4)[OF that(1)] k(1) by blast
  next
    case False
    then have "d' = d" using other that(2) by fastforce
    with False that(2) b(2)[of q] g show ?thesis by simp
  qed
  moreover have "acknowledged s d' \<le> acknowledged u d'" for d' using le t(3) order_trans by blast
  ultimately show ?case
    using ingest_readings_db_ok[OF t(1) batch.hyps(2)] ingest_keeps_configuration(2)[OF t(1) batch.hyps(2)] t(2)
    by simp
qed auto

section \<open>What exactly a batch appends\<close>

definition interval_of :: "string \<Rightarrow> nat \<times> reading \<Rightarrow> normalized_interval" where
  "interval_of d = (\<lambda>(u, r). \<lparr>ni_raw_reading_id = u, ni_device_id = d, ni_interval_start = rd_interval_start r,
     ni_interval_end = rd_interval_end r, ni_selection = normalize_energy 10 r\<rparr>)"

definition row_of :: "(reading \<Rightarrow> string) \<Rightarrow> ingest_env \<Rightarrow> nat \<times> reading \<Rightarrow> raw_reading" where
  "row_of H env = (\<lambda>(u, r). to_raw H u (env_device_id env) (dev_site_id (env_device env)) r (env_source env)
     (env_now env) (env_generation env))"

definition appended :: "(reading \<Rightarrow> string) \<Rightarrow> ingest_env \<Rightarrow> batch_state \<Rightarrow> batch_state \<Rightarrow> reading list \<Rightarrow> bool" where
  "appended H env b b' as \<longleftrightarrow>
     next_uuid (bs_db b') = next_uuid (bs_db b) + length as
     \<and> bs_accepted b' = bs_accepted b @ map rd_sequence as
     \<and> raw_readings (bs_db b') = raw_readings (bs_db b) @ map (row_of H env) (enumerate (next_uuid (bs_db b)) as)
     \<and> normalized_intervals (bs_db b') = normalized_intervals (bs_db b)
         @ map (interval_of (env_device_id env)) (enumerate (next_uuid (bs_db b)) as)
     \<and> (\<forall>r\<in>set as. not_future env r)"

lemma appended_refl [simp]: "appended H env b b []"
  by (simp add: appended_def)

lemma appended_trans: "appended H env a b us \<Longrightarrow> appended H env b c vs \<Longrightarrow> appended H env a c (us @ vs)"
  by (auto simp: appended_def enumerate_append_eq add.commute)

lemma ingest_one_appended:
  "ingest_one H env r b = Inr b' \<Longrightarrow> appended H env b b' [] \<or> appended H env b b' [r]"
  by (auto simp: ingest_one_def store_reading_def Let_def result_simps reject_def add_event_cases
      add_raw_cases appended_def row_of_def interval_of_def to_raw_def not_future_def split: if_splits option.splits)

lemma ingest_loop_appended:
  "foldE (ingest_one H env) rs b = Inr b' \<Longrightarrow> \<exists>as. subseq as rs \<and> appended H env b b' as"
proof (induction rs arbitrary: b)
  case Nil
  then show ?case by (intro exI[of _ "[]"]) simp
next
  case (Cons r rs)
  then obtain u where u: "ingest_one H env r b = Inr u" "foldE (ingest_one H env) rs u = Inr b'"
    by (auto simp: result_simps)
  obtain as where as: "subseq as rs" "appended H env u b' as" using Cons.IH[OF u(2)] by blast
  from ingest_one_appended[OF u(1)] show ?case
  proof
    assume "appended H env b u []"
    from appended_trans[OF this as(2)] as(1) show ?thesis by auto
  next
    assume "appended H env b u [r]"
    from appended_trans[OF this as(2)] as(1) show ?thesis by auto
  qed
qed

lemma same_but_gaps_uuid: "same_but_gaps (s\<lparr>cursors := f\<rparr>) t \<Longrightarrow> next_uuid t = next_uuid s"
  by (cases s; cases t) (simp add: same_but_gaps_def)

lemma ingest_readings_appended:
  assumes "db_ok s" and "ingest_readings H now d rs source dg fa ranges skew s = Inr (s', resp)"
  shows "\<exists>device as. devices s d = Some device \<and> subseq as rs \<and> accepted resp = map rd_sequence as
    \<and> raw_readings s' = raw_readings s
        @ map (row_of H (batch_env d device source now (response_data_generation resp) skew)) (enumerate (next_uuid s) as)
    \<and> normalized_intervals s' = normalized_intervals s @ map (interval_of d) (enumerate (next_uuid s) as)
    \<and> (\<forall>r\<in>set as. rd_interval_end r \<le> now + skew * 10 ^ 6)"
proof -
  obtain device g s1 b where dev: "devices s d = Some device"
    and p: "prepare_batch d rs fa ranges g now s = Inr s1"
    and l: "foldE (ingest_one H (batch_env d device source now g skew)) rs (empty_batch s1) = Inr b"
    and f: "finish_batch d device g now b = Inr (s', resp)"
    using assms(2) unfolding ingest_readings_phases by blast
  have ok: "db_ok (bs_db b)"
    using ingest_loop_db_ok[OF l] prepare_batch_db_ok[OF p assms(1)] by simp
  obtain c1 where c1: "same_but_gaps (s\<lparr>cursors := (cursors s)(d \<mapsto> c1)\<rparr>) s1"
    using prepare_batch_result[OF p refl] by blast
  have s1: "raw_readings s1 = raw_readings s" "normalized_intervals s1 = normalized_intervals s"
    "next_uuid s1 = next_uuid s"
    using same_but_gaps_simps[OF c1] same_but_gaps_uuid[OF c1] by simp_all
  obtain as where as: "subseq as rs" "appended H (batch_env d device source now g skew) (empty_batch s1) b as"
    using ingest_loop_appended[OF l] by blast
  have fin: "raw_readings s' = raw_readings (bs_db b)" "normalized_intervals s' = normalized_intervals (bs_db b)"
    "accepted resp = bs_accepted b" "response_data_generation resp = g"
    using finish_batch_result[OF ok f] by (elim exE conjE; simp)+
  show ?thesis
    using as fin dev s1 by (intro exI[of _ device] exI[of _ as])
      (simp add: appended_def not_future_def batch_env_def)
qed

section \<open>Conflicting readings\<close>

text \<open>A reading conflicts with the stored one when their hashes differ; the event of the conflict may be stored.\<close>

definition conflict_reported :: "(reading \<Rightarrow> string) \<Rightarrow> ingest_env \<Rightarrow> db \<Rightarrow> reading \<Rightarrow> bool" where
  "conflict_reported H env s r \<longleftrightarrow> not_future env r \<and>
     (\<exists>w. find_raw s (env_device_id env) (env_generation env) (rd_sequence r) = Some w
        \<and> raw_record_hash w \<noteq> incoming_hash H r
        \<and> event_key (conflict_event (env_device_id env) (env_now env) (rd_sequence r) (raw_record_hash w)
            (incoming_hash H r)) \<in> event_key ` set (device_events s))"

lemma ingest_one_events: "ingest_one H env r b = Inr b' \<Longrightarrow> prefix (device_events (bs_db b)) (device_events (bs_db b'))"
  by (auto simp: ingest_one_def store_reading_def Let_def result_simps reject_def add_event_cases
      add_raw_cases split: if_splits option.splits)

lemma ingest_loop_events:
  "foldE (ingest_one H env) rs b = Inr b' \<Longrightarrow> prefix (device_events (bs_db b)) (device_events (bs_db b'))"
  by (rule foldE_invariant[where P = "\<lambda>x. prefix (device_events (bs_db b)) (device_events (bs_db x))"])
     (auto dest: ingest_one_events intro: prefix_order.trans)

lemma conflict_reported_mono:
  assumes "conflict_reported H env s r" "appends s t" "prefix (device_events s) (device_events t)"
  shows "conflict_reported H env t r"
  using assms find_raw_appends[OF _ assms(2)] unfolding conflict_reported_def by (blast dest: set_mono_prefix)

lemma ingest_one_conflict:
  assumes "ingest_one H env r b = Inr b'" "x \<in> set (bs_rejected b')" "x \<notin> set (bs_rejected b)"
    "rej_code x = ''conflicting_duplicate''"
  shows "conflict_reported H env (bs_db b') r"
  using assms
  by (auto simp: ingest_one_def store_reading_def Let_def result_simps reject_def add_event_cases
      conflict_reported_def not_future_def find_raw_def generation_rows_def split: if_splits option.splits)

lemma ingest_loop_conflict:
  "foldE (ingest_one H env) rs b = Inr b' \<Longrightarrow> x \<in> set (bs_rejected b') \<Longrightarrow> x \<notin> set (bs_rejected b) \<Longrightarrow>
   rej_code x = ''conflicting_duplicate'' \<Longrightarrow> \<exists>r\<in>set rs. conflict_reported H env (bs_db b') r"
proof (induction rs arbitrary: b)
  case (Cons r rs)
  then obtain u where u: "ingest_one H env r b = Inr u" "foldE (ingest_one H env) rs u = Inr b'"
    by (auto simp: result_simps)
  show ?case
  proof (cases "x \<in> set (bs_rejected u)")
    case True
    from ingest_one_conflict[OF u(1) this Cons.prems(3,4)]
    have "conflict_reported H env (bs_db b') r"
      by (rule conflict_reported_mono[OF _ ingest_loop_appends[OF u(2)] ingest_loop_events[OF u(2)]])
    then show ?thesis by auto
  next
    case False
    with Cons.IH[OF u(2) Cons.prems(2) _ Cons.prems(4)] show ?thesis by auto
  qed
qed simp

lemma ingest_one_error: "ingest_one H env r b = Inl e \<Longrightarrow> \<exists>k. e = IntegrityError k"
  by (auto simp: ingest_one_def store_reading_def Let_def result_simps add_event_def add_raw_def
      split: if_splits option.splits)

lemma ingest_loop_error: "foldE (ingest_one H env) rs b = Inl e \<Longrightarrow> \<exists>k. e = IntegrityError k"
  by (induction rs arbitrary: b) (auto simp: bindE_def split: sum.splits dest: ingest_one_error)

lemma conflict_repeated:
  assumes "conflict_reported H env (bs_db b) r"
  shows "ingest_one H env r b = Inl (IntegrityError ''uq_device_event'')"
  using assms by (auto simp: conflict_reported_def ingest_one_def not_future_def add_event_def)

text \<open>The name of the event does not contain the time.\<close>

lemma conflict_reported_later:
  assumes "conflict_reported H (batch_env d dv src now g skew) s r" "now \<le> now'"
  shows "conflict_reported H (batch_env d dv' src' now' g skew) s r"
  using assms by (auto simp: conflict_reported_def batch_env_def not_future_def event_key_def conflict_event_def)

lemma ingest_loop_conflict_fails:
  assumes "r \<in> set rs" "conflict_reported H env (bs_db b) r"
  shows "\<exists>k. foldE (ingest_one H env) rs b = Inl (IntegrityError k)"
proof -
  obtain xs ys where rs: "rs = xs @ r # ys" using assms(1) by (meson split_list)
  show ?thesis
  proof (cases "foldE (ingest_one H env) xs b")
    case (Inl e)
    then show ?thesis using ingest_loop_error[OF Inl] by (auto simp: rs foldE_append)
  next
    case (Inr u)
    have "ingest_one H env r u = Inl (IntegrityError ''uq_device_event'')"
      using conflict_reported_mono[OF assms(2) ingest_loop_appends[OF Inr] ingest_loop_events[OF Inr]]
      by (rule conflict_repeated)
    with Inr show ?thesis by (simp add: rs foldE_append)
  qed
qed

end
