(* ===== verification/Ingestion_Properties.thy ===== *)
theory Ingestion_Properties
  imports Ingestion_Runs
begin

text \<open>
  The properties of the ingestion service, each with a witness on a small database: one
  sensor, an empty history and readings of one minute.
\<close>

section \<open>A small database\<close>

definition sample_reading :: "int \<Rightarrow> string \<Rightarrow> reading" where
  "sample_reading q h =
     \<lparr>rd_data_generation = Some 0, rd_sequence = q, rd_boot_id = ''b'',
      rd_interval_start = q * 60000000, rd_interval_end = (q + 1) * 60000000,
      rd_time_trusted = True, rd_voltage_avg = None, rd_voltage_min = None, rd_voltage_max = None,
      rd_current_avg = None, rd_current_min = None, rd_current_max = None,
      rd_power_avg = Some 600, rd_power_min = None, rd_power_max = None, rd_power_factor = None,
      rd_frequency_hz = None, rd_pzem_energy_start_wh = None, rd_pzem_energy_end_wh = None,
      rd_device_lifetime_energy_wh = None, rd_interval_energy_wh = Some 10,
      rd_energy_method = ''power_integration'', rd_ct_rating_amps = 100, rd_quality_flags = [],
      rd_firmware_version = ''1'', rd_record_hash = Some h\<rparr>"

definition sample_db :: db where
  "sample_db =
     \<lparr>devices = [''d'' \<mapsto> \<lparr>dev_site_id = ''s'', dev_utility_account_id = Some ''a''\<rparr>],
      data_states = Map.empty, cursors = Map.empty, raw_readings = [], normalized_intervals = [],
      sequence_gaps = [], device_events = [],
      billing_cycles =
        [\<lparr>bc_utility_account_id = ''a'', bc_starts_at = 0, bc_ends_at = 86400000000,
          bc_status = ''expected'', bc_updated_at = 0, bc_finalized_at = None\<rparr>,
         \<lparr>bc_utility_account_id = ''a'', bc_starts_at = 0, bc_ends_at = 86400000000,
          bc_status = ''finalized'', bc_updated_at = 0, bc_finalized_at = Some 5\<rparr>],
      next_uuid = 0\<rparr>"

definition no_hash :: "reading \<Rightarrow> string" where
  "no_hash r = ''0''"

abbreviation ingest_sample :: "reading list \<Rightarrow> db \<Rightarrow> ingest_error + (db \<times> batch_response)" where
  "ingest_sample rs s \<equiv> ingest_readings no_hash 600000000 ''d'' rs ''push'' (Some 0) None [] 300 s"

lemma sample_db_ok: "db_ok sample_db"
  by (simp add: sample_db_def db_ok_def gaps_ok_def raws.unique_def gaps.unique_def events.unique_def)

definition sample_batch :: "reading list" where
  "sample_batch = [sample_reading 1 ''x'', sample_reading 2 ''y'', sample_reading 5 ''z'']"

text \<open>Three readings with a hole: sequences 3 and 4 are missing.\<close>

lemma sample_ingested:
  "\<exists>s r. ingest_sample sample_batch sample_db = Inr (s, r)
     \<and> accepted r = [1, 2, 5] \<and> rejected r = [] \<and> highest_contiguous_accepted_sequence r = 2
     \<and> missing_ranges r = [(3, 4)] \<and> response_data_generation r = 0
     \<and> map bc_status (billing_cycles s) = [''recalculating'', ''finalized'']"
  by (rule returned_pair) code_simp

lemma sample_cursor: "highest_contiguous_sequence (cursor_or_new sample_db ''d'' 0 600000000) = 0"
  "cursor_reset_boundary (cursor_or_new sample_db ''d'' 0 600000000) = 0"
  by (simp_all add: cursor_or_new_def sample_db_def new_cursor_def)

section \<open>The cursor and the gap table\<close>

text \<open>C1. The acknowledged cursor is exact.  Let any number of batches of any devices be ingested, starting
  from a database that meets the invariant.  The acknowledged sequence of a device never moves back; every
  sequence from where its cursor stood at the start (zero for a device that was never seen, the boundary
  after a reset or a new enrolment) up to the acknowledged one is stored in the committed generation or
  recorded as a permanent loss, and the next sequence is neither.  The answer of the last batch is the
  cursor in the database.\<close>

theorem ingest_cursor_exact:
  assumes "db_ok s0" and "ingest_run H s0 s"
    and "ingest_readings H now d rs source dg fa ranges skew s = Inr (s', resp)"
  shows "(case cursors s d of None \<Rightarrow> 0 | Some c \<Rightarrow> highest_contiguous_sequence c)
           \<le> highest_contiguous_accepted_sequence resp
    \<and> (\<forall>q. (case cursors s0 d of None \<Rightarrow> 0 | Some c \<Rightarrow> highest_contiguous_sequence c) < q
           \<and> q \<le> highest_contiguous_accepted_sequence resp
           \<longrightarrow> accounted s' d (response_data_generation resp) q)
    \<and> \<not> accounted s' d (response_data_generation resp)
           (highest_contiguous_accepted_sequence resp + 1)
    \<and> map_option highest_contiguous_sequence (cursors s' d)
        = Some (highest_contiguous_accepted_sequence resp)"
proof -
  have ok: "db_ok s" "data_states s = data_states s0" using run_history[OF assms(2,1)] by blast+
  note b = batch_cursor_exact[OF ok(1) assms(3)]
  have g: "response_data_generation resp = committed_generation s0 d"
    "committed_generation s d = committed_generation s0 d"
    using batch_generation[OF ok(1) assms(3)] ok(2) by (simp_all add: committed_generation_def)
  have "ingest_run H s0 s'" by (rule ingest_run.batch[OF assms(2,3)])
  then have "accounted s' d (committed_generation s0 d) q"
    if "acknowledged s0 d < q" "q \<le> acknowledged s' d" for q
    using run_history assms(1) that by blast
  then show ?thesis using b g unfolding acknowledged_def[symmetric] by auto
qed

theorem ingest_cursor_exact_witness:
  "\<exists>s r. ingest_sample sample_batch sample_db = Inr (s, r) \<and> db_ok sample_db
     \<and> highest_contiguous_accepted_sequence r = 2 \<and> accounted s ''d'' 0 1 \<and> accounted s ''d'' 0 2
     \<and> \<not> accounted s ''d'' 0 3"
proof -
  obtain s r where r: "ingest_sample sample_batch sample_db = Inr (s, r)"
    "highest_contiguous_accepted_sequence r = 2" "response_data_generation r = 0"
    using sample_ingested by blast
  have "cursors sample_db ''d'' = None" by (simp add: sample_db_def)
  then show ?thesis
    using ingest_cursor_exact[OF sample_db_ok ingest_run.start r(1)] r sample_db_ok by auto
qed

text \<open>C2. The missing ranges are exact.  The ranges reported to the sensor cover exactly the
  sequences between the acknowledged one and the highest stored one that are neither
  stored nor recorded as lost, provided the cursor starts at or above the reset boundary.\<close>

theorem ingest_missing_ranges_exact:
  assumes "db_ok s"
    and "ingest_readings H now d rs source dg fa ranges skew s = Inr (s', resp)"
    and "cursor_reset_boundary (cursor_or_new s d (response_data_generation resp) now)
      \<le> highest_contiguous_sequence (cursor_or_new s d (response_data_generation resp) now)"
  shows "range_union (missing_ranges resp) =
    {q. highest_contiguous_accepted_sequence resp < q
      \<and> q \<le> top_sequence s' d (response_data_generation resp)
      \<and> \<not> accounted s' d (response_data_generation resp) q}"
proof -
  let ?g = "response_data_generation resp"
  let ?c = "cursor_or_new s d ?g now"
  obtain m c1 c' where m: "gaps_ok m" "c1 = cursor_or_new m d ?g now"
    "0 \<le> highest_contiguous_sequence c1" "recalculate_cursor d now ?g m = Inr (c', s')"
    and raw: "raw_readings m = raw_readings s'"
    and acc: "\<forall>q. accounted m d ?g q = accounted s' d ?g q"
    and old: "highest_contiguous_sequence ?c \<le> highest_contiguous_sequence c1"
      "cursor_reset_boundary c1 = cursor_reset_boundary ?c"
    and new: "missing_ranges resp = open_gaps s' d"
      "highest_contiguous_accepted_sequence resp = highest_contiguous_sequence c'"
    using ingest_recalculation[OF assms(1,2) refl refl] by blast
  have "top_sequence m d ?g = top_sequence s' d ?g"
    using raw by (simp add: top_sequence_def generation_rows_def)
  moreover have "cursor_reset_boundary c1 \<le> max (highest_contiguous_sequence c1) (top_sequence m d ?g)"
    using assms(3) old by simp
  ultimately show ?thesis
    using recalculated_gaps_exact[OF m(1-3) _ m(4)] acc new by simp
qed

theorem ingest_missing_ranges_exact_witness:
  "\<exists>s r. ingest_sample sample_batch sample_db = Inr (s, r) \<and> missing_ranges r = [(3, 4)]
     \<and> {3..4} = {q. 2 < q \<and> q \<le> top_sequence s ''d'' 0 \<and> \<not> accounted s ''d'' 0 q}"
proof -
  obtain s r where r: "ingest_sample sample_batch sample_db = Inr (s, r)"
    "highest_contiguous_accepted_sequence r = 2" "response_data_generation r = 0"
    "missing_ranges r = [(3, 4)]"
    using sample_ingested by blast
  show ?thesis
    using ingest_missing_ranges_exact[OF sample_db_ok r(1)] r by (auto simp: sample_cursor)
qed

section \<open>Raw readings\<close>

text \<open>C5. Stored readings are immutable and unique, and a batch stores what was sent.  A successful batch
  keeps the database invariant and only appends rows.  The accepted readings are a subsequence of the
  batch; the i-th of them gives the i-th new raw row, with the identifiers of the device, its site and the
  committed generation, and with the sequence, times, power, energy, hash and payload of the reading, and
  the i-th new normalised interval, which names that row, has the times of the reading and the energy
  selected for it.  No accepted reading ends later than the permitted clock skew.\<close>

theorem ingest_appends_accepted:
  assumes "db_ok s"
    and "ingest_readings H now d rs source dg fa ranges skew s = Inr (s', resp)"
  shows "db_ok s' \<and> (\<exists>device as ws ns. devices s d = Some device \<and> subseq as rs
    \<and> accepted resp = map rd_sequence as
    \<and> raw_readings s' = raw_readings s @ ws \<and> normalized_intervals s' = normalized_intervals s @ ns
    \<and> length ws = length as \<and> length ns = length as
    \<and> (\<forall>i<length as. let r = as ! i; w = ws ! i; n = ns ! i in
         raw_id w = next_uuid s + i \<and> raw_device_id w = d \<and> raw_site_id w = dev_site_id device
         \<and> raw_data_generation w = response_data_generation resp
         \<and> raw_sequence w = rd_sequence r \<and> raw_boot_id w = rd_boot_id r
         \<and> raw_interval_start w = rd_interval_start r \<and> raw_interval_end w = rd_interval_end r
         \<and> raw_time_trusted w = rd_time_trusted r \<and> raw_power_avg w = rd_power_avg r
         \<and> raw_device_interval_energy_wh w = rd_interval_energy_wh r
         \<and> raw_record_hash w = (case rd_record_hash r of Some h \<Rightarrow> if h = [] then H r else h | None \<Rightarrow> H r)
         \<and> raw_original_payload w = r \<and> raw_ingestion_source w = source \<and> raw_ingested_at w = now
         \<and> raw_interval_end w \<le> now + skew * 10 ^ 6
         \<and> ni_raw_reading_id n = raw_id w \<and> ni_device_id n = d
         \<and> ni_interval_start n = rd_interval_start r \<and> ni_interval_end n = rd_interval_end r
         \<and> ni_selection n = normalize_energy 10 r))"
proof -
  obtain device as where a: "devices s d = Some device" "subseq as rs" "accepted resp = map rd_sequence as"
    "raw_readings s' = raw_readings s
        @ map (row_of H (batch_env d device source now (response_data_generation resp) skew)) (enumerate (next_uuid s) as)"
    "normalized_intervals s' = normalized_intervals s @ map (interval_of d) (enumerate (next_uuid s) as)"
    "\<forall>r\<in>set as. rd_interval_end r \<le> now + skew * 10 ^ 6"
    using ingest_readings_appended[OF assms] by blast
  then show ?thesis using ingest_readings_db_ok[OF assms]
    by (intro conjI exI[of _ device] exI[of _ as]
          exI[of _ "map (row_of H (batch_env d device source now (response_data_generation resp) skew)) (enumerate (next_uuid s) as)"]
          exI[of _ "map (interval_of d) (enumerate (next_uuid s) as)"])
       (auto simp: nth_enumerate_eq row_of_def interval_of_def to_raw_def batch_env_def incoming_hash_def truthy_def
         split: option.splits)
qed

theorem ingest_appends_accepted_witness:
  "\<exists>s r. ingest_sample sample_batch sample_db = Inr (s, r) \<and> db_ok s
     \<and> map raw_sequence (raw_readings s) = [1, 2, 5]
     \<and> map ni_interval_start (normalized_intervals s) = [60000000, 120000000, 300000000]"
proof -
  obtain s r where r: "ingest_sample sample_batch sample_db = Inr (s, r)" "accepted r = [1, 2, 5]"
    using sample_ingested by blast
  have e: "raw_readings sample_db = []" "normalized_intervals sample_db = []" by (simp_all add: sample_db_def)
  obtain as ws ns where a: "subseq as sample_batch" "map rd_sequence as = [1, 2, 5]"
    "raw_readings s = ws" "normalized_intervals s = ns" "length ws = length as" "length ns = length as"
    "\<forall>i<length as. raw_sequence (ws ! i) = rd_sequence (as ! i) \<and> ni_interval_start (ns ! i) = rd_interval_start (as ! i)"
    and ok: "db_ok s"
    using ingest_appends_accepted[OF sample_db_ok r(1)] unfolding r(2) e Let_def by auto
  have "length as = 3" using arg_cong[OF a(2), of length] by simp
  then have "as = sample_batch" using a(1) subseq_same_length[of as sample_batch] by (simp add: sample_batch_def)
  then have "map raw_sequence ws = map rd_sequence sample_batch"
    "map ni_interval_start ns = map rd_interval_start sample_batch"
    using a(5-7) by (auto intro!: nth_equalityI)
  then show ?thesis using r(1) ok a(3,4) by (auto simp: sample_batch_def sample_reading_def)
qed

text \<open>C6. Every reading is answered once.  The accepted, duplicate and rejected sequences of
  the response together are the sequences of the batch, with multiplicity.\<close>

theorem ingest_answers_every_reading:
  assumes "ingest_readings H now d rs source dg fa ranges skew s = Inr (s', resp)"
  shows "mset (map rd_sequence rs)
    = mset (accepted resp) + mset (duplicates resp) + mset (map rej_sequence (rejected resp))"
proof -
  obtain device g s1 b where p: "prepare_batch d rs fa ranges g now s = Inr s1"
    and l: "foldE (ingest_one H (batch_env d device source now g skew)) rs (empty_batch s1) = Inr b"
    and f: "finish_batch d device g now b = Inr (s', resp)"
    using assms unfolding ingest_readings_phases by blast
  have "accepted resp = bs_accepted b" "duplicates resp = bs_duplicates b"
    "rejected resp = bs_rejected b"
    using f by (auto simp: finish_batch_def result_simps)
  then show ?thesis using ingest_loop_answers[OF l] by (simp add: answered_def add.assoc)
qed

theorem ingest_answers_every_reading_witness:
  "\<exists>s r. ingest_sample sample_batch sample_db = Inr (s, r)
     \<and> {#1, 2, 5#} = mset (accepted r) + mset (duplicates r) + mset (map rej_sequence (rejected r))"
proof -
  obtain s r where r: "ingest_sample sample_batch sample_db = Inr (s, r)"
    using sample_ingested by blast
  show ?thesis
    using ingest_answers_every_reading[OF r] r by (simp add: sample_batch_def sample_reading_def)
qed

text \<open>C3. Delivery is idempotent.  When a batch without rejections is delivered again, by
  push or by pull, at a later time and whatever the sensor then reports as its oldest
  record, the second delivery succeeds: it accepts nothing, answers every reading as a
  duplicate and leaves the stored readings as they are.\<close>

theorem ingest_retry_idempotent:
  assumes ok: "db_ok s"
    and first: "ingest_readings H now d rs source dg fa ranges skew s = Inr (s', resp)"
    and "rejected resp = []" and "now \<le> now'" and "positive_ranges ranges"
    and "source' \<in> {''pull'', ''push''}"
  shows "\<exists>s'' resp'. ingest_readings H now' d rs source' dg fa' ranges skew s' = Inr (s'', resp')
    \<and> accepted resp' = [] \<and> rejected resp' = [] \<and> duplicates resp' = map rd_sequence rs
    \<and> raw_readings s'' = raw_readings s'"
proof -
  let ?g = "response_data_generation resp"
  obtain device where dev: "devices s d = Some device"
    using first unfolding ingest_readings_phases by blast
  have ok': "db_ok s'" by (rule ingest_readings_db_ok[OF ok first])
  note keep = ingest_keeps_configuration[OF ok first]
  have gate: "enforce_data_generation_gate s' d rs dg ranges = Inr ?g"
    using gate_generation[OF first ok] gate_cong[OF keep(2)] by simp
  have "cursor_data_generation (cursor_or_new s' d ?g now') = ?g"
    using keep(3) by (auto simp: cursor_or_new_def)
  then obtain t where t: "prepare_batch d rs fa' ranges ?g now' s' = Inr t"
    using prepare_batch_total assms(5) by blast
  have tok: "db_ok t" by (rule prepare_batch_db_ok[OF t ok'])
  have raw: "raw_readings t = raw_readings s'"
    using prepare_batch_result[OF t refl] by (auto dest: same_but_gaps_simps(4))
  let ?env = "batch_env d device source' now' ?g skew"
  have "\<forall>r\<in>set rs. held H ?env (bs_db (empty_batch t)) r \<and> not_future ?env r"
    using ingest_holds[OF ok first assms(3) _ assms(4), of _ device source'] raw
    by (auto simp: held_def find_raw_def generation_rows_def)
  note loop = ingest_loop_duplicates[OF this]
  define b where "b = (empty_batch t)\<lparr>bs_duplicates := map rd_sequence rs\<rparr>"
  have bok: "db_ok (bs_db b)" using tok by (simp add: b_def)
  obtain s'' resp' where f: "finish_batch d device ?g now' b = Inr (s'', resp')"
    using finish_batch_total[OF bok] by blast
  have "ingest_readings H now' d rs source' dg fa' ranges skew s' = Inr (s'', resp')"
    unfolding ingest_readings_phases using assms(6) dev keep(1) gate t loop f by (auto simp: b_def)
  moreover have "accepted resp' = []" "rejected resp' = []" "duplicates resp' = map rd_sequence rs"
    "raw_readings s'' = raw_readings t"
    using finish_batch_result[OF bok f] by (elim exE conjE; simp add: b_def)+
  ultimately show ?thesis using raw by auto
qed

theorem ingest_retry_idempotent_witness:
  "\<exists>s' s'' r'. ingest_readings no_hash 700000000 ''d'' sample_batch ''pull'' (Some 0) (Some 1) [] 300 s'
       = Inr (s'', r')
     \<and> accepted r' = [] \<and> duplicates r' = [1, 2, 5] \<and> raw_readings s'' = raw_readings s'"
proof -
  obtain s r where r: "ingest_sample sample_batch sample_db = Inr (s, r)" "rejected r = []"
    using sample_ingested by blast
  show ?thesis
    using ingest_retry_idempotent[OF sample_db_ok r, of 700000000 "''pull''" "Some 1"]
    by (auto simp: positive_ranges_def sample_batch_def sample_reading_def)
qed

text \<open>C8. A conflicting reading can be reported once only.  When a batch was ingested with a rejection as a
  conflicting duplicate, the security event is stored under a name made of the sequence and the incoming
  hash; sending the same batch again at any later time violates the unique key of the event table, so the
  whole batch is aborted with an integrity error instead of being answered.\<close>

theorem conflicting_retry_fails:
  assumes ok: "db_ok s"
    and first: "ingest_readings H now d rs source dg fa ranges skew s = Inr (s', resp)"
    and x: "x \<in> set (rejected resp)" "rej_code x = ''conflicting_duplicate''"
    and "now \<le> now'" and "positive_ranges ranges" and "source' \<in> {''pull'', ''push''}"
  shows "\<exists>k. ingest_readings H now' d rs source' dg fa' ranges skew s' = Inl (IntegrityError k)"
proof -
  let ?g = "response_data_generation resp"
  obtain device g s1 b where dev: "devices s d = Some device"
    and p: "prepare_batch d rs fa ranges g now s = Inr s1"
    and l: "foldE (ingest_one H (batch_env d device source now g skew)) rs (empty_batch s1) = Inr b"
    and f: "finish_batch d device g now b = Inr (s', resp)"
    using first unfolding ingest_readings_phases by blast
  have bok: "db_ok (bs_db b)" using ingest_loop_db_ok[OF l] prepare_batch_db_ok[OF p ok] by simp
  have fin: "raw_readings s' = raw_readings (bs_db b)" "device_events s' = device_events (bs_db b)"
    "rejected resp = bs_rejected b" "?g = g"
    using finish_batch_result[OF bok f] by (elim exE conjE; simp)+
  obtain r where r: "r \<in> set rs" "conflict_reported H (batch_env d device source now g skew) (bs_db b) r"
    using ingest_loop_conflict[OF l] x fin(3) by auto
  note keep = ingest_keeps_configuration[OF ok first]
  have gate: "enforce_data_generation_gate s' d rs dg ranges = Inr g"
    using gate_generation[OF first ok] gate_cong[OF keep(2)] fin(4) by simp
  have "cursor_data_generation (cursor_or_new s' d g now') = g"
    using keep(3) fin(4) by (auto simp: cursor_or_new_def)
  then obtain t where t: "prepare_batch d rs fa' ranges g now' s' = Inr t"
    using prepare_batch_total assms(6) by blast
  have "raw_readings t = raw_readings s'" "device_events t = device_events s'"
    using prepare_batch_result[OF t refl] by (auto dest: same_but_gaps_simps(4,5))
  then have "conflict_reported H (batch_env d device source now g skew) t r"
    using r(2) fin by (simp add: conflict_reported_def find_raw_def generation_rows_def)
  then have "conflict_reported H (batch_env d device source' now' g skew) (bs_db (empty_batch t)) r"
    using conflict_reported_later assms(5) by simp
  from ingest_loop_conflict_fails[OF r(1) this]
  show ?thesis
    using assms(7) dev keep(1) gate t unfolding ingest_readings_def batch_env_def empty_batch_def by auto
qed

lemma sample_conflict:
  "case ingest_sample [sample_reading 1 ''x''] sample_db of Inl _ \<Rightarrow> False
   | Inr (s1, _) \<Rightarrow> (case ingest_sample [sample_reading 1 ''q''] s1 of Inl _ \<Rightarrow> False
        | Inr (_, r2) \<Rightarrow> map rej_code (rejected r2) = [''conflicting_duplicate''])"
  by code_simp

theorem conflicting_retry_fails_witness:
  "\<exists>s1 r1 s2 r2 k. ingest_sample [sample_reading 1 ''x''] sample_db = Inr (s1, r1)
     \<and> ingest_sample [sample_reading 1 ''q''] s1 = Inr (s2, r2)
     \<and> ingest_sample [sample_reading 1 ''q''] s2 = Inl (IntegrityError k)"
proof -
  obtain s1 r1 s2 r2 where s: "ingest_sample [sample_reading 1 ''x''] sample_db = Inr (s1, r1)"
    "ingest_sample [sample_reading 1 ''q''] s1 = Inr (s2, r2)" "map rej_code (rejected r2) = [''conflicting_duplicate'']"
    using sample_conflict by (auto split: sum.splits prod.splits)
  obtain x where x: "x \<in> set (rejected r2)" "rej_code x = ''conflicting_duplicate''"
    using s(3) by (cases "rejected r2") auto
  have "db_ok s1" by (rule ingest_readings_db_ok[OF sample_db_ok s(1)])
  from conflicting_retry_fails[OF this s(2) x, of 600000000 "''push''" None] s(1,2)
  show ?thesis by (auto simp: positive_ranges_def)
qed

section \<open>The generation gate\<close>

text \<open>C4. The gate admits exactly the current generation.  A batch passes if and only if the
  device's gate is open and no reset is due on reconnect, every generation that the batch
  or a reading names is the committed one (which is zero when none is named), and every
  reading and declared range starts above the reset boundary; the answer is then the
  committed generation.\<close>

theorem gate_admits_exactly:
  "enforce_data_generation_gate s d rs dg ranges = Inr g \<longleftrightarrow>
     (case data_states s d of
        None \<Rightarrow> g = 0
      | Some x \<Rightarrow> g = ds_data_generation x \<and> ds_ingestion_gate x = ''open''
          \<and> \<not> ds_reset_required_on_reconnect x)
     \<and> (\<forall>v. dg = Some v \<longrightarrow> v = g)
     \<and> (\<forall>r\<in>set rs. \<forall>v. rd_data_generation r = Some v \<longrightarrow> v = g)
     \<and> (dg = None \<and> (\<forall>r\<in>set rs. rd_data_generation r = None) \<longrightarrow> g = 0)
     \<and> (\<forall>r\<in>set rs. (case data_states s d of None \<Rightarrow> 0 | Some x \<Rightarrow> ds_reset_boundary x) < rd_sequence r)
     \<and> (\<forall>(a, b)\<in>set ranges. (case data_states s d of None \<Rightarrow> 0 | Some x \<Rightarrow> ds_reset_boundary x) < a)"
proof -
  let ?k = "case data_states s d of None \<Rightarrow> 0 | Some x \<Rightarrow> ds_reset_boundary x"
  have none: "min_opt (filter (\<lambda>q. q \<le> ?k) (map rd_sequence rs)) = None \<longleftrightarrow> (\<forall>r\<in>set rs. ?k < rd_sequence r)"
    "min_opt (filter (\<lambda>q. q \<le> ?k) (map fst ranges)) = None \<longleftrightarrow> (\<forall>(a, b)\<in>set ranges. ?k < a)"
    by (auto simp: filter_empty_conv not_le)
  have "enforce_data_generation_gate s d rs dg ranges = Inr g \<longleftrightarrow>
     (case data_states s d of
        None \<Rightarrow> g = 0
      | Some x \<Rightarrow> g = ds_data_generation x \<and> ds_ingestion_gate x = ''open''
          \<and> \<not> ds_reset_required_on_reconnect x)
     \<and> (\<exists>x. supplied_generation dg rs = Inr x \<and> (case x of None \<Rightarrow> 0 | Some v \<Rightarrow> v) = g)
     \<and> min_opt (filter (\<lambda>q. q \<le> ?k) (map rd_sequence rs)) = None
     \<and> min_opt (filter (\<lambda>q. q \<le> ?k) (map fst ranges)) = None"
    unfolding enforce_data_generation_gate_def Let_def
    by (auto simp: result_simps or_else_def simp del: min_opt_None split: option.splits if_splits)
  then show ?thesis unfolding supplied_generation_iff none by blast
qed

theorem gate_admits_exactly_witness:
  "enforce_data_generation_gate sample_db ''d'' [sample_reading 4 ''x''] (Some 0) [(2, 3)] = Inr 0
   \<and> enforce_data_generation_gate sample_db ''d'' [sample_reading 4 ''x''] (Some 1) [] \<noteq> Inr 0"
proof -
  have "data_states sample_db ''d'' = None" "rd_sequence (sample_reading 4 ''x'') = 4"
    "rd_data_generation (sample_reading 4 ''x'') = Some 0 \<or> rd_data_generation (sample_reading 4 ''x'') = None"
    by (simp_all add: sample_db_def sample_reading_def)
  then show ?thesis
    using gate_admits_exactly[of sample_db "''d''" "[sample_reading 4 ''x'']" "Some 0" "[(2, 3)]" 0]
      gate_admits_exactly[of sample_db "''d''" "[sample_reading 4 ''x'']" "Some 1" "[]" 0]
    by auto
qed

section \<open>Permanent losses\<close>

text \<open>C7. Declared losses are recorded exactly.  For valid ranges the recording succeeds and changes the gap
  table only.  Afterwards a sequence of a device is a permanent loss if and only if it was one before, or
  the device is the one that declares and the sequence is declared and not stored in the generation: a
  stored reading is never newly declared lost and no other device is touched.\<close>

theorem permanent_loss_exact:
  assumes "gaps_ok s" and "positive_ranges ranges"
  shows "\<exists>t. record_permanent_loss_ranges d ranges now g s = Inr t \<and> same_but_gaps s t \<and> gaps_ok t
    \<and> (\<forall>d' q. lost t d' q \<longleftrightarrow> lost s d' q \<or> d' = d \<and> covered ranges q \<and> \<not> stored s d g q)"
proof -
  let ?bs = "segments (unavailable_sequences s d g ranges)"
  obtain t where t: "foldE (put_permanent_gap d now) ?bs s = Inr t"
    using put_all_total[OF loss_segments_positive[OF assms(2)]] by blast
  note u = unavailable_sequences_spec[of s d g ranges]
  have "range_union ?bs = {q. covered ranges q \<and> \<not> stored s d g q}"
    using segments_spec u by auto
  then show ?thesis
    using put_all_same[OF t] put_all_ok[OF t assms(1)] put_all_lost_iff[OF t] t
    by (intro exI[of _ t]) (auto simp: record_permanent_loss_ranges_def)
qed

theorem permanent_loss_exact_witness:
  "\<exists>t. record_permanent_loss_ranges ''d'' [(2, 3), (4, 4)] 7 0 sample_db = Inr t
     \<and> lost t ''d'' 2 \<and> lost t ''d'' 4 \<and> \<not> lost t ''d'' 5 \<and> \<not> lost t ''e'' 2"
proof -
  have "gaps_ok sample_db" using sample_db_ok by (simp add: db_ok_def)
  moreover have "positive_ranges [(2, 3), (4, 4)]" by (simp add: positive_ranges_def)
  moreover have "\<not> stored sample_db ''d'' 0 q" "\<not> lost sample_db x q" for x q
    by (simp_all add: stored_def lost_def generation_rows_def sample_db_def)
  ultimately show ?thesis
    using permanent_loss_exact[of sample_db "[(2, 3), (4, 4)]" "''d''" 7 0] by auto
qed

section \<open>Energy selection\<close>

lemma server_energy_nonneg:
  assumes "\<forall>p. rd_power_avg r = Some p \<longrightarrow> 0 \<le> p" "rd_interval_start r \<le> rd_interval_end r"
    "server_energy r = Some v"
  shows "0 \<le> v"
  using assms
  by (auto simp: server_energy_def power_energy_def counter_energy_def total_seconds_def Let_def
      intro!: ddiv_nonneg dmul_nonneg split: if_splits option.splits)

text \<open>Energy selection never invents a value.  Whatever the tolerance, the selected
  energy is absent, the device's or the server's estimate; it is absent only when there is no
  source at all or the two disagree under untrusted time; a server estimate made of a
  non-negative power is non-negative; and an accepted device value agrees with an existing
  server estimate within the tolerance.\<close>

theorem normalize_energy_sound:
  "selected_energy_wh (normalize_energy tol r) \<in> {None, rd_interval_energy_wh r, server_energy r}
   \<and> device_energy_wh (normalize_energy tol r) = rd_interval_energy_wh r
   \<and> server_energy_wh (normalize_energy tol r) = server_energy r
   \<and> (selected_energy_wh (normalize_energy tol r) = None \<longleftrightarrow>
        (rd_interval_energy_wh r = None \<and> server_energy r = None)
        \<or> validation_result (normalize_energy tol r) = ''rejected'')
   \<and> (validation_result (normalize_energy tol r) = ''rejected'' \<longrightarrow>
        ''time_untrusted'' \<in> set (rd_quality_flags r) \<or> \<not> rd_time_trusted r)
   \<and> (\<forall>e v. selected_method (normalize_energy tol r) = ''device-reported''
        \<and> rd_interval_energy_wh r = Some e \<and> server_energy r = Some v
        \<longrightarrow> energy_variance e v \<le> tol)
   \<and> ((\<forall>p. rd_power_avg r = Some p \<longrightarrow> 0 \<le> p) \<and> rd_interval_start r \<le> rd_interval_end r
        \<longrightarrow> (\<forall>v. server_energy r = Some v \<longrightarrow> 0 \<le> v))"
proof (intro conjI impI allI)
  fix e v
  assume "selected_method (normalize_energy tol r) = ''device-reported''
    \<and> rd_interval_energy_wh r = Some e \<and> server_energy r = Some v"
  then show "energy_variance e v \<le> tol"
    by (auto simp: normalize_energy_def selection_def Let_def split: if_splits)
qed (auto simp: normalize_energy_def selection_def Let_def intro: server_energy_nonneg
    split: option.splits if_splits)

theorem normalize_energy_sound_witness:
  "selected_energy_wh (normalize_energy 10 (sample_reading 1 ''x'')) = Some 10
   \<and> server_energy (sample_reading 1 ''x'') = Some 10 \<and> energy_variance 10 10 \<le> 10"
proof -
  have "server_energy (sample_reading 1 ''x'') = Some 10"
    "selected_method (normalize_energy 10 (sample_reading 1 ''x'')) = ''device-reported''"
    "selected_energy_wh (normalize_energy 10 (sample_reading 1 ''x'')) = Some 10"
    by code_simp+
  moreover have "rd_interval_energy_wh (sample_reading 1 ''x'') = Some 10"
    by (simp add: sample_reading_def)
  ultimately show ?thesis
    using normalize_energy_sound[of 10 "sample_reading 1 ''x''"] by blast
qed

section \<open>Billing cycles\<close>

text \<open>Only open cycles are reopened.  Marking the cycles that a batch touches keeps their
  number, order and windows and never changes a finalised cycle or one of another account;
  a cycle is set to recalculating exactly when it is open, belongs to the device's account
  and overlaps the span of the accepted windows.\<close>

theorem mark_cycles_only_open:
  "length (billing_cycles (mark_cycles dv now ws s)) = length (billing_cycles s)
   \<and> (\<forall>i<length (billing_cycles s).
        let c = billing_cycles s ! i; c' = billing_cycles (mark_cycles dv now ws s) ! i;
            hit = (ws \<noteq> [] \<and> truthy (dev_utility_account_id dv)
              \<and> dev_utility_account_id dv = Some (bc_utility_account_id c) \<and> bc_finalized_at c = None
              \<and> (\<exists>w\<in>set ws. bc_starts_at c < snd w) \<and> (\<exists>w\<in>set ws. fst w < bc_ends_at c))
        in c' = (if hit then c\<lparr>bc_status := ''recalculating'', bc_updated_at := now\<rparr> else c))"
proof (cases "ws \<noteq> [] \<and> truthy (dev_utility_account_id dv)")
  case True
  then have "b < Max (snd ` set ws) \<longleftrightarrow> (\<exists>w\<in>set ws. b < snd w)"
    and "Min (fst ` set ws) < b \<longleftrightarrow> (\<exists>w\<in>set ws. fst w < b)" for b
    by (auto simp: Max_gr_iff Min_less_iff)
  with True show ?thesis by (auto simp: mark_cycles_def Let_def)
next
  case False
  then show ?thesis by (auto simp: mark_cycles_def)
qed

theorem mark_cycles_only_open_witness:
  "map bc_status (billing_cycles (mark_cycles \<lparr>dev_site_id = ''s'', dev_utility_account_id = Some ''a''\<rparr> 9
     [(1, 2)] sample_db)) = [''recalculating'', ''finalized'']"
proof -
  let ?m = "mark_cycles \<lparr>dev_site_id = ''s'', dev_utility_account_id = Some ''a''\<rparr> 9 [(1, 2)] sample_db"
  have "length (billing_cycles sample_db) = 2" by (simp add: sample_db_def)
  then have "length (billing_cycles ?m) = 2"
    "\<forall>i<2. bc_status (billing_cycles ?m ! i) = [''recalculating'', ''finalized''] ! i"
    using mark_cycles_only_open[of "\<lparr>dev_site_id = ''s'', dev_utility_account_id = Some ''a''\<rparr>" 9 "[(1, 2)]" sample_db]
    by (auto simp: sample_db_def Let_def less_2_cases_iff)
  then show ?thesis by (auto intro!: nth_equalityI simp: less_2_cases_iff)
qed

end
