(* ===== verification/Datetimes.thy ===== *)
theory Datetimes
  imports Prelude
begin

text \<open>
  Dates and times as the backend uses them.  The proleptic Gregorian calendar is the one of
  Python's \<^verbatim>\<open>datetime\<close>: a date is a year, a month and a day, or its ordinal, which counts
  days from 1 January of year 1.  A stored timestamp is naive (as SQLite returns it) or
  aware; \<^verbatim>\<open>aware\<close> reads either as an instant in UTC.  The lemmas show that the ordinal and
  the date determine each other, on which date arithmetic and ISO texts rest.
\<close>

section \<open>The calendar\<close>

type_synonym date = "int \<times> int \<times> int"

definition is_leap :: "int \<Rightarrow> bool" where
  "is_leap y \<longleftrightarrow> y mod 4 = 0 \<and> (y mod 100 \<noteq> 0 \<or> y mod 400 = 0)"

definition days_before_year :: "int \<Rightarrow> int" where
  "days_before_year y = (y - 1) * 365 + (y - 1) div 4 - (y - 1) div 100 + (y - 1) div 400"

definition month_lengths :: "int \<Rightarrow> int list" where
  "month_lengths y = [31, if is_leap y then 29 else 28, 31, 30, 31, 30, 31, 31, 30, 31, 30, 31]"

definition days_in_month :: "int \<Rightarrow> int \<Rightarrow> int" where
  "days_in_month y m = month_lengths y ! nat (m - 1)"

definition days_before_month :: "int \<Rightarrow> int \<Rightarrow> int" where
  "days_before_month y m = sum_list (take (nat (m - 1)) (month_lengths y))"

definition valid_date :: "date \<Rightarrow> bool" where
  "valid_date d = (case d of (y, m, k) \<Rightarrow> 1 \<le> m \<and> m \<le> 12 \<and> 1 \<le> k \<and> k \<le> days_in_month y m)"

definition ordinal :: "date \<Rightarrow> int" where
  "ordinal d = (case d of (y, m, k) \<Rightarrow> days_before_year y + days_before_month y m + k)"

fun walk_months :: "int list \<Rightarrow> int \<Rightarrow> int \<Rightarrow> int \<times> int" where
  "walk_months [] m n = (m, n + 1)"
| "walk_months (l # ls) m n = (if n < l then (m, n + 1) else walk_months ls (m + 1) (n - l))"

text \<open>The year of an ordinal: cycles of 400, 100, 4 and 1 years, as \<^verbatim>\<open>_ord2ymd\<close> counts them.\<close>

definition year_of :: "int \<Rightarrow> int" where
  "year_of n =
     (let n0 = n - 1; n400 = n0 div 146097; r400 = n0 mod 146097;
          n100 = r400 div 36524; r100 = r400 mod 36524;
          n4 = r100 div 1461; r4 = r100 mod 1461; n1 = r4 div 365;
          y = n400 * 400 + n100 * 100 + n4 * 4 + n1 + 1
      in if n1 = 4 \<or> n100 = 4 then y - 1 else y)"

definition date_of :: "int \<Rightarrow> date" where
  "date_of n =
     (let y = year_of n; (m, k) = walk_months (month_lengths y) 1 (n - 1 - days_before_year y)
      in (y, m, k))"

definition weekday :: "date \<Rightarrow> int" where
  "weekday d = (ordinal d + 6) mod 7"

definition date_add :: "date \<Rightarrow> int \<Rightarrow> date" where
  "date_add d n = date_of (ordinal d + n)"

lemma div_pred:
  assumes "0 < (k::int)"
  shows "y div k = (y - 1) div k + (if y mod k = 0 then 1 else 0)"
proof (cases "y mod k = 0")
  case True
  then have "y - 1 = k * (y div k - 1) + (k - 1)"
    using mult_div_mod_eq[of k y] by (simp add: algebra_simps)
  then have "(y - 1) div k = y div k - 1" by (rule int_div_pos_eq) (use assms in auto)
  with True show ?thesis by simp
next
  case False
  have "y - 1 = k * (y div k) + (y mod k - 1)" using mult_div_mod_eq[of k y] by simp
  then have "(y - 1) div k = y div k"
    by (rule int_div_pos_eq) (use assms False pos_mod_sign[of k y] pos_mod_bound[of k y] in linarith)+
  with False show ?thesis by simp
qed

lemma days_before_year_step:
  "days_before_year (y + 1) = days_before_year y + (if is_leap y then 366 else 365)"
proof -
  have "y mod 100 = 0 \<Longrightarrow> y mod 4 = 0" "y mod 400 = 0 \<Longrightarrow> y mod 100 = 0"
    using dvd_trans[of 4 100 y] dvd_trans[of 100 400 y] by (simp_all add: mod_eq_0_iff_dvd)
  moreover have "y div 4 = (y - 1) div 4 + (if y mod 4 = 0 then 1 else 0)"
    "y div 100 = (y - 1) div 100 + (if y mod 100 = 0 then 1 else 0)"
    "y div 400 = (y - 1) div 400 + (if y mod 400 = 0 then 1 else 0)"
    by (intro div_pred; simp)+
  moreover have "y + 1 - 1 = y" by simp
  ultimately show ?thesis unfolding days_before_year_def is_leap_def by (smt (verit))
qed

text \<open>
  Years decompose into cycles: \<^verbatim>\<open>q\<close> of 400 years, \<^verbatim>\<open>a\<close> of 100, \<^verbatim>\<open>c\<close> of 4 and \<^verbatim>\<open>f\<close> single years.
\<close>

lemma days_before_cycles:
  assumes "0 \<le> a" "a \<le> 3" "0 \<le> c" "c \<le> 24" "0 \<le> f" "f \<le> 3"
  shows "days_before_year (400 * q + 100 * a + 4 * c + f + 1) = 146097 * q + 36524 * a + 1461 * c + 365 * f"
proof -
  have "(400 * q + 100 * a + 4 * c + f) div 4 = 100 * q + 25 * a + c"
    by (rule int_div_pos_eq[where r = f]) (use assms in auto)
  moreover have "(400 * q + 100 * a + 4 * c + f) div 100 = 4 * q + a"
    by (rule int_div_pos_eq[where r = "4 * c + f"]) (use assms in auto)
  moreover have "(400 * q + 100 * a + 4 * c + f) div 400 = q"
    by (rule int_div_pos_eq[where r = "100 * a + 4 * c + f"]) (use assms in auto)
  ultimately show ?thesis by (simp add: days_before_year_def)
qed

lemma leap_cycles:
  assumes "0 \<le> a" "a \<le> 3" "0 \<le> c" "c \<le> 23"
  shows "is_leap (400 * q + 100 * a + 4 * c + 4)" and "is_leap (400 * q + 400)"
proof -
  have "(400 * q + 100 * a + 4 * c + 4) mod 100 = 4 * c + 4"
    by (rule int_mod_pos_eq[where q = "4 * q + a"]) (use assms in auto)
  moreover have "(400 * q + 100 * a + 4 * c + 4) mod 4 = 0"
    by (rule int_mod_pos_eq[where q = "100 * q + 25 * a + c + 1"]) auto
  ultimately show "is_leap (400 * q + 100 * a + 4 * c + 4)" using assms by (simp add: is_leap_def)
  have "(400 * q + 400) mod 400 = 0" by (rule int_mod_pos_eq[where q = "q + 1"]) auto
  moreover have "(400 * q + 400) mod 4 = 0" by (rule int_mod_pos_eq[where q = "100 * q + 100"]) auto
  ultimately show "is_leap (400 * q + 400)" by (simp add: is_leap_def)
qed

lemma year_of_spec: "days_before_year (year_of n) < n \<and> n \<le> days_before_year (year_of n + 1)"
proof -
  define q r where "q = (n - 1) div 146097" and "r = (n - 1) mod 146097"
  define a b where "a = r div 36524" and "b = r mod 36524"
  define c e where "c = b div 1461" and "e = b mod 1461"
  define f g where "f = e div 365" and "g = e mod 365"
  have n: "n = 146097 * q + 36524 * a + 1461 * c + 365 * f + g + 1"
    using mult_div_mod_eq[of 146097 "n - 1"] mult_div_mod_eq[of 36524 r] mult_div_mod_eq[of 1461 b]
      mult_div_mod_eq[of 365 e]
    unfolding q_def r_def a_def b_def c_def e_def f_def g_def by linarith
  have y: "year_of n = 400 * q + 100 * a + 4 * c + f + (if f = 4 \<or> a = 4 then 0 else 1)"
    by (simp add: year_of_def Let_def q_def r_def a_def b_def c_def e_def f_def)
  have r: "0 \<le> r" "r < 146097" and b: "0 \<le> b" "b < 36524" and e: "0 \<le> e" "e < 1461"
    and g: "0 \<le> g" "g < 365"
    by (simp_all add: r_def b_def e_def g_def)
  have ra: "r = 36524 * a + b" and bc: "b = 1461 * c + e" and ef: "e = 365 * f + g"
    unfolding a_def b_def c_def e_def f_def g_def by simp_all
  have a: "0 \<le> a" "a \<le> 4" using r b ra by linarith+
  have c: "0 \<le> c" "c \<le> 24" using b e bc by linarith+
  have f: "0 \<le> f" "f \<le> 4" using e g ef by linarith+
  consider (century) "a = 4" | (leap) "a \<noteq> 4" "f = 4" | (plain) "a \<noteq> 4" "f \<noteq> 4" by blast
  then show ?thesis
  proof cases
    case century
    with ra r b bc e ef g c f have "c = 0" "f = 0" "g = 0" by linarith+
    then show ?thesis
      using century n y days_before_cycles[of 3 24 3 q] days_before_year_step[of "400 * q + 400"]
        leap_cycles(2)[of 3 0 q] by (simp add: add.commute)
  next
    case leap
    with a c bc b ef e g have "a \<le> 3" "g = 0" "c \<le> 23" by linarith+
    then show ?thesis
      using leap n y a c days_before_cycles[of a c 3 q] leap_cycles(1)[of a c q]
        days_before_year_step[of "400 * q + 100 * a + 4 * c + 4"] by (simp add: ac_simps)
  next
    case plain
    with a f have "a \<le> 3" "f \<le> 3" by linarith+
    with plain n y g a c f days_before_cycles[of a c f q] show ?thesis
      using days_before_year_step[of "400 * q + 100 * a + 4 * c + f + 1"] by (simp split: if_splits)
  qed
qed

lemma walk_months_spec:
  assumes "\<forall>l\<in>set ls. 0 < l" and "0 \<le> n" and "n < sum_list ls"
    and "walk_months ls m n = (m', k)"
  shows "\<exists>i < length ls. m' = m + int i \<and> n + 1 = sum_list (take i ls) + k \<and> 1 \<le> k \<and> k \<le> ls ! i"
  using assms
proof (induction ls m n rule: walk_months.induct)
  case (1 m n)
  then show ?case by simp
next
  case (2 l ls m n)
  show ?case
  proof (cases "n < l")
    case True
    with 2 show ?thesis by (intro exI[of _ 0]) auto
  next
    case False
    with 2 obtain i where "i < length ls" "m' = m + 1 + int i"
      "n - l + 1 = sum_list (take i ls) + k" "1 \<le> k" "k \<le> ls ! i" by fastforce
    then show ?thesis by (intro exI[of _ "Suc i"]) auto
  qed
qed

lemma month_lengths_simps [simp]:
  "length (month_lengths y) = 12" "\<forall>l\<in>set (month_lengths y). 0 < l"
  "sum_list (month_lengths y) = (if is_leap y then 366 else 365)"
  by (simp_all add: month_lengths_def)

text \<open>Every ordinal is the ordinal of one valid date.\<close>

lemma date_of_spec: "ordinal (date_of n) = n \<and> valid_date (date_of n)"
proof -
  define r where "r = n - 1 - days_before_year (year_of n)"
  obtain m k where w: "walk_months (month_lengths (year_of n)) 1 r = (m, k)" by fastforce
  have "0 \<le> r" "r < sum_list (month_lengths (year_of n))"
    using year_of_spec[of n] days_before_year_step[of "year_of n"] unfolding r_def by auto
  then obtain i where i: "i < 12" "m = 1 + int i" "r + 1 = sum_list (take i (month_lengths (year_of n))) + k"
      "1 \<le> k" "k \<le> month_lengths (year_of n) ! i"
    using walk_months_spec[OF month_lengths_simps(2) _ _ w] by auto
  have "date_of n = (year_of n, m, k)" using w by (simp add: date_of_def Let_def r_def)
  with i show ?thesis
    by (auto simp: ordinal_def valid_date_def days_before_month_def days_in_month_def r_def)
qed

lemmas ordinal_date_of [simp] = conjunct1[OF date_of_spec]
lemmas valid_date_of [simp] = conjunct2[OF date_of_spec]

section \<open>Instants\<close>

text \<open>
  An instant counts microseconds from the Unix epoch, whose date has ordinal 719163.  The
  ISO text is the one of \<^verbatim>\<open>datetime.isoformat\<close> in UTC.
\<close>

definition day_microseconds :: int where
  "day_microseconds = 86400000000"

definition utc_date :: "instant \<Rightarrow> date" where
  "utc_date t = date_of (t div day_microseconds + 719163)"

definition date_text :: "date \<Rightarrow> string" where
  "date_text d = (case d of (y, m, k) \<Rightarrow>
     pad_left 4 (int_text y) @ ''-'' @ pad_left 2 (int_text m) @ ''-'' @ pad_left 2 (int_text k))"

definition clock_text :: "int \<Rightarrow> string" where
  "clock_text us =
     (let s = us div 1000000 in
      pad_left 2 (int_text (s div 3600)) @ '':'' @ pad_left 2 (int_text (s div 60 mod 60)) @ '':'' @
      pad_left 2 (int_text (s mod 60)))"

definition isoformat :: "instant \<Rightarrow> string" where
  "isoformat t =
     date_text (utc_date t) @ ''T'' @ clock_text (t mod day_microseconds) @
     (if t mod 1000000 = 0 then [] else ''.'' @ pad_left 6 (int_text (t mod 1000000))) @ ''+00:00''"

datatype datetime = Naive instant | Aware instant

fun aware :: "datetime \<Rightarrow> instant" where
  "aware (Naive t) = t"
| "aware (Aware t) = t"

definition seconds :: "int \<Rightarrow> int" where
  "seconds n = n * 1000000"

text \<open>\<^verbatim>\<open>max(0, int((b - a).total_seconds()))\<close>; exact for spans below 136 years.\<close>

definition elapsed_seconds :: "instant \<Rightarrow> instant \<Rightarrow> int" where
  "elapsed_seconds a b = max 0 ((b - a) div 1000000)"

lemma elapsed_seconds_mono: "b \<le> b' \<Longrightarrow> elapsed_seconds a b \<le> elapsed_seconds a b'"
  unfolding elapsed_seconds_def by (intro max.mono zdiv_mono1) auto

lemma elapsed_seconds_ge: "0 < n \<Longrightarrow> n \<le> elapsed_seconds a b \<longleftrightarrow> a + seconds n \<le> b"
  unfolding elapsed_seconds_def seconds_def by (auto simp: le_max_iff_disj)

end
