(* ===== verification/Json.thy ===== *)
theory Json
  imports Prelude "HOL-Library.Char_ord" "HOL-Library.List_Lexorder" "HOL-Library.Multiset"
begin

text \<open>
  JSON values as Python holds them after decoding, the type tests and truthiness that the
  handlers apply to them, and the canonical text of \<^verbatim>\<open>json.dumps\<close> with sorted keys and
  compact separators.  A float is kept as the text Python prints for it.  Strings are lists of
  code points below 256.
\<close>

datatype json =
    JNull
  | JBool bool
  | JInt int
  | JFloat string
  | JStr string
  | JList "json list"
  | JDict "(string \<times> json) list"

type_synonym jdict = "(string, json) dict"

section \<open>Type tests\<close>

text \<open>A value that is not a dict is read as the empty one.\<close>

fun as_dict :: "json option \<Rightarrow> jdict" where
  "as_dict (Some (JDict d)) = d"
| "as_dict _ = []"

text \<open>\<^verbatim>\<open>isinstance(value, int)\<close> also holds of the two booleans.\<close>

fun int_value :: "json option \<Rightarrow> int option" where
  "int_value (Some (JInt n)) = Some n"
| "int_value (Some (JBool b)) = Some (if b then 1 else 0)"
| "int_value _ = None"

fun strict_int :: "json option \<Rightarrow> int option" where
  "strict_int (Some (JInt n)) = Some n"
| "strict_int _ = None"

fun str_value :: "json option \<Rightarrow> string option" where
  "str_value (Some (JStr s)) = Some s"
| "str_value _ = None"

fun json_truthy :: "json option \<Rightarrow> bool" where
  "json_truthy None = False"
| "json_truthy (Some JNull) = False"
| "json_truthy (Some (JBool b)) = b"
| "json_truthy (Some (JInt n)) = (n \<noteq> 0)"
| "json_truthy (Some (JFloat t)) = (t \<notin> {''0.0'', ''-0.0''})"
| "json_truthy (Some (JStr s)) = (s \<noteq> [])"
| "json_truthy (Some (JList xs)) = (xs \<noteq> [])"
| "json_truthy (Some (JDict d)) = (d \<noteq> [])"

text \<open>\<^verbatim>\<open>dict.get\<close> gives None for a missing key and for a null alike.\<close>

definition non_null :: "json option \<Rightarrow> json option" where
  "non_null x = (if x = Some JNull then None else x)"

lemma non_null_None: "non_null x = None \<longleftrightarrow> x = None \<or> x = Some JNull"
  by (simp add: non_null_def)

lemma as_dict_non_null [simp]: "as_dict (non_null x) = as_dict x"
  by (simp add: non_null_def)

text \<open>\<^verbatim>\<open>dict.update\<close> with the entries of a second dict.\<close>

definition dict_update :: "jdict \<Rightarrow> jdict \<Rightarrow> jdict" where
  "dict_update d e = fold (\<lambda>(k, v) acc. dict_set acc k v) e d"

lemma map_of_dict_update: "distinct (map fst e) \<Longrightarrow> map_of (dict_update d e) = map_of d ++ map_of e"
  unfolding dict_update_def
proof (induction e arbitrary: d)
  case Nil
  then show ?case by simp
next
  case (Cons x e)
  obtain k v where x: "x = (k, v)" by fastforce
  have "k \<notin> dom (map_of e)" using Cons.prems x by (auto simp: dom_map_of_conv_image_fst)
  then have "map_of e k = None" by blast
  with Cons x show ?case by (auto simp: map_add_def fun_eq_iff split: option.split)
qed

section \<open>Text\<close>

definition hex_digit :: "nat \<Rightarrow> char" where
  "hex_digit n = char_of (if n < 10 then 48 + n else 87 + n)"

definition escape_char :: "char \<Rightarrow> string" where
  "escape_char c =
     (let n = of_char c :: nat in
      if n = 34 then [char_of (92::nat), c]
      else if n = 92 then [c, c]
      else if n = 10 then [char_of (92::nat), CHR ''n'']
      else if n = 13 then [char_of (92::nat), CHR ''r'']
      else if n = 9 then [char_of (92::nat), CHR ''t'']
      else if n = 12 then [char_of (92::nat), CHR ''f'']
      else if n = 8 then [char_of (92::nat), CHR ''b'']
      else if n < 32 then char_of (92::nat) # ''u00'' @ [hex_digit (n div 16), hex_digit (n mod 16)]
      else [c])"

definition string_text :: "string \<Rightarrow> string" where
  "string_text s = char_of (34::nat) # concat (map escape_char s) @ [char_of (34::nat)]"

definition joined :: "string \<Rightarrow> string list \<Rightarrow> string" where
  "joined sep xs = concat (case xs of [] \<Rightarrow> [] | y # ys \<Rightarrow> y # map (\<lambda>z. sep @ z) ys)"

fun dumps :: "json \<Rightarrow> string" where
  "dumps JNull = ''null''"
| "dumps (JBool b) = (if b then ''true'' else ''false'')"
| "dumps (JInt n) = int_text n"
| "dumps (JFloat t) = t"
| "dumps (JStr s) = string_text s"
| "dumps (JList xs) = ''['' @ joined '','' (map dumps xs) @ '']''"
| "dumps (JDict d) =
     ''{'' @ joined '','' (map snd (sort_key fst
        (map (\<lambda>(k, v). (k, string_text k @ '':'' @ dumps v)) d))) @ ''}''"

text \<open>Python's \<^verbatim>\<open>str\<close> and \<^verbatim>\<open>repr\<close> of a decoded value.\<close>

definition repr_char :: "nat \<Rightarrow> char \<Rightarrow> string" where
  "repr_char quote c =
     (let n = of_char c :: nat; b = char_of (92::nat) in
      if n = quote \<or> n = 92 then [b, c]
      else if n = 10 then [b, CHR ''n''] else if n = 13 then [b, CHR ''r'']
      else if n = 9 then [b, CHR ''t'']
      else if n < 32 \<or> (127 \<le> n \<and> n \<le> 160) \<or> n = 173
      then [b, CHR ''x'', hex_digit (n div 16), hex_digit (n mod 16)]
      else [c])"

definition repr_string :: "string \<Rightarrow> string" where
  "repr_string s =
     (let quote = (if char_of (39::nat) \<in> set s \<and> char_of (34::nat) \<notin> set s then 34 else 39 :: nat)
      in char_of quote # concat (map (repr_char quote) s) @ [char_of quote])"

fun py_repr :: "json \<Rightarrow> string" where
  "py_repr JNull = ''None''"
| "py_repr (JBool b) = (if b then ''True'' else ''False'')"
| "py_repr (JInt n) = int_text n"
| "py_repr (JFloat t) = t"
| "py_repr (JStr s) = repr_string s"
| "py_repr (JList xs) = ''['' @ joined '', '' (map py_repr xs) @ '']''"
| "py_repr (JDict d) = ''{'' @ joined '', '' (map (\<lambda>(k, v). repr_string k @ '': '' @ py_repr v) d) @ ''}''"

fun py_str :: "json \<Rightarrow> string" where
  "py_str (JStr s) = s"
| "py_str x = py_repr x"

fun utf8_char :: "char \<Rightarrow> string" where
  "utf8_char c =
     (let n = of_char c :: nat in
      if n < 128 then [c] else [char_of (192 + n div 64), char_of (128 + n mod 64)])"

definition utf8 :: "string \<Rightarrow> string" where
  "utf8 s = concat (map utf8_char s)"

text \<open>The canonical text does not depend on the order of the entries.\<close>

lemma sort_key_perm:
  assumes "mset xs = mset ys" and "distinct (map f xs)"
  shows "sort_key f xs = sort_key f (ys :: 'a list)"
proof (rule map_sorted_distinct_set_unique)
  have s: "set ys = set xs" using assms(1) by (metis set_mset_mset)
  have "distinct xs" using assms(2) by (simp add: distinct_map)
  then have "distinct ys" using assms(1) by (metis mset_eq_imp_distinct_iff)
  then show "distinct (map f (sort_key f ys))" "distinct (map f (sort_key f xs))"
    using assms(2) s by (simp_all add: distinct_map)
  show "inj_on f (set (sort_key f xs) \<union> set (sort_key f ys))"
    using assms(2) s by (simp add: distinct_map)
  show "set (sort_key f xs) = set (sort_key f ys)" using s by simp
qed simp_all

end
