(* ===== verification/Ota.thy ===== *)
theory Ota
  imports Datetimes Json
begin

text \<open>
  Model of \<^verbatim>\<open>app/ota.py\<close>: semantic versions and their order, hardware targets, the OTA
  capability of a device, the compatibility of a release with it, and the authentication of
  an update manifest.  HKDF and HMAC are arguments, written \<^verbatim>\<open>hkdf\<close> and \<^verbatim>\<open>hmac\<close>.
\<close>

section \<open>Semantic versions\<close>

text \<open>\<^verbatim>\<open>str.split\<close> on one character and \<^verbatim>\<open>str.partition\<close> on it.\<close>

fun split_on :: "char \<Rightarrow> string \<Rightarrow> string list" where
  "split_on c [] = [[]]"
| "split_on c (x # xs) =
     (if x = c then [] # split_on c xs
      else case split_on c xs of [] \<Rightarrow> [[x]] | p # ps \<Rightarrow> (x # p) # ps)"

definition partition_at :: "char \<Rightarrow> string \<Rightarrow> string \<times> string option" where
  "partition_at c s =
     (takeWhile (\<lambda>x. x \<noteq> c) s,
      case dropWhile (\<lambda>x. x \<noteq> c) s of [] \<Rightarrow> None | _ # r \<Rightarrow> Some r)"

definition is_digit :: "char \<Rightarrow> bool" where
  "is_digit c \<longleftrightarrow> CHR ''0'' \<le> c \<and> c \<le> CHR ''9''"

definition is_letter :: "char \<Rightarrow> bool" where
  "is_letter c \<longleftrightarrow> (CHR ''A'' \<le> c \<and> c \<le> CHR ''Z'') \<or> (CHR ''a'' \<le> c \<and> c \<le> CHR ''z'')"

definition ident_char :: "char \<Rightarrow> bool" where
  "ident_char c \<longleftrightarrow> is_digit c \<or> is_letter c \<or> c = CHR ''-''"

definition numeric_ident :: "string \<Rightarrow> bool" where
  "numeric_ident s \<longleftrightarrow> s = ''0'' \<or> (s \<noteq> [] \<and> hd s \<noteq> CHR ''0'' \<and> list_all is_digit s)"

definition prerelease_ident :: "string \<Rightarrow> bool" where
  "prerelease_ident s \<longleftrightarrow>
     numeric_ident s \<or> (list_all ident_char s \<and> (\<exists>c\<in>set s. \<not> is_digit c))"

definition build_ident :: "string \<Rightarrow> bool" where
  "build_ident s \<longleftrightarrow> s \<noteq> [] \<and> list_all ident_char s"

text \<open>
  The version pattern.  Build metadata starts at the first plus sign and the prerelease at the
  first hyphen before it, because neither sign can occur in what precedes.
\<close>

definition semver_match :: "string \<Rightarrow> (string \<times> string \<times> string \<times> string option) option" where
  "semver_match v =
     (let (front, build) = partition_at (CHR ''+'') v;
          (core, pre) = partition_at (CHR ''-'') front
      in if (case build of None \<Rightarrow> True | Some b \<Rightarrow> list_all build_ident (split_on (CHR ''.'') b))
          \<and> (case pre of None \<Rightarrow> True | Some p \<Rightarrow> list_all prerelease_ident (split_on (CHR ''.'') p))
         then case split_on (CHR ''.'') core of
                [a, b, c] \<Rightarrow> if numeric_ident a \<and> numeric_ident b \<and> numeric_ident c
                  then Some (a, b, c, pre) else None
              | _ \<Rightarrow> None
         else None)"

definition digits_value :: "string \<Rightarrow> int" where
  "digits_value s = foldl (\<lambda>acc c. acc * 10 + (int (of_char c) - 48)) 0 s"

datatype pyval = PInt int | PStr string

type_synonym semver = "int \<times> int \<times> int \<times> (int \<times> pyval) list"

definition prerelease_key :: "string option \<Rightarrow> (int \<times> pyval) list" where
  "prerelease_key pre =
     (case pre of
        None \<Rightarrow> [(2, PStr [])]
      | Some p \<Rightarrow> map (\<lambda>part. if part \<noteq> [] \<and> list_all is_digit part then (0, PInt (digits_value part))
                           else (1, PStr part)) (split_on (CHR ''.'') p))"

definition semver_key :: "string \<Rightarrow> semver option" where
  "semver_key v =
     map_option (\<lambda>(a, b, c, pre). (digits_value a, digits_value b, digits_value c, prerelease_key pre))
       (semver_match v)"

text \<open>
  Python compares tuples at the first position where they differ; comparing an integer with
  a string there raises \<^verbatim>\<open>TypeError\<close>, the value None.
\<close>

fun pyval_less :: "pyval \<Rightarrow> pyval \<Rightarrow> bool option" where
  "pyval_less (PInt i) (PInt j) = Some (i < j)"
| "pyval_less (PStr s) (PStr t) = Some (s < t)"
| "pyval_less _ _ = None"

fun part_less :: "int \<times> pyval \<Rightarrow> int \<times> pyval \<Rightarrow> bool option" where
  "part_less (a, x) (b, y) =
     (if a \<noteq> b then Some (a < b) else if x = y then Some False else pyval_less x y)"

fun parts_less :: "(int \<times> pyval) list \<Rightarrow> (int \<times> pyval) list \<Rightarrow> bool option" where
  "parts_less [] ys = Some (ys \<noteq> [])"
| "parts_less (x # xs) [] = Some False"
| "parts_less (x # xs) (y # ys) = (if x = y then parts_less xs ys else part_less x y)"

definition key_less :: "semver \<Rightarrow> semver \<Rightarrow> bool option" where
  "key_less k l =
     (case (k, l) of ((a, b, c, p), (a', b', c', p')) \<Rightarrow>
        if a \<noteq> a' then Some (a < a') else if b \<noteq> b' then Some (b < b')
        else if c \<noteq> c' then Some (c < c') else parts_less p p')"

datatype ota_error = TypeError string | ValueError string

definition bool_int :: "bool \<Rightarrow> int" where
  "bool_int b = (if b then 1 else 0)"

definition compare_semver :: "string \<Rightarrow> string \<Rightarrow> ota_error + int option" where
  "compare_semver l r =
     (case (semver_key l, semver_key r) of
        (Some k, Some k') \<Rightarrow>
          (case (key_less k' k, key_less k k') of
             (Some gt, Some lt) \<Rightarrow> Inr (Some (bool_int gt - bool_int lt))
           | _ \<Rightarrow> Inl (TypeError ''not supported between instances of int and str''))
      | _ \<Rightarrow> Inr None)"

section \<open>Compatibility\<close>

definition is_space :: "char \<Rightarrow> bool" where
  "is_space c \<longleftrightarrow> (let n = of_char c :: nat in (9 \<le> n \<and> n \<le> 13) \<or> (28 \<le> n \<and> n \<le> 32) \<or> n = 133 \<or> n = 160)"

definition strip :: "string \<Rightarrow> string" where
  "strip s = rev (dropWhile is_space (rev (dropWhile is_space s)))"

definition lower_char :: "char \<Rightarrow> char" where
  "lower_char c =
     (let n = of_char c :: nat in
      if (65 \<le> n \<and> n \<le> 90) \<or> (192 \<le> n \<and> n \<le> 222 \<and> n \<noteq> 215) then char_of (n + 32) else c)"

definition lower :: "string \<Rightarrow> string" where
  "lower s = map lower_char s"

definition starts_with :: "string \<Rightarrow> string \<Rightarrow> bool" where
  "starts_with p s \<longleftrightarrow> take (length p) s = p"

definition hardware_compatible :: "string \<Rightarrow> string \<Rightarrow> bool" where
  "hardware_compatible device_target release_target =
     (let d = lower (strip device_target); r = lower (strip release_target) in
      d = r \<or> (r = ''esp32-s3'' \<and> (d = ''esp32s3'' \<or> starts_with ''esp32-s3'' d)))"

record device_capability =
  cap_hardware_target :: string
  cap_features :: jdict

record ota_payload =
  ota_state :: string
  ota_label :: string
  ota_supported :: bool
  ota_protocol_version :: "json option"
  ota_authentication_mode :: "string option"
  ota_rollback_supported :: bool
  ota_partition_size_bytes :: "json option"

definition ota_label_of :: "string \<Rightarrow> string" where
  "ota_label_of state = dict_get
     [(''ready'', ''Ready for server OTA''),
      (''legacy_signed_ota_only'', ''Legacy signed OTA only''),
      (''trust_missing'', ''OTA trust missing''),
      (''bootstrap_required'', ''One-time bootstrap required''),
      (''unsupported'', ''OTA unsupported'')] state []"

definition ota_capability_payload :: "device_capability option \<Rightarrow> ota_payload" where
  "ota_capability_payload capability =
     (let raw = (case capability of None \<Rightarrow> None
                  | Some c \<Rightarrow> non_null (map_of (cap_features c) ''ota''));
          ota = as_dict raw;
          supported = json_truthy (map_of ota ''supported'');
          protocol_version = map_of ota ''protocol_version'';
          authentication_mode = map_of ota ''authentication_mode'';
          rollback_supported = json_truthy (map_of ota ''rollback_supported'');
          partition_size = map_of ota ''partition_size_bytes'';
          state =
            (if \<not> supported \<and> raw \<noteq> None then ''unsupported''
             else if \<not> supported \<or> int_value protocol_version = None \<or> the (int_value protocol_version) < 2
             then ''bootstrap_required''
             else if authentication_mode = Some (JStr ''ed25519_legacy'') then ''legacy_signed_ota_only''
             else if authentication_mode \<noteq> Some (JStr ''existing_device_hmac'')
               \<or> \<not> rollback_supported \<or> int_value partition_size = None
               \<or> the (int_value partition_size) \<le> 0
             then ''trust_missing'' else ''ready'')
      in \<lparr>ota_state = state, ota_label = ota_label_of state, ota_supported = supported,
          ota_protocol_version = (if int_value protocol_version = None then None else protocol_version),
          ota_authentication_mode = str_value authentication_mode,
          ota_rollback_supported = rollback_supported,
          ota_partition_size_bytes = (if int_value partition_size = None then None else partition_size)\<rparr>)"

record firmware_release =
  rel_id :: string
  rel_version :: string
  rel_trust_mode :: string
  rel_project_name :: "string option"
  rel_hardware_target :: string
  rel_protocol_min :: string
  rel_protocol_max :: string
  rel_size_bytes :: int
  rel_sha256 :: string
  rel_build_hash :: "string option"
  rel_verification_status :: string
  rel_artifact_path :: "string option"
  rel_file_path :: "string option"
  rel_artifact_verified_at :: "datetime option"
  rel_active :: bool

record fw_device =
  fd_id :: string
  fd_protocol_version :: string
  fd_firmware_version :: "string option"
  fd_firmware_build_hash :: "string option"
  fd_last_seen_at :: "datetime option"
  fd_site_id :: string
  fd_revoked_at :: "datetime option"
  fd_lifecycle_status :: string

record compatibility =
  cmp_ready :: bool
  cmp_reasons :: "string list"
  cmp_ota :: ota_payload
  cmp_current_version :: "string option"
  cmp_current_build_hash :: "string option"
  cmp_target_version :: string
  cmp_target_build_hash :: "string option"

definition version_order :: "firmware_release \<Rightarrow> fw_device \<Rightarrow> ota_error + int option" where
  "version_order release device =
     (if truthy (fd_firmware_version device)
      then compare_semver (rel_version release) (the (fd_firmware_version device))
      else Inr None)"

definition release_compatibility ::
  "fw_device \<Rightarrow> device_capability option \<Rightarrow> firmware_release \<Rightarrow> ota_error + compatibility"
where
  "release_compatibility device capability release =
     bindE (version_order release device) (\<lambda>order.
       let ota = ota_capability_payload capability;
           reasons =
             (if ota_state ota \<noteq> ''ready'' then [ota_state ota] else [])
           @ (if (case capability of None \<Rightarrow> True
                   | Some c \<Rightarrow> \<not> hardware_compatible (cap_hardware_target c) (rel_hardware_target release))
              then [''hardware_incompatible''] else [])
           @ (if \<not> (fd_protocol_version device \<noteq> [] \<and> rel_protocol_min release = fd_protocol_version device
                     \<and> fd_protocol_version device = rel_protocol_max release)
              then [''protocol_incompatible''] else [])
           @ (case int_value (ota_partition_size_bytes ota) of
                Some n \<Rightarrow> if n < rel_size_bytes release then [''partition_too_small''] else []
              | None \<Rightarrow> [])
           @ (case order of
                None \<Rightarrow> []
              | Some o' \<Rightarrow> if o' = 0 then [''already_current'']
                          else if o' < 0 then [''downgrade_requires_confirmation''] else [])
       in Inr \<lparr>cmp_ready = (reasons = []), cmp_reasons = reasons, cmp_ota = ota,
               cmp_current_version = fd_firmware_version device,
               cmp_current_build_hash = fd_firmware_build_hash device,
               cmp_target_version = rel_version release,
               cmp_target_build_hash = rel_build_hash release\<rparr>)"

record bootstrap_payload =
  bp_required :: bool
  bp_firmware_filename :: string
  bp_sha256 :: string
  bp_expected_version :: string
  bp_expected_build_hash :: "string option"
  bp_artifact_download_path :: string
  bp_usb_command :: string
  bp_preserves :: "string list"

record readiness_payload =
  rp_device_id :: string
  rp_current_firmware_version :: "string option"
  rp_current_firmware_build_hash :: "string option"
  rp_firmware_ota :: ota_payload
  rp_release :: "(string \<times> compatibility \<times> bootstrap_payload) option"

definition bootstrap_of :: "ota_payload \<Rightarrow> firmware_release \<Rightarrow> string \<Rightarrow> bootstrap_payload" where
  "bootstrap_of ota release offset =
     (let name = ''power-monitor-sensor-'' @ rel_version release @ ''.bin'' in
      \<lparr>bp_required = (ota_state ota = ''bootstrap_required''), bp_firmware_filename = name,
       bp_sha256 = rel_sha256 release, bp_expected_version = rel_version release,
       bp_expected_build_hash = rel_build_hash release,
       bp_artifact_download_path = ''/api/v1/firmware-releases/'' @ rel_id release @ ''/artifact'',
       bp_usb_command = ''python -m esptool --chip esp32s3 --port <PORT> --baud 460800 '' @
         ''write_flash '' @ offset @ '' '' @ name,
       bp_preserves = [''NVS'', ''Wi-Fi'', ''enrollment'', ''CA'', ''microSD'', ''sequence'']\<rparr>)"

definition firmware_readiness_payload ::
  "fw_device \<Rightarrow> device_capability option \<Rightarrow> firmware_release option \<Rightarrow> string
   \<Rightarrow> ota_error + readiness_payload"
where
  "firmware_readiness_payload device capability release offset =
     (let ota = ota_capability_payload capability;
          result = \<lparr>rp_device_id = fd_id device,
            rp_current_firmware_version = fd_firmware_version device,
            rp_current_firmware_build_hash = fd_firmware_build_hash device,
            rp_firmware_ota = ota, rp_release = None\<rparr>
      in case release of
           None \<Rightarrow> Inr result
         | Some r \<Rightarrow> bindE (release_compatibility device capability r) (\<lambda>c.
             Inr (result\<lparr>rp_release := Some (rel_id r, c, bootstrap_of ota r offset)\<rparr>)))"

section \<open>Manifest authentication\<close>

definition canonical_utc :: "datetime \<Rightarrow> string" where
  "canonical_utc v =
     date_text (utc_date (aware v)) @ ''T'' @ clock_text (aware v mod day_microseconds) @ ''Z''"

definition canonical_manifest_bytes :: "jdict \<Rightarrow> string" where
  "canonical_manifest_bytes manifest =
     utf8 (dumps (JDict (filter (\<lambda>(k, v). k \<noteq> ''manifest_hmac'') manifest)))"

text \<open>
  The canonical text of a UUID, read from 32 hexadecimal digits with optional hyphens, braces
  and prefix; any other text raises.
\<close>

definition is_hex :: "char \<Rightarrow> bool" where
  "is_hex c \<longleftrightarrow> is_digit c \<or> (CHR ''a'' \<le> c \<and> c \<le> CHR ''f'') \<or> (CHR ''A'' \<le> c \<and> c \<le> CHR ''F'')"

fun remove_text :: "string \<Rightarrow> string \<Rightarrow> string" where
  "remove_text p [] = []"
| "remove_text p (c # s) =
     (if p \<noteq> [] \<and> starts_with p (c # s) then remove_text p (drop (length p - 1) s)
      else c # remove_text p s)"

definition strip_chars :: "string \<Rightarrow> string \<Rightarrow> string" where
  "strip_chars cs s = rev (dropWhile (\<lambda>c. c \<in> set cs) (rev (dropWhile (\<lambda>c. c \<in> set cs) s)))"

definition canonical_uuid :: "string \<Rightarrow> string option" where
  "canonical_uuid text =
     (let h = remove_text ''-'' (strip_chars ''{}'' (remove_text ''uuid:'' (remove_text ''urn:'' text)));
          l = lower h
      in if length h = 32 \<and> list_all is_hex h
         then Some (take 8 l @ ''-'' @ take 4 (drop 8 l) @ ''-'' @ take 4 (drop 12 l) @ ''-'' @
                    take 4 (drop 16 l) @ ''-'' @ drop 20 l)
         else None)"

definition derive_ota_manifest_key ::
  "(string \<Rightarrow> string \<Rightarrow> nat \<Rightarrow> string \<Rightarrow> string) \<Rightarrow> string \<Rightarrow> string \<Rightarrow> ota_error + string"
where
  "derive_ota_manifest_key hkdf secret device_id =
     (case canonical_uuid device_id of
        None \<Rightarrow> Inl (ValueError ''badly formed hexadecimal UUID string'')
      | Some u \<Rightarrow> Inr (hkdf (utf8 u) ''pm-ota-manifest-v2/server-to-device'' 32 secret))"

definition b64_char :: "nat \<Rightarrow> char" where
  "b64_char n =
     ''ABCDEFGHIJKLMNOPQRSTUVWXYZabcdefghijklmnopqrstuvwxyz0123456789-_'' ! n"

text \<open>URL-safe base64 with the padding removed.\<close>

fun urlsafe_b64 :: "string \<Rightarrow> string" where
  "urlsafe_b64 [] = []"
| "urlsafe_b64 [a] = (let n = of_char a * 16 in [b64_char (n div 64), b64_char (n mod 64)])"
| "urlsafe_b64 [a, b] =
     (let n = (of_char a * 256 + of_char b) * 4
      in [b64_char (n div 4096), b64_char (n div 64 mod 64), b64_char (n mod 64)])"
| "urlsafe_b64 (a # b # c # s) =
     (let n = (of_char a * 256 + of_char b) * 256 + of_char c
      in [b64_char (n div 262144), b64_char (n div 4096 mod 64), b64_char (n div 64 mod 64),
          b64_char (n mod 64)] @ urlsafe_b64 s)"

definition sign_ota_manifest ::
  "(string \<Rightarrow> string \<Rightarrow> nat \<Rightarrow> string \<Rightarrow> string) \<Rightarrow> (string \<Rightarrow> string \<Rightarrow> string)
   \<Rightarrow> string \<Rightarrow> string \<Rightarrow> jdict \<Rightarrow> ota_error + string"
where
  "sign_ota_manifest hkdf hmac secret device_id manifest =
     bindE (derive_ota_manifest_key hkdf secret device_id) (\<lambda>key.
       Inr (urlsafe_b64 (hmac key (canonical_manifest_bytes manifest))))"

definition verify_ota_manifest_hmac ::
  "(string \<Rightarrow> string \<Rightarrow> nat \<Rightarrow> string \<Rightarrow> string) \<Rightarrow> (string \<Rightarrow> string \<Rightarrow> string)
   \<Rightarrow> string \<Rightarrow> string \<Rightarrow> jdict \<Rightarrow> ota_error + bool"
where
  "verify_ota_manifest_hmac hkdf hmac secret device_id manifest =
     (case str_value (map_of manifest ''manifest_hmac'') of
        None \<Rightarrow> Inr False
      | Some supplied \<Rightarrow> bindE (sign_ota_manifest hkdf hmac secret device_id manifest) (\<lambda>expected.
          if list_all (\<lambda>c. of_char c < (128::nat)) supplied then Inr (expected = supplied)
          else Inl (TypeError ''comparing strings with non-ASCII characters'')))"

end
