(* ===== verification/Ota_Properties.thy ===== *)
theory Ota_Properties
  imports Ota "HOL-Library.Product_Lexorder"
begin

text \<open>
  Properties of the OTA rules: the version pattern and the order of versions, the conditions
  under which a release is compatible with a device, and the authentication of manifests.
\<close>

section \<open>Splitting and joining\<close>

lemma split_on_nonempty [simp]: "split_on c s \<noteq> []"
  by (induction s) (auto split: list.splits)

lemma joined_Cons: "joined sep (x # y # ys) = x @ sep @ joined sep (y # ys)"
  by (simp add: joined_def)

lemma joined_single [simp]: "joined sep [x] = x"
  by (simp add: joined_def)

lemma joined_split [simp]: "joined [c] (split_on c s) = s"
proof (induction s)
  case Nil
  then show ?case by (simp add: joined_def)
next
  case (Cons x s)
  obtain p ps where p: "split_on c s = p # ps" by (cases "split_on c s") auto
  with Cons show ?case by (cases ps) (auto simp: joined_def)
qed

lemma split_on_free: "c \<notin> set s \<Longrightarrow> split_on c s = [s]"
  by (induction s) auto

lemma split_on_append: "c \<notin> set p \<Longrightarrow> split_on c (p @ c # s) = p # split_on c s"
  by (induction p) auto

lemma split_joined:
  "xs \<noteq> [] \<Longrightarrow> \<forall>x\<in>set xs. c \<notin> set x \<Longrightarrow> split_on c (joined [c] xs) = xs"
proof (induction xs)
  case Nil
  then show ?case by simp
next
  case (Cons x xs)
  then show ?case by (cases xs) (auto simp: joined_Cons split_on_free split_on_append)
qed

lemma split_on_parts: "x \<in> set (split_on c s) \<Longrightarrow> c \<notin> set x \<and> set x \<subseteq> set s"
  by (induction s arbitrary: x) (fastforce split: if_splits list.splits)+

lemma partition_at_none: "partition_at c s = (f, None) \<longleftrightarrow> f = s \<and> c \<notin> set s"
proof (cases "c \<in> set s")
  case True
  then have "dropWhile (\<lambda>x. x \<noteq> c) s \<noteq> []" by (auto simp: dropWhile_eq_Nil_conv)
  with True show ?thesis by (auto simp: partition_at_def split: list.splits)
next
  case False
  then have d: "takeWhile (\<lambda>x. x \<noteq> c) s = s" "dropWhile (\<lambda>x. x \<noteq> c) s = []"
    by (auto simp: takeWhile_eq_all_conv dropWhile_eq_Nil_conv)
  from False show ?thesis unfolding partition_at_def d by auto
qed

lemma partition_at_some: "partition_at c s = (f, Some r) \<longleftrightarrow> s = f @ c # r \<and> c \<notin> set f"
proof
  assume "partition_at c s = (f, Some r)"
  then obtain x where x: "takeWhile (\<lambda>x. x \<noteq> c) s = f" "dropWhile (\<lambda>x. x \<noteq> c) s = x # r"
    by (auto simp: partition_at_def split: list.splits)
  have "x = c" using hd_dropWhile[of "\<lambda>x. x \<noteq> c" s] x(2) by auto
  moreover have "c \<notin> set f" using set_takeWhileD[of c "\<lambda>x. x \<noteq> c" s] x(1) by auto
  ultimately show "s = f @ c # r \<and> c \<notin> set f"
    using x takeWhile_dropWhile_id[of "\<lambda>x. x \<noteq> c" s] by simp
next
  assume a: "s = f @ c # r \<and> c \<notin> set f"
  then have "takeWhile (\<lambda>x. x \<noteq> c) s = f" "dropWhile (\<lambda>x. x \<noteq> c) s = c # r"
    by (auto simp: takeWhile_append dropWhile_append takeWhile_eq_all_conv)
  then show "partition_at c s = (f, Some r)" by (simp add: partition_at_def)
qed

section \<open>The version pattern\<close>

definition suffix_text :: "char \<Rightarrow> string option \<Rightarrow> string" where
  "suffix_text c x = (case x of None \<Rightarrow> [] | Some s \<Rightarrow> c # s)"

definition dotted :: "(string \<Rightarrow> bool) \<Rightarrow> string option \<Rightarrow> bool" where
  "dotted ok x = (case x of None \<Rightarrow> True | Some s \<Rightarrow> list_all ok (split_on (CHR ''.'') s))"

definition core_text :: "string \<Rightarrow> string \<Rightarrow> string \<Rightarrow> string" where
  "core_text a b c = a @ ''.'' @ b @ ''.'' @ c"

lemma partition_at_suffix:
  "partition_at c s = (f, x) \<longleftrightarrow> s = f @ suffix_text c x \<and> c \<notin> set f"
  by (cases x) (auto simp: suffix_text_def partition_at_none partition_at_some)

lemma not_digit [simp]: "\<not> is_digit (CHR ''.'')" "\<not> is_digit (CHR ''-'')" "\<not> is_digit (CHR ''+'')"
  by (simp_all add: is_digit_def less_eq_char_def)

lemma digit_chars: "is_digit c \<Longrightarrow> c \<noteq> CHR ''.'' \<and> c \<noteq> CHR ''-'' \<and> c \<noteq> CHR ''+''"
  by (auto simp: is_digit_def less_eq_char_def)

lemma ident_chars: "ident_char c \<Longrightarrow> c \<noteq> CHR ''.'' \<and> c \<noteq> CHR ''+''"
  by (auto simp: ident_char_def is_letter_def is_digit_def less_eq_char_def)

lemma numeric_chars: "numeric_ident s \<Longrightarrow> s \<noteq> [] \<and> list_all is_digit s"
  by (auto simp: numeric_ident_def is_digit_def less_eq_char_def)

lemma numeric_free: "numeric_ident s \<Longrightarrow> \<not> is_digit c \<Longrightarrow> c \<notin> set s"
  using numeric_chars[of s] by (auto simp: list_all_iff)

lemma prerelease_chars: "prerelease_ident s \<Longrightarrow> s \<noteq> [] \<and> list_all ident_char s"
  by (auto simp: prerelease_ident_def ident_char_def list_all_iff dest: numeric_chars)

lemma prerelease_no_plus: "prerelease_ident s \<Longrightarrow> list_all (\<lambda>c. c \<noteq> CHR ''+'') s"
  by (rule list.pred_mono_strong[of ident_char]) (use prerelease_chars ident_chars in blast)+

lemma core_split:
  "split_on (CHR ''.'') s = [a, b, c] \<and> numeric_ident a \<and> numeric_ident b \<and> numeric_ident c
   \<longleftrightarrow> s = core_text a b c \<and> numeric_ident a \<and> numeric_ident b \<and> numeric_ident c"
proof -
  have "split_on (CHR ''.'') (core_text a b c) = [a, b, c]"
    if "numeric_ident a" "numeric_ident b" "numeric_ident c"
  proof -
    have "CHR ''.'' \<notin> set a" "CHR ''.'' \<notin> set b" "CHR ''.'' \<notin> set c"
      using that numeric_chars digit_chars by (auto simp: list_all_iff)
    then show ?thesis by (simp add: core_text_def split_on_append split_on_free)
  qed
  moreover have "s = core_text a b c" if "split_on (CHR ''.'') s = [a, b, c]"
    using joined_split[of "CHR ''.''" s] that by (simp add: joined_def core_text_def)
  ultimately show ?thesis by blast
qed

lemma dotted_chars:
  assumes "dotted ok (Some s)" and "\<And>x. ok x \<Longrightarrow> list_all P x" and "P (CHR ''.'')"
  shows "list_all P s"
proof -
  have "set (joined [CHR ''.''] xs) \<subseteq> (\<Union>x\<in>set xs. set x) \<union> {CHR ''.''}" for xs
    by (cases xs) (auto simp: joined_def)
  from this[of "split_on (CHR ''.'') s"] assms show ?thesis
    by (fastforce simp: dotted_def list_all_iff)
qed

text \<open>The pattern accepts exactly the texts that the version grammar builds.\<close>

lemma semver_match_iff:
  "semver_match v = Some (a, b, c, pre) \<longleftrightarrow>
     (\<exists>build. v = core_text a b c @ suffix_text (CHR ''-'') pre @ suffix_text (CHR ''+'') build
        \<and> numeric_ident a \<and> numeric_ident b \<and> numeric_ident c
        \<and> dotted prerelease_ident pre \<and> dotted build_ident build)"
  (is "?L \<longleftrightarrow> ?R")
proof
  assume ?L
  obtain front build where p1: "partition_at (CHR ''+'') v = (front, build)" by fastforce
  obtain core pre' where p2: "partition_at (CHR ''-'') front = (core, pre')" by fastforce
  from \<open>?L\<close> p1 p2 have "dotted build_ident build" "dotted prerelease_ident pre'" "pre' = pre"
    and "split_on (CHR ''.'') core = [a, b, c] \<and> numeric_ident a \<and> numeric_ident b \<and> numeric_ident c"
    by (auto simp: semver_match_def dotted_def split: if_splits list.splits)
  with p1 p2 show ?R unfolding core_split by (auto simp: partition_at_suffix)
next
  assume ?R
  then obtain build where v: "v = core_text a b c @ suffix_text (CHR ''-'') pre @ suffix_text (CHR ''+'') build"
    and n: "numeric_ident a" "numeric_ident b" "numeric_ident c"
    and d: "dotted prerelease_ident pre" "dotted build_ident build" by blast
  have core: "CHR ''-'' \<notin> set (core_text a b c)" "CHR ''+'' \<notin> set (core_text a b c)"
    using n by (simp_all add: core_text_def numeric_free)
  have "list_all (\<lambda>c. c \<noteq> CHR ''+'') p" if "pre = Some p" for p
    using dotted_chars[OF _ prerelease_no_plus] that d(1) by simp
  then have "CHR ''+'' \<notin> set (core_text a b c @ suffix_text (CHR ''-'') pre)"
    using core(2) by (auto simp: suffix_text_def list_all_iff split: option.splits)
  with v core have "partition_at (CHR ''+'') v = (core_text a b c @ suffix_text (CHR ''-'') pre, build)"
    "partition_at (CHR ''-'') (core_text a b c @ suffix_text (CHR ''-'') pre) = (core_text a b c, pre)"
    by (auto simp: partition_at_suffix)
  moreover have "split_on (CHR ''.'') (core_text a b c) = [a, b, c]" using core_split n by blast
  ultimately show ?L using n d by (simp add: semver_match_def dotted_def)
qed

section \<open>The order of versions\<close>

text \<open>
  The parts of a key are embedded into a linear order of the library, on which Python's
  comparison never meets an integer and a string.
\<close>

fun part_ok :: "int \<times> pyval \<Rightarrow> bool" where
  "part_ok (t, PInt n) = (t = 0)"
| "part_ok (t, PStr s) = (t = 1 \<or> (t = 2 \<and> s = []))"

fun part_rank :: "int \<times> pyval \<Rightarrow> int \<times> int \<times> string" where
  "part_rank (t, PInt n) = (t, n, [])"
| "part_rank (t, PStr s) = (t, 0, s)"

lemma part_rank_inj: "part_ok x \<Longrightarrow> part_ok y \<Longrightarrow> part_rank x = part_rank y \<longleftrightarrow> x = y"
  by (cases x rule: part_ok.cases; cases y rule: part_ok.cases) auto

lemma part_less_rank: "part_ok x \<Longrightarrow> part_ok y \<Longrightarrow> part_less x y = Some (part_rank x < part_rank y)"
  by (cases x rule: part_ok.cases; cases y rule: part_ok.cases) (auto simp: less_prod_def)

lemma parts_less_rank:
  "list_all part_ok xs \<Longrightarrow> list_all part_ok ys \<Longrightarrow>
   parts_less xs ys = Some (map part_rank xs < map part_rank ys)"
proof (induction xs ys rule: parts_less.induct)
  case (1 ys)
  then show ?case by (cases ys) auto
next
  case (3 x xs y ys)
  then show ?case by (auto simp: part_less_rank part_rank_inj)
qed auto

lemma map_rank_inj:
  "list_all part_ok xs \<Longrightarrow> list_all part_ok ys \<Longrightarrow> map part_rank xs = map part_rank ys \<longleftrightarrow> xs = ys"
  using part_rank_inj by (auto simp: list_all_iff intro!: map_inj_on[of part_rank xs ys] inj_onI)

definition key_rank :: "semver \<Rightarrow> int \<times> int \<times> int \<times> (int \<times> int \<times> string) list" where
  "key_rank k = (case k of (a, b, c, p) \<Rightarrow> (a, b, c, map part_rank p))"

definition key_ok :: "semver \<Rightarrow> bool" where
  "key_ok k = (case k of (a, b, c, p) \<Rightarrow> list_all part_ok p)"

lemma key_less_rank: "key_ok k \<Longrightarrow> key_ok l \<Longrightarrow> key_less k l = Some (key_rank k < key_rank l)"
  by (auto simp: key_less_def key_ok_def key_rank_def parts_less_rank less_prod_def split: prod.splits)

lemma key_rank_inj: "key_ok k \<Longrightarrow> key_ok l \<Longrightarrow> key_rank k = key_rank l \<longleftrightarrow> k = l"
  by (auto simp: key_ok_def key_rank_def map_rank_inj split: prod.splits)

lemma semver_key_ok: "semver_key v = Some k \<Longrightarrow> key_ok k"
  by (auto simp: semver_key_def key_ok_def prerelease_key_def list_all_iff split: option.splits)

lemma compare_semver_rank:
  "compare_semver l r =
     Inr (case (semver_key l, semver_key r) of
        (Some k, Some k') \<Rightarrow>
          Some (if key_rank k < key_rank k' then -1 else if key_rank k = key_rank k' then 0 else 1)
      | _ \<Rightarrow> None)"
proof -
  have "compare_semver l r = Inr (Some (bool_int (key_rank k' < key_rank k) - bool_int (key_rank k < key_rank k')))"
    if "semver_key l = Some k" "semver_key r = Some k'" for k k'
    using that by (simp add: compare_semver_def key_less_rank semver_key_ok)
  moreover have "bool_int (key_rank k' < key_rank k) - bool_int (key_rank k < key_rank k') =
      (if key_rank k < key_rank k' then -1 else if key_rank k = key_rank k' then 0 else 1)" for k k'
    using less_linear[of "key_rank k" "key_rank k'"] by (auto simp: bool_int_def)
  ultimately show ?thesis by (auto simp: compare_semver_def split: option.splits)
qed

text \<open>A numeric identifier is the decimal text of its value, so equal keys have equal texts.\<close>

lemma digits_value_snoc: "digits_value (s @ [c]) = digits_value s * 10 + (int (of_char c) - 48)"
  by (simp add: digits_value_def)

lemma zero_char [simp]: "char_of (48::nat) = CHR ''0''"
  by code_simp

lemma digit_code: "is_digit c \<longleftrightarrow> 48 \<le> (of_char c :: nat) \<and> (of_char c :: nat) \<le> 57"
  by (simp add: is_digit_def less_eq_char_def)

lemma digits_text_value:
  "s \<noteq> [] \<Longrightarrow> list_all is_digit s \<Longrightarrow> hd s \<noteq> CHR ''0'' \<Longrightarrow>
   0 < digits_value s \<and> digits_text (nat (digits_value s)) = s"
proof (induction s rule: rev_induct)
  case Nil
  then show ?case by simp
next
  case (snoc c s)
  define d where "d = (of_char c :: nat) - 48"
  have d: "d \<le> 9" "c = char_of (48 + d)" "int (of_char c) - 48 = int d"
    using snoc.prems(2) by (auto simp: digit_code d_def)
  show ?case
  proof (cases "s = []")
    case True
    with snoc.prems(3) d(2) have "d \<noteq> 0" by (intro notI) simp
    with True d show ?thesis by (simp add: digits_text.simps digits_value_def)
  next
    case False
    with snoc have IH: "0 < digits_value s" "digits_text (nat (digits_value s)) = s" by auto
    define m where "m = nat (digits_value s)"
    have v: "digits_value (s @ [c]) = int (m * 10 + d)"
      using IH(1) d(3) unfolding digits_value_snoc m_def by simp
    have m: "0 < m" using IH(1) by (simp add: m_def)
    then have "digits_text (m * 10 + d) = s @ [c]"
      using d IH(2) by (simp add: digits_text.simps[of "m * 10 + d"] m_def[symmetric])
    with m show ?thesis unfolding v nat_int by simp
  qed
qed

lemma numeric_value_inj:
  assumes "numeric_ident s" and "numeric_ident t" and "digits_value s = digits_value t"
  shows "s = t"
proof -
  have "digits_text (nat (digits_value u)) = u" if "numeric_ident u" for u
  proof (cases "u = ''0''")
    case True
    then show ?thesis by (simp add: digits_text.simps[of 0] digits_value_def)
  next
    case False
    with that show ?thesis using digits_text_value[of u] unfolding numeric_ident_def by blast
  qed
  with assms show ?thesis by metis
qed

lemma prerelease_digits: "prerelease_ident s \<Longrightarrow> list_all is_digit s \<Longrightarrow> numeric_ident s"
  by (auto simp: prerelease_ident_def list_all_iff)

lemma prerelease_key_inj:
  assumes "dotted prerelease_ident p" and "dotted prerelease_ident q"
    and "prerelease_key p = prerelease_key q"
  shows "p = q"
proof (cases p)
  case None
  with assms(3) show ?thesis
    by (cases q) (auto simp: prerelease_key_def Cons_eq_map_conv split: if_splits)
next
  case (Some s)
  with assms(3) obtain t where t: "q = Some t"
    by (cases q) (auto simp: prerelease_key_def map_eq_Cons_conv split: if_splits)
  let ?f = "\<lambda>part. if part \<noteq> [] \<and> list_all is_digit part then (0::int, PInt (digits_value part)) else (1, PStr part)"
  have "map ?f (split_on (CHR ''.'') s) = map ?f (split_on (CHR ''.'') t)"
    using assms(3) Some t by (simp add: prerelease_key_def)
  moreover have "inj_on ?f (set (split_on (CHR ''.'') s) \<union> set (split_on (CHR ''.'') t))"
    using assms(1,2) Some t prerelease_digits numeric_value_inj
    by (intro inj_onI) (auto simp: dotted_def list_all_iff split: if_splits)
  ultimately have "split_on (CHR ''.'') s = split_on (CHR ''.'') t" by (rule map_inj_on)
  then show ?thesis using Some t joined_split[of "CHR ''.''"] by metis
qed

lemma semver_key_eq_iff:
  assumes "semver_key v = Some k" and "semver_key w = Some l"
  shows "k = l \<longleftrightarrow> semver_match v = semver_match w"
proof -
  obtain a b c p where m: "semver_match v = Some (a, b, c, p)" using assms(1) by (auto simp: semver_key_def)
  obtain a' b' c' p' where m': "semver_match w = Some (a', b', c', p')" using assms(2) by (auto simp: semver_key_def)
  show ?thesis
    using assms m m' m[unfolded semver_match_iff] m'[unfolded semver_match_iff]
    by (auto simp: semver_key_def intro: numeric_value_inj prerelease_key_inj)
qed

text \<open>C22. Version comparison is a total order on valid versions.  It never raises, it has no
  answer exactly when one of the texts is not a valid version, swapping the arguments negates
  it, it is transitive, and it is zero exactly when the two versions differ at most in their
  build metadata.\<close>

theorem compare_semver_total_order:
  "(\<exists>x. compare_semver u v = Inr x)
   \<and> (compare_semver u v = Inr None \<longleftrightarrow> semver_match u = None \<or> semver_match v = None)
   \<and> (compare_semver u v = Inr (Some x) \<longleftrightarrow> compare_semver v u = Inr (Some (- x)))
   \<and> (compare_semver u v = Inr (Some (- 1)) \<and> compare_semver v w = Inr (Some (- 1))
        \<longrightarrow> compare_semver u w = Inr (Some (- 1)))
   \<and> (compare_semver u v = Inr (Some 0) \<longleftrightarrow> semver_match u \<noteq> None \<and> semver_match u = semver_match v)"
proof -
  have m: "semver_key y = None \<longleftrightarrow> semver_match y = None" for y by (simp add: semver_key_def)
  have "(\<exists>x. compare_semver u v = Inr x)" by (simp add: compare_semver_rank)
  moreover have "compare_semver u v = Inr None \<longleftrightarrow> semver_match u = None \<or> semver_match v = None"
    unfolding m[symmetric] by (auto simp: compare_semver_rank split: option.splits)
  moreover have "compare_semver u v = Inr (Some x) \<longleftrightarrow> compare_semver v u = Inr (Some (- x))"
    by (auto simp: compare_semver_rank split: option.splits)
  moreover have "compare_semver u v = Inr (Some (- 1)) \<and> compare_semver v w = Inr (Some (- 1))
        \<longrightarrow> compare_semver u w = Inr (Some (- 1))"
    by (auto simp: compare_semver_rank split: option.splits if_splits)
  moreover have "compare_semver u v = Inr (Some 0) \<longleftrightarrow> semver_match u \<noteq> None \<and> semver_match u = semver_match v"
  proof (cases "semver_key u = None \<or> semver_key v = None")
    case True
    then have "compare_semver u v = Inr None" by (auto simp: compare_semver_rank split: option.splits)
    moreover have "semver_match u = None \<or> semver_match v = None" using True unfolding m .
    ultimately show ?thesis by auto
  next
    case False
    then obtain k l where k: "semver_key u = Some k" and l: "semver_key v = Some l" by auto
    then have "key_rank k = key_rank l \<longleftrightarrow> semver_match u = semver_match v"
      using key_rank_inj semver_key_ok semver_key_eq_iff by metis
    moreover have "semver_match u \<noteq> None" using False unfolding m by simp
    ultimately show ?thesis using k l by (auto simp: compare_semver_rank)
  qed
  ultimately show ?thesis by blast
qed

theorem compare_semver_total_order_witness:
  "compare_semver ''1.0.0-rc.2'' ''1.0.0-rc.11'' = Inr (Some (- 1))
   \<and> compare_semver ''1.0.0-rc.11'' ''1.0.0'' = Inr (Some (- 1))
   \<and> compare_semver ''1.0.0-rc.2'' ''1.0.0'' = Inr (Some (- 1))"
proof -
  have "compare_semver ''1.0.0-rc.2'' ''1.0.0-rc.11'' = Inr (Some (- 1))"
    "compare_semver ''1.0.0-rc.11'' ''1.0.0'' = Inr (Some (- 1))" by code_simp+
  then show ?thesis
    using compare_semver_total_order[of "''1.0.0-rc.2''" "''1.0.0-rc.11''" "- 1" "''1.0.0''"] by blast
qed

section \<open>Compatibility\<close>

text \<open>The evidence under which a device counts as ready for server updates.\<close>

definition ota_ready :: "device_capability \<Rightarrow> bool" where
  "ota_ready c \<longleftrightarrow> (let ota = as_dict (map_of (cap_features c) ''ota'') in
     json_truthy (map_of ota ''supported'') \<and> json_truthy (map_of ota ''rollback_supported'')
     \<and> map_of ota ''authentication_mode'' = Some (JStr ''existing_device_hmac'')
     \<and> (\<exists>n. int_value (map_of ota ''protocol_version'') = Some n \<and> 2 \<le> n)
     \<and> (\<exists>n. int_value (map_of ota ''partition_size_bytes'') = Some n \<and> 0 < n))"

lemma ota_state_ready:
  "ota_state (ota_capability_payload cap) = ''ready'' \<longleftrightarrow> (\<exists>c. cap = Some c \<and> ota_ready c)"
proof (cases cap)
  case None
  then show ?thesis by (simp add: ota_capability_payload_def Let_def)
next
  case (Some c)
  then show ?thesis
    by (auto simp: ota_capability_payload_def ota_ready_def non_null_None Let_def split: if_splits)
qed

lemma ota_partition:
  "ota_partition_size_bytes (ota_capability_payload (Some c)) = Some x \<Longrightarrow>
   map_of (as_dict (map_of (cap_features c) ''ota'')) ''partition_size_bytes'' = Some x"
  by (auto simp: ota_capability_payload_def non_null_None Let_def split: if_splits)

lemma version_order_total: "\<exists>x. version_order r d = Inr x"
  by (simp add: version_order_def compare_semver_rank)

text \<open>C23. Readiness is decided exactly.  The compatibility check always answers; a release is
  ready for a device if and only if the device reported the OTA evidence, its hardware target
  and protocol match, the image fits its partition, and the release is not the installed
  version or an older one.\<close>

theorem release_compatibility_exact:
  "\<exists>c. release_compatibility d cap r = Inr c \<and>
     (cmp_ready c \<longleftrightarrow>
        (\<exists>k n. cap = Some k \<and> ota_ready k
           \<and> hardware_compatible (cap_hardware_target k) (rel_hardware_target r)
           \<and> int_value (map_of (as_dict (map_of (cap_features k) ''ota'')) ''partition_size_bytes'') = Some n
           \<and> rel_size_bytes r \<le> n)
        \<and> fd_protocol_version d \<noteq> [] \<and> rel_protocol_min r = fd_protocol_version d
        \<and> rel_protocol_max r = fd_protocol_version d
        \<and> (\<forall>v. fd_firmware_version d = Some v \<and> v \<noteq> [] \<longrightarrow>
             compare_semver (rel_version r) v \<in> {Inr None, Inr (Some 1)}))"
proof -
  obtain x where x: "version_order r d = Inr x" using version_order_total by blast
  have ver: "(case x of None \<Rightarrow> True | Some y \<Rightarrow> \<not> y \<le> 0) \<longleftrightarrow>
      (\<forall>v. fd_firmware_version d = Some v \<and> v \<noteq> [] \<longrightarrow>
             compare_semver (rel_version r) v \<in> {Inr None, Inr (Some 1)})"
    using x by (cases "fd_firmware_version d")
      (auto simp: version_order_def compare_semver_rank split: option.splits if_splits)
  let ?o = "ota_capability_payload cap"
  have part: "ota_ready k \<Longrightarrow> int_value (ota_partition_size_bytes (ota_capability_payload (Some k))) =
      int_value (map_of (as_dict (map_of (cap_features k) ''ota'')) ''partition_size_bytes'')" for k
    by (auto simp: ota_ready_def ota_capability_payload_def non_null_None Let_def)
  have "\<exists>c. release_compatibility d cap r = Inr c \<and> (cmp_ready c \<longleftrightarrow> ota_state ?o = ''ready''
      \<and> (\<exists>k. cap = Some k \<and> hardware_compatible (cap_hardware_target k) (rel_hardware_target r))
      \<and> (fd_protocol_version d \<noteq> [] \<and> rel_protocol_min r = fd_protocol_version d
          \<and> fd_protocol_version d = rel_protocol_max r)
      \<and> (\<forall>n. int_value (ota_partition_size_bytes ?o) = Some n \<longrightarrow> rel_size_bytes r \<le> n)
      \<and> (case x of None \<Rightarrow> True | Some y \<Rightarrow> \<not> y \<le> 0))"
    using x by (cases cap; cases x; cases "int_value (ota_partition_size_bytes ?o)")
      (auto simp: release_compatibility_def Let_def)
  then obtain c where c: "release_compatibility d cap r = Inr c"
    and rc: "cmp_ready c \<longleftrightarrow> ota_state ?o = ''ready''
      \<and> (\<exists>k. cap = Some k \<and> hardware_compatible (cap_hardware_target k) (rel_hardware_target r))
      \<and> (fd_protocol_version d \<noteq> [] \<and> rel_protocol_min r = fd_protocol_version d
          \<and> fd_protocol_version d = rel_protocol_max r)
      \<and> (\<forall>n. int_value (ota_partition_size_bytes ?o) = Some n \<longrightarrow> rel_size_bytes r \<le> n)
      \<and> (case x of None \<Rightarrow> True | Some y \<Rightarrow> \<not> y \<le> 0)"
    by blast
  have eq: "(\<exists>k. cap = Some k \<and> ota_ready k \<and> hardware_compatible (cap_hardware_target k) (rel_hardware_target r)
      \<and> (\<forall>n. int_value (ota_partition_size_bytes (ota_capability_payload (Some k))) = Some n \<longrightarrow> rel_size_bytes r \<le> n))
    \<longleftrightarrow> (\<exists>k n. cap = Some k \<and> ota_ready k
           \<and> hardware_compatible (cap_hardware_target k) (rel_hardware_target r)
           \<and> int_value (map_of (as_dict (map_of (cap_features k) ''ota'')) ''partition_size_bytes'') = Some n
           \<and> rel_size_bytes r \<le> n)"
    by (auto simp: part) (auto simp: ota_ready_def Let_def)
  show ?thesis using c rc unfolding ver ota_state_ready eq[symmetric] by (cases cap) auto
qed

theorem release_compatibility_exact_witness:
  "let k = \<lparr>cap_hardware_target = '' ESP32-S3-N16R8'', cap_features = [(''ota'', JDict
         [(''supported'', JBool True), (''rollback_supported'', JBool True), (''protocol_version'', JInt 2),
          (''authentication_mode'', JStr ''existing_device_hmac''), (''partition_size_bytes'', JInt 1000)])]\<rparr>;
       d = \<lparr>fd_id = ''d'', fd_protocol_version = ''p'', fd_firmware_version = Some ''1.0.0-rc.1'',
         fd_firmware_build_hash = None, fd_last_seen_at = None, fd_site_id = ''s'', fd_revoked_at = None,
         fd_lifecycle_status = ''active''\<rparr>;
       r = \<lparr>rel_id = ''r'', rel_version = ''1.0.0'', rel_trust_mode = ''existing_device_hmac'',
         rel_project_name = None, rel_hardware_target = ''esp32-s3'', rel_protocol_min = ''p'',
         rel_protocol_max = ''p'', rel_size_bytes = 999, rel_sha256 = ''0'', rel_build_hash = None,
         rel_verification_status = ''verified'', rel_artifact_path = None, rel_file_path = None,
         rel_artifact_verified_at = None, rel_active = False\<rparr>
   in \<exists>c. release_compatibility d (Some k) r = Inr c \<and> cmp_ready c"
proof -
  let ?k = "\<lparr>cap_hardware_target = '' ESP32-S3-N16R8'', cap_features = [(''ota'', JDict
         [(''supported'', JBool True), (''rollback_supported'', JBool True), (''protocol_version'', JInt 2),
          (''authentication_mode'', JStr ''existing_device_hmac''), (''partition_size_bytes'', JInt 1000)])]\<rparr>"
  let ?d = "\<lparr>fd_id = ''d'', fd_protocol_version = ''p'', fd_firmware_version = Some ''1.0.0-rc.1'',
         fd_firmware_build_hash = None, fd_last_seen_at = None, fd_site_id = ''s'', fd_revoked_at = None,
         fd_lifecycle_status = ''active''\<rparr>"
  let ?r = "\<lparr>rel_id = ''r'', rel_version = ''1.0.0'', rel_trust_mode = ''existing_device_hmac'',
         rel_project_name = None, rel_hardware_target = ''esp32-s3'', rel_protocol_min = ''p'',
         rel_protocol_max = ''p'', rel_size_bytes = 999, rel_sha256 = ''0'', rel_build_hash = None,
         rel_verification_status = ''verified'', rel_artifact_path = None, rel_file_path = None,
         rel_artifact_verified_at = None, rel_active = False\<rparr>"
  have "compare_semver ''1.0.0'' ''1.0.0-rc.1'' = Inr (Some 1)"
    "hardware_compatible '' ESP32-S3-N16R8'' ''esp32-s3''" by code_simp+
  moreover have "ota_ready ?k" by (simp add: ota_ready_def)
  ultimately show ?thesis
    using release_compatibility_exact[of ?d "Some ?k" ?r] by auto
qed

section \<open>Manifests\<close>

lemma filter_update_key:
  "filter (\<lambda>(k, v). k \<noteq> key) (dict_set d key x) = filter (\<lambda>(k, v). k \<noteq> key) d"
  unfolding dict_set_def by (induction d) (auto)

lemma dumps_perm:
  assumes "mset d = mset e" and "distinct (map fst d)"
  shows "dumps (JDict d) = dumps (JDict e)"
proof -
  let ?f = "\<lambda>(k, v). (k, string_text k @ '':'' @ dumps v)"
  have "map fst (map ?f d) = map fst d" by (induction d) auto
  then have "distinct (map fst (map ?f d))" using assms(2) by metis
  moreover have "mset (map ?f d) = mset (map ?f e)" using assms(1) by (metis mset_map)
  ultimately have "sort_key fst (map ?f d) = sort_key fst (map ?f e)" by (intro sort_key_perm)
  then show ?thesis by simp
qed

lemma canonical_perm:
  assumes "mset d = mset e" and "distinct (map fst d)"
  shows "canonical_manifest_bytes d = canonical_manifest_bytes e"
proof -
  have "mset (filter (\<lambda>(k, v). k \<noteq> ''manifest_hmac'') d) = mset (filter (\<lambda>(k, v). k \<noteq> ''manifest_hmac'') e)"
    using assms(1) by (metis mset_filter)
  moreover have "distinct (map fst (filter (\<lambda>(k, v). k \<noteq> ''manifest_hmac'') d))"
    using assms(2) by (simp add: distinct_map_filter)
  ultimately show ?thesis unfolding canonical_manifest_bytes_def by (metis dumps_perm)
qed

lemma b64_char_ascii: "n < 64 \<Longrightarrow> of_char (b64_char n) < (128::nat)"
proof -
  let ?t = "''ABCDEFGHIJKLMNOPQRSTUVWXYZabcdefghijklmnopqrstuvwxyz0123456789-_''"
  assume "n < 64"
  moreover have "list_all (\<lambda>c. of_char c < (128::nat)) ?t" "length ?t = 64" by code_simp+
  ultimately show ?thesis using list_all_length[of _ ?t] unfolding b64_char_def by metis
qed

lemma three_bytes: "a < 256 \<Longrightarrow> b < 256 \<Longrightarrow> c < 256 \<Longrightarrow> ((a * 256 + b) * 256 + c) div 262144 < (64::nat)"
  by (rule less_mult_imp_div_less) simp

lemma two_bytes: "a < 256 \<Longrightarrow> b < 256 \<Longrightarrow> ((a * 256 + b) * 4) div 4096 < (64::nat)"
  by (rule less_mult_imp_div_less) simp

lemma one_byte: "a < 256 \<Longrightarrow> a * 16 div 64 < (64::nat)"
  by (rule less_mult_imp_div_less) simp

lemma urlsafe_b64_ascii: "list_all (\<lambda>c. of_char c < (128::nat)) (urlsafe_b64 s)"
proof (induction s rule: urlsafe_b64.induct)
  case (2 a)
  show ?case unfolding urlsafe_b64.simps Let_def list.pred_inject
    by (intro conjI b64_char_ascii one_byte) simp_all
next
  case (3 a b)
  show ?case unfolding urlsafe_b64.simps Let_def list.pred_inject
    by (intro conjI b64_char_ascii two_bytes) simp_all
next
  case (4 a b c s)
  then show ?case unfolding urlsafe_b64.simps Let_def list.pred_inject list_all_append
    by (intro conjI b64_char_ascii three_bytes) simp_all
qed simp

lemma sign_then_verify:
  assumes "distinct (map fst m)"
    and "sign_ota_manifest hkdf hmac secret device_id m = Inr sig"
    and "mset delivered = mset (dict_set m ''manifest_hmac'' (JStr sig))"
  shows "verify_ota_manifest_hmac hkdf hmac secret device_id delivered = Inr True
    \<and> (\<forall>k. k \<noteq> ''manifest_hmac'' \<longrightarrow> map_of delivered k = map_of m k)"
proof -
  let ?s = "dict_set m ''manifest_hmac'' (JStr sig)"
  have dist: "distinct (map fst ?s)" using assms(1) by simp
  then have dd: "distinct (map fst delivered)"
    using mset_eq_imp_distinct_iff[of "map fst delivered" "map fst ?s"] assms(3) by (simp add: mset_map)
  have look: "map_of delivered = map_of ?s"
    using mset_eq_setD[OF assms(3)] map_of_inject_set[OF dd dist] by blast
  have "canonical_manifest_bytes delivered = canonical_manifest_bytes ?s"
    using canonical_perm[OF assms(3) dd] .
  also have "\<dots> = canonical_manifest_bytes m" by (simp add: canonical_manifest_bytes_def filter_update_key)
  finally have "sign_ota_manifest hkdf hmac secret device_id delivered = Inr sig"
    using assms(2) by (simp add: sign_ota_manifest_def)
  moreover have "list_all (\<lambda>c. of_char c < (128::nat)) sig"
    using assms(2) by (auto simp: sign_ota_manifest_def result_simps urlsafe_b64_ascii)
  ultimately show ?thesis by (simp add: verify_ota_manifest_hmac_def look)
qed

text \<open>C24. A signed manifest verifies.  Whatever HKDF and HMAC compute, attaching the signature
  to a manifest and delivering its entries in any order gives a manifest that the check
  accepts, and whose other entries are those that were signed.\<close>

theorem signed_manifest_verifies:
  assumes "distinct (map fst m)"
    and "sign_ota_manifest hkdf hmac secret device_id m = Inr sig"
    and "mset delivered = mset (dict_set m ''manifest_hmac'' (JStr sig))"
  shows "verify_ota_manifest_hmac hkdf hmac secret device_id delivered = Inr True
    \<and> (\<forall>k. k \<noteq> ''manifest_hmac'' \<longrightarrow> map_of delivered k = map_of m k)"
  using assms by (rule sign_then_verify)

theorem signed_manifest_verifies_witness:
  "verify_ota_manifest_hmac (\<lambda>salt info n s. take n (salt @ s)) (\<lambda>k m. take 3 k) ''secret''
     ''{F0000000-0000-0000-0000-00000000000f}''
     [(''manifest_hmac'', JStr ''ZjAw''), (''version'', JStr ''1.2.3''), (''attempt'', JInt 1)] = Inr True"
proof -
  let ?k = "\<lambda>(salt::string) (info::string) n s. take n (salt @ s)"
  let ?h = "\<lambda>k (m::string). take 3 k"
  let ?m = "[(''version'', JStr ''1.2.3''), (''attempt'', JInt 1)]"
  let ?id = "''{F0000000-0000-0000-0000-00000000000f}''"
  have "char_of (102::nat) = CHR ''f''" by code_simp
  then have "canonical_uuid ?id = Some ''f0000000-0000-0000-0000-00000000000f''"
    by (simp add: canonical_uuid_def strip_chars_def starts_with_def lower_def lower_char_def is_hex_def
        is_digit_def less_eq_char_def)
  then have "derive_ota_manifest_key ?k ''secret'' ?id = Inr ''f0000000-0000-0000-0000-00000000''"
    by (simp add: derive_ota_manifest_key_def utf8_def)
  moreover have "urlsafe_b64 ''f00'' = ''ZjAw''" by (simp add: b64_char_def)
  ultimately have "sign_ota_manifest ?k ?h ''secret'' ?id ?m = Inr ''ZjAw''"
    by (simp add: sign_ota_manifest_def)
  then show ?thesis
    using signed_manifest_verifies[of ?m ?k ?h "''secret''" ?id "''ZjAw''"
        "[(''manifest_hmac'', JStr ''ZjAw''), (''version'', JStr ''1.2.3''), (''attempt'', JInt 1)]"]
    by (simp add: dict_set_def)
qed

end
