(* ===== verification/Firmware_Model.thy ===== *)
theory Firmware_Model
  imports Ota
begin

text \<open>
  Model of firmware deployments: the states and transitions of \<^verbatim>\<open>app/ota.py\<close>, and the whole of
  \<^verbatim>\<open>app/firmware_lifecycle.py\<close> (the transition rule, the classification of overdue attempts,
  the reconciler and the verification checklist).  A deployment is a record with the columns of
  its table; the database is a record of tables.  Row locks (\<^verbatim>\<open>FOR UPDATE\<close>,
  \<^verbatim>\<open>SKIP LOCKED\<close>) are not state: a handler is one transaction.
\<close>

section \<open>Deployment states\<close>

datatype dstate =
    Waiting_canary | Scheduled | Offered | Manifest_authenticated | Waiting_for_schedule
  | Download_started | Downloading | Binary_verified | Partition_written | Rebooting
  | Post_boot_validation | Validated | Awaiting_heartbeat | Rollback_detected
  | Completed | Failed | Cancelled | Rolled_back

fun state_text :: "dstate \<Rightarrow> string" where
  "state_text Waiting_canary = ''waiting_canary''"
| "state_text Scheduled = ''scheduled''"
| "state_text Offered = ''offered''"
| "state_text Manifest_authenticated = ''manifest_authenticated''"
| "state_text Waiting_for_schedule = ''waiting_for_schedule''"
| "state_text Download_started = ''download_started''"
| "state_text Downloading = ''downloading''"
| "state_text Binary_verified = ''binary_verified''"
| "state_text Partition_written = ''partition_written''"
| "state_text Rebooting = ''rebooting''"
| "state_text Post_boot_validation = ''post_boot_validation''"
| "state_text Validated = ''validated''"
| "state_text Awaiting_heartbeat = ''awaiting_heartbeat''"
| "state_text Rollback_detected = ''rollback_detected''"
| "state_text Completed = ''completed''"
| "state_text Failed = ''failed''"
| "state_text Cancelled = ''cancelled''"
| "state_text Rolled_back = ''rolled_back''"

definition TERMINAL_DEPLOYMENT_STATES :: "dstate list" where
  "TERMINAL_DEPLOYMENT_STATES = [Completed, Failed, Cancelled, Rolled_back]"

text \<open>In the order of their texts, in which the reconciler visits them.\<close>

definition ACTIVE_DEPLOYMENT_STATES :: "dstate list" where
  "ACTIVE_DEPLOYMENT_STATES =
     [Awaiting_heartbeat, Binary_verified, Download_started, Downloading, Manifest_authenticated,
      Offered, Partition_written, Post_boot_validation, Rebooting, Rollback_detected, Scheduled,
      Validated, Waiting_canary, Waiting_for_schedule]"

definition DEVICE_REPORT_STATES :: "dstate list" where
  "DEVICE_REPORT_STATES =
     [Manifest_authenticated, Waiting_for_schedule, Download_started, Downloading, Binary_verified,
      Partition_written, Rebooting, Post_boot_validation, Validated, Failed, Rollback_detected,
      Rolled_back]"

fun DEPLOYMENT_TRANSITIONS :: "dstate \<Rightarrow> dstate list" where
  "DEPLOYMENT_TRANSITIONS Waiting_canary = [Scheduled, Cancelled]"
| "DEPLOYMENT_TRANSITIONS Scheduled = [Offered, Cancelled]"
| "DEPLOYMENT_TRANSITIONS Offered = [Manifest_authenticated, Failed, Cancelled]"
| "DEPLOYMENT_TRANSITIONS Manifest_authenticated =
     [Waiting_for_schedule, Download_started, Failed, Cancelled]"
| "DEPLOYMENT_TRANSITIONS Waiting_for_schedule = [Download_started, Failed, Cancelled]"
| "DEPLOYMENT_TRANSITIONS Download_started = [Downloading, Failed, Cancelled]"
| "DEPLOYMENT_TRANSITIONS Downloading = [Binary_verified, Failed, Cancelled]"
| "DEPLOYMENT_TRANSITIONS Binary_verified = [Partition_written, Failed, Cancelled]"
| "DEPLOYMENT_TRANSITIONS Partition_written = [Rebooting, Failed, Rollback_detected]"
| "DEPLOYMENT_TRANSITIONS Rebooting = [Post_boot_validation, Failed, Rollback_detected]"
| "DEPLOYMENT_TRANSITIONS Post_boot_validation = [Validated, Failed, Rollback_detected]"
| "DEPLOYMENT_TRANSITIONS Validated = [Awaiting_heartbeat, Failed, Rollback_detected]"
| "DEPLOYMENT_TRANSITIONS Awaiting_heartbeat = [Completed, Failed, Rollback_detected]"
| "DEPLOYMENT_TRANSITIONS Rollback_detected = [Rolled_back]"
| "DEPLOYMENT_TRANSITIONS Completed = []"
| "DEPLOYMENT_TRANSITIONS Failed = []"
| "DEPLOYMENT_TRANSITIONS Cancelled = []"
| "DEPLOYMENT_TRANSITIONS Rolled_back = []"

section \<open>Tables\<close>

record firmware_deployment =
  dep_id :: string
  dep_release_id :: string
  dep_device_id :: string
  dep_status :: dstate
  dep_state :: dstate
  dep_idempotency_key :: "string option"
  dep_rollout_group_id :: "string option"
  dep_rollout_order :: int
  dep_promoted_at :: "datetime option"
  dep_revision :: int
  dep_attempt :: int
  dep_progress :: int
  dep_bytes_received :: int
  dep_scheduled_at :: datetime
  dep_expires_at :: "datetime option"
  dep_allow_downgrade :: bool
  dep_downloaded_at :: "datetime option"
  dep_installed_at :: "datetime option"
  dep_validated_at :: "datetime option"
  dep_failure_reason :: "string option"
  dep_failure_code :: "string option"
  dep_failure_summary :: "string option"
  dep_last_report_at :: "datetime option"
  dep_last_report_payload :: jdict
  dep_validated_version :: "string option"
  dep_validated_build_hash :: "string option"
  dep_rollback_version :: "string option"
  dep_rollback_build_hash :: "string option"
  dep_last_boot_id :: "string option"
  dep_source_version :: "string option"
  dep_source_build_hash :: "string option"
  dep_source_boot_id :: "string option"
  dep_interruption_evidence :: jdict
  dep_verification_heartbeats :: int
  dep_stabilization_started_at :: "datetime option"
  dep_reading_confirmed_at :: "datetime option"
  dep_rollback_at :: "datetime option"
  dep_state_changed_at :: datetime
  dep_terminal_at :: "datetime option"
  dep_created_at :: datetime

record device_heartbeat =
  hb_id :: string
  hb_device_id :: string
  hb_boot_id :: string
  hb_received_at :: datetime
  hb_pzem_ok :: bool
  hb_sd_ok :: bool
  hb_time_trusted :: bool
  hb_payload :: json

record alert_instance =
  al_device_id :: "string option"
  al_status :: string
  al_severity :: string

record audit_event =
  au_occurred_at :: instant
  au_actor_type :: string
  au_actor_id :: "string option"
  au_action :: string
  au_object_type :: string
  au_object_id :: string
  au_details :: jdict

record fw_settings =
  firmware_manifest_ttl_seconds :: int
  firmware_verification_heartbeat_count :: int
  firmware_download_stale_seconds :: int
  firmware_interruption_grace_seconds :: int
  firmware_sensor_return_timeout_seconds :: int
  firmware_post_boot_timeout_seconds :: int
  firmware_legacy_evidence_timeout_seconds :: int
  firmware_reconcile_batch_size :: int
  heartbeat_expectation_seconds :: int

text \<open>The columns of \<^verbatim>\<open>DeviceDataState\<close> and of the participants' join that lock a device.\<close>

record reset_gate =
  rg_active_operation_id :: "string option"
  rg_ingestion_gate :: string
  rg_reset_required_on_reconnect :: bool

record reset_participant =
  pt_device_id :: string
  pt_state :: string
  pt_operation_state :: string

record ota_command =
  oc_device_id :: string
  oc_state :: string
  oc_payload :: jdict
  oc_expected_state :: jdict
  oc_idempotency_key :: string
  oc_created_at :: datetime
  oc_expires_at :: datetime

record fw_db =
  deployments :: "firmware_deployment list"
  releases :: "string \<rightharpoonup> firmware_release"
  fw_devices :: "string \<rightharpoonup> fw_device"
  heartbeats :: "device_heartbeat list"
  alerts :: "alert_instance list"
  audits :: "audit_event list"
  reset_gates :: "string \<rightharpoonup> reset_gate"
  reset_participants :: "reset_participant list"
  capabilities :: "string \<rightharpoonup> device_capability"
  ota_commands :: "ota_command list"

datatype fw_error =
    InvalidTransition dstate dstate
  | FwProblem int string
  | FwIntegrity string
  | FwData string
  | FwValue ota_error

section \<open>The transition rule\<close>

definition transition_allowed :: "dstate \<Rightarrow> dstate \<Rightarrow> bool \<Rightarrow> bool \<Rightarrow> bool \<Rightarrow> bool" where
  "transition_allowed state target evidence_reconciliation supersede_terminal_evidence retry =
     (let allowed = target \<in> set (DEPLOYMENT_TRANSITIONS state);
          allowed = (if retry then state \<in> {Failed, Cancelled, Rolled_back} \<and> target = Scheduled
             else if evidence_reconciliation
             then state \<in> set ACTIVE_DEPLOYMENT_STATES
               \<and> (target \<in> set TERMINAL_DEPLOYMENT_STATES \<or> target = Awaiting_heartbeat)
             else allowed)
      in if supersede_terminal_evidence
         then state \<in> {Failed, Rolled_back} \<and> target = Awaiting_heartbeat
         else allowed)"

definition enter_state :: "instant \<Rightarrow> dstate \<Rightarrow> firmware_deployment \<Rightarrow> firmware_deployment" where
  "enter_state now target d =
     d\<lparr>dep_state := target, dep_status := target, dep_state_changed_at := Aware now,
       dep_terminal_at := (if target \<in> set TERMINAL_DEPLOYMENT_STATES then Some (Aware now) else None),
       dep_revision := dep_revision d + 1\<rparr>"

definition transition_firmware_deployment ::
  "firmware_deployment \<Rightarrow> dstate \<Rightarrow> instant \<Rightarrow> bool \<Rightarrow> bool \<Rightarrow> bool
   \<Rightarrow> fw_error + (bool \<times> firmware_deployment)"
where
  "transition_firmware_deployment d target now evidence_reconciliation supersede_terminal_evidence retry =
     (if dep_state d = target then Inr (False, d)
      else if \<not> transition_allowed (dep_state d) target evidence_reconciliation
             supersede_terminal_evidence retry
      then Inl (InvalidTransition (dep_state d) target)
      else Inr (True, enter_state now target d))"

abbreviation plain_transition ::
  "firmware_deployment \<Rightarrow> dstate \<Rightarrow> instant \<Rightarrow> fw_error + (bool \<times> firmware_deployment)" where
  "plain_transition d target now \<equiv> transition_firmware_deployment d target now False False False"

definition POST_BOOT_REPORT_STATES :: "dstate list" where
  "POST_BOOT_REPORT_STATES = [Partition_written, Rebooting, Post_boot_validation, Validated]"

definition is_superseded_target_report ::
  "firmware_deployment \<Rightarrow> firmware_release \<Rightarrow> dstate \<Rightarrow> string \<Rightarrow> string \<Rightarrow> bool"
where
  "is_superseded_target_report d release state current_version current_build_hash \<longleftrightarrow>
     dep_state d \<in> {Awaiting_heartbeat, Completed} \<and> state \<in> set POST_BOOT_REPORT_STATES
     \<and> current_version = rel_version release \<and> Some current_build_hash = rel_build_hash release"

section \<open>Classification of overdue attempts\<close>

record reconciliation_decision =
  rd_state :: dstate
  rd_code :: string
  rd_summary :: string
  rd_evidence :: jdict

definition last_activity :: "firmware_deployment \<Rightarrow> instant" where
  "last_activity d =
     aware (if dep_state d \<in> {Manifest_authenticated, Waiting_for_schedule, Download_started,
                 Downloading, Binary_verified}
            then (case dep_last_report_at d of Some t \<Rightarrow> t | None \<Rightarrow> dep_state_changed_at d)
            else dep_state_changed_at d)"

definition expired :: "firmware_deployment \<Rightarrow> instant \<Rightarrow> bool" where
  "expired d now = (case dep_expires_at d of None \<Rightarrow> False | Some t \<Rightarrow> aware t \<le> now)"

definition base_evidence :: "firmware_deployment \<Rightarrow> instant \<Rightarrow> jdict" where
  "base_evidence d now =
     [(''last_state'', JStr (state_text (dep_state d))),
      (''last_activity_at'', JStr (isoformat (last_activity d))),
      (''age_seconds'', JInt (elapsed_seconds (last_activity d) now)),
      (''attempt'', JInt (dep_attempt d))]"

definition decision ::
  "dstate \<Rightarrow> string \<Rightarrow> string \<Rightarrow> jdict \<Rightarrow> jdict \<Rightarrow> reconciliation_decision option"
where
  "decision state code summary evidence extra =
     Some \<lparr>rd_state = state, rd_code = code, rd_summary = summary, rd_evidence = evidence @ extra\<rparr>"

definition missing_proof :: "firmware_deployment \<Rightarrow> fw_settings \<Rightarrow> json list" where
  "missing_proof d st =
     (if dep_validated_version d = None then [JStr ''target_identity''] else [])
   @ (if dep_reading_confirmed_at d = None then [JStr ''post_update_reading''] else [])
   @ (if dep_verification_heartbeats d < firmware_verification_heartbeat_count st
      then [JStr ''verification_heartbeats''] else [])"

definition classify_stale_firmware_deployment ::
  "firmware_deployment \<Rightarrow> fw_device \<Rightarrow> fw_settings \<Rightarrow> instant \<Rightarrow> reconciliation_decision option"
where
  "classify_stale_firmware_deployment d device st now =
     (if dep_state d \<in> set TERMINAL_DEPLOYMENT_STATES then None
      else
        let age = elapsed_seconds (last_activity d) now;
            evidence = base_evidence d now;
            legacy = firmware_legacy_evidence_timeout_seconds st \<le> age
        in
        if (\<not> truthy (dep_source_version d) \<or> \<not> truthy (dep_source_build_hash d)) \<and> legacy
        then decision Failed ''ota_legacy_evidence_incomplete''
          (''This legacy deployment has insufficient retained identity evidence '' @
           ''to prove a safe outcome. Retry creates a new, fully evidenced attempt.'')
          evidence [(''reason'', JStr ''missing_source_identity'')]
        else if dep_state d = Rollback_detected then
          (if truthy (dep_rollback_version d) \<or> truthy (dep_rollback_build_hash d)
           then decision Rolled_back ''ota_rollback_detected''
             ''The sensor returned to its previous firmware after the target image was observed.''
             evidence [(''reason'', JStr ''authenticated_rollback_identity'')]
           else if firmware_sensor_return_timeout_seconds st \<le> age
           then decision Failed ''ota_rollback_detected''
             (''Rollback was reported, but the sensor did not provide enough '' @
              ''identity evidence to confirm the recovered image.'')
             evidence [(''reason'', JStr ''rollback_identity_incomplete'')]
           else None)
        else if dep_state d = Waiting_canary then
          (if expired d now
           then decision Failed ''ota_deployment_expired''
             ''The rollout expired before this sensor was promoted from the canary queue.''
             evidence [(''reason'', JStr ''canary_wait_expired'')]
           else if dep_expires_at d = None \<and> legacy
           then decision Failed ''ota_deployment_expired''
             (''This legacy canary deployment has no retained expiry and did not advance '' @
              ''within the conservative reconciliation window.'')
             evidence [(''reason'', JStr ''legacy_canary_missing_expiry'')]
           else None)
        else if dep_state d = Scheduled then
          (if expired d now
           then decision Failed ''ota_manifest_expired''
             ''The authenticated firmware offer expired before the sensor requested it.''
             evidence [(''reason'', JStr ''manifest_not_requested'')]
           else if dep_expires_at d = None \<and> legacy
           then decision Failed ''ota_manifest_expired''
             (''This legacy scheduled deployment has no retained manifest expiry and did '' @
              ''not advance within the conservative reconciliation window.'')
             evidence [(''reason'', JStr ''legacy_manifest_missing_expiry'')]
           else None)
        else if dep_state d = Offered then
          (if firmware_sensor_return_timeout_seconds st \<le> age
           then decision Failed ''ota_sensor_did_not_return''
             (''The sensor requested the update but did not return an '' @
              ''authenticated installation report.'')
             evidence [(''reason'', JStr ''offer_not_acknowledged''),
               (''device_last_seen_at'', (case fd_last_seen_at device of
                  None \<Rightarrow> JNull | Some t \<Rightarrow> JStr (isoformat (aware t))))]
           else None)
        else if dep_state d = Waiting_for_schedule then
          (if expired d now
           then decision Failed ''ota_manifest_expired''
             (''The authenticated firmware offer expired before the configured '' @
              ''sensor update window opened.'')
             evidence [(''reason'', JStr ''update_window_not_reached_before_expiry'')]
           else if dep_expires_at d = None \<and> legacy
           then decision Failed ''ota_manifest_expired''
             (''This legacy scheduled update has no retained manifest expiry and '' @
              ''did not reach its update window within the conservative '' @ ''reconciliation window.'')
             evidence [(''reason'', JStr ''legacy_update_window_missing_expiry'')]
           else None)
        else if dep_state d \<in> {Manifest_authenticated, Download_started, Downloading, Binary_verified} then
          (if firmware_download_stale_seconds st \<le> age
           then decision Failed ''ota_update_timed_out''
             (''The sensor stopped reporting during the authenticated download '' @
              ''workflow; the previous firmware remains authoritative until Retry '' @ ''is requested.'')
             evidence [(''reason'', JStr ''authenticated_report_timeout'')]
           else None)
        else if dep_state d \<in> {Partition_written, Rebooting} then
          (if firmware_sensor_return_timeout_seconds st \<le> age
           then decision Failed ''ota_sensor_did_not_return''
             (''The image was written, but the sensor did not return with '' @
              ''authenticated boot evidence within the recovery window.'')
             evidence [(''reason'', JStr ''post_write_sensor_absent'')]
           else None)
        else if dep_state d \<in> {Post_boot_validation, Validated, Awaiting_heartbeat}
             \<and> firmware_post_boot_timeout_seconds st \<le> age
        then decision Failed ''ota_post_boot_timeout''
          (''The target image did not complete server-side health stabilization '' @
           ''within the allowed window.'')
          evidence [(''reason'', JStr ''post_boot_validation_timeout''), (''missing'', JList (missing_proof d st))]
        else None)"

section \<open>The reconciler\<close>

definition put_deployment :: "firmware_deployment \<Rightarrow> fw_db \<Rightarrow> fw_db" where
  "put_deployment d s = s\<lparr>deployments := map (\<lambda>x. if dep_id x = dep_id d then d else x) (deployments s)\<rparr>"

definition find_deployment :: "fw_db \<Rightarrow> string \<Rightarrow> firmware_deployment option" where
  "find_deployment s i = find (\<lambda>d. dep_id d = i) (deployments s)"

definition add_audit :: "audit_event \<Rightarrow> fw_db \<Rightarrow> fw_db" where
  "add_audit a s = s\<lparr>audits := audits s @ [a]\<rparr>"

definition audit_transition ::
  "firmware_deployment \<Rightarrow> reconciliation_decision \<Rightarrow> instant \<Rightarrow> audit_event"
where
  "audit_transition d x now =
     \<lparr>au_occurred_at = now, au_actor_type = ''system'', au_actor_id = None,
      au_action = ''firmware.deployment_reconciled'', au_object_type = ''firmware_deployment'',
      au_object_id = dep_id d,
      au_details = rd_evidence x @ [(''terminal_state'', JStr (state_text (rd_state x))),
        (''failure_code'', JStr (rd_code x))]\<rparr>"

definition order_column :: "firmware_deployment \<Rightarrow> instant" where
  "order_column d =
     aware (if dep_state d \<in> {Scheduled, Waiting_canary}
            then (case dep_expires_at d of Some t \<Rightarrow> t | None \<Rightarrow> dep_state_changed_at d)
            else dep_state_changed_at d)"

definition state_rows :: "fw_db \<Rightarrow> nat \<Rightarrow> dstate \<Rightarrow> (firmware_deployment \<times> fw_device) list" where
  "state_rows s batch_size state =
     map (\<lambda>d. (d, the (fw_devices s (dep_device_id d))))
       (take batch_size (sort_key order_column (sort_key dep_id
          (filter (\<lambda>d. dep_state d = state \<and> fw_devices s (dep_device_id d) \<noteq> None) (deployments s)))))"

definition terminalize ::
  "reconciliation_decision \<Rightarrow> instant \<Rightarrow> firmware_deployment \<Rightarrow> firmware_deployment"
where
  "terminalize x current d =
     (let d1 = d\<lparr>dep_failure_code := Some (rd_code x), dep_failure_summary := Some (rd_summary x),
            dep_failure_reason := Some (rd_summary x), dep_interruption_evidence := rd_evidence x\<rparr>
      in if rd_state x = Rolled_back
         then d1\<lparr>dep_rollback_at := or_else (dep_rollback_at d1) (Some (Aware current))\<rparr> else d1)"

definition count_outcome :: "string \<Rightarrow> (string, int) dict \<Rightarrow> (string, int) dict" where
  "count_outcome code outcomes =
     (let counted = dict_set outcomes ''terminalized'' (dict_get outcomes ''terminalized'' 0 + 1)
      in dict_set counted code (dict_get counted code 0 + 1))"

definition reconcile_one ::
  "fw_settings \<Rightarrow> instant \<Rightarrow> firmware_deployment \<times> fw_device \<Rightarrow> fw_db \<times> (string, int) dict
   \<Rightarrow> fw_error + (fw_db \<times> (string, int) dict)"
where
  "reconcile_one st current row acc =
     (case (row, acc) of ((d, device), (s, outcomes)) \<Rightarrow>
        (case classify_stale_firmware_deployment d device st current of
           None \<Rightarrow> Inr (s, outcomes)
         | Some x \<Rightarrow>
             bindE (transition_firmware_deployment d (rd_state x) current True False False)
               (\<lambda>(changed, d1). if \<not> changed then Inr (s, outcomes)
                 else
                   let d2 = terminalize x current d1
                   in Inr (add_audit (audit_transition d2 x current) (put_deployment d2 s),
                        count_outcome (rd_code x) outcomes))))"

definition reconcile_stale_firmware_deployments ::
  "fw_settings \<Rightarrow> instant \<Rightarrow> nat option \<Rightarrow> fw_db \<Rightarrow> fw_error + (fw_db \<times> (string, int) dict)"
where
  "reconcile_stale_firmware_deployments st now limit s =
     (let batch_size = (case limit of None \<Rightarrow> nat (firmware_reconcile_batch_size st)
            | Some n \<Rightarrow> if n = 0 then nat (firmware_reconcile_batch_size st) else n);
          rows = concat (map (state_rows s batch_size) ACTIVE_DEPLOYMENT_STATES)
      in foldE (reconcile_one st now) rows
           (s, [(''examined'', int (length rows)), (''terminalized'', 0)]))"

section \<open>The verification checklist\<close>

record verification_context =
  vc_device :: "fw_device option"
  vc_heartbeat :: "device_heartbeat option"
  vc_critical_alert_count :: int

definition latest_heartbeat :: "fw_db \<Rightarrow> string \<Rightarrow> string \<Rightarrow> device_heartbeat option" where
  "latest_heartbeat s device_id boot_id =
     (let rows = filter (\<lambda>h. hb_device_id h = device_id \<and> hb_boot_id h = boot_id) (heartbeats s)
      in case max_opt (map (\<lambda>h. aware (hb_received_at h)) rows) of
           None \<Rightarrow> None
         | Some t \<Rightarrow> Some (last (sort_key hb_id (filter (\<lambda>h. aware (hb_received_at h) = t) rows))))"

definition critical_alerts :: "fw_db \<Rightarrow> string \<Rightarrow> alert_instance list" where
  "critical_alerts s device_id =
     filter (\<lambda>a. al_device_id a = Some device_id \<and> al_status a \<in> {''active'', ''acknowledged''}
              \<and> al_severity a = ''critical'') (alerts s)"

definition load_verification_contexts ::
  "fw_db \<Rightarrow> firmware_deployment list \<Rightarrow> (string, verification_context) dict"
where
  "load_verification_contexts s ds =
     fold (\<lambda>d acc. dict_set acc (dep_id d)
       \<lparr>vc_device = fw_devices s (dep_device_id d),
        vc_heartbeat = (if truthy (dep_last_boot_id d)
           then latest_heartbeat s (dep_device_id d) (the (dep_last_boot_id d)) else None),
        vc_critical_alert_count = int (length (critical_alerts s (dep_device_id d)))\<rparr>) ds []"

record verification_check =
  ck_key :: string
  ck_label :: string
  ck_status :: string
  ck_detail :: string
  ck_observed_at :: "datetime option"

definition check ::
  "string \<Rightarrow> string \<Rightarrow> string \<Rightarrow> string \<Rightarrow> datetime option \<Rightarrow> verification_check"
where
  "check key label status detail observed_at =
     \<lparr>ck_key = key, ck_label = label, ck_status = status, ck_detail = detail,
      ck_observed_at = observed_at\<rparr>"

record verification_blocker =
  bk_code :: string
  bk_state :: dstate
  bk_title :: string
  bk_detail :: string
  bk_action :: string

record verification =
  vf_checks :: "verification_check list"
  vf_blocker :: "verification_blocker option"
  vf_target_version_expected :: "string option"
  vf_target_version_observed :: "string option"
  vf_target_build_hash_expected :: "string option"
  vf_target_build_hash_observed :: "string option"
  vf_target_boot_id_observed :: "string option"
  vf_previous_boot_stage :: "string option"
  vf_previous_reset_reason :: "string option"
  vf_rollback_state :: string
  vf_exact_failure_code :: "string option"
  vf_blocking_critical_alert_count :: int
  vf_verification_heartbeat_count :: int
  vf_verification_heartbeat_required :: int
  vf_last_sensor_activity_at :: "datetime option"
  vf_last_report_at :: "datetime option"
  vf_stabilization_elapsed_seconds :: int
  vf_stabilization_required_seconds :: int

definition first_truthy :: "json option \<Rightarrow> json option \<Rightarrow> json option" where
  "first_truthy a b = (if json_truthy a then a else b)"

definition optional_text :: "json option \<Rightarrow> string option" where
  "optional_text x = (if json_truthy x then Some (py_str (the x)) else None)"

definition target_ok :: "firmware_deployment \<Rightarrow> firmware_release option \<Rightarrow> bool" where
  "target_ok d release =
     (case release of None \<Rightarrow> False
      | Some r \<Rightarrow> dep_validated_version d = Some (rel_version r)
          \<and> dep_validated_build_hash d = rel_build_hash r)"

definition stabilization_required :: "fw_settings \<Rightarrow> int" where
  "stabilization_required st =
     max 0 ((firmware_verification_heartbeat_count st - 1) * heartbeat_expectation_seconds st)"

definition stabilization_elapsed :: "firmware_deployment \<Rightarrow> instant \<Rightarrow> int" where
  "stabilization_elapsed d current =
     (case dep_stabilization_started_at d of None \<Rightarrow> 0 | Some t \<Rightarrow> elapsed_seconds (aware t) current)"

text \<open>The heartbeat of the retained target boot, when the target identity was validated.\<close>

definition target_heartbeat ::
  "firmware_deployment \<Rightarrow> firmware_release option \<Rightarrow> verification_context \<Rightarrow> device_heartbeat option"
where
  "target_heartbeat d release context =
     (case vc_heartbeat context of
        None \<Rightarrow> None
      | Some h \<Rightarrow> if truthy (dep_last_boot_id d) \<and> dep_last_boot_id d = Some (hb_boot_id h)
            \<and> target_ok d release then Some h else None)"

definition target_boot_observed :: "firmware_deployment \<Rightarrow> firmware_release option \<Rightarrow> bool" where
  "target_boot_observed d release \<longleftrightarrow> target_ok d release \<and> truthy (dep_last_boot_id d)"

definition health_check ::
  "firmware_deployment \<Rightarrow> firmware_release option \<Rightarrow> verification_context \<Rightarrow> string \<Rightarrow> string
   \<Rightarrow> (device_heartbeat \<Rightarrow> bool) \<Rightarrow> string \<Rightarrow> string \<Rightarrow> verification_check"
where
  "health_check d release context key label ok passed required =
     (let hb = target_heartbeat d release context;
          completed = (dep_state d = Completed);
          proven = completed \<and> target_boot_observed d release;
          status = (case hb of Some h \<Rightarrow> if ok h then ''passed'' else ''failed''
             | None \<Rightarrow> if proven then ''passed'' else if completed then ''unavailable'' else ''pending'');
          detail = (if (case hb of Some h \<Rightarrow> ok h | None \<Rightarrow> False) \<or> proven then passed else required);
          observed = (case hb of Some h \<Rightarrow> Some (hb_received_at h)
             | None \<Rightarrow> if proven then dep_terminal_at d else None)
      in check key label status detail observed)"

definition blocking_critical_alert_count :: "firmware_deployment \<Rightarrow> verification_context \<Rightarrow> int" where
  "blocking_critical_alert_count d context =
     (if dep_state d = Completed then 0 else vc_critical_alert_count context)"

definition verification_checks ::
  "firmware_deployment \<Rightarrow> firmware_release option \<Rightarrow> fw_settings \<Rightarrow> verification_context \<Rightarrow> instant
   \<Rightarrow> verification_check list"
where
  "verification_checks d release st context current =
     (let ok = target_ok d release; observed = target_boot_observed d release;
          completed = (dep_state d = Completed); hb = target_heartbeat d release context;
          required = firmware_verification_heartbeat_count st; elapsed = stabilization_elapsed d current;
          need = stabilization_required st; blocking = blocking_critical_alert_count d context
      in [check ''target_identity'' ''Target firmware identity'' (if ok then ''passed'' else ''pending'')
            (if ok then ''Verified '' @ the (dep_validated_version d) @ ''.''
             else ''Waiting for the target version and build hash.'') (dep_validated_at d),
          check ''target_boot'' ''Target boot''
            (if observed then ''passed'' else if completed then ''unavailable'' else ''pending'')
            (if observed then ''Authenticated target boot observed.''
             else ''Waiting for an authenticated target boot.'')
            (case hb of Some h \<Rightarrow> Some (hb_received_at h)
             | None \<Rightarrow> if observed then dep_validated_at d else None),
          health_check d release context ''pzem'' ''PZEM measurement hardware'' hb_pzem_ok
            ''PZEM health passed.''
            ''A healthy PZEM report from the authenticated target boot is required.'',
          health_check d release context ''storage'' ''microSD storage'' hb_sd_ok
            ''Storage health passed.''
            ''Writable durable storage from the authenticated target boot is required.'',
          health_check d release context ''trusted_time'' ''Trusted time'' hb_time_trusted
            ''Time trust passed.''
            ''Trusted time from the authenticated target boot is required.'',
          check ''verification_heartbeats'' ''Healthy verification heartbeats''
            (if required \<le> dep_verification_heartbeats d then ''passed'' else ''pending'')
            (int_text (dep_verification_heartbeats d) @ '' of '' @ int_text required @ '' received.'')
            (map_option hb_received_at (vc_heartbeat context)),
          check ''stabilization'' ''Server stabilization window''
            (if need \<le> elapsed then ''passed'' else ''pending'')
            (int_text elapsed @ '' of '' @ int_text need @ '' seconds elapsed.'')
            (dep_stabilization_started_at d),
          check ''post_update_reading'' ''Post-update reading''
            (if dep_reading_confirmed_at d \<noteq> None then ''passed'' else ''pending'')
            (if dep_reading_confirmed_at d \<noteq> None then ''A durable reading was accepted.''
             else ''Waiting for the first durable reading.'') (dep_reading_confirmed_at d),
          check ''critical_alerts'' ''Critical sensor alerts''
            (if blocking = 0 then ''passed'' else ''failed'')
            (if blocking = 0 then ''No active critical alerts.''
             else int_text blocking @ '' critical alert(s) must be resolved.'') None])"

definition first_text :: "string option \<Rightarrow> string \<Rightarrow> string" where
  "first_text a b = (if truthy a then the a else b)"

definition verification_blocker_of ::
  "firmware_deployment \<Rightarrow> verification_check list \<Rightarrow> verification_blocker option"
where
  "verification_blocker_of d checks =
     (if dep_state d \<in> {Failed, Rolled_back}
      then Some \<lparr>bk_code = first_text (dep_failure_code d) ''ota_update_failed'', bk_state = dep_state d,
             bk_title = ''Firmware update did not complete'',
             bk_detail = first_text (dep_failure_summary d)
               (first_text (dep_failure_reason d) ''Review retained evidence before retrying.''),
             bk_action = ''retry''\<rparr>
      else if dep_state d = Cancelled
      then Some \<lparr>bk_code = ''ota_update_cancelled'', bk_state = dep_state d,
             bk_title = ''Firmware update was cancelled'',
             bk_detail = ''Schedule a new deployment when the sensor is ready.'', bk_action = ''schedule''\<rparr>
      else if dep_state d \<noteq> Completed
      then (let failed = find (\<lambda>c. ck_status c = ''failed'') checks;
                pending = find (\<lambda>c. ck_status c = ''pending'') checks
            in map_option (\<lambda>c. \<lparr>bk_code = ''ota_waiting_'' @ ck_key c, bk_state = dep_state d,
                  bk_title = ck_label c, bk_detail = ck_detail c,
                  bk_action = (if failed \<noteq> None then ''resolve'' else ''wait'')\<rparr>) (or_else failed pending))
      else None)"

definition build_firmware_verification ::
  "firmware_deployment \<Rightarrow> firmware_release option \<Rightarrow> fw_settings \<Rightarrow> verification_context option \<Rightarrow> instant
   \<Rightarrow> verification"
where
  "build_firmware_verification d release st context0 current =
     (let context = (case context0 of Some c \<Rightarrow> c
            | None \<Rightarrow> \<lparr>vc_device = None, vc_heartbeat = None, vc_critical_alert_count = 0\<rparr>);
          payload = as_dict (map_option hb_payload (vc_heartbeat context));
          heartbeat_recovery = as_dict (map_of (as_dict (map_of payload ''resources'')) ''ota_recovery'');
          interruption_recovery = as_dict (map_of (dep_interruption_evidence d) ''ota_recovery'');
          retained = (if heartbeat_recovery \<noteq> [] then heartbeat_recovery else interruption_recovery);
          checks = verification_checks d release st context current
      in \<lparr>vf_checks = checks, vf_blocker = verification_blocker_of d checks,
          vf_target_version_expected = map_option rel_version release,
          vf_target_version_observed = dep_validated_version d,
          vf_target_build_hash_expected = Option.bind release rel_build_hash,
          vf_target_build_hash_observed = dep_validated_build_hash d,
          vf_target_boot_id_observed = (if target_boot_observed d release then dep_last_boot_id d else None),
          vf_previous_boot_stage = optional_text (map_of retained ''previous_boot_stage''),
          vf_previous_reset_reason = optional_text (first_truthy (map_of payload ''reboot_reason'')
             (map_of retained ''previous_reset_reason'')),
          vf_rollback_state = (if dep_state d = Rolled_back then ''rolled_back''
             else if dep_rollback_at d \<noteq> None then ''detected'' else ''not_detected''),
          vf_exact_failure_code = dep_failure_code d,
          vf_blocking_critical_alert_count = blocking_critical_alert_count d context,
          vf_verification_heartbeat_count = dep_verification_heartbeats d,
          vf_verification_heartbeat_required = firmware_verification_heartbeat_count st,
          vf_last_sensor_activity_at = Option.bind (vc_device context) fd_last_seen_at,
          vf_last_report_at = dep_last_report_at d,
          vf_stabilization_elapsed_seconds = stabilization_elapsed d current,
          vf_stabilization_required_seconds = stabilization_required st\<rparr>)"

end
