(* ===== verification/Firmware_Handlers.thy ===== *)
theory Firmware_Handlers
  imports Firmware_Model
begin

text \<open>
  Model of the handlers that move a deployment: the heartbeat and reading hooks of
  \<^verbatim>\<open>api/routes/device_protocol.py\<close>, the milestone report of \<^verbatim>\<open>api/routes/firmware.py\<close>, and the
  headless agent's hooks of \<^verbatim>\<open>api/routes/agent_protocol.py\<close>.  Each runs in one transaction
  and ends with \<^verbatim>\<open>flush\<close>, where the database enforces the partial unique index that allows one
  active deployment per device.  Request authentication precedes them and is not part of this
  theory.
\<close>

definition active_deployments :: "fw_db \<Rightarrow> firmware_deployment list" where
  "active_deployments s = filter (\<lambda>d. dep_state d \<notin> set TERMINAL_DEPLOYMENT_STATES) (deployments s)"

definition flush :: "fw_db \<Rightarrow> fw_error + fw_db" where
  "flush s =
     (if distinct (map dep_device_id (active_deployments s)) then Inr s
      else Inl (FwIntegrity ''uq_firmware_deployment_active_device''))"

definition device_audit ::
  "instant \<Rightarrow> string \<Rightarrow> string \<Rightarrow> string \<Rightarrow> jdict \<Rightarrow> audit_event"
where
  "device_audit now action device_id deployment_id details =
     \<lparr>au_occurred_at = now, au_actor_type = ''device'', au_actor_id = Some device_id, au_action = action,
      au_object_type = ''firmware_deployment'', au_object_id = deployment_id, au_details = details\<rparr>"

section \<open>Completion\<close>

definition stable_since :: "firmware_deployment \<Rightarrow> fw_settings \<Rightarrow> instant \<Rightarrow> bool" where
  "stable_since d st now =
     (case dep_stabilization_started_at d of
        None \<Rightarrow> False
      | Some t \<Rightarrow> aware t \<le> now - seconds ((firmware_verification_heartbeat_count st - 1)
                   * heartbeat_expectation_seconds st))"

definition complete_firmware_if_stable ::
  "fw_db \<Rightarrow> fw_settings \<Rightarrow> instant \<Rightarrow> firmware_deployment \<Rightarrow> fw_error + firmware_deployment"
where
  "complete_firmware_if_stable s st now d =
     (if dep_state d \<noteq> Awaiting_heartbeat
         \<or> dep_verification_heartbeats d < firmware_verification_heartbeat_count st
         \<or> dep_reading_confirmed_at d = None \<or> \<not> stable_since d st now
      then Inr d
      else if critical_alerts s (dep_device_id d) \<noteq> [] then Inr d
      else bindE (plain_transition d Completed now) (\<lambda>(changed, d1).
        Inr (d1\<lparr>dep_progress := 100, dep_validated_at := or_else (dep_validated_at d1) (Some (Aware now))\<rparr>)))"

section \<open>Heartbeats\<close>

record heartbeat_payload =
  hp_device_id :: string
  hp_boot_id :: string
  hp_firmware_version :: string
  hp_firmware_build_hash :: string
  hp_resources :: jdict
  hp_pzem_ok :: bool
  hp_sd_ok :: bool
  hp_time_trusted :: bool

definition HEARTBEAT_STATES :: "dstate list" where
  "HEARTBEAT_STATES =
     [Manifest_authenticated, Waiting_for_schedule, Download_started, Downloading, Binary_verified,
      Partition_written, Rebooting, Post_boot_validation, Validated, Awaiting_heartbeat, Failed, Rolled_back]"

text \<open>\<^verbatim>\<open>order_by(scheduled_at.desc()).limit(1)\<close>\<close>

definition latest_scheduled :: "firmware_deployment list \<Rightarrow> firmware_deployment option" where
  "latest_scheduled ds =
     (case sort_key (\<lambda>d. - aware (dep_scheduled_at d)) ds of [] \<Rightarrow> None | d # _ \<Rightarrow> Some d)"

definition recovery_of :: "heartbeat_payload \<Rightarrow> jdict" where
  "recovery_of p = as_dict (map_of (hp_resources p) ''ota_recovery'')"

definition recovery_identity_matches :: "firmware_deployment \<Rightarrow> jdict \<Rightarrow> bool" where
  "recovery_identity_matches d recovery \<longleftrightarrow>
     map_of recovery ''deployment_id'' = Some (JStr (dep_id d))
     \<and> strict_int (map_of recovery ''attempt'') = Some (dep_attempt d)"

definition recovery_evidence_sequence :: "firmware_deployment \<Rightarrow> jdict \<Rightarrow> int option" where
  "recovery_evidence_sequence d recovery =
     (case strict_int (map_of recovery ''evidence_sequence'') of
        Some n \<Rightarrow> if recovery_identity_matches d recovery \<and> 0 \<le> n \<and> n \<le> 2 ^ 64 - 1 then Some n else None
      | None \<Rightarrow> None)"

definition target_identity :: "heartbeat_payload \<Rightarrow> firmware_release \<Rightarrow> bool" where
  "target_identity p r \<longleftrightarrow>
     hp_firmware_version p = rel_version r \<and> Some (hp_firmware_build_hash p) = rel_build_hash r"

definition source_identity :: "heartbeat_payload \<Rightarrow> firmware_deployment \<Rightarrow> bool" where
  "source_identity p d \<longleftrightarrow>
     Some (hp_firmware_version p) = dep_source_version d
     \<and> Some (hp_firmware_build_hash p) = dep_source_build_hash d"

definition target_supersedes_terminal_report ::
  "firmware_deployment \<Rightarrow> heartbeat_payload \<Rightarrow> firmware_release \<Rightarrow> bool"
where
  "target_supersedes_terminal_report d p r =
     (dep_state d \<in> {Failed, Rolled_back} \<and> target_identity p r
      \<and> recovery_identity_matches d (recovery_of p)
      \<and> (case (recovery_evidence_sequence d (recovery_of p),
               strict_int (map_of (dep_last_report_payload d) ''evidence_sequence''),
               str_value (map_of (dep_last_report_payload d) ''boot_id'')) of
           (Some q, Some t, Some b) \<Rightarrow> t < q \<and> hp_boot_id p \<noteq> b
         | _ \<Rightarrow> False))"

definition opt_json :: "json option \<Rightarrow> json" where
  "opt_json x = (case x of None \<Rightarrow> JNull | Some v \<Rightarrow> v)"

definition opt_str :: "string option \<Rightarrow> json" where
  "opt_str x = (case x of None \<Rightarrow> JNull | Some v \<Rightarrow> JStr v)"

definition rollback_proven :: "firmware_deployment \<Rightarrow> heartbeat_payload \<Rightarrow> bool" where
  "rollback_proven d p \<longleftrightarrow>
     (let recovery = recovery_of p; retained = dep_interruption_evidence d;
          hb_boot = map_of retained ''target_heartbeat_boot_id'';
          hb_seq = map_of retained ''target_heartbeat_evidence_sequence'';
          target_was_observed = (dep_installed_at d \<noteq> None \<or> truthy (dep_validated_version d)
             \<or> dep_state d \<in> {Post_boot_validation, Validated, Awaiting_heartbeat});
          boot_is_new = (hp_boot_id p \<noteq> [] \<and> dep_source_boot_id d \<noteq> Some (hp_boot_id p)
             \<and> (if json_truthy hb_boot then hb_boot \<noteq> Some (JStr (hp_boot_id p))
                else dep_last_boot_id d \<noteq> Some (hp_boot_id p)));
          evidence_is_new = (recovery_identity_matches d recovery
             \<and> (case (recovery_evidence_sequence d recovery, int_value hb_seq) of
                  (Some q, Some t) \<Rightarrow> t < q | _ \<Rightarrow> False))
      in target_was_observed \<and> source_identity p d \<and> boot_is_new \<and> evidence_is_new)"

definition INTERRUPTED_STAGES :: "string list" where
  "INTERRUPTED_STAGES =
     [''firmware_request'', ''firmware_response_headers'', ''image_metadata_received'',
      ''image_metadata_validated'', ''update_begin_completed'', ''first_bytes_written'',
      ''sha_finalized'', ''protocol_marker_verified'', ''http_transport_destroyed'',
      ''update_end_beginning'', ''download_request'', ''image_metadata'', ''update_begin'',
      ''streaming'', ''stream_complete'', ''hash_verified'', ''partition_finalizing'']"

definition interruption_proven ::
  "firmware_deployment \<Rightarrow> heartbeat_payload \<Rightarrow> fw_settings \<Rightarrow> instant \<Rightarrow> bool"
where
  "interruption_proven d p st now \<longleftrightarrow>
     (let recovery = recovery_of p;
          boot_changed = (truthy (dep_source_boot_id d) \<and> dep_source_boot_id d \<noteq> Some (hp_boot_id p));
          stage = map_of recovery ''previous_boot_stage'';
          interrupted = (json_truthy stage \<and> py_str (the stage) \<in> set INTERRUPTED_STAGES);
          last = the (or_else (dep_last_report_at d)
             (or_else (dep_downloaded_at d) (Some (dep_scheduled_at d))));
          grace_elapsed = (aware last \<le> now - seconds (firmware_interruption_grace_seconds st))
      in dep_state d \<in> {Manifest_authenticated, Download_started, Downloading, Binary_verified}
         \<and> source_identity p d \<and> grace_elapsed
         \<and> (boot_changed \<or> interrupted \<or> json_truthy (map_of recovery ''previous_boot_update_open'')))"

definition rollback_evidence :: "heartbeat_payload \<Rightarrow> firmware_deployment \<Rightarrow> jdict" where
  "rollback_evidence p d =
     [(''reason'', JStr ''target_then_source_identity''), (''boot_id_changed'', JBool True),
      (''target_heartbeat_boot_id'',
         opt_json (map_of (dep_interruption_evidence d) ''target_heartbeat_boot_id'')),
      (''target_heartbeat_evidence_sequence'',
         opt_json (map_of (dep_interruption_evidence d) ''target_heartbeat_evidence_sequence'')),
      (''ota_recovery'', JDict (recovery_of p))]"

definition record_rollback ::
  "instant \<Rightarrow> heartbeat_payload \<Rightarrow> jdict \<Rightarrow> firmware_deployment \<Rightarrow> firmware_deployment"
where
  "record_rollback now p evidence d =
     d\<lparr>dep_rollback_at := Some (Aware now), dep_rollback_version := Some (hp_firmware_version p),
       dep_rollback_build_hash := Some (hp_firmware_build_hash p),
       dep_failure_code := Some ''ota_rollback_detected'',
       dep_failure_summary := Some
         ''The sensor returned to its previous firmware after the target image was observed.'',
       dep_interruption_evidence := evidence\<rparr>"

definition reboot_evidence :: "heartbeat_payload \<Rightarrow> firmware_deployment \<Rightarrow> jdict" where
  "reboot_evidence p d =
     [(''reason'', JStr ''source_identity_after_reboot''),
      (''last_state'', JStr (state_text (dep_state d))),
      (''source_boot_id'', opt_str (dep_source_boot_id d)),
      (''observed_boot_id'', JStr (hp_boot_id p)), (''ota_recovery'', JDict (recovery_of p))]"

definition record_interruption ::
  "heartbeat_payload \<Rightarrow> jdict \<Rightarrow> firmware_deployment \<Rightarrow> firmware_deployment"
where
  "record_interruption p evidence d =
     d\<lparr>dep_failure_code := Some ''ota_interrupted_before_install'',
       dep_failure_summary := Some (''The sensor rebooted during the download workflow and returned '' @
         ''on the previous firmware.''),
       dep_interruption_evidence := evidence, dep_last_boot_id := Some (hp_boot_id p)\<rparr>"

text \<open>The sensor runs something else than the target image.\<close>

definition other_identity_heartbeat ::
  "fw_settings \<Rightarrow> instant \<Rightarrow> heartbeat_payload \<Rightarrow> firmware_deployment \<Rightarrow> fw_db \<Rightarrow> fw_error + fw_db"
where
  "other_identity_heartbeat st now p d s =
     (if rollback_proven d p
      then bindE (transition_firmware_deployment d Rolled_back now True False False) (\<lambda>(changed, d1).
        Inr (add_audit (device_audit now ''firmware.deployment_rollback_reconciled''
               (hp_device_id p) (dep_id d) (rollback_evidence p d))
             (put_deployment (record_rollback now p (rollback_evidence p d) d1) s)))
      else if interruption_proven d p st now
      then bindE (plain_transition d Failed now) (\<lambda>(changed, d1).
        Inr (add_audit (device_audit now ''firmware.deployment_interrupted_reconciled''
               (hp_device_id p) (dep_id d) (reboot_evidence p d))
             (put_deployment (record_interruption p (reboot_evidence p d) d1) s)))
      else Inr s)"

text \<open>The first heartbeat of the target image, or one that supersedes a terminal report.\<close>

definition adopt_row ::
  "instant \<Rightarrow> heartbeat_payload \<Rightarrow> firmware_release \<Rightarrow> firmware_deployment \<Rightarrow> firmware_deployment"
where
  "adopt_row now p r d =
     d\<lparr>dep_progress := 100, dep_bytes_received := max (dep_bytes_received d) (rel_size_bytes r),
       dep_installed_at := or_else (dep_installed_at d) (Some (Aware now)),
       dep_validated_version := Some (hp_firmware_version p),
       dep_validated_build_hash := Some (hp_firmware_build_hash p),
       dep_stabilization_started_at := or_else (dep_stabilization_started_at d) (Some (Aware now)),
       dep_last_boot_id := Some (hp_boot_id p)\<rparr>"

definition clear_failure :: "firmware_deployment \<Rightarrow> firmware_deployment" where
  "clear_failure d =
     d\<lparr>dep_failure_code := None, dep_failure_summary := None, dep_failure_reason := None,
       dep_rollback_at := None, dep_rollback_version := None, dep_rollback_build_hash := None\<rparr>"

definition adopt_target ::
  "instant \<Rightarrow> heartbeat_payload \<Rightarrow> firmware_release \<Rightarrow> firmware_deployment \<times> fw_db
   \<Rightarrow> fw_error + (firmware_deployment \<times> fw_db)"
where
  "adopt_target now p r x =
     (case x of (d, s) \<Rightarrow>
        let supersedes = target_supersedes_terminal_report d p r in
        bindE (transition_firmware_deployment d Awaiting_heartbeat now True supersedes False) (\<lambda>(changed, d1).
          Inr (if supersedes then clear_failure (adopt_row now p r d1) else adopt_row now p r d1,
               add_audit (device_audit now ''firmware.deployment_target_reconciled'' (hp_device_id p)
                 (dep_id d) [(''state'', JStr ''awaiting_heartbeat''), (''ota_recovery'', JDict (recovery_of p))]) s)))"

text \<open>A reboot of the target image restarts the proof window.\<close>

definition restart_target ::
  "instant \<Rightarrow> heartbeat_payload \<Rightarrow> firmware_deployment \<times> fw_db \<Rightarrow> firmware_deployment \<times> fw_db"
where
  "restart_target now p x =
     (case x of (d, s) \<Rightarrow>
        if truthy (dep_last_boot_id d) \<and> dep_last_boot_id d \<noteq> Some (hp_boot_id p)
        then (d\<lparr>dep_verification_heartbeats := 0, dep_stabilization_started_at := Some (Aware now),
                dep_reading_confirmed_at := None, dep_revision := dep_revision d + 1,
                dep_state_changed_at := Aware now\<rparr>,
              add_audit (device_audit now ''firmware.deployment_target_restarted'' (hp_device_id p) (dep_id d)
                [(''previous_boot_id'', opt_str (dep_last_boot_id d)),
                 (''observed_boot_id'', JStr (hp_boot_id p)),
                 (''state'', JStr (state_text (dep_state d)))]) s)
        else x)"

definition heartbeat_healthy :: "heartbeat_payload \<Rightarrow> bool" where
  "heartbeat_healthy p \<longleftrightarrow> hp_pzem_ok p \<and> hp_sd_ok p \<and> hp_time_trusted p"

text \<open>A retained sequence is only ever raised.\<close>

definition raise_sequence :: "string \<Rightarrow> int \<Rightarrow> jdict \<Rightarrow> jdict" where
  "raise_sequence key q e =
     (case int_value (map_of e key) of
        None \<Rightarrow> dict_set e key (JInt q)
      | Some previous \<Rightarrow> if previous < q then dict_set e key (JInt q) else e)"

definition retain_target_evidence ::
  "instant \<Rightarrow> heartbeat_payload \<Rightarrow> firmware_deployment \<Rightarrow> jdict"
where
  "retain_target_evidence now p d =
     (let seq = recovery_evidence_sequence d (recovery_of p);
          e1 = dict_update (dep_interruption_evidence d)
            [(''target_heartbeat_boot_id'', JStr (hp_boot_id p)),
             (''target_heartbeat_received_at'', JStr (isoformat now)),
             (''target_heartbeat_healthy'', JBool (heartbeat_healthy p))];
          e2 = (case seq of None \<Rightarrow> e1
            | Some q \<Rightarrow> raise_sequence ''target_heartbeat_evidence_sequence'' q
                (dict_set (dict_set e1 ''target_heartbeat_deployment_id'' (JStr (dep_id d)))
                  ''target_heartbeat_attempt'' (JInt (dep_attempt d))))
      in if heartbeat_healthy p
         then let e3 = dict_update e2
                    [(''target_healthy_heartbeat_boot_id'', JStr (hp_boot_id p)),
                     (''target_healthy_heartbeat_received_at'', JStr (isoformat now))]
              in case seq of None \<Rightarrow> e3
                 | Some q \<Rightarrow> raise_sequence ''target_healthy_heartbeat_evidence_sequence'' q e3
         else e2)"

definition keep_target_boot :: "instant \<Rightarrow> heartbeat_payload \<Rightarrow> firmware_deployment \<Rightarrow> firmware_deployment" where
  "keep_target_boot now p d =
     (let d1 = d\<lparr>dep_last_boot_id := Some (hp_boot_id p)\<rparr>
      in d1\<lparr>dep_interruption_evidence := retain_target_evidence now p d1\<rparr>)"

definition begin_stabilization :: "instant \<Rightarrow> firmware_deployment \<Rightarrow> fw_error + firmware_deployment" where
  "begin_stabilization now d =
     (if dep_state d = Validated
      then bindE (plain_transition d Awaiting_heartbeat now) (\<lambda>(changed, d1).
        Inr (d1\<lparr>dep_stabilization_started_at :=
          or_else (dep_stabilization_started_at d1) (Some (Aware now))\<rparr>))
      else Inr d)"

definition count_heartbeat ::
  "fw_settings \<Rightarrow> instant \<Rightarrow> fw_db \<Rightarrow> firmware_deployment \<Rightarrow> fw_error + firmware_deployment"
where
  "count_heartbeat st now s d =
     complete_firmware_if_stable s st now (d\<lparr>dep_verification_heartbeats := dep_verification_heartbeats d + 1\<rparr>)"

definition target_identity_heartbeat ::
  "fw_settings \<Rightarrow> instant \<Rightarrow> heartbeat_payload \<Rightarrow> firmware_release \<Rightarrow> firmware_deployment \<Rightarrow> fw_db
   \<Rightarrow> fw_error + fw_db"
where
  "target_identity_heartbeat st now p r d s =
     bindE (if dep_state d \<notin> {Validated, Awaiting_heartbeat} then adopt_target now p r (d, s)
            else Inr (restart_target now p (d, s))) (\<lambda>(d1, s1).
       if \<not> heartbeat_healthy p then Inr (put_deployment (keep_target_boot now p d1) s1)
       else bindE (begin_stabilization now (keep_target_boot now p d1)) (\<lambda>d2.
            bindE (count_heartbeat st now s1 d2) (\<lambda>d3.
            Inr (put_deployment d3 s1))))"

definition reconcile_firmware_heartbeat ::
  "fw_settings \<Rightarrow> instant \<Rightarrow> heartbeat_payload \<Rightarrow> fw_db \<Rightarrow> fw_error + fw_db"
where
  "reconcile_firmware_heartbeat st now p s =
     (case latest_scheduled (filter (\<lambda>d. dep_device_id d = hp_device_id p
             \<and> dep_state d \<in> set HEARTBEAT_STATES) (deployments s)) of
        None \<Rightarrow> Inr s
      | Some d \<Rightarrow>
          (case releases s (dep_release_id d) of
             None \<Rightarrow> Inr s
           | Some r \<Rightarrow>
               if dep_state d \<in> {Failed, Rolled_back} \<and> \<not> target_supersedes_terminal_report d p r
               then Inr s
               else bindE (if target_identity p r then target_identity_heartbeat st now p r d s
                           else other_identity_heartbeat st now p d s) flush))"

section \<open>Readings\<close>

definition confirm_firmware_reading ::
  "fw_settings \<Rightarrow> instant \<Rightarrow> string \<Rightarrow> (int \<times> string \<times> string) list \<Rightarrow> int list \<Rightarrow> fw_db \<Rightarrow> fw_error + fw_db"
where
  "confirm_firmware_reading st now device_id readings durable s =
     (case latest_scheduled (filter (\<lambda>d. dep_device_id d = device_id
             \<and> dep_state d = Awaiting_heartbeat) (deployments s)) of
        None \<Rightarrow> Inr s
      | Some d \<Rightarrow>
          if \<not> (\<exists>(q, boot, version)\<in>set readings. q \<in> set durable \<and> dep_last_boot_id d = Some boot
                   \<and> dep_validated_version d = Some version)
          then Inr s
          else bindE (complete_firmware_if_stable s st now
                 (d\<lparr>dep_reading_confirmed_at := or_else (dep_reading_confirmed_at d) (Some (Aware now))\<rparr>))
            (\<lambda>d1. flush (put_deployment d1 s)))"

section \<open>The reset lock\<close>

definition reset_blocked :: "fw_db \<Rightarrow> string \<Rightarrow> bool" where
  "reset_blocked s i \<longleftrightarrow>
     (case reset_gates s i of None \<Rightarrow> False
      | Some g \<Rightarrow> rg_active_operation_id g \<noteq> None \<or> rg_ingestion_gate g \<noteq> ''open''
          \<or> rg_reset_required_on_reconnect g)
     \<or> (\<exists>x\<in>set (reset_participants s). pt_device_id x = i
          \<and> pt_state x \<notin> {''verified'', ''not_applicable''}
          \<and> pt_operation_state x \<notin> {''completed'', ''cancelled'', ''failed_before_commit''})"

definition ensure_device_reset_mutations_allowed :: "fw_db \<Rightarrow> string list \<Rightarrow> fw_error + unit" where
  "ensure_device_reset_mutations_allowed s device_ids =
     (if \<exists>i\<in>set device_ids. fw_devices s i = None then Inl (FwProblem 404 ''device_missing'')
      else if \<exists>i\<in>set device_ids. reset_blocked s i
      then Inl (FwProblem 409 ''data_reset_device_mutation_blocked'')
      else Inr ())"

section \<open>Milestone reports\<close>

record report_payload =
  rp_device :: string
  rp_deployment_id :: string
  rp_release_id :: string
  rp_attempt :: int
  rp_state :: dstate
  rp_current_firmware_version :: string
  rp_current_build_hash :: string
  rp_target_version :: string
  rp_target_sha256 :: string
  rp_bytes_received :: int
  rp_image_size :: int
  rp_progress :: int
  rp_boot_id :: string
  rp_evidence_sequence :: "int option"
  rp_failure_code :: "string option"
  rp_failure_summary :: "string option"

text \<open>The validator of \<^verbatim>\<open>FirmwareDeploymentReport\<close>; a payload that fails it is answered 422.\<close>

definition valid_report :: "report_payload \<Rightarrow> bool" where
  "valid_report p \<longleftrightarrow>
     1 \<le> rp_attempt p \<and> rp_state p \<in> set DEVICE_REPORT_STATES
     \<and> 0 \<le> rp_bytes_received p \<and> 0 < rp_image_size p \<and> 0 \<le> rp_progress p \<and> rp_progress p \<le> 100
     \<and> rp_boot_id p \<noteq> []
     \<and> (case rp_evidence_sequence p of None \<Rightarrow> True | Some n \<Rightarrow> 0 \<le> n \<and> n \<le> 2 ^ 64 - 1)
     \<and> rp_bytes_received p \<le> rp_image_size p
     \<and> \<not> (rp_state p \<in> {Binary_verified, Partition_written, Rebooting, Post_boot_validation, Validated}
           \<and> (rp_bytes_received p \<noteq> rp_image_size p \<or> rp_progress p \<noteq> 100))
     \<and> \<not> (rp_state p = Failed \<and> \<not> truthy (rp_failure_code p))
     \<and> \<not> (rp_state p \<notin> {Failed, Rollback_detected, Rolled_back}
           \<and> (truthy (rp_failure_code p) \<or> truthy (rp_failure_summary p)))"

definition report_data :: "report_payload \<Rightarrow> jdict" where
  "report_data p =
     [(''device_id'', JStr (rp_device p)), (''deployment_id'', JStr (rp_deployment_id p)),
      (''release_id'', JStr (rp_release_id p)), (''attempt'', JInt (rp_attempt p)),
      (''state'', JStr (state_text (rp_state p))),
      (''current_firmware_version'', JStr (rp_current_firmware_version p)),
      (''current_build_hash'', JStr (rp_current_build_hash p)),
      (''target_version'', JStr (rp_target_version p)), (''target_sha256'', JStr (rp_target_sha256 p)),
      (''bytes_received'', JInt (rp_bytes_received p)), (''image_size'', JInt (rp_image_size p)),
      (''progress'', JInt (rp_progress p)), (''boot_id'', JStr (rp_boot_id p))]
     @ (case rp_evidence_sequence p of None \<Rightarrow> [] | Some n \<Rightarrow> [(''evidence_sequence'', JInt n)])
     @ [(''failure_code'', opt_str (rp_failure_code p)),
        (''failure_summary'', opt_str (rp_failure_summary p))]"

record report_response =
  rr_duplicate :: bool
  rr_state :: dstate
  rr_revision :: int
  rr_attempt :: int

definition report_answer :: "bool \<Rightarrow> firmware_deployment \<Rightarrow> report_response" where
  "report_answer duplicate d =
     \<lparr>rr_duplicate = duplicate, rr_state = dep_state d, rr_revision = dep_revision d, rr_attempt = dep_attempt d\<rparr>"

text \<open>Lines 1096-1160: the report names this attempt, this image and no superseded boot.\<close>

definition report_matches ::
  "report_payload \<Rightarrow> firmware_deployment \<Rightarrow> firmware_release \<Rightarrow> fw_error + unit"
where
  "report_matches p d r =
     (let retained = dep_interruption_evidence d in
      if rp_attempt p \<noteq> dep_attempt d
      then Inl (FwProblem 409 (if rp_attempt p < dep_attempt d then ''firmware_report_stale''
                               else ''firmware_report_mismatch''))
      else if rp_target_version p \<noteq> rel_version r \<or> rp_target_sha256 p \<noteq> rel_sha256 r
        \<or> rp_image_size p \<noteq> rel_size_bytes r
      then Inl (FwProblem 409 ''firmware_report_mismatch'')
      else if dep_state d \<in> {Awaiting_heartbeat, Completed} \<and> truthy (dep_last_boot_id d)
        \<and> Some (rp_boot_id p) \<noteq> dep_last_boot_id d
      then Inl (FwProblem 409 ''firmware_report_stale'')
      else if dep_state d = Awaiting_heartbeat \<and> rp_state p \<in> {Failed, Rollback_detected, Rolled_back}
        \<and> map_of retained ''target_healthy_heartbeat_boot_id'' = Some (JStr (rp_boot_id p))
        \<and> (case (rp_evidence_sequence p,
                 int_value (map_of retained ''target_healthy_heartbeat_evidence_sequence'')) of
             (Some q, Some t) \<Rightarrow> q \<le> t | _ \<Rightarrow> True)
      then Inl (FwProblem 409 ''firmware_report_stale'')
      else Inr ())"

text \<open>Lines 1214-1238: the reported state follows the recorded one.\<close>

definition report_follows :: "report_payload \<Rightarrow> firmware_deployment \<Rightarrow> fw_error + unit" where
  "report_follows p d =
     (if rp_state p = dep_state d
      then (if rp_state p \<noteq> Downloading \<or> rp_progress p < dep_progress d
              \<or> rp_bytes_received p < dep_bytes_received d
            then Inl (FwProblem 409 ''firmware_report_stale'') else Inr ())
      else if rp_state p \<notin> set (DEPLOYMENT_TRANSITIONS (dep_state d))
      then Inl (FwProblem 409 ''firmware_transition_invalid'')
      else Inr ())"

text \<open>Lines 1240-1278: what an accepted report records.\<close>

definition note_report :: "instant \<Rightarrow> report_payload \<Rightarrow> firmware_deployment \<Rightarrow> firmware_deployment" where
  "note_report now p d =
     d\<lparr>dep_progress := max (dep_progress d) (rp_progress p),
       dep_bytes_received := max (dep_bytes_received d) (rp_bytes_received p),
       dep_last_report_at := Some (Aware now), dep_last_report_payload := report_data p,
       dep_last_boot_id := Some (rp_boot_id p)\<rparr>"

definition report_row :: "instant \<Rightarrow> report_payload \<Rightarrow> firmware_deployment \<Rightarrow> firmware_deployment" where
  "report_row now p d =
     (if rp_state p = Download_started then d\<lparr>dep_downloaded_at := Some (Aware now)\<rparr>
      else if rp_state p = Partition_written then d\<lparr>dep_installed_at := Some (Aware now)\<rparr>
      else if rp_state p = Validated
      then d\<lparr>dep_validated_at := Some (Aware now),
             dep_validated_version := Some (rp_current_firmware_version p),
             dep_validated_build_hash := Some (rp_current_build_hash p),
             dep_stabilization_started_at := Some (Aware now)\<rparr>
      else if rp_state p = Failed
      then d\<lparr>dep_failure_code := rp_failure_code p,
             dep_failure_summary := rp_failure_summary p, dep_failure_reason := rp_failure_summary p\<rparr>
      else if rp_state p \<in> {Rollback_detected, Rolled_back}
      then d\<lparr>dep_rollback_at := Some (Aware now),
             dep_rollback_version := Some (rp_current_firmware_version p),
             dep_rollback_build_hash := Some (rp_current_build_hash p),
             dep_failure_code := (if truthy (rp_failure_code p) then rp_failure_code p else dep_failure_code d),
             dep_failure_summary := (if truthy (rp_failure_summary p) then rp_failure_summary p
                else dep_failure_summary d)\<rparr>
      else d)"

definition report_effect ::
  "instant \<Rightarrow> report_payload \<Rightarrow> firmware_release \<Rightarrow> firmware_deployment \<Rightarrow> fw_error + firmware_deployment"
where
  "report_effect now p r d =
     (if rp_state p = Validated \<and> (rp_current_firmware_version p \<noteq> rel_version r
           \<or> Some (rp_current_build_hash p) \<noteq> rel_build_hash r)
      then Inl (FwProblem 409 ''firmware_report_mismatch'')
      else Inr (report_row now p d))"

definition apply_report ::
  "instant \<Rightarrow> report_payload \<Rightarrow> firmware_release \<Rightarrow> firmware_deployment \<Rightarrow> fw_error + firmware_deployment"
where
  "apply_report now p r d =
     bindE (if rp_state p = dep_state d then Inr (False, d\<lparr>dep_revision := dep_revision d + 1\<rparr>)
            else plain_transition d (rp_state p) now)
       (\<lambda>(changed, d1). report_effect now p r (note_report now p d1))"

text \<open>Lines 1161-1286: duplicates, stale and superseded evidence, and the accepted report.\<close>

definition stale_evidence :: "report_payload \<Rightarrow> firmware_deployment \<Rightarrow> bool" where
  "stale_evidence p d =
     (case (rp_evidence_sequence p, strict_int (map_of (dep_last_report_payload d) ''evidence_sequence'')) of
        (Some q, Some t) \<Rightarrow> q < t | _ \<Rightarrow> False)"

definition duplicate_report :: "report_payload \<Rightarrow> firmware_deployment \<Rightarrow> bool" where
  "duplicate_report p d \<longleftrightarrow> set (report_data p) = set (dep_last_report_payload d)"

definition accept_report ::
  "instant \<Rightarrow> report_payload \<Rightarrow> firmware_release \<Rightarrow> firmware_deployment \<Rightarrow> fw_db
   \<Rightarrow> fw_error + (fw_db \<times> report_response)"
where
  "accept_report now p r d s =
     (if duplicate_report p d then Inr (s, report_answer True d)
      else if stale_evidence p d then Inl (FwProblem 409 ''firmware_report_stale'')
      else if is_superseded_target_report d r (rp_state p)
             (rp_current_firmware_version p) (rp_current_build_hash p)
      then Inr (s, report_answer True d)
      else bindE (report_follows p d) (\<lambda>_.
           bindE (apply_report now p r d) (\<lambda>d1.
           bindE (flush (put_deployment d1 s)) (\<lambda>s1.
           Inr (s1, report_answer False d1)))))"

definition report_deployment ::
  "instant \<Rightarrow> string \<Rightarrow> report_payload \<Rightarrow> fw_db \<Rightarrow> fw_error + (fw_db \<times> report_response)"
where
  "report_deployment now verified_device_id p s =
     (if rp_device p \<noteq> verified_device_id then Inl (FwProblem 403 ''device_id_mismatch'')
      else bindE (ensure_device_reset_mutations_allowed s [verified_device_id]) (\<lambda>_.
        case find_deployment s (rp_deployment_id p) of
          None \<Rightarrow> Inl (FwProblem 404 ''firmware_unavailable'')
        | Some d \<Rightarrow>
            if dep_device_id d \<noteq> verified_device_id then Inl (FwProblem 404 ''firmware_unavailable'')
            else case releases s (dep_release_id d) of
              None \<Rightarrow> Inl (FwProblem 409 ''firmware_report_mismatch'')
            | Some r \<Rightarrow>
                if rel_id r \<noteq> rp_release_id p then Inl (FwProblem 409 ''firmware_report_mismatch'')
                else bindE (report_matches p d r) (\<lambda>_. accept_report now p r d s)))"

section \<open>The headless agent\<close>

definition HEADLESS_ORDER :: "dstate list" where
  "HEADLESS_ORDER =
     [Scheduled, Offered, Manifest_authenticated, Download_started, Downloading, Binary_verified,
      Partition_written, Rebooting, Post_boot_validation, Validated]"

fun position :: "'a \<Rightarrow> 'a list \<Rightarrow> nat" where
  "position x [] = 0"
| "position x (y # ys) = (if x = y then 0 else Suc (position x ys))"

definition advance_headless_deployment ::
  "firmware_deployment \<Rightarrow> dstate \<Rightarrow> instant \<Rightarrow> fw_error + firmware_deployment"
where
  "advance_headless_deployment d target now =
     (if dep_state d = target then Inr d
      else if target = Failed then bindE (plain_transition d Failed now) (\<lambda>(changed, d1). Inr d1)
      else if dep_state d \<notin> set HEADLESS_ORDER \<or> target \<notin> set HEADLESS_ORDER then Inr d
      else foldE (\<lambda>t d. bindE (plain_transition d t now) (\<lambda>(changed, d1). Inr d1))
             (drop (Suc (position (dep_state d) HEADLESS_ORDER))
               (take (Suc (position target HEADLESS_ORDER)) HEADLESS_ORDER)) d)"

definition safe_int :: "json option \<Rightarrow> int" where
  "safe_int x = (case strict_int x of Some n \<Rightarrow> if 0 \<le> n then n else 0 | None \<Rightarrow> 0)"

record device_command =
  cm_command_type :: string
  cm_device_id :: string

definition headless_target :: "jdict \<Rightarrow> string \<Rightarrow> dstate option" where
  "headless_target result state =
     (if state = ''failed'' then Some Failed
      else map_of [(''accepted'', Offered), (''downloading'', Downloading), (''rebooting'', Rebooting),
             (''validated'', Validated), (''failed'', Failed)]
             (case str_value (map_of result ''state'') of Some t \<Rightarrow> t | None \<Rightarrow> []))"

definition note_result :: "jdict \<Rightarrow> instant \<Rightarrow> firmware_deployment \<Rightarrow> firmware_deployment" where
  "note_result result now d =
     d\<lparr>dep_bytes_received := max (dep_bytes_received d) (safe_int (map_of result ''bytes_received'')),
       dep_progress := max (dep_progress d) (safe_int (map_of result ''progress'')),
       dep_last_report_at := Some (Aware now), dep_last_report_payload := result\<rparr>"

text \<open>A reported value is bound to a text column as it is: the driver refuses what is neither a
  string nor null, and the whole result with it.\<close>

fun text_column :: "string \<Rightarrow> json option \<Rightarrow> fw_error + string option" where
  "text_column column None = Inr None"
| "text_column column (Some JNull) = Inr None"
| "text_column column (Some (JStr v)) = Inr (Some v)"
| "text_column column (Some _) = Inl (FwData column)"

definition result_effect ::
  "jdict \<Rightarrow> instant \<Rightarrow> dstate option \<Rightarrow> firmware_deployment \<Rightarrow> fw_error + firmware_deployment"
where
  "result_effect result now target d =
     (if target = Some Downloading
      then Inr (d\<lparr>dep_downloaded_at := (if safe_int (map_of result ''bytes_received'')
               = safe_int (map_of result ''image_size'') then Some (Aware now) else None)\<rparr>)
      else if target = Some Rebooting then Inr (d\<lparr>dep_installed_at := Some (Aware now)\<rparr>)
      else if target = Some Validated
      then bindE (text_column ''validated_version'' (map_of result ''target_version'')) (\<lambda>version.
           bindE (text_column ''validated_build_hash'' (map_of result ''target_build_hash'')) (\<lambda>build_hash.
           Inr (d\<lparr>dep_validated_at := Some (Aware now), dep_validated_version := version,
                  dep_validated_build_hash := build_hash\<rparr>)))
      else if target = Some Failed
      then Inr (d\<lparr>dep_failure_code := Some ''ota_agent_failed'',
             dep_failure_summary := Some ''The headless agent reported an OTA failure.''\<rparr>)
      else Inr d)"

definition record_headless_ota_result ::
  "device_command \<Rightarrow> jdict \<Rightarrow> string \<Rightarrow> instant \<Rightarrow> fw_db \<Rightarrow> fw_error + fw_db"
where
  "record_headless_ota_result command result state now s =
     (if cm_command_type command \<noteq> ''ota_update'' then Inr s
      else case (str_value (map_of result ''deployment_id''), str_value (map_of result ''release_id'')) of
        (Some deployment_id, Some release_id) \<Rightarrow>
          (case find_deployment s deployment_id of
             None \<Rightarrow> Inl (FwProblem 409 ''ota_result_conflict'')
           | Some d \<Rightarrow>
               if dep_device_id d \<noteq> cm_device_id command \<or> dep_release_id d \<noteq> release_id
               then Inl (FwProblem 409 ''ota_result_conflict'')
               else if safe_int (map_of result ''image_size'') \<le> 0
                 \<or> safe_int (map_of result ''image_size'') < safe_int (map_of result ''bytes_received'')
                 \<or> 100 < safe_int (map_of result ''progress'')
               then Inl (FwProblem 422 ''ota_result_invalid'')
               else if dep_state d \<in> set TERMINAL_DEPLOYMENT_STATES then Inr s
               else
                 let target = headless_target result state; d1 = note_result result now d
                 in bindE (case target of None \<Rightarrow> Inr d1 | Some t \<Rightarrow> advance_headless_deployment d1 t now)
                      (\<lambda>d2. bindE (result_effect result now target d2) (\<lambda>d3. flush (put_deployment d3 s))))
      | _ \<Rightarrow> Inl (FwProblem 422 ''ota_result_invalid''))"

record agent_heartbeat =
  ah_device_id :: string
  ah_boot_id :: string
  ah_firmware_version :: string
  ah_build_hash :: string
  ah_ota :: jdict

definition record_headless_ota_heartbeat ::
  "fw_settings \<Rightarrow> instant \<Rightarrow> agent_heartbeat \<Rightarrow> fw_db \<Rightarrow> fw_error + fw_db"
where
  "record_headless_ota_heartbeat st now p s =
     (if map_of (ah_ota p) ''state'' \<noteq> Some (JStr ''validated'') then Inr s
      else case latest_scheduled (filter (\<lambda>d. dep_device_id d = ah_device_id p
             \<and> dep_state d \<in> {Validated, Awaiting_heartbeat}) (deployments s)) of
        None \<Rightarrow> Inr s
      | Some d \<Rightarrow>
          (case releases s (dep_release_id d) of
             None \<Rightarrow> Inr s
           | Some r \<Rightarrow>
               if ah_firmware_version p \<noteq> rel_version r \<or> Some (ah_build_hash p) \<noteq> rel_build_hash r
               then Inr s
               else
                 bindE (begin_stabilization now d) (\<lambda>d1.
                 bindE (count_heartbeat st now s (d1\<lparr>dep_last_boot_id := Some (ah_boot_id p)\<rparr>)) (\<lambda>d2.
                 flush (put_deployment d2 s)))))"

end
