(* ===== verification/Firmware_Lifecycle.thy ===== *)
theory Firmware_Lifecycle
  imports Firmware_Handlers
begin

text \<open>
  Lemmas on firmware deployments: the well-formedness of a row, what a handler may do to a row
  (\<^verbatim>\<open>row_step\<close>), that every handler changes rows only that way, and the step relation of the
  whole system with its invariant, as an instance of \<^verbatim>\<open>invariant_system\<close>.
\<close>

section \<open>Rows\<close>

definition dep_wf :: "firmware_deployment \<Rightarrow> bool" where
  "dep_wf d \<longleftrightarrow> dep_status d = dep_state d
     \<and> (dep_terminal_at d \<noteq> None \<longleftrightarrow> dep_state d \<in> set TERMINAL_DEPLOYMENT_STATES)
     \<and> 1 \<le> dep_revision d \<and> 0 \<le> dep_progress d \<and> dep_progress d \<le> 100 \<and> 0 \<le> dep_bytes_received d"

text \<open>What must have been seen before a deployment counts as completed.\<close>

definition completed_proof :: "fw_settings \<Rightarrow> firmware_deployment \<Rightarrow> bool" where
  "completed_proof st d \<longleftrightarrow>
     firmware_verification_heartbeat_count st \<le> dep_verification_heartbeats d
     \<and> dep_reading_confirmed_at d \<noteq> None \<and> dep_stabilization_started_at d \<noteq> None"

definition same_row :: "firmware_deployment \<Rightarrow> firmware_deployment \<Rightarrow> bool" where
  "same_row d d' \<longleftrightarrow> dep_id d' = dep_id d \<and> dep_device_id d' = dep_device_id d
     \<and> dep_release_id d' = dep_release_id d \<and> dep_attempt d' = dep_attempt d
     \<and> dep_revision d \<le> dep_revision d' \<and> (dep_wf d \<longrightarrow> dep_wf d')"

definition row_step :: "fw_settings \<Rightarrow> firmware_deployment \<Rightarrow> firmware_deployment \<Rightarrow> bool" where
  "row_step st d d' \<longleftrightarrow> same_row d d' \<and> dep_state d \<notin> {Completed, Cancelled}
     \<and> (dep_state d \<in> {Failed, Rolled_back} \<longrightarrow> dep_state d' \<in> {Awaiting_heartbeat, Completed})
     \<and> (dep_state d' = Completed \<longrightarrow> completed_proof st d')"

lemma same_row_refl [simp]: "same_row d d"
  by (simp add: same_row_def)

lemma same_row_trans: "same_row d e \<Longrightarrow> same_row e f \<Longrightarrow> same_row d f"
  by (auto simp: same_row_def)

lemma terminal_states [simp]:
  "x \<in> set TERMINAL_DEPLOYMENT_STATES \<longleftrightarrow> x \<in> {Completed, Failed, Cancelled, Rolled_back}"
  by (simp add: TERMINAL_DEPLOYMENT_STATES_def)

lemma active_states [simp]:
  "x \<in> set ACTIVE_DEPLOYMENT_STATES \<longleftrightarrow> x \<notin> {Completed, Failed, Cancelled, Rolled_back}"
  by (cases x) (simp_all add: ACTIVE_DEPLOYMENT_STATES_def)

section \<open>Transitions\<close>

lemma enter_state_step:
  "same_row d (enter_state now target d)" "dep_state (enter_state now target d) = target"
  "dep_verification_heartbeats (enter_state now target d) = dep_verification_heartbeats d"
  "dep_reading_confirmed_at (enter_state now target d) = dep_reading_confirmed_at d"
  "dep_stabilization_started_at (enter_state now target d) = dep_stabilization_started_at d"
  "dep_revision (enter_state now target d) = dep_revision d + 1"
  by (auto simp: enter_state_def same_row_def dep_wf_def)

lemma transition_Inr:
  assumes "transition_firmware_deployment d target now ev sp re = Inr (changed, d')"
  shows "same_row d d' \<and> dep_state d' = target \<and> (changed \<longleftrightarrow> dep_state d \<noteq> target)
    \<and> dep_verification_heartbeats d' = dep_verification_heartbeats d
    \<and> dep_reading_confirmed_at d' = dep_reading_confirmed_at d
    \<and> dep_stabilization_started_at d' = dep_stabilization_started_at d
    \<and> (changed \<longrightarrow> transition_allowed (dep_state d) target ev sp re \<and> dep_revision d' = dep_revision d + 1)"
  using assms by (auto simp: transition_firmware_deployment_def enter_state_step split: if_splits)

lemma plain_transition_ok:
  "target \<in> set (DEPLOYMENT_TRANSITIONS (dep_state d)) \<Longrightarrow> \<exists>d'. plain_transition d target now = Inr (True, d')"
  by (cases "dep_state d") (auto simp: transition_firmware_deployment_def transition_allowed_def)

text \<open>Completion needs the whole proof and happens only from awaiting heartbeats.\<close>

lemma complete_total: "\<exists>d'. complete_firmware_if_stable s st now d = Inr d'"
proof (cases "dep_state d = Awaiting_heartbeat")
  case True
  then obtain d' where "plain_transition d Completed now = Inr (True, d')"
    using plain_transition_ok[of Completed d now] by auto
  then show ?thesis by (simp add: complete_firmware_if_stable_def)
qed (simp add: complete_firmware_if_stable_def)

lemma complete_step:
  assumes "complete_firmware_if_stable s st now d = Inr d'"
  shows "same_row d d'
    \<and> (dep_state d' = Completed \<and> dep_state d \<noteq> Completed \<longrightarrow> completed_proof st d' \<and> dep_state d = Awaiting_heartbeat)
    \<and> (dep_state d' = dep_state d \<and> d' = d \<or> dep_state d' = Completed \<and> dep_state d = Awaiting_heartbeat)"
proof (cases "d' = d")
  case False
  with assms have c: "dep_state d = Awaiting_heartbeat"
      "firmware_verification_heartbeat_count st \<le> dep_verification_heartbeats d"
      "dep_reading_confirmed_at d \<noteq> None" "stable_since d st now"
    by (auto simp: complete_firmware_if_stable_def split: if_splits)
  obtain d1 where t: "plain_transition d Completed now = Inr (True, d1)"
    using plain_transition_ok[of Completed d now] c(1) by auto
  with assms False
  have d': "d' = d1\<lparr>dep_progress := 100, dep_validated_at := or_else (dep_validated_at d1) (Some (Aware now))\<rparr>"
    by (auto simp: complete_firmware_if_stable_def split: if_splits)
  have "dep_stabilization_started_at d \<noteq> None" using c(4) by (cases "dep_stabilization_started_at d") (auto simp: stable_since_def)
  with transition_Inr[OF t] d' c show ?thesis
    by (auto simp: completed_proof_def same_row_def dep_wf_def)
qed simp

section \<open>Tables\<close>

text \<open>A transaction that changes at most one row.\<close>

definition changes_row ::
  "(firmware_deployment \<Rightarrow> firmware_deployment \<Rightarrow> bool) \<Rightarrow> fw_db \<Rightarrow> fw_db \<Rightarrow> bool"
where
  "changes_row R s t \<longleftrightarrow> deployments t = deployments s
     \<or> (\<exists>d\<in>set (deployments s). \<exists>d'. R d d' \<and> deployments t = deployments (put_deployment d' s))"

definition distinct_ids :: "fw_db \<Rightarrow> bool" where
  "distinct_ids s \<longleftrightarrow> distinct (map dep_id (deployments s))"

lemma add_audit_deployments [simp]: "deployments (add_audit a s) = deployments s"
  by (simp add: add_audit_def)

lemma put_deployment_cong:
  "deployments s = deployments t \<Longrightarrow> deployments (put_deployment d s) = deployments (put_deployment d t)"
  by (simp add: put_deployment_def)

lemma put_ids: "map dep_id (deployments (put_deployment d s)) = map dep_id (deployments s)"
  by (simp add: put_deployment_def)

lemma put_member:
  assumes "x \<in> set (deployments (put_deployment d s))"
  shows "x = d \<or> x \<in> set (deployments s) \<and> dep_id x \<noteq> dep_id d"
  using assms by (auto simp: put_deployment_def split: if_splits)

lemma put_keeps: "x \<in> set (deployments s) \<Longrightarrow> dep_id x \<noteq> dep_id d \<Longrightarrow> x \<in> set (deployments (put_deployment d s))"
  by (force simp: put_deployment_def)

lemma row_by_id:
  "distinct_ids s \<Longrightarrow> d \<in> set (deployments s) \<Longrightarrow> e \<in> set (deployments s) \<Longrightarrow> dep_id d = dep_id e \<Longrightarrow> d = e"
  unfolding distinct_ids_def by (metis distinct_map inj_on_contraD)

lemma find_deployment_Some: "find_deployment s i = Some d \<Longrightarrow> d \<in> set (deployments s) \<and> dep_id d = i"
  by (auto simp: find_deployment_def find_Some_iff)

lemma latest_scheduled_Some: "latest_scheduled ds = Some d \<Longrightarrow> d \<in> set ds"
proof -
  assume "latest_scheduled ds = Some d"
  then obtain xs where "sort_key (\<lambda>d. - aware (dep_scheduled_at d)) ds = d # xs"
    by (auto simp: latest_scheduled_def split: list.splits)
  then show ?thesis by (rule sort_key_head(1))
qed

lemma changes_row_ids: 
  assumes "changes_row R s t" and "\<And>d d'. R d d' \<Longrightarrow> dep_id d' = dep_id d"
  shows "map dep_id (deployments t) = map dep_id (deployments s)"
  using assms by (auto simp: changes_row_def put_ids)

lemma flush_Inr: "flush s = Inr t \<longleftrightarrow> t = s \<and> distinct (map dep_device_id (active_deployments s))"
  by (auto simp: flush_def)

lemma active_cong: "deployments s = deployments t \<Longrightarrow> active_deployments s = active_deployments t"
  by (simp add: active_deployments_def)

section \<open>Heartbeats\<close>

lemma adopt_row_step:
  "same_row d (adopt_row now p r d)" "dep_state (adopt_row now p r d) = dep_state d"
  by (auto simp: adopt_row_def same_row_def dep_wf_def)

lemma clear_failure_step: "same_row d (clear_failure d)" "dep_state (clear_failure d) = dep_state d"
  by (auto simp: clear_failure_def same_row_def dep_wf_def)

lemma adopt_step:
  assumes "adopt_target now p r (d, s) = Inr (d', s')"
  shows "same_row d d' \<and> dep_state d' = Awaiting_heartbeat \<and> deployments s' = deployments s"
proof -
  obtain changed d1 where t: "transition_firmware_deployment d Awaiting_heartbeat now True
      (target_supersedes_terminal_report d p r) False = Inr (changed, d1)"
    and d': "d' \<in> {adopt_row now p r d1, clear_failure (adopt_row now p r d1)}"
    and s': "deployments s' = deployments s"
    using assms by (auto simp: adopt_target_def Let_def result_simps)
  have "same_row d1 d'" "dep_state d' = dep_state d1"
    using d' adopt_row_step clear_failure_step same_row_trans by fastforce+
  with transition_Inr[OF t] s' show ?thesis using same_row_trans by auto
qed

lemma restart_step:
  assumes "restart_target now p (d, s) = (d', s')"
  shows "same_row d d' \<and> dep_state d' = dep_state d \<and> deployments s' = deployments s"
  using assms by (auto simp: restart_target_def same_row_def dep_wf_def split: if_splits)

lemma keep_target_boot_step:
  "same_row d (keep_target_boot now p d)" "dep_state (keep_target_boot now p d) = dep_state d"
  by (auto simp: keep_target_boot_def same_row_def dep_wf_def Let_def)

lemma begin_stabilization_total: "\<exists>d'. begin_stabilization now d = Inr d'"
proof (cases "dep_state d = Validated")
  case True
  then obtain d1 where "plain_transition d Awaiting_heartbeat now = Inr (True, d1)"
    using plain_transition_ok[of Awaiting_heartbeat d now] by auto
  then show ?thesis by (simp add: begin_stabilization_def)
qed (simp add: begin_stabilization_def)

lemma begin_stabilization_step:
  assumes "begin_stabilization now d = Inr d'"
  shows "same_row d d' \<and> dep_state d' = (if dep_state d = Validated then Awaiting_heartbeat else dep_state d)"
proof (cases "dep_state d = Validated")
  case True
  then obtain d1 where "plain_transition d Awaiting_heartbeat now = Inr (True, d1)"
    using plain_transition_ok[of Awaiting_heartbeat d now] by auto
  with assms True show ?thesis
    using transition_Inr[of d Awaiting_heartbeat now False False False True d1]
    by (auto simp: begin_stabilization_def same_row_def dep_wf_def)
qed (use assms in \<open>simp add: begin_stabilization_def\<close>)

lemma count_heartbeat_step:
  assumes "count_heartbeat st now s d = Inr d'" and "dep_state d \<noteq> Completed"
  shows "same_row d d' \<and> (dep_state d' = Completed \<longrightarrow> completed_proof st d')
    \<and> (dep_state d' = dep_state d \<or> dep_state d' = Completed \<and> dep_state d = Awaiting_heartbeat)"
proof -
  have "same_row d (d\<lparr>dep_verification_heartbeats := dep_verification_heartbeats d + 1\<rparr>)"
    by (auto simp: same_row_def dep_wf_def)
  then show ?thesis
    using complete_step[OF assms(1)[unfolded count_heartbeat_def]] assms(2) same_row_trans by auto
qed

text \<open>A stabilising row that counts one more heartbeat takes a step.\<close>

lemma stabilizing_step:
  assumes "begin_stabilization now d = Inr d1" and "count_heartbeat st now s (f d1) = Inr d2"
    and "\<And>x. same_row x (f x) \<and> dep_state (f x) = dep_state x"
    and "dep_state d \<in> {Validated, Awaiting_heartbeat}"
  shows "same_row d d2 \<and> dep_state d2 \<in> {Awaiting_heartbeat, Completed}
    \<and> (dep_state d2 = Completed \<longrightarrow> completed_proof st d2)"
proof -
  have d1: "same_row d d1" "dep_state d1 = Awaiting_heartbeat"
    using begin_stabilization_step[OF assms(1)] assms(4) by auto
  then have "same_row (f d1) d2 \<and> (dep_state d2 = Completed \<longrightarrow> completed_proof st d2)
    \<and> dep_state d2 \<in> {Awaiting_heartbeat, Completed}"
    using count_heartbeat_step[OF assms(2)] assms(3)[of d1] by auto
  with d1 assms(3)[of d1] show ?thesis using same_row_trans by blast
qed

lemma changes_row_mono: "(\<And>d d'. R d d' \<Longrightarrow> Q d d') \<Longrightarrow> changes_row R s t \<Longrightarrow> changes_row Q s t"
  unfolding changes_row_def by blast

lemma target_heartbeat_step:
  assumes "target_identity_heartbeat st now p r d s = Inr t" and "d \<in> set (deployments s)"
    and "dep_state d \<notin> {Completed, Cancelled}"
  shows "changes_row (\<lambda>e e'. e = d \<and> row_step st e e') s t"
proof -
  obtain d1 s1 where stage: "(if dep_state d \<notin> {Validated, Awaiting_heartbeat} then adopt_target now p r (d, s)
            else Inr (restart_target now p (d, s))) = Inr (d1, s1)"
    and rest: "(if \<not> heartbeat_healthy p then Inr (put_deployment (keep_target_boot now p d1) s1)
       else bindE (begin_stabilization now (keep_target_boot now p d1)) (\<lambda>d2.
            bindE (count_heartbeat st now s1 d2) (\<lambda>d3.
            Inr (put_deployment d3 s1)))) = (Inr t :: fw_error + fw_db)"
    using assms(1) unfolding target_identity_heartbeat_def bindE_eq_Inr by fastforce
  have one: "same_row d d1" "dep_state d1 \<in> {Validated, Awaiting_heartbeat}" "deployments s1 = deployments s"
    "dep_state d \<in> {Failed, Rolled_back} \<Longrightarrow> dep_state d1 = Awaiting_heartbeat"
    using stage adopt_step[of now p r d s d1 s1] restart_step[of now p d s d1 s1]
    by (auto split: if_splits)
  let ?k = "keep_target_boot now p d1"
  have k: "same_row d ?k" "dep_state ?k = dep_state d1"
    using keep_target_boot_step one(1) same_row_trans by blast+
  have "\<exists>d'. t = put_deployment d' s1 \<and> row_step st d d'"
  proof (cases "heartbeat_healthy p")
    case False
    with rest one k assms(3) show ?thesis by (intro exI[of _ ?k]) (auto simp: row_step_def)
  next
    case True
    with rest obtain d2 d3 where d2: "begin_stabilization now ?k = Inr d2"
      and d3: "count_heartbeat st now s1 d2 = Inr d3" and t: "t = put_deployment d3 s1"
      by (auto simp: bindE_eq_Inr)
    have "same_row ?k d3 \<and> dep_state d3 \<in> {Awaiting_heartbeat, Completed}
      \<and> (dep_state d3 = Completed \<longrightarrow> completed_proof st d3)"
      using stabilizing_step[OF d2, of st s1 "\<lambda>x. x" d3] d3 k(2) one(2) by simp
    then have "row_step st d d3" using k(1) same_row_trans assms(3) unfolding row_step_def by blast
    then show ?thesis using t by blast
  qed
  then show ?thesis
    using assms(2) put_deployment_cong[OF one(3)] unfolding changes_row_def by blast
qed

lemma record_steps:
  "same_row d (record_rollback now p e d)" "dep_state (record_rollback now p e d) = dep_state d"
  "same_row d (record_interruption p e d)" "dep_state (record_interruption p e d) = dep_state d"
  by (auto simp: record_rollback_def record_interruption_def same_row_def dep_wf_def)

lemma other_heartbeat_step:
  assumes "other_identity_heartbeat st now p d s = Inr t" and "d \<in> set (deployments s)"
    and "dep_state d \<notin> {Completed, Cancelled, Failed, Rolled_back}"
  shows "changes_row (\<lambda>e e'. e = d \<and> row_step st e e') s t"
proof -
  consider (same) "t = s"
    | (rollback) c d1 where "transition_firmware_deployment d Rolled_back now True False False = Inr (c, d1)"
        "deployments t = deployments (put_deployment (record_rollback now p (rollback_evidence p d) d1) s)"
    | (interrupted) c d1 where "plain_transition d Failed now = Inr (c, d1)"
        "deployments t = deployments (put_deployment (record_interruption p (reboot_evidence p d) d1) s)"
    using assms(1) by (auto simp: other_identity_heartbeat_def result_simps split: if_splits)
  then show ?thesis
  proof cases
    case same
    then show ?thesis by (simp add: changes_row_def)
  next
    case rollback
    then have "row_step st d (record_rollback now p (rollback_evidence p d) d1)"
      using transition_Inr[OF rollback(1)] record_steps(1)[of d1] assms(3) same_row_trans
      by (auto simp: row_step_def record_steps)
    with rollback(2) assms(2) show ?thesis unfolding changes_row_def by blast
  next
    case interrupted
    then have "row_step st d (record_interruption p (reboot_evidence p d) d1)"
      using transition_Inr[OF interrupted(1)] record_steps(3)[of d1] assms(3) same_row_trans
      by (auto simp: row_step_def record_steps)
    with interrupted(2) assms(2) show ?thesis unfolding changes_row_def by blast
  qed
qed

lemma heartbeat_step:
  assumes "reconcile_firmware_heartbeat st now p s = Inr t"
  shows "changes_row (row_step st) s t
    \<and> (distinct (map dep_device_id (active_deployments s)) \<longrightarrow> distinct (map dep_device_id (active_deployments t)))"
proof (cases "t = s")
  case True
  then show ?thesis by (simp add: changes_row_def)
next
  case False
  with assms obtain d r where
    sel: "latest_scheduled (filter (\<lambda>d. dep_device_id d = hp_device_id p
             \<and> dep_state d \<in> set HEARTBEAT_STATES) (deployments s)) = Some d"
    and keep: "\<not> (dep_state d \<in> {Failed, Rolled_back} \<and> \<not> target_supersedes_terminal_report d p r)"
    and run: "bindE (if target_identity p r then target_identity_heartbeat st now p r d s
                           else other_identity_heartbeat st now p d s) flush = Inr t"
    by (auto simp: reconcile_firmware_heartbeat_def split: option.splits if_splits)
  have d: "d \<in> set (deployments s)" "dep_state d \<notin> {Completed, Cancelled}"
    using latest_scheduled_Some[OF sel] by (auto simp: HEARTBEAT_STATES_def)
  have "dep_state d \<notin> {Failed, Rolled_back} \<or> target_identity p r"
    using keep by (auto simp: target_supersedes_terminal_report_def)
  then have "changes_row (\<lambda>e e'. e = d \<and> row_step st e e') s t"
    using run d target_heartbeat_step[of st now p r d s t] other_heartbeat_step[of st now p d s t]
    by (auto simp: bindE_eq_Inr flush_Inr split: if_splits)
  then have "changes_row (row_step st) s t" by (rule changes_row_mono[rotated]) simp
  then show ?thesis using run by (auto simp: bindE_eq_Inr flush_Inr)
qed

section \<open>Readings, reports and agents\<close>

lemma reading_step:
  assumes "confirm_firmware_reading st now i readings durable s = Inr t"
  shows "changes_row (row_step st) s t
    \<and> (distinct (map dep_device_id (active_deployments s)) \<longrightarrow> distinct (map dep_device_id (active_deployments t)))"
proof (cases "t = s")
  case True
  then show ?thesis by (simp add: changes_row_def)
next
  case False
  with assms obtain d d1 where
    sel: "latest_scheduled (filter (\<lambda>d. dep_device_id d = i
             \<and> dep_state d = Awaiting_heartbeat) (deployments s)) = Some d"
    and c: "complete_firmware_if_stable s st now
       (d\<lparr>dep_reading_confirmed_at := or_else (dep_reading_confirmed_at d) (Some (Aware now))\<rparr>) = Inr d1"
    and t: "flush (put_deployment d1 s) = Inr t"
    by (auto simp: confirm_firmware_reading_def result_simps split: option.splits if_splits)
  let ?d = "d\<lparr>dep_reading_confirmed_at := or_else (dep_reading_confirmed_at d) (Some (Aware now))\<rparr>"
  have d: "d \<in> set (deployments s)" "dep_state d = Awaiting_heartbeat"
    using latest_scheduled_Some[OF sel] by auto
  have "same_row d ?d" by (auto simp: same_row_def dep_wf_def)
  then have "row_step st d d1"
    using complete_step[OF c] d(2) same_row_trans by (auto simp: row_step_def)
  with d(1) t show ?thesis unfolding changes_row_def flush_Inr by blast
qed

lemma note_report_step:
  "valid_report p \<Longrightarrow> same_row d (note_report now p d)"
  "dep_state (note_report now p d) = dep_state d"
  by (auto simp: note_report_def same_row_def dep_wf_def valid_report_def)

text \<open>Fields on which well-formedness does not depend may change freely.\<close>

definition same_frame :: "firmware_deployment \<Rightarrow> firmware_deployment \<Rightarrow> bool" where
  "same_frame d d' \<longleftrightarrow> dep_id d' = dep_id d \<and> dep_device_id d' = dep_device_id d
     \<and> dep_release_id d' = dep_release_id d \<and> dep_attempt d' = dep_attempt d
     \<and> dep_revision d' = dep_revision d \<and> dep_state d' = dep_state d \<and> dep_status d' = dep_status d
     \<and> dep_terminal_at d' = dep_terminal_at d \<and> dep_progress d' = dep_progress d
     \<and> dep_bytes_received d' = dep_bytes_received d \<and> dep_last_report_payload d' = dep_last_report_payload d"

lemma same_frame_row: "same_frame d d' \<Longrightarrow> same_row d d' \<and> dep_state d' = dep_state d"
  by (simp add: same_frame_def same_row_def dep_wf_def)

lemma report_row_frame: "same_frame d (report_row now p d)"
  by (simp add: report_row_def same_frame_def)

lemma report_effect_step: "report_effect now p r d = Inr d' \<Longrightarrow> same_frame d d'"
  using report_row_frame by (auto simp: report_effect_def split: if_splits)

lemma advance_row_step:
  assumes "(if target = dep_state d then Inr (False, d\<lparr>dep_revision := dep_revision d + 1\<rparr>)
      else plain_transition d target now) = Inr (changed, d1)"
  shows "same_row d d1 \<and> dep_state d1 = target \<and> dep_revision d1 = dep_revision d + 1
      \<and> dep_progress d1 = dep_progress d \<and> dep_bytes_received d1 = dep_bytes_received d"
proof (cases "target = dep_state d")
  case True
  with assms show ?thesis by (auto simp: same_row_def dep_wf_def)
next
  case False
  with assms have "d1 = enter_state now target d"
    by (auto simp: transition_firmware_deployment_def split: if_splits)
  then show ?thesis by (simp add: enter_state_step) (simp add: enter_state_def)
qed

lemma apply_report_step:
  assumes "apply_report now p r d = Inr d'" and "valid_report p"
  shows "same_row d d' \<and> dep_state d' = rp_state p \<and> dep_revision d' = dep_revision d + 1
    \<and> dep_last_report_payload d' = report_data p
    \<and> dep_progress d' = max (dep_progress d) (rp_progress p)
    \<and> dep_bytes_received d' = max (dep_bytes_received d) (rp_bytes_received p)"
proof -
  obtain changed d1 where one: "(if rp_state p = dep_state d then Inr (False, d\<lparr>dep_revision := dep_revision d + 1\<rparr>)
      else plain_transition d (rp_state p) now) = Inr (changed, d1)"
    and two: "report_effect now p r (note_report now p d1) = Inr d'"
    using assms(1) by (auto simp: apply_report_def bindE_eq_Inr)
  have one_facts: "same_row d d1" "dep_state d1 = rp_state p" "dep_revision d1 = dep_revision d + 1"
      "dep_progress d1 = dep_progress d" "dep_bytes_received d1 = dep_bytes_received d"
    using advance_row_step[OF one] by auto
  have noted: "same_row d1 (note_report now p d1)" "dep_state (note_report now p d1) = dep_state d1"
    "dep_revision (note_report now p d1) = dep_revision d1"
    "dep_last_report_payload (note_report now p d1) = report_data p"
    "dep_progress (note_report now p d1) = max (dep_progress d1) (rp_progress p)"
    "dep_bytes_received (note_report now p d1) = max (dep_bytes_received d1) (rp_bytes_received p)"
    using note_report_step(1)[OF assms(2)] by (simp_all add: note_report_def)
  have eff: "same_frame (note_report now p d1) d'" using report_effect_step[OF two] .
  have "same_row d d'"
    using same_row_trans[OF one_facts(1)] same_row_trans[OF noted(1)] same_frame_row[OF eff] by blast
  with eff noted one_facts show ?thesis by (simp add: same_frame_def)
qed

text \<open>Either a report changes nothing or it moves the named row along the state graph.\<close>

lemma accept_report_cases:
  assumes "accept_report now p r d s = Inr (t, a)"
  shows "t = s \<and> a = report_answer True d
    \<or> (\<exists>d'. report_follows p d = Inr () \<and> apply_report now p r d = Inr d'
         \<and> flush (put_deployment d' s) = Inr t \<and> a = report_answer False d')"
  using assms by (auto simp: accept_report_def bindE_eq_Inr split: if_splits)

lemma report_deployment_Inr:
  assumes "report_deployment now i p s = Inr (t, a)"
  obtains d r where "find_deployment s (rp_deployment_id p) = Some d" "releases s (dep_release_id d) = Some r"
      "rel_id r = rp_release_id p" "dep_device_id d = i" "rp_device p = i"
      "ensure_device_reset_mutations_allowed s [i] = Inr ()"
      "report_matches p d r = Inr ()" "accept_report now p r d s = Inr (t, a)"
  using assms unfolding report_deployment_def
  by (auto simp: bindE_eq_Inr split: if_splits option.splits)

lemma report_follows_graph:
  assumes "report_follows p d = Inr ()"
  shows "rp_state p \<in> set (DEPLOYMENT_TRANSITIONS (dep_state d)) \<or> rp_state p = Downloading \<and> dep_state d = Downloading"
  using assms by (auto simp: report_follows_def split: if_splits)

lemma report_step:
  assumes "report_deployment now i p s = Inr (t, a)" and "valid_report p"
  shows "changes_row (row_step st) s t
    \<and> (distinct (map dep_device_id (active_deployments s)) \<longrightarrow> distinct (map dep_device_id (active_deployments t)))"
proof -
  obtain d r where f: "find_deployment s (rp_deployment_id p) = Some d" and a: "accept_report now p r d s = Inr (t, a)"
    using report_deployment_Inr[OF assms(1)] by metis
  consider "t = s" | (moved) d' where "report_follows p d = Inr ()" "apply_report now p r d = Inr d'"
      "flush (put_deployment d' s) = Inr t"
    using accept_report_cases[OF a] by blast
  then show ?thesis
  proof cases
    case 1
    then show ?thesis by (simp add: changes_row_def)
  next
    case moved
    have "rp_state p \<noteq> Completed" using assms(2) by (auto simp: valid_report_def DEVICE_REPORT_STATES_def)
    moreover have "dep_state d \<notin> {Completed, Cancelled, Failed, Rolled_back}"
      using report_follows_graph[OF moved(1)] by auto
    ultimately have "row_step st d d'"
      using apply_report_step[OF moved(2) assms(2)] by (auto simp: row_step_def)
    with moved(3) find_deployment_Some[OF f] show ?thesis
      unfolding changes_row_def flush_Inr by blast
  qed
qed

lemma note_result_step:
  assumes "\<not> 100 < safe_int (map_of result ''progress'')"
  shows "same_row d (note_result result now d)" "dep_state (note_result result now d) = dep_state d"
proof -
  have "0 \<le> safe_int x" for x by (auto simp: safe_int_def split: option.splits)
  with assms show "same_row d (note_result result now d)" "dep_state (note_result result now d) = dep_state d"
    by (auto simp: note_result_def same_row_def dep_wf_def le_max_iff_disj)
qed

lemma result_effect_step:
  assumes "result_effect result now target d = Inr d'"
  shows "same_row d d'" and "dep_state d' = dep_state d"
proof -
  have "same_frame d d'" using assms by (auto simp: result_effect_def same_frame_def result_simps split: if_splits)
  then show "same_row d d'" "dep_state d' = dep_state d" using same_frame_row by auto
qed

lemma advance_step:
  assumes "advance_headless_deployment d target now = Inr d'" and "target \<noteq> Completed" and "dep_state d \<noteq> Completed"
  shows "same_row d d' \<and> dep_state d' \<noteq> Completed"
proof -
  have fold: "same_row d e \<and> dep_state e \<noteq> Completed"
    if "foldE (\<lambda>t d. bindE (plain_transition d t now) (\<lambda>(changed, d1). Inr d1)) ts d = Inr e"
      "set ts \<subseteq> set HEADLESS_ORDER" for ts e
  proof (rule foldE_invariant[OF that(1), of "\<lambda>e. same_row d e \<and> dep_state e \<noteq> Completed"])
    show "same_row d d \<and> dep_state d \<noteq> Completed" using assms(3) by simp
    fix x u v
    assume x: "x \<in> set ts" and r: "bindE (plain_transition u x now) (\<lambda>(changed, d1). Inr d1) = Inr v"
      and u: "same_row d u \<and> dep_state u \<noteq> Completed"
    have "x \<noteq> Completed" using x that(2) by (auto simp: HEADLESS_ORDER_def)
    with r u show "same_row d v \<and> dep_state v \<noteq> Completed"
      by (auto simp: result_simps dest!: transition_Inr intro: same_row_trans)
  qed
  have sub: "set (drop m (take n HEADLESS_ORDER)) \<subseteq> set HEADLESS_ORDER" for m n
    by (metis set_drop_subset set_take_subset subset_trans)
  show ?thesis
    using assms fold[OF _ sub]
    by (auto simp: advance_headless_deployment_def result_simps split: if_splits dest!: transition_Inr)
qed

lemma headless_target_not_completed: "headless_target result state \<noteq> Some Completed"
  by (auto simp: headless_target_def split: if_splits)

lemma agent_result_step:
  assumes "record_headless_ota_result command result state now s = Inr t"
  shows "changes_row (row_step st) s t
    \<and> (distinct (map dep_device_id (active_deployments s)) \<longrightarrow> distinct (map dep_device_id (active_deployments t)))"
proof (cases "t = s")
  case True
  then show ?thesis by (simp add: changes_row_def)
next
  case False
  with assms obtain d i d2 d3 where sel: "find_deployment s i = Some d"
    and ok: "\<not> 100 < safe_int (map_of result ''progress'')"
    and act: "dep_state d \<notin> {Completed, Failed, Cancelled, Rolled_back}"
    and adv: "(case headless_target result state of None \<Rightarrow> Inr (note_result result now d)
      | Some x \<Rightarrow> advance_headless_deployment (note_result result now d) x now) = Inr d2"
    and eff: "result_effect result now (headless_target result state) d2 = Inr d3"
    and t: "flush (put_deployment d3 s) = Inr t"
    by (auto simp: record_headless_ota_result_def Let_def result_simps split: if_splits option.splits)
  have "same_row (note_result result now d) d2 \<and> dep_state d2 \<noteq> Completed"
    using adv act advance_step[of "note_result result now d" _ now d2] note_result_step(2)[OF ok, where d = d and now = now]
      headless_target_not_completed[of result state]
    by (auto split: option.splits)
  then have "row_step st d d3"
    using note_result_step(1)[OF ok, where d = d and now = now] result_effect_step[OF eff] act same_row_trans
    by (auto simp: row_step_def)
  with t find_deployment_Some[OF sel] show ?thesis unfolding changes_row_def flush_Inr by blast
qed

lemma agent_heartbeat_step:
  assumes "record_headless_ota_heartbeat st now p s = Inr t"
  shows "changes_row (row_step st) s t
    \<and> (distinct (map dep_device_id (active_deployments s)) \<longrightarrow> distinct (map dep_device_id (active_deployments t)))"
proof (cases "t = s")
  case True
  then show ?thesis by (simp add: changes_row_def)
next
  case False
  with assms obtain d d1 d2 where
    sel: "latest_scheduled (filter (\<lambda>d. dep_device_id d = ah_device_id p
             \<and> dep_state d \<in> {Validated, Awaiting_heartbeat}) (deployments s)) = Some d"
    and d1: "begin_stabilization now d = Inr d1"
    and d2: "count_heartbeat st now s (d1\<lparr>dep_last_boot_id := Some (ah_boot_id p)\<rparr>) = Inr d2"
    and t: "flush (put_deployment d2 s) = Inr t"
    by (auto simp: record_headless_ota_heartbeat_def result_simps split: if_splits option.splits)
  have d: "d \<in> set (deployments s)" "dep_state d \<in> {Validated, Awaiting_heartbeat}"
    using latest_scheduled_Some[OF sel] by auto
  have "same_row x (x\<lparr>dep_last_boot_id := Some (ah_boot_id p)\<rparr>)" for x
    by (auto simp: same_row_def dep_wf_def)
  then have "row_step st d d2"
    using stabilizing_step[OF d1, where f = "\<lambda>x. x\<lparr>dep_last_boot_id := Some (ah_boot_id p)\<rparr>", OF d2] d(2)
    by (auto simp: row_step_def)
  with d(1) t show ?thesis unfolding changes_row_def flush_Inr by blast
qed

end
