(* ===== verification/Firmware_Reconcile.thy ===== *)
theory Firmware_Reconcile
  imports Firmware_Lifecycle
begin

text \<open>
  The reconciler of overdue deployments: a reference predicate that says when an attempt is
  overdue and what becomes of it, the equivalence of the classification with it, and the effect
  of one reconciler pass on the whole table.
\<close>

section \<open>When a deployment is overdue\<close>

definition identity_missing :: "firmware_deployment \<Rightarrow> bool" where
  "identity_missing d \<longleftrightarrow> \<not> truthy (dep_source_version d) \<or> \<not> truthy (dep_source_build_hash d)"

definition rollback_identified :: "firmware_deployment \<Rightarrow> bool" where
  "rollback_identified d \<longleftrightarrow> dep_state d = Rollback_detected
     \<and> (truthy (dep_rollback_version d) \<or> truthy (dep_rollback_build_hash d))"

definition stage_timeout :: "fw_settings \<Rightarrow> dstate \<Rightarrow> int option" where
  "stage_timeout st x =
     (if x \<in> {Rollback_detected, Offered, Partition_written, Rebooting}
      then Some (firmware_sensor_return_timeout_seconds st)
      else if x \<in> {Manifest_authenticated, Download_started, Downloading, Binary_verified}
      then Some (firmware_download_stale_seconds st)
      else if x \<in> {Post_boot_validation, Validated, Awaiting_heartbeat}
      then Some (firmware_post_boot_timeout_seconds st) else None)"

definition age_of :: "firmware_deployment \<Rightarrow> instant \<Rightarrow> int" where
  "age_of d now = elapsed_seconds (last_activity d) now"

definition unproven_legacy :: "fw_settings \<Rightarrow> instant \<Rightarrow> firmware_deployment \<Rightarrow> bool" where
  "unproven_legacy st now d \<longleftrightarrow>
     identity_missing d \<and> firmware_legacy_evidence_timeout_seconds st \<le> age_of d now"

definition overdue :: "fw_settings \<Rightarrow> instant \<Rightarrow> firmware_deployment \<Rightarrow> bool" where
  "overdue st now d \<longleftrightarrow>
     unproven_legacy st now d \<or> rollback_identified d
     \<or> (dep_state d \<in> {Waiting_canary, Scheduled, Waiting_for_schedule}
          \<and> (expired d now \<or> dep_expires_at d = None
                \<and> firmware_legacy_evidence_timeout_seconds st \<le> age_of d now))
     \<or> (\<exists>n. stage_timeout st (dep_state d) = Some n \<and> n \<le> age_of d now)"

definition overdue_outcome :: "fw_settings \<Rightarrow> instant \<Rightarrow> firmware_deployment \<Rightarrow> dstate" where
  "overdue_outcome st now d =
     (if rollback_identified d \<and> \<not> unproven_legacy st now d then Rolled_back else Failed)"

lemma decision_state [simp]: "map_option rd_state (decision a c m e x) = Some a"
  by (simp add: decision_def)

lemma state_if:
  "map_option rd_state (if b then x else y) = (if b then map_option rd_state x else map_option rd_state y)"
  by simp

lemma classify_state:
  "map_option rd_state (classify_stale_firmware_deployment d dev st now) =
     (if dep_state d \<in> set ACTIVE_DEPLOYMENT_STATES \<and> overdue st now d
      then Some (overdue_outcome st now d) else None)"
proof (cases "dep_state d")
qed (simp_all add: classify_stale_firmware_deployment_def Let_def state_if overdue_def overdue_outcome_def
  unproven_legacy_def rollback_identified_def identity_missing_def stage_timeout_def age_of_def
  split del: if_split cong: if_cong, auto)

lemma classify_Some:
  assumes "classify_stale_firmware_deployment d dev st now = Some x"
  shows "rd_state x \<in> {Failed, Rolled_back}" and "dep_state d \<in> set ACTIVE_DEPLOYMENT_STATES"
proof -
  have "map_option rd_state (classify_stale_firmware_deployment d dev st now) = Some (rd_state x)"
    using assms by simp
  then show "rd_state x \<in> {Failed, Rolled_back}" "dep_state d \<in> set ACTIVE_DEPLOYMENT_STATES"
    unfolding classify_state by (auto simp: overdue_outcome_def split: if_splits)
qed

lemma classify_None:
  "classify_stale_firmware_deployment d dev st now = None
     \<longleftrightarrow> \<not> (dep_state d \<in> set ACTIVE_DEPLOYMENT_STATES \<and> overdue st now d)"
proof -
  have "classify_stale_firmware_deployment d dev st now = None
      \<longleftrightarrow> map_option rd_state (classify_stale_firmware_deployment d dev st now) = None" by simp
  then show ?thesis unfolding classify_state by (auto split: if_splits)
qed

section \<open>One pass over the table\<close>

definition settled :: "fw_settings \<Rightarrow> instant \<Rightarrow> fw_device \<Rightarrow> firmware_deployment \<Rightarrow> firmware_deployment" where
  "settled st now dev d =
     (case classify_stale_firmware_deployment d dev st now of None \<Rightarrow> d
      | Some x \<Rightarrow> terminalize x now (enter_state now (rd_state x) d))"

lemma terminalize_frame: "same_frame d (terminalize x now d)"
  by (simp add: terminalize_def same_frame_def Let_def)

lemma settled_id [simp]: "dep_id (settled st now dev d) = dep_id d"
  using terminalize_frame by (auto simp: settled_def same_frame_def enter_state_def split: option.splits)

lemma settled_step: "settled st now dev d = d \<or> row_step st d (settled st now dev d)"
proof (cases "classify_stale_firmware_deployment d dev st now")
  case (Some x)
  let ?e = "enter_state now (rd_state x) d"
  have "same_row ?e (terminalize x now ?e) \<and> dep_state (terminalize x now ?e) = rd_state x"
    using same_frame_row[OF terminalize_frame] enter_state_step(2) by simp
  then have "same_row d (terminalize x now ?e)" "dep_state (terminalize x now ?e) = rd_state x"
    using enter_state_step(1) same_row_trans by blast+
  with classify_Some[OF Some] Some show ?thesis by (auto simp: settled_def row_step_def)
qed (simp add: settled_def)

lemma settled_state:
  "dep_state (settled st now dev d) =
     (if dep_state d \<in> set ACTIVE_DEPLOYMENT_STATES \<and> overdue st now d
      then overdue_outcome st now d else dep_state d)"
proof (cases "classify_stale_firmware_deployment d dev st now")
  case None
  then show ?thesis using classify_None[of d dev st now] by (auto simp: settled_def)
next
  case (Some x)
  have "dep_state (settled st now dev d) = rd_state x"
    using Some terminalize_frame[of "enter_state now (rd_state x) d" x now]
    by (simp add: settled_def same_frame_def enter_state_step)
  with Some classify_state[of d dev st now] show ?thesis by (auto split: if_splits)
qed

lemma reconcile_one_deployments:
  "\<exists>t o'. reconcile_one st now (d, dev) (s, os) = Inr (t, o')
     \<and> (deployments t = deployments (put_deployment (settled st now dev d) s)
        \<or> settled st now dev d = d \<and> t = s)
     \<and> fw_devices t = fw_devices s"
proof (cases "classify_stale_firmware_deployment d dev st now")
  case None
  then show ?thesis by (simp add: reconcile_one_def settled_def)
next
  case (Some x)
  have "dep_state d \<noteq> rd_state x" "transition_allowed (dep_state d) (rd_state x) True False False"
    using classify_Some[OF Some] by (auto simp: transition_allowed_def)
  then have "transition_firmware_deployment d (rd_state x) now True False False
      = Inr (True, enter_state now (rd_state x) d)"
    by (simp add: transition_firmware_deployment_def)
  with Some show ?thesis
    by (simp add: reconcile_one_def settled_def Let_def add_audit_def put_deployment_def)
qed

lemma put_settled:
  assumes "distinct_ids s" and "d \<in> set (deployments s)" and "dep_id e = dep_id d"
  shows "deployments (put_deployment e s) = map (\<lambda>x. if x = d then e else x) (deployments s)"
  using row_by_id[OF assms(1) _ assms(2)] assms(3) by (auto simp: put_deployment_def)

lemma reconcile_rows:
  assumes "distinct (map (dep_id \<circ> fst) rows)" and "fst ` set rows \<subseteq> set (deployments s)" and "distinct_ids s"
  shows "\<exists>t o'. foldE (reconcile_one st now) rows (s, os) = Inr (t, o')
    \<and> deployments t = map (\<lambda>d. case map_of rows d of None \<Rightarrow> d | Some dev \<Rightarrow> settled st now dev d) (deployments s)"
  using assms
proof (induction rows arbitrary: s os)
  case Nil
  then show ?case by simp
next
  case (Cons row rows)
  obtain d dev where row: "row = (d, dev)" by (cases row)
  obtain u ou where u: "reconcile_one st now row (s, os) = Inr (u, ou)"
    and cases: "deployments u = deployments (put_deployment (settled st now dev d) s)
        \<or> settled st now dev d = d \<and> u = s"
    using reconcile_one_deployments[of st now d dev s os] row by auto
  have d: "d \<in> set (deployments s)" using Cons.prems(2) row by simp
  have dep: "deployments u = map (\<lambda>x. if x = d then settled st now dev d else x) (deployments s)"
    using cases put_settled[OF Cons.prems(3) d settled_id, of st now dev] by (auto intro: map_idI[symmetric])
  have fresh: "dep_id d \<notin> (dep_id \<circ> fst) ` set rows" using Cons.prems(1) row by simp
  have ids: "map dep_id (deployments u) = map dep_id (deployments s)" unfolding dep by auto
  have "fst ` set rows \<subseteq> set (deployments u)"
  proof
    fix x assume x: "x \<in> fst ` set rows"
    then have "x \<noteq> d" using fresh by auto
    moreover have "x \<in> set (deployments s)" using x Cons.prems(2) by auto
    ultimately show "x \<in> set (deployments u)" unfolding dep by force
  qed
  moreover have "distinct_ids u" using ids Cons.prems(3) by (simp add: distinct_ids_def)
  ultimately obtain t o' where t: "foldE (reconcile_one st now) rows (u, ou) = Inr (t, o')"
    and dt: "deployments t = map (\<lambda>d. case map_of rows d of None \<Rightarrow> d | Some dev \<Rightarrow> settled st now dev d) (deployments u)"
    using Cons.IH[of u ou] Cons.prems(1) by auto
  have out: "map_of rows x = None" if "dep_id x = dep_id d" for x
    using fresh that by (force simp: map_of_eq_None_iff)
  have "deployments t = map (\<lambda>x. case map_of (row # rows) x of None \<Rightarrow> x | Some dev \<Rightarrow> settled st now dev x) (deployments s)"
    unfolding dt dep row map_map
    by (rule map_cong[OF refl]) (auto simp: out)
  with u t show ?case by simp
qed


definition batch_of :: "fw_settings \<Rightarrow> nat option \<Rightarrow> nat" where
  "batch_of st limit = (case limit of None \<Rightarrow> nat (firmware_reconcile_batch_size st)
     | Some n \<Rightarrow> if n = 0 then nat (firmware_reconcile_batch_size st) else n)"

definition examined :: "fw_db \<Rightarrow> nat \<Rightarrow> dstate list \<Rightarrow> (firmware_deployment \<times> fw_device) list" where
  "examined s n states = concat (map (state_rows s n) states)"

definition device_of :: "fw_db \<Rightarrow> firmware_deployment \<Rightarrow> fw_device" where
  "device_of s d = the (fw_devices s (dep_device_id d))"

lemma state_rows_member:
  assumes "(d, dev) \<in> set (state_rows s n x)"
  shows "d \<in> set (deployments s) \<and> dep_state d = x \<and> dev = device_of s d"
proof -
  have d: "d \<in> set (take n (sort_key order_column (sort_key dep_id
      (filter (\<lambda>d. dep_state d = x \<and> fw_devices s (dep_device_id d) \<noteq> None) (deployments s)))))"
    and dev: "dev = device_of s d"
    using assms by (auto simp: state_rows_def device_of_def)
  show ?thesis using in_set_takeD[OF d] dev by simp
qed

lemma state_rows_distinct:
  assumes "distinct_ids s"
  shows "distinct (map (dep_id \<circ> fst) (state_rows s n x))"
proof -
  let ?f = "filter (\<lambda>d. dep_state d = x \<and> fw_devices s (dep_device_id d) \<noteq> None) (deployments s)"
  let ?rows = "sort_key order_column (sort_key dep_id ?f)"
  have "distinct (map dep_id ?f)"
    using assms unfolding distinct_ids_def by (simp add: distinct_map inj_on_def)
  then have "distinct (map dep_id ?rows)"
    by (simp add: distinct_map)
  then have "distinct (map dep_id (take n ?rows))" by (simp add: take_map[symmetric])
  then show ?thesis by (simp add: state_rows_def comp_def)
qed

lemma examined_distinct:
  assumes "distinct_ids s" and "distinct states"
  shows "distinct (map (dep_id \<circ> fst) (examined s n states))"
  using assms(2)
proof (induction states)
  case Nil
  then show ?case by (simp add: examined_def)
next
  case (Cons x xs)
  have "dep_id d \<noteq> dep_id e" if "(d, dv) \<in> set (state_rows s n x)" "(e, ev) \<in> set (state_rows s n y)" "y \<in> set xs" for d e dv ev y
    using state_rows_member[OF that(1)] state_rows_member[OF that(2)] that(3) Cons.prems row_by_id[OF assms(1)]
    by auto
  then have "(dep_id \<circ> fst) ` set (state_rows s n x) \<inter> (dep_id \<circ> fst) ` set (examined s n xs) = {}"
    unfolding examined_def by fastforce
  moreover have "distinct (map (dep_id \<circ> fst) (state_rows s n x))" by (rule state_rows_distinct[OF assms(1)])
  ultimately show ?case using Cons by (simp add: examined_def comp_def)
qed

lemma examined_map_of:
  "map_of (examined s n states) d = (if d \<in> fst ` set (examined s n states) then Some (device_of s d) else None)"
proof -
  have all: "\<forall>(e, dev)\<in>set (examined s n states). dev = device_of s e"
    using state_rows_member by (fastforce simp: examined_def)
  have "map_of rows d = (if d \<in> fst ` set rows then Some (device_of s d) else None)"
    if "\<forall>(e, dev)\<in>set rows. dev = device_of s e" for rows
    using that by (induction rows) auto
  from this[OF all] show ?thesis .
qed

lemma reconcile_table:
  assumes "distinct_ids s"
  shows "\<exists>t o'. reconcile_stale_firmware_deployments st now limit s = Inr (t, o')
    \<and> deployments t = map (\<lambda>d. if d \<in> fst ` set (examined s (batch_of st limit) ACTIVE_DEPLOYMENT_STATES)
          then settled st now (device_of s d) d else d) (deployments s)"
proof -
  let ?rows = "examined s (batch_of st limit) ACTIVE_DEPLOYMENT_STATES"
  have "fst ` set ?rows \<subseteq> set (deployments s)" using state_rows_member by (fastforce simp: examined_def)
  from reconcile_rows[OF examined_distinct[OF assms] this assms]
  obtain t o' where t: "foldE (reconcile_one st now) ?rows (s, [(''examined'', int (length ?rows)), (''terminalized'', 0)]) = Inr (t, o')"
    and d: "deployments t = map (\<lambda>d. case map_of ?rows d of None \<Rightarrow> d | Some dev \<Rightarrow> settled st now dev d) (deployments s)"
    by (force simp: ACTIVE_DEPLOYMENT_STATES_def)
  have "reconcile_stale_firmware_deployments st now limit s = Inr (t, o')"
    using t by (simp add: reconcile_stale_firmware_deployments_def Let_def batch_of_def examined_def)
  moreover have "deployments t = map (\<lambda>d. if d \<in> fst ` set ?rows then settled st now (device_of s d) d else d) (deployments s)"
    unfolding d examined_map_of by auto
  ultimately show ?thesis by blast
qed

section \<open>The rows of a batch\<close>

text \<open>\<^verbatim>\<open>order_by(column, id).limit(n)\<close> takes the rows that fewer than n rows precede.\<close>

definition precedes :: "firmware_deployment \<Rightarrow> firmware_deployment \<Rightarrow> bool" where
  "precedes e d \<longleftrightarrow> order_column e < order_column d \<or> order_column e = order_column d \<and> dep_id e < dep_id d"

lemma precedes_asym: "precedes d e \<Longrightarrow> \<not> precedes e d"
  by (auto simp: precedes_def)

lemma insort_precedes:
  assumes "sorted_wrt precedes ds" and "\<forall>e\<in>set ds. dep_id d < dep_id e"
  shows "sorted_wrt precedes (insort_key order_column d ds)"
  using assms by (induction ds) (auto simp: precedes_def set_insort_key)

lemma sort_precedes:
  assumes "sorted_wrt (\<lambda>d e. dep_id d < dep_id e) ds"
  shows "sorted_wrt precedes (sort_key order_column ds)"
  using assms by (induction ds) (auto intro: insort_precedes)

lemma sort_by_id:
  assumes "distinct (map dep_id ds)"
  shows "sorted_wrt (\<lambda>d e. dep_id d < dep_id e) (sort_key dep_id ds)"
proof -
  have "distinct (map dep_id (sort_key dep_id ds))" using assms by (simp add: distinct_map)
  then have "sorted_wrt (<) (map dep_id (sort_key dep_id ds))" by (simp add: strict_sorted_iff)
  then show ?thesis by (simp add: sorted_wrt_map)
qed

lemma take_rank:
  assumes "sorted_wrt precedes ds" and "d \<in> set ds"
  shows "d \<in> set (take n ds) \<longleftrightarrow> card {e \<in> set ds. precedes e d} < n"
  using assms
proof (induction ds arbitrary: n)
  case (Cons x xs)
  have fin: "finite {e \<in> set xs. precedes e d}" by simp
  show ?case
  proof (cases "d = x")
    case True
    then have "{e \<in> set (x # xs). precedes e d} = {}" using Cons.prems(1) precedes_asym by auto
    then have none: "card {e \<in> set (x # xs). precedes e d} = 0" by (simp only: card.empty)
    have "d \<in> set (take n (x # xs)) \<longleftrightarrow> 0 < n" using True by (cases n) auto
    then show ?thesis unfolding none .
  next
    case False
    with Cons.prems have x: "precedes x d" and d: "d \<in> set xs" by auto
    have "x \<notin> set xs" using Cons.prems(1) precedes_asym by fastforce
    then have "card {e \<in> set (x # xs). precedes e d} = Suc (card {e \<in> set xs. precedes e d})"
      using x by (simp add: Collect_conj_eq insert_Collect[symmetric] conj_disj_distribR Collect_disj_eq)
    with Cons.IH[of "n - 1"] Cons.prems d False show ?thesis by (cases n) auto
  qed
qed simp

definition rank :: "fw_db \<Rightarrow> firmware_deployment \<Rightarrow> nat" where
  "rank s d = card {e \<in> set (deployments s). dep_state e = dep_state d
     \<and> fw_devices s (dep_device_id e) \<noteq> None \<and> precedes e d}"

lemma state_rows_rank:
  assumes "distinct_ids s" and "d \<in> set (deployments s)"
  shows "d \<in> fst ` set (state_rows s n x) \<longleftrightarrow>
    dep_state d = x \<and> fw_devices s (dep_device_id d) \<noteq> None \<and> rank s d < n"
proof -
  let ?f = "filter (\<lambda>d. dep_state d = x \<and> fw_devices s (dep_device_id d) \<noteq> None) (deployments s)"
  let ?rows = "sort_key order_column (sort_key dep_id ?f)"
  have "distinct (map dep_id ?f)"
    using assms(1) unfolding distinct_ids_def by (simp add: distinct_map inj_on_def)
  then have sorted: "sorted_wrt precedes ?rows" by (intro sort_precedes sort_by_id)
  have img: "fst ` set (state_rows s n x) = set (take n ?rows)" by (force simp: state_rows_def)
  show ?thesis
  proof (cases "d \<in> set ?rows")
    case True
    then have "{e \<in> set ?rows. precedes e d} = {e \<in> set (deployments s). dep_state e = dep_state d
        \<and> fw_devices s (dep_device_id e) \<noteq> None \<and> precedes e d}" by auto
    with take_rank[OF sorted True, of n] True show ?thesis unfolding img rank_def by simp
  next
    case False
    then have "d \<notin> set (take n ?rows)" using in_set_takeD by fast
    with False assms(2) show ?thesis unfolding img by auto
  qed
qed

lemma examined_rank:
  assumes "distinct_ids s" and "d \<in> set (deployments s)"
  shows "d \<in> fst ` set (examined s n states) \<longleftrightarrow>
    dep_state d \<in> set states \<and> fw_devices s (dep_device_id d) \<noteq> None \<and> rank s d < n"
  using state_rows_rank[OF assms] by (auto simp: examined_def image_UN)

lemma settled_terminal:
  assumes "dep_state d \<in> set ACTIVE_DEPLOYMENT_STATES" and "overdue st now d"
  shows "dep_terminal_at (settled st now dev d) = Some (Aware now)"
proof -
  obtain x where x: "classify_stale_firmware_deployment d dev st now = Some x"
    using assms classify_None[of d dev st now] by auto
  show ?thesis
    using classify_Some(1)[OF x] x by (auto simp: settled_def terminalize_def enter_state_def Let_def)
qed

lemma settled_open:
  assumes "\<not> (dep_state d \<in> set ACTIVE_DEPLOYMENT_STATES \<and> overdue st now d)"
  shows "settled st now dev d = d"
  using assms classify_None[of d dev st now] by (auto simp: settled_def)

end
