(* ===== verification/Firmware_Routes.thy ===== *)
theory Firmware_Routes
  imports Firmware_Handlers
begin

text \<open>
  Model of the operator's routes of \<^verbatim>\<open>api/routes/firmware.py\<close> (create, list, cancel, retry,
  promote), of the sensor's manifest and download routes, and of the stored artifact's checks.
  Freshly drawn identifiers are arguments.  The file system is a record of functions: how
  a path resolves, the size of a regular file and the digest of its bytes.
\<close>

section \<open>Who may act\<close>

record principal =
  pr_user_id :: string
  pr_permissions :: "string list"
  pr_all_sites :: bool
  pr_site_ids :: "string list"
  pr_reauthenticated_at :: "datetime option"

definition can_access_site :: "principal \<Rightarrow> string \<Rightarrow> bool" where
  "can_access_site pr site_id \<longleftrightarrow> pr_all_sites pr \<or> site_id \<in> set (pr_site_ids pr)"

definition operator_check :: "principal \<Rightarrow> string \<Rightarrow> fw_error + unit" where
  "operator_check pr permission =
     (if permission \<in> set (pr_permissions pr) then Inr () else Inl (FwProblem 403 ''forbidden''))"

definition site_allowed :: "principal \<Rightarrow> fw_device \<Rightarrow> fw_error + unit" where
  "site_allowed pr device =
     (if can_access_site pr (fd_site_id device) then Inr () else Inl (FwProblem 403 ''forbidden''))"

definition require_recent_reauthentication :: "instant \<Rightarrow> datetime option \<Rightarrow> fw_error + unit" where
  "require_recent_reauthentication now reauthenticated_at =
     (case reauthenticated_at of
        None \<Rightarrow> Inl (FwProblem 428 ''reauthentication_required'')
      | Some t \<Rightarrow> if aware t < now - seconds 300 then Inl (FwProblem 428 ''reauthentication_required'')
          else Inr ())"

definition user_audit ::
  "instant \<Rightarrow> principal \<Rightarrow> string \<Rightarrow> string \<Rightarrow> string \<Rightarrow> jdict \<Rightarrow> audit_event"
where
  "user_audit now pr action object_type object_id details =
     \<lparr>au_occurred_at = now, au_actor_type = ''user'', au_actor_id = Some (pr_user_id pr), au_action = action,
      au_object_type = object_type, au_object_id = object_id, au_details = details\<rparr>"

section \<open>Commands of the headless agent\<close>

definition add_command :: "ota_command \<Rightarrow> fw_db \<Rightarrow> fw_error + fw_db" where
  "add_command c s =
     (if oc_idempotency_key c \<in> oc_idempotency_key ` set (ota_commands s)
      then Inl (FwIntegrity ''device_commands_idempotency_key'')
      else Inr (s\<lparr>ota_commands := ota_commands s @ [c]\<rparr>))"

definition ota_command_row ::
  "firmware_deployment \<Rightarrow> fw_device \<Rightarrow> firmware_release \<Rightarrow> string \<Rightarrow> instant \<Rightarrow> ota_command"
where
  "ota_command_row d device r build_hash now =
     \<lparr>oc_device_id = fd_id device, oc_state = ''queued'',
      oc_payload =
        [(''deployment_id'', JStr (dep_id d)), (''release_id'', JStr (rel_id r)),
         (''target_version'', JStr (rel_version r)), (''target_build_hash'', JStr build_hash),
         (''image_size'', JInt (rel_size_bytes r)), (''firmware_sha256'', JStr (rel_sha256 r)),
         (''hardware_target'', JStr (rel_hardware_target r)),
         (''project_name'', opt_str (rel_project_name r)), (''protocol_marker'', JStr ''pm-agent/2.0.0''),
         (''allow_downgrade'', JBool (dep_allow_downgrade d))],
      oc_expected_state =
        [(''firmware_version'', opt_str (dep_source_version d)),
         (''firmware_build_hash'', opt_str (dep_source_build_hash d))],
      oc_idempotency_key = ''ota:'' @ dep_id d @ '':'' @ int_text (dep_attempt d),
      oc_created_at = dep_scheduled_at d,
      oc_expires_at = (case dep_expires_at d of Some t \<Rightarrow> t | None \<Rightarrow> Aware now)\<rparr>"

definition queue_headless_ota_command ::
  "firmware_deployment \<Rightarrow> fw_device \<Rightarrow> firmware_release \<Rightarrow> instant \<Rightarrow> fw_db \<Rightarrow> fw_error + fw_db"
where
  "queue_headless_ota_command d device r now s =
     (if fd_protocol_version device \<noteq> ''pm-agent/2.0.0'' then Inr s
      else case rel_build_hash r of
        None \<Rightarrow> Inl (FwProblem 503 ''firmware_integrity_failure'')
      | Some h \<Rightarrow> add_command (ota_command_row d device r h now) s)"

definition queue_first ::
  "nat \<Rightarrow> firmware_deployment \<Rightarrow> fw_device \<Rightarrow> firmware_release \<Rightarrow> instant \<Rightarrow> fw_db \<Rightarrow> fw_error + fw_db"
where
  "queue_first rollout_order d device r now s =
     (if rollout_order = 0 then queue_headless_ota_command d device r now s else Inr s)"

section \<open>Creating a rollout\<close>

record deployment_request =
  rq_release_id :: string
  rq_device_ids :: "string list"
  rq_scheduled_at :: instant
  rq_expires_at :: "instant option"
  rq_allow_downgrade :: bool
  rq_idempotency_key :: "string option"
  rq_canary_first :: bool

definition valid_request :: "deployment_request \<Rightarrow> bool" where
  "valid_request q \<longleftrightarrow>
     rq_device_ids q \<noteq> [] \<and> length (rq_device_ids q) \<le> 1000 \<and> distinct (rq_device_ids q)
     \<and> (1 < length (rq_device_ids q) \<longrightarrow> rq_canary_first q)
     \<and> (case rq_expires_at q of None \<Rightarrow> True | Some t \<Rightarrow> rq_scheduled_at q < t)
     \<and> (case rq_idempotency_key q of None \<Rightarrow> True | Some k \<Rightarrow> 16 \<le> length k \<and> length k \<le> 128)"

definition request_expiry :: "fw_settings \<Rightarrow> instant \<Rightarrow> deployment_request \<Rightarrow> instant" where
  "request_expiry st now q =
     (case rq_expires_at q of Some t \<Rightarrow> t
      | None \<Rightarrow> max (rq_scheduled_at q) now + seconds (firmware_manifest_ttl_seconds st))"

definition prior_rows :: "fw_db \<Rightarrow> deployment_request \<Rightarrow> firmware_deployment list" where
  "prior_rows s q =
     (if truthy (rq_idempotency_key q)
      then sort_key dep_rollout_order (sort_key dep_id
             (filter (\<lambda>d. dep_idempotency_key d = rq_idempotency_key q) (deployments s)))
      else [])"

definition prior_conflict ::
  "deployment_request \<Rightarrow> firmware_release \<Rightarrow> firmware_deployment list \<Rightarrow> bool"
where
  "prior_conflict q r priors \<longleftrightarrow>
     (let groups = remdups (map dep_rollout_group_id priors)
      in map dep_device_id priors \<noteq> rq_device_ids q
       \<or> (\<exists>d\<in>set priors. dep_release_id d \<noteq> rel_id r)
       \<or> (\<exists>d\<in>set priors. dep_allow_downgrade d \<noteq> rq_allow_downgrade q)
       \<or> (\<exists>d\<in>set priors. aware (dep_scheduled_at d) \<noteq> rq_scheduled_at q)
       \<or> (case rq_expires_at q of None \<Rightarrow> False
          | Some t \<Rightarrow> \<exists>d\<in>set priors. map_option aware (dep_expires_at d) \<noteq> Some t)
       \<or> length groups \<noteq> 1
       \<or> (1 < length (rq_device_ids q) \<and> None \<in> set groups))"

definition last_boot_of :: "fw_db \<Rightarrow> string \<Rightarrow> string option" where
  "last_boot_of s device_id =
     (case sort_key (\<lambda>h. - aware (hb_received_at h)) (filter (\<lambda>h. hb_device_id h = device_id) (heartbeats s)) of
        [] \<Rightarrow> None | h # _ \<Rightarrow> Some (hb_boot_id h))"

definition new_deployment ::
  "string \<Rightarrow> fw_db \<Rightarrow> fw_settings \<Rightarrow> instant \<Rightarrow> deployment_request \<Rightarrow> firmware_release \<Rightarrow> string option \<Rightarrow> nat
   \<Rightarrow> fw_device \<Rightarrow> firmware_deployment"
where
  "new_deployment i s st now q r grp order device =
     (let state = (if order = 0 then Scheduled else Waiting_canary)
      in \<lparr>dep_id = i, dep_release_id = rel_id r, dep_device_id = fd_id device, dep_status = state,
          dep_state = state, dep_idempotency_key = rq_idempotency_key q, dep_rollout_group_id = grp,
          dep_rollout_order = int order, dep_promoted_at = None, dep_revision = 1, dep_attempt = 1,
          dep_progress = 0, dep_bytes_received = 0, dep_scheduled_at = Aware (rq_scheduled_at q),
          dep_expires_at = Some (Aware (request_expiry st now q)),
          dep_allow_downgrade = rq_allow_downgrade q, dep_downloaded_at = None, dep_installed_at = None,
          dep_validated_at = None, dep_failure_reason = None, dep_failure_code = None,
          dep_failure_summary = None, dep_last_report_at = None, dep_last_report_payload = [],
          dep_validated_version = None, dep_validated_build_hash = None, dep_rollback_version = None,
          dep_rollback_build_hash = None, dep_last_boot_id = None,
          dep_source_version = fd_firmware_version device,
          dep_source_build_hash = fd_firmware_build_hash device,
          dep_source_boot_id = last_boot_of s (fd_id device), dep_interruption_evidence = [],
          dep_verification_heartbeats = 0, dep_stabilization_started_at = None,
          dep_reading_confirmed_at = None, dep_rollback_at = None, dep_state_changed_at = Aware now,
          dep_terminal_at = None, dep_created_at = Aware now\<rparr>)"

text \<open>An insert meets the primary key, the idempotency key of the device and the active index.\<close>

definition insert_deployment :: "firmware_deployment \<Rightarrow> fw_db \<Rightarrow> fw_error + fw_db" where
  "insert_deployment d s =
     (if dep_id d \<in> dep_id ` set (deployments s) then Inl (FwIntegrity ''firmware_deployments_pkey'')
      else if \<exists>e\<in>set (deployments s). dep_device_id e = dep_device_id d
          \<and> dep_idempotency_key e = dep_idempotency_key d \<and> dep_idempotency_key d \<noteq> None
      then Inl (FwIntegrity ''uq_firmware_deployment_device_idempotency'')
      else flush (s\<lparr>deployments := deployments s @ [d]\<rparr>))"

definition target_admitted ::
  "deployment_request \<Rightarrow> fw_device \<Rightarrow> device_capability option \<Rightarrow> firmware_release \<Rightarrow> fw_error + unit"
where
  "target_admitted q device capability r =
     (case release_compatibility device capability r of
        Inl e \<Rightarrow> Inl (FwValue e)
      | Inr c \<Rightarrow>
          let blocking = set (cmp_reasons c) - {''already_current'', ''downgrade_requires_confirmation''}
          in if blocking \<noteq> {}
             then Inl (FwProblem 422 (if ''bootstrap_required'' \<in> blocking then ''firmware_bootstrap_required''
                                      else ''firmware_incompatible''))
             else (case version_order r device of
                Inl e \<Rightarrow> Inl (FwValue e)
              | Inr order \<Rightarrow>
                  if order = Some 0 then Inl (FwProblem 409 ''firmware_already_current'')
                  else if (case order of Some n \<Rightarrow> n < 0 | None \<Rightarrow> False) \<and> \<not> rq_allow_downgrade q
                  then Inl (FwProblem 409 ''firmware_downgrade_blocked'')
                  else Inr ()))"

definition create_one ::
  "principal \<Rightarrow> fw_settings \<Rightarrow> instant \<Rightarrow> deployment_request \<Rightarrow> firmware_release \<Rightarrow> firmware_deployment list
   \<Rightarrow> string option \<Rightarrow> (nat \<Rightarrow> string) \<Rightarrow> nat \<times> string \<Rightarrow> fw_db \<times> string list
   \<Rightarrow> fw_error + (fw_db \<times> string list)"
where
  "create_one pr st now q r priors grp fresh target acc =
     (case (target, acc) of ((order, device_id), (s, ids)) \<Rightarrow>
        (case fw_devices s device_id of
           None \<Rightarrow> Inl (FwProblem 422 ''device_missing'')
         | Some device \<Rightarrow>
             if fd_revoked_at device \<noteq> None \<or> fd_lifecycle_status device \<noteq> ''active''
             then Inl (FwProblem 422 ''device_missing'')
             else bindE (site_allowed pr device) (\<lambda>_.
               case find (\<lambda>d. dep_device_id d = fd_id device) (rev priors) of
                 Some d \<Rightarrow> Inr (s, ids @ [dep_id d])
               | None \<Rightarrow>
                   bindE (target_admitted q device (capabilities s device_id) r) (\<lambda>_.
                   case find (\<lambda>d. dep_device_id d = fd_id device \<and> dep_state d \<in> set ACTIVE_DEPLOYMENT_STATES)
                          (deployments s) of
                     Some d \<Rightarrow>
                       if dep_release_id d = rel_id r \<and> length (rq_device_ids q) = 1 then Inr (s, ids @ [dep_id d])
                       else Inl (FwProblem 409 ''firmware_deployment_active'')
                   | None \<Rightarrow>
                       let d = new_deployment (fresh order) s st now q r grp order device
                       in bindE (insert_deployment d s) (\<lambda>s1.
                          bindE (queue_first order d device r now s1) (\<lambda>s2.
                          Inr (s2, ids @ [dep_id d])))))))"

definition rollout_group ::
  "deployment_request \<Rightarrow> firmware_deployment list \<Rightarrow> string \<Rightarrow> string option"
where
  "rollout_group q priors fresh_group =
     (case priors of d # _ \<Rightarrow> dep_rollout_group_id d
      | [] \<Rightarrow> if 1 < length (rq_device_ids q) then Some fresh_group else None)"

definition create_deployments ::
  "principal \<Rightarrow> fw_settings \<Rightarrow> instant \<Rightarrow> string \<Rightarrow> (nat \<Rightarrow> string) \<Rightarrow> deployment_request \<Rightarrow> fw_db
   \<Rightarrow> fw_error + (fw_db \<times> string list)"
where
  "create_deployments pr st now fresh_group fresh q s =
     bindE (operator_check pr ''firmware.deploy'') (\<lambda>_.
     case releases s (rq_release_id q) of
       None \<Rightarrow> Inl (FwProblem 404 ''firmware_missing'')
     | Some r \<Rightarrow>
         if rel_verification_status r \<noteq> ''verified'' then Inl (FwProblem 404 ''firmware_missing'')
         else if rel_trust_mode r \<noteq> ''existing_device_hmac'' then Inl (FwProblem 422 ''firmware_trust'')
         else bindE (if rq_allow_downgrade q
                     then require_recent_reauthentication now (pr_reauthenticated_at pr) else Inr ()) (\<lambda>_.
           let priors = prior_rows s q; grp = rollout_group q priors fresh_group
           in if priors \<noteq> [] \<and> prior_conflict q r priors then Inl (FwProblem 409 ''idempotency_conflict'')
              else bindE (ensure_device_reset_mutations_allowed s (rq_device_ids q)) (\<lambda>_.
                bindE (foldE (create_one pr st now q r priors grp fresh)
                         (List.enumerate 0 (rq_device_ids q)) (s, [])) (\<lambda>(s1, ids).
                Inr (add_audit (user_audit now pr ''firmware.deployment_created'' ''firmware_release'' (rel_id r)
                       [(''devices'', JList (map JStr (rq_device_ids q))),
                        (''scheduled_at'', JStr (isoformat (rq_scheduled_at q))),
                        (''allow_downgrade'', JBool (rq_allow_downgrade q)),
                        (''trust_mode'', JStr (rel_trust_mode r)), (''rollout_group_id'', opt_str grp),
                        (''maximum_concurrency'', JInt 1)])
                     (s1\<lparr>releases := (releases s1)(rq_release_id q \<mapsto> r\<lparr>rel_active := True\<rparr>)\<rparr>), ids)))))"


section \<open>Cancel, retry, promote\<close>

text \<open>The row named by the path, with its device, for an operator who may see the site.\<close>

definition load_managed ::
  "principal \<Rightarrow> string \<Rightarrow> fw_db \<Rightarrow> fw_error + (firmware_deployment \<times> fw_device)"
where
  "load_managed pr deployment_id s =
     bindE (operator_check pr ''firmware.deploy'') (\<lambda>_.
     case find_deployment s deployment_id of
       None \<Rightarrow> Inl (FwProblem 404 ''firmware_missing'')
     | Some d \<Rightarrow>
         (case fw_devices s (dep_device_id d) of
            None \<Rightarrow> Inl (FwProblem 404 ''device_missing'')
          | Some device \<Rightarrow> bindE (site_allowed pr device) (\<lambda>_. Inr (d, device))))"

definition cancel_deployment ::
  "principal \<Rightarrow> instant \<Rightarrow> string \<Rightarrow> fw_db \<Rightarrow> fw_error + (fw_db \<times> firmware_deployment)"
where
  "cancel_deployment pr now deployment_id s =
     bindE (load_managed pr deployment_id s) (\<lambda>(d, device).
       if dep_state d \<in> set TERMINAL_DEPLOYMENT_STATES then Inr (s, d)
       else if Cancelled \<notin> set (DEPLOYMENT_TRANSITIONS (dep_state d))
       then Inl (FwProblem 409 ''firmware_transition_invalid'')
       else bindE (plain_transition d Cancelled now) (\<lambda>(changed, d1).
         bindE (flush (put_deployment d1 s)) (\<lambda>s1.
         Inr (add_audit (user_audit now pr ''firmware.deployment_cancelled'' ''firmware_deployment'' (dep_id d) []) s1,
              d1))))"

definition other_active :: "fw_db \<Rightarrow> firmware_deployment \<Rightarrow> bool" where
  "other_active s d \<longleftrightarrow>
     (\<exists>e\<in>set (deployments s). dep_device_id e = dep_device_id d \<and> dep_id e \<noteq> dep_id d
        \<and> dep_state e \<in> set ACTIVE_DEPLOYMENT_STATES)"

definition operational :: "dstate \<Rightarrow> bool" where
  "operational x \<longleftrightarrow> x \<in> set ACTIVE_DEPLOYMENT_STATES \<and> x \<noteq> Waiting_canary"

definition active_sibling :: "fw_db \<Rightarrow> firmware_deployment \<Rightarrow> bool" where
  "active_sibling s d \<longleftrightarrow>
     (\<exists>e\<in>set (deployments s). dep_rollout_group_id e = dep_rollout_group_id d \<and> dep_id e \<noteq> dep_id d
        \<and> operational (dep_state e))"

definition reset_attempt ::
  "fw_settings \<Rightarrow> instant \<Rightarrow> fw_device \<Rightarrow> fw_db \<Rightarrow> firmware_deployment \<Rightarrow> firmware_deployment"
where
  "reset_attempt st now device s d =
     d\<lparr>dep_attempt := dep_attempt d + 1, dep_progress := 0, dep_bytes_received := 0,
       dep_scheduled_at := Aware now,
       dep_expires_at := Some (Aware (now + seconds (firmware_manifest_ttl_seconds st))),
       dep_failure_reason := None, dep_failure_code := None, dep_failure_summary := None,
       dep_last_report_at := None, dep_last_report_payload := [], dep_downloaded_at := None,
       dep_installed_at := None, dep_validated_at := None, dep_validated_version := None,
       dep_validated_build_hash := None, dep_rollback_at := None, dep_rollback_version := None,
       dep_rollback_build_hash := None, dep_verification_heartbeats := 0,
       dep_stabilization_started_at := None, dep_reading_confirmed_at := None, dep_last_boot_id := None,
       dep_interruption_evidence := [], dep_source_version := fd_firmware_version device,
       dep_source_build_hash := fd_firmware_build_hash device,
       dep_source_boot_id := last_boot_of s (fd_id device)\<rparr>"

definition retry_deployment ::
  "principal \<Rightarrow> fw_settings \<Rightarrow> instant \<Rightarrow> string \<Rightarrow> fw_db \<Rightarrow> fw_error + (fw_db \<times> firmware_deployment)"
where
  "retry_deployment pr st now deployment_id s =
     bindE (load_managed pr deployment_id s) (\<lambda>(d, device).
     bindE (ensure_device_reset_mutations_allowed s [fd_id device]) (\<lambda>_.
       if dep_state d \<notin> {Failed, Cancelled, Rolled_back}
       then Inl (FwProblem 409 ''firmware_transition_invalid'')
       else if other_active s d then Inl (FwProblem 409 ''firmware_deployment_active'')
       else if dep_rollout_group_id d \<noteq> None \<and> active_sibling s d
       then Inl (FwProblem 409 ''firmware_rollout_busy'')
       else bindE (transition_firmware_deployment d Scheduled now False False True) (\<lambda>(changed, d1).
         let d2 = reset_attempt st now device s d1 in
         case releases s (dep_release_id d2) of
           None \<Rightarrow> Inl (FwProblem 404 ''firmware_missing'')
         | Some r \<Rightarrow>
             bindE (flush (put_deployment d2 s)) (\<lambda>s1.
             bindE (queue_headless_ota_command d2 device r now s1) (\<lambda>s2.
             Inr (add_audit (user_audit now pr ''firmware.deployment_retried'' ''firmware_deployment'' (dep_id d2)
                    [(''attempt'', JInt (dep_attempt d2))]) s2, d2))))))"

definition canary_verified :: "fw_db \<Rightarrow> fw_settings \<Rightarrow> firmware_deployment \<Rightarrow> bool" where
  "canary_verified s st d \<longleftrightarrow>
     dep_state d = Completed \<and> firmware_verification_heartbeat_count st \<le> dep_verification_heartbeats d
     \<and> dep_reading_confirmed_at d \<noteq> None \<and> dep_rollback_at d = None
     \<and> critical_alerts s (dep_device_id d) = []"

definition next_waiting :: "fw_db \<Rightarrow> string option \<Rightarrow> firmware_deployment option" where
  "next_waiting s grp =
     (case sort_key dep_rollout_order (filter (\<lambda>e. dep_rollout_group_id e = grp
             \<and> dep_state e = Waiting_canary) (deployments s)) of
        [] \<Rightarrow> None | e # _ \<Rightarrow> Some e)"

definition promoted_row :: "fw_settings \<Rightarrow> instant \<Rightarrow> firmware_deployment \<Rightarrow> firmware_deployment" where
  "promoted_row st now d =
     d\<lparr>dep_scheduled_at := Aware now,
       dep_expires_at := Some (Aware (now + seconds (firmware_manifest_ttl_seconds st))),
       dep_promoted_at := Some (Aware now)\<rparr>"

datatype promotion = Rollout_complete | Promoted firmware_deployment

definition promote_canary ::
  "principal \<Rightarrow> fw_settings \<Rightarrow> instant \<Rightarrow> string \<Rightarrow> fw_db \<Rightarrow> fw_error + (fw_db \<times> promotion)"
where
  "promote_canary pr st now deployment_id s =
     bindE (load_managed pr deployment_id s) (\<lambda>(canary, device).
       if dep_rollout_group_id canary = None then Inl (FwProblem 409 ''firmware_canary_unavailable'')
       else if \<not> canary_verified s st canary then Inl (FwProblem 409 ''firmware_canary_not_verified'')
       else if \<exists>e\<in>set (deployments s). dep_rollout_group_id e = dep_rollout_group_id canary
           \<and> operational (dep_state e)
       then Inl (FwProblem 409 ''firmware_rollout_busy'')
       else case next_waiting s (dep_rollout_group_id canary) of
         None \<Rightarrow> Inr (s, Rollout_complete)
       | Some d \<Rightarrow>
           (case fw_devices s (dep_device_id d) of
              None \<Rightarrow> Inl (FwProblem 403 ''forbidden'')
            | Some next_device \<Rightarrow>
                if \<not> can_access_site pr (fd_site_id next_device) then Inl (FwProblem 403 ''forbidden'')
                else bindE (ensure_device_reset_mutations_allowed s [fd_id next_device]) (\<lambda>_.
                  bindE (plain_transition d Scheduled now) (\<lambda>(changed, d1).
                  let d2 = promoted_row st now d1 in
                  case releases s (dep_release_id d2) of
                    None \<Rightarrow> Inl (FwProblem 404 ''firmware_missing'')
                  | Some r \<Rightarrow>
                      bindE (flush (put_deployment d2 s)) (\<lambda>s1.
                      bindE (queue_headless_ota_command d2 next_device r now s1) (\<lambda>s2.
                      Inr (add_audit (user_audit now pr ''firmware.canary_promoted'' ''firmware_deployment'' (dep_id d2)
                             [(''rollout_group_id'', opt_str (dep_rollout_group_id canary)),
                              (''verified_canary_id'', JStr (dep_id canary)),
                              (''rollout_order'', JInt (dep_rollout_order d2)),
                              (''maximum_concurrency'', JInt 1)]) s2, Promoted d2)))))))"

section \<open>The stored artifact\<close>

type_synonym path = "string list"

record storage =
  sg_root :: path
  sg_resolve_in_root :: "string \<Rightarrow> path"
  sg_resolve :: "string \<Rightarrow> path"
  sg_file_size :: "path \<Rightarrow> int option"
  sg_sha256 :: "path \<Rightarrow> string"

definition inside :: "path \<Rightarrow> path \<Rightarrow> bool" where
  "inside base p \<longleftrightarrow> p = base \<or> (take (length base) p = base \<and> length base < length p)"

definition artifact_candidate :: "storage \<Rightarrow> firmware_release \<Rightarrow> path option" where
  "artifact_candidate sg r =
     (if truthy (rel_artifact_path r) then Some (sg_resolve_in_root sg (the (rel_artifact_path r)))
      else if truthy (rel_file_path r) then Some (sg_resolve sg (the (rel_file_path r)))
      else None)"

definition manifest_artifact_available :: "storage \<Rightarrow> firmware_release \<Rightarrow> bool" where
  "manifest_artifact_available sg r =
     (case artifact_candidate sg r of
        None \<Rightarrow> False
      | Some p \<Rightarrow> inside (sg_root sg) p \<and> sg_file_size sg p = Some (rel_size_bytes r))"

definition resolve_artifact :: "storage \<Rightarrow> firmware_release \<Rightarrow> fw_error + path" where
  "resolve_artifact sg r =
     (case artifact_candidate sg r of
        None \<Rightarrow> Inl (FwProblem 503 ''firmware_integrity_failure'')
      | Some p \<Rightarrow> if inside (sg_root sg) p then Inr p
          else Inl (FwProblem 503 ''firmware_integrity_failure''))"

definition put_release :: "firmware_release \<Rightarrow> fw_db \<Rightarrow> fw_db" where
  "put_release r s = s\<lparr>releases := (releases s)(rel_id r \<mapsto> r)\<rparr>"

text \<open>
  A failed check quarantines the release and commits before it raises, so the outcome carries
  the state that was committed beside the answer.
\<close>

definition verified_artifact ::
  "storage \<Rightarrow> int \<Rightarrow> instant \<Rightarrow> firmware_release \<Rightarrow> fw_db \<Rightarrow> (fw_error + path) \<times> fw_db"
where
  "verified_artifact sg verify_interval now r s =
     (case resolve_artifact sg r of
        Inl e \<Rightarrow> (Inl e, s)
      | Inr p \<Rightarrow>
          if sg_file_size sg p \<noteq> Some (rel_size_bytes r)
          then (Inl (FwProblem 503 ''firmware_integrity_failure''),
                put_release (r\<lparr>rel_verification_status := ''quarantined''\<rparr>) s)
          else if (case rel_artifact_verified_at r of None \<Rightarrow> True
                   | Some t \<Rightarrow> aware t \<le> now - seconds verify_interval)
          then (if sg_sha256 sg p \<noteq> rel_sha256 r
                then (Inl (FwProblem 503 ''firmware_integrity_failure''),
                      put_release (r\<lparr>rel_verification_status := ''quarantined''\<rparr>) s)
                else (Inr p, put_release (r\<lparr>rel_artifact_verified_at := Some (Aware now)\<rparr>) s))
          else (Inr p, s))"

section \<open>The sensor's manifest and download\<close>

definition offered_row :: "fw_db \<Rightarrow> instant \<Rightarrow> string \<Rightarrow> firmware_deployment option" where
  "offered_row s now device_id =
     (case sort_key (\<lambda>d. aware (dep_scheduled_at d)) (filter (\<lambda>d. dep_device_id d = device_id
             \<and> dep_state d \<in> {Scheduled, Offered} \<and> aware (dep_scheduled_at d) \<le> now
             \<and> (case dep_expires_at d of None \<Rightarrow> True | Some t \<Rightarrow> now < aware t)) (deployments s)) of
        [] \<Rightarrow> None | d # _ \<Rightarrow> Some d)"

definition release_servable :: "firmware_release \<Rightarrow> bool" where
  "release_servable r \<longleftrightarrow>
     rel_trust_mode r = ''existing_device_hmac'' \<and> rel_verification_status r = ''verified''"

definition manifest_of ::
  "string \<Rightarrow> firmware_deployment \<Rightarrow> firmware_release \<Rightarrow> datetime \<Rightarrow> string \<Rightarrow> string \<Rightarrow> jdict"
where
  "manifest_of device_id d r expires_at project_name build_hash =
     [(''schema_version'', JStr ''pm-ota-manifest/2''), (''protocol_version'', JStr ''pm-protocol/1.0.0''),
      (''deployment_id'', JStr (dep_id d)), (''release_id'', JStr (rel_id r)),
      (''device_id'', JStr device_id), (''version'', JStr (rel_version r)),
      (''project_name'', JStr project_name), (''hardware_target'', JStr (rel_hardware_target r)),
      (''protocol_min'', JStr (rel_protocol_min r)), (''protocol_max'', JStr (rel_protocol_max r)),
      (''size_bytes'', JInt (rel_size_bytes r)), (''sha256'', JStr (rel_sha256 r)),
      (''build_hash'', JStr build_hash), (''not_before'', JStr (canonical_utc (dep_scheduled_at d))),
      (''expires_at'', JStr (canonical_utc expires_at)),
      (''allow_downgrade'', JBool (dep_allow_downgrade d)), (''attempt'', JInt (dep_attempt d)),
      (''hmac_algorithm'', JStr ''HMAC-SHA256''),
      (''hmac_key_context'', JStr ''pm-ota-manifest-v2/server-to-device''),
      (''download_path'', JStr (''/api/v1/device-firmware/'' @ rel_id r @ ''/download?deployment_id='' @ dep_id d))]"

definition reasons_remaining :: "bool \<Rightarrow> firmware_deployment \<Rightarrow> compatibility \<Rightarrow> string set" where
  "reasons_remaining drop_current d c =
     set (cmp_reasons c) - (if drop_current then {''already_current''} else {})
       - (if dep_allow_downgrade d then {''downgrade_requires_confirmation''} else {})"

definition offer :: "instant \<Rightarrow> firmware_deployment \<Rightarrow> fw_error + (bool \<times> firmware_deployment)" where
  "offer now d = (if dep_state d = Scheduled then plain_transition d Offered now else Inr (False, d))"

definition firmware_manifest ::
  "storage \<Rightarrow> (string \<Rightarrow> string \<Rightarrow> nat \<Rightarrow> string \<Rightarrow> string) \<Rightarrow> (string \<Rightarrow> string \<Rightarrow> string) \<Rightarrow> string \<Rightarrow> instant
   \<Rightarrow> fw_device \<Rightarrow> fw_db \<Rightarrow> fw_error + (fw_db \<times> jdict option)"
where
  "firmware_manifest sg hkdf hmac secret now device s =
     bindE (ensure_device_reset_mutations_allowed s [fd_id device]) (\<lambda>_.
     case offered_row s now (fd_id device) of
       None \<Rightarrow> Inr (s, None)
     | Some d \<Rightarrow>
         (case (releases s (dep_release_id d)) of
            None \<Rightarrow> Inl (FwProblem 503 ''firmware_integrity_failure'')
          | Some r \<Rightarrow>
              (case (rel_project_name r, rel_build_hash r, dep_expires_at d) of
                 (Some project_name, Some build_hash, Some expires_at) \<Rightarrow>
                   if \<not> release_servable r \<or> \<not> manifest_artifact_available sg r
                   then Inl (FwProblem 503 ''firmware_integrity_failure'')
                   else (case release_compatibility device (capabilities s (fd_id device)) r of
                      Inl e \<Rightarrow> Inl (FwValue e)
                    | Inr c \<Rightarrow>
                        if reasons_remaining False d c \<noteq> {} then Inl (FwProblem 409 ''firmware_incompatible'')
                        else let m = manifest_of (fd_id device) d r expires_at project_name build_hash in
                          (case sign_ota_manifest hkdf hmac secret (fd_id device) m of
                             Inl e \<Rightarrow> Inl (FwValue e)
                           | Inr tag \<Rightarrow>
                               bindE (offer now d) (\<lambda>(changed, d1).
                               bindE (flush (put_deployment d1 s)) (\<lambda>s1.
                               Inr (s1, Some (dict_set m ''manifest_hmac'' (JStr tag)))))))
               | _ \<Rightarrow> Inl (FwProblem 503 ''firmware_integrity_failure''))))"

definition DOWNLOAD_STATES :: "dstate list" where
  "DOWNLOAD_STATES =
     [Offered, Manifest_authenticated, Waiting_for_schedule, Download_started, Downloading, Binary_verified]"

definition download_authorized ::
  "firmware_deployment \<Rightarrow> firmware_release \<Rightarrow> string \<Rightarrow> instant \<Rightarrow> bool"
where
  "download_authorized d r device_id now \<longleftrightarrow>
     dep_device_id d = device_id \<and> dep_release_id d = rel_id r \<and> dep_state d \<in> set DOWNLOAD_STATES
     \<and> release_servable r \<and> aware (dep_scheduled_at d) \<le> now \<and> \<not> expired d now"

definition device_download_firmware ::
  "storage \<Rightarrow> int \<Rightarrow> instant \<Rightarrow> fw_device \<Rightarrow> string \<Rightarrow> string \<Rightarrow> fw_db \<Rightarrow> (fw_error + path) \<times> fw_db"
where
  "device_download_firmware sg verify_interval now device release_id deployment_id s =
     (case bindE (ensure_device_reset_mutations_allowed s [fd_id device]) (\<lambda>_.
            case (find_deployment s deployment_id, releases s release_id) of
              (Some d, Some r) \<Rightarrow>
                if \<not> download_authorized d r (fd_id device) now then Inl (FwProblem 404 ''firmware_unavailable'')
                else (case release_compatibility device (capabilities s (fd_id device)) r of
                   Inl e \<Rightarrow> Inl (FwValue e)
                 | Inr c \<Rightarrow> if reasons_remaining True d c \<noteq> {} then Inl (FwProblem 409 ''firmware_incompatible'')
                     else Inr r)
            | _ \<Rightarrow> Inl (FwProblem 404 ''firmware_unavailable'')) of
        Inl e \<Rightarrow> (Inl e, s)
      | Inr r \<Rightarrow> verified_artifact sg verify_interval now r s)"

end
