(* ===== verification/Firmware_System.thy ===== *)
theory Firmware_System
  imports Firmware_Reconcile Firmware_Routes
begin

text \<open>
  The firmware subsystem as a transition system: every handler, route and reconciler pass is a
  step, beside steps of the environment that leave the deployments alone.  Each step changes
  rows only as \<^verbatim>\<open>row_change\<close> allows and appends only new rows (\<^verbatim>\<open>table_step\<close>), from which the
  invariant of the table follows for every reachable database.
\<close>

section \<open>Changes of a table\<close>

lemma list_all2_member:
  assumes "list_all2 R xs ys"
  shows "x \<in> set xs \<Longrightarrow> \<exists>y\<in>set ys. R x y" and "y \<in> set ys \<Longrightarrow> \<exists>x\<in>set xs. R x y"
  using assms by (induction rule: list_all2_induct) auto

definition row_change :: "fw_settings \<Rightarrow> firmware_deployment \<Rightarrow> firmware_deployment \<Rightarrow> bool" where
  "row_change st d d' \<longleftrightarrow>
     dep_id d' = dep_id d \<and> dep_device_id d' = dep_device_id d \<and> dep_release_id d' = dep_release_id d
     \<and> dep_attempt d \<le> dep_attempt d' \<and> dep_revision d \<le> dep_revision d' \<and> (dep_wf d \<longrightarrow> dep_wf d')
     \<and> dep_state d \<noteq> Completed \<and> (dep_state d' = Completed \<longrightarrow> completed_proof st d')"

definition table_step :: "fw_settings \<Rightarrow> fw_db \<Rightarrow> fw_db \<Rightarrow> bool" where
  "table_step st s t \<longleftrightarrow>
     (\<exists>old new. deployments t = old @ new
        \<and> list_all2 (\<lambda>d d'. d' = d \<or> row_change st d d') (deployments s) old
        \<and> (\<forall>d\<in>set new. dep_wf d \<and> dep_state d \<in> {Scheduled, Waiting_canary}))
     \<and> distinct_ids t
     \<and> (distinct (map dep_device_id (active_deployments s))
          \<longrightarrow> distinct (map dep_device_id (active_deployments t)))"

lemma row_step_change: "row_step st d d' \<Longrightarrow> row_change st d d'"
  by (auto simp: row_step_def row_change_def same_row_def)

lemma table_step_same:
  assumes "deployments t = deployments s" and "distinct_ids s"
  shows "table_step st s t"
proof -
  have "list_all2 (\<lambda>d d'. d' = d \<or> row_change st d d') (deployments s) (deployments s)"
    by (rule list_all2_refl) simp
  then show ?thesis
    using assms unfolding table_step_def distinct_ids_def active_deployments_def
    by (intro conjI exI[of _ "deployments s"] exI[of _ "[]"]) auto
qed

lemma changes_row_table:
  assumes "changes_row (row_change st) s t" and "distinct_ids s"
    and "distinct (map dep_device_id (active_deployments s)) \<longrightarrow> distinct (map dep_device_id (active_deployments t))"
  shows "table_step st s t"
proof (cases "deployments t = deployments s")
  case True
  then show ?thesis using table_step_same assms(2) by blast
next
  case False
  with assms(1) obtain d d' where d: "d \<in> set (deployments s)" "row_change st d d'"
    and t: "deployments t = deployments (put_deployment d' s)"
    by (auto simp: changes_row_def)
  have id: "dep_id d' = dep_id d" using d(2) by (simp add: row_change_def)
  have rows: "deployments t = map (\<lambda>x. if x = d then d' else x) (deployments s)"
    unfolding t by (rule put_settled[OF assms(2) d(1) id])
  have "list_all2 (\<lambda>d d'. d' = d \<or> row_change st d d') (deployments s) (deployments t)"
    unfolding rows using d(2) by (auto simp: list.rel_map intro: list_all2_refl)
  moreover have "distinct_ids t"
    using assms(2) unfolding distinct_ids_def t put_ids .
  ultimately show ?thesis
    using assms(3) unfolding table_step_def by (intro conjI exI[of _ "deployments t"] exI[of _ "[]"]) auto
qed

text \<open>A step that ends with \<^verbatim>\<open>flush\<close>.\<close>

lemma flushed_change:
  assumes "flush (put_deployment d' s) = Inr u" and "deployments t = deployments u"
    and "d \<in> set (deployments s)" and "row_change st d d'" and "distinct_ids s"
  shows "table_step st s t"
proof -
  have u: "u = put_deployment d' s" "distinct (map dep_device_id (active_deployments u))"
    using assms(1) by (auto simp: flush_Inr)
  show ?thesis
  proof (rule changes_row_table[OF _ assms(5)])
    show "changes_row (row_change st) s t" using assms(2-4) u(1) unfolding changes_row_def by blast
    show "distinct (map dep_device_id (active_deployments s)) \<longrightarrow> distinct (map dep_device_id (active_deployments t))"
      using u(2) active_cong[OF assms(2)] by simp
  qed
qed

lemma handler_table:
  assumes "changes_row (row_step st) s t
    \<and> (distinct (map dep_device_id (active_deployments s)) \<longrightarrow> distinct (map dep_device_id (active_deployments t)))"
    and "distinct_ids s"
  shows "table_step st s t"
  using changes_row_table[OF changes_row_mono[OF row_step_change]] assms by blast

section \<open>The reconciler as a step\<close>

lemma distinct_filter_map:
  assumes "\<And>d. d \<in> set ds \<Longrightarrow> dep_device_id (f d) = dep_device_id d \<and> (P (f d) \<longrightarrow> P d)"
    and "distinct (map dep_device_id (filter P ds))"
  shows "distinct (map dep_device_id (filter P (map f ds)))"
  using assms
proof (induction ds)
  case Nil
  then show ?case by simp
next
  case (Cons d ds)
  have sub: "dep_device_id ` set (filter P (map f ds)) \<subseteq> dep_device_id ` set (filter P ds)"
  proof
    fix x assume "x \<in> dep_device_id ` set (filter P (map f ds))"
    then obtain e where "e \<in> set ds" "P (f e)" "x = dep_device_id (f e)" by auto
    then show "x \<in> dep_device_id ` set (filter P ds)" using Cons.prems(1)[of e] by auto
  qed
  have d: "dep_device_id (f d) = dep_device_id d" "P (f d) \<longrightarrow> P d" using Cons.prems(1)[of d] by auto
  have "distinct (map dep_device_id (filter P (map f ds)))"
    using Cons.prems by (intro Cons.IH) (auto split: if_splits)
  then show ?case using Cons.prems(2) d sub by (auto split: if_splits)
qed

lemma reconcile_table_step:
  assumes "reconcile_stale_firmware_deployments st now limit s = Inr (t, os)" and "distinct_ids s"
  shows "table_step st s t"
proof -
  define f where "f d = (if d \<in> fst ` set (examined s (batch_of st limit) ACTIVE_DEPLOYMENT_STATES)
          then settled st now (device_of s d) d else d)" for d
  have rows: "deployments t = map f (deployments s)"
    using reconcile_table[OF assms(2), of st now limit] assms(1) by (auto simp: f_def)
  have f: "f d = d \<or> row_step st d (f d)" for d
    using settled_step by (auto simp: f_def)
  have active: "dep_state d \<in> set ACTIVE_DEPLOYMENT_STATES" if "dep_state (f d) \<in> set ACTIVE_DEPLOYMENT_STATES" for d
    using that by (auto simp: f_def settled_state split: if_splits)
  have "list_all2 (\<lambda>d d'. d' = d \<or> row_change st d d') (deployments s) (deployments t)"
    unfolding rows list.rel_map using f row_step_change by (intro list_all2_refl) blast
  moreover have "map dep_id (deployments t) = map dep_id (deployments s)"
    unfolding rows by (simp add: f_def)
  moreover have "distinct (map dep_device_id (active_deployments t))"
    if "distinct (map dep_device_id (active_deployments s))"
    unfolding active_deployments_def rows
  proof (rule distinct_filter_map)
    fix d
    show "dep_device_id (f d) = dep_device_id d \<and> (dep_state (f d) \<notin> set TERMINAL_DEPLOYMENT_STATES
        \<longrightarrow> dep_state d \<notin> set TERMINAL_DEPLOYMENT_STATES)"
      using f[of d] active[of d] by (auto simp: row_step_def same_row_def)
  qed (use that in \<open>simp add: active_deployments_def\<close>)
  ultimately show ?thesis
    using assms(2) unfolding table_step_def distinct_ids_def
    by (intro conjI exI[of _ "deployments t"] exI[of _ "[]"]) auto
qed

section \<open>Operator routes as steps\<close>

lemma load_managed_Inr:
  assumes "load_managed pr i s = Inr (d, device)"
  shows "d \<in> set (deployments s) \<and> dep_id d = i \<and> ''firmware.deploy'' \<in> set (pr_permissions pr)
    \<and> fw_devices s (dep_device_id d) = Some device \<and> can_access_site pr (fd_site_id device)"
  using assms find_deployment_Some[of s i]
  by (auto simp: load_managed_def operator_check_def site_allowed_def result_simps split: option.splits if_splits)

lemma enter_active_change:
  assumes "same_row d d'" and "dep_state d \<noteq> Completed" and "dep_state d' \<noteq> Completed"
  shows "row_change st d d'"
  using assms by (auto simp: row_change_def same_row_def)

lemma cancel_step:
  assumes "cancel_deployment pr now i s = Inr (t, a)" and "distinct_ids s"
  shows "table_step st s t"
proof -
  obtain d device where l: "load_managed pr i s = Inr (d, device)"
    using assms(1) by (auto simp: cancel_deployment_def result_simps)
  note d = load_managed_Inr[OF l]
  show ?thesis
  proof (cases "t = s")
    case True
    then show ?thesis using table_step_same assms(2) by blast
  next
    case False
    then obtain changed d1 u where tr: "plain_transition d Cancelled now = Inr (changed, d1)"
      and act: "dep_state d \<notin> set TERMINAL_DEPLOYMENT_STATES"
      and u: "flush (put_deployment d1 s) = Inr u" "deployments t = deployments u"
      using assms(1) l by (auto simp: cancel_deployment_def result_simps split: if_splits)
    have "row_change st d d1" using transition_Inr[OF tr] act by (auto intro: enter_active_change)
    then show ?thesis using flushed_change[OF u] d assms(2) by blast
  qed
qed

lemma queue_deployments:
  assumes "queue_headless_ota_command d device r now s = Inr t"
  shows "deployments t = deployments s"
  using assms by (auto simp: queue_headless_ota_command_def add_command_def split: if_splits option.splits)

lemma reset_attempt_change:
  assumes "same_row d d1" and "dep_state d1 = Scheduled" and "dep_state d \<noteq> Completed"
  shows "row_change st d (reset_attempt st' now device s d1)"
  using assms by (simp add: row_change_def same_row_def reset_attempt_def dep_wf_def)

lemma retry_Inr:
  assumes "retry_deployment pr st now i s = Inr (t, d')"
  shows "\<exists>d device. d \<in> set (deployments s) \<and> dep_id d = i \<and> dep_state d \<in> {Failed, Cancelled, Rolled_back}
    \<and> fw_devices s (dep_device_id d) = Some device
    \<and> \<not> other_active s d \<and> (dep_rollout_group_id d = None \<or> \<not> active_sibling s d)
    \<and> d' = reset_attempt st now device s (enter_state now Scheduled d)
    \<and> deployments t = deployments (put_deployment d' s)"
proof -
  obtain d device where l: "load_managed pr i s = Inr (d, device)"
    using assms by (auto simp: retry_deployment_def result_simps)
  note d = load_managed_Inr[OF l]
  obtain changed d1 u v r where tr: "transition_firmware_deployment d Scheduled now False False True = Inr (changed, d1)"
    and ok: "dep_state d \<in> {Failed, Cancelled, Rolled_back}" "\<not> other_active s d"
      "dep_rollout_group_id d = None \<or> \<not> active_sibling s d"
    and d': "d' = reset_attempt st now device s d1"
    and u: "flush (put_deployment d' s) = Inr u" and v: "queue_headless_ota_command d' device r now u = Inr v"
    and t: "deployments t = deployments v"
    using assms l by (auto simp: retry_deployment_def result_simps Let_def split: if_splits option.splits)
  have "d1 = enter_state now Scheduled d"
    using tr ok(1) by (auto simp: transition_firmware_deployment_def split: if_splits)
  moreover have "deployments t = deployments (put_deployment d' s)"
    using t queue_deployments[OF v] u by (simp add: flush_Inr)
  ultimately show ?thesis using d ok d' by blast
qed

lemma retry_step:
  assumes "retry_deployment pr st' now i s = Inr (t, a)" and "distinct_ids s"
  shows "table_step st s t"
proof -
  obtain d device where l: "load_managed pr i s = Inr (d, device)"
    using assms(1) by (auto simp: retry_deployment_def result_simps)
  note d = load_managed_Inr[OF l]
  obtain changed d1 u v r where tr: "transition_firmware_deployment d Scheduled now False False True = Inr (changed, d1)"
    and st: "dep_state d \<in> {Failed, Cancelled, Rolled_back}"
    and u: "flush (put_deployment (reset_attempt st' now device s d1) s) = Inr u"
    and v: "queue_headless_ota_command (reset_attempt st' now device s d1) device r now u = Inr v"
    and t: "deployments t = deployments v"
    using assms(1) l by (auto simp: retry_deployment_def result_simps Let_def split: if_splits option.splits)
  have "row_change st d (reset_attempt st' now device s d1)"
    using transition_Inr[OF tr] st by (intro reset_attempt_change) auto
  then show ?thesis using flushed_change[OF u _ _ _ assms(2)] queue_deployments[OF v] t d by metis
qed

lemma next_waiting_Some:
  assumes "next_waiting s g = Some d"
  shows "d \<in> set (deployments s) \<and> dep_rollout_group_id d = g \<and> dep_state d = Waiting_canary"
proof -
  obtain es where "sort_key dep_rollout_order (filter (\<lambda>e. dep_rollout_group_id e = g
             \<and> dep_state e = Waiting_canary) (deployments s)) = d # es"
    using assms by (auto simp: next_waiting_def split: list.splits)
  from sort_key_head(1)[OF this] show ?thesis by simp
qed


lemma next_waiting_least:
  assumes "next_waiting s g = Some d" and "e \<in> set (deployments s)" and "dep_rollout_group_id e = g"
    and "dep_state e = Waiting_canary"
  shows "dep_rollout_order d \<le> dep_rollout_order e"
proof -
  obtain es where "sort_key dep_rollout_order (filter (\<lambda>e. dep_rollout_group_id e = g
             \<and> dep_state e = Waiting_canary) (deployments s)) = d # es"
    using assms(1) by (auto simp: next_waiting_def split: list.splits)
  from sort_key_head(2)[OF this] assms(2-4) show ?thesis by simp
qed

text \<open>A promotion that moved a row: the canary is verified, the group idle, the row its next one.\<close>

lemma promote_Inr:
  assumes "promote_canary pr st' now i s = Inr (t, a)" and "t \<noteq> s"
  shows "\<exists>canary d changed d1 device' r u w.
      canary \<in> set (deployments s) \<and> dep_id canary = i \<and> canary_verified s st' canary
    \<and> dep_rollout_group_id canary \<noteq> None
    \<and> (\<forall>e\<in>set (deployments s). dep_rollout_group_id e = dep_rollout_group_id canary \<longrightarrow> \<not> operational (dep_state e))
    \<and> next_waiting s (dep_rollout_group_id canary) = Some d \<and> plain_transition d Scheduled now = Inr (changed, d1)
    \<and> flush (put_deployment (promoted_row st' now d1) s) = Inr u
    \<and> queue_headless_ota_command (promoted_row st' now d1) device' r now u = Inr w
    \<and> deployments t = deployments w"
proof -
  obtain canary device where l: "load_managed pr i s = Inr (canary, device)"
    using assms(1) by (auto simp: promote_canary_def result_simps)
  note managed = load_managed_Inr[OF l]
  obtain d changed d1 dv r u w where "canary_verified s st' canary" "dep_rollout_group_id canary \<noteq> None"
    "\<forall>e\<in>set (deployments s). dep_rollout_group_id e = dep_rollout_group_id canary \<longrightarrow> \<not> operational (dep_state e)"
    "next_waiting s (dep_rollout_group_id canary) = Some d" "plain_transition d Scheduled now = Inr (changed, d1)"
    "flush (put_deployment (promoted_row st' now d1) s) = Inr u"
    "queue_headless_ota_command (promoted_row st' now d1) dv r now u = Inr w" "deployments t = deployments w"
    using assms l
    by (fastforce simp: promote_canary_def result_simps Let_def split: if_splits option.splits)
  with managed show ?thesis by blast
qed

lemma promote_step:
  assumes "promote_canary pr st' now i s = Inr (t, a)" and "distinct_ids s"
  shows "table_step st s t"
proof (cases "t = s")
  case True
  then show ?thesis using table_step_same assms(2) by blast
next
  case False
  from promote_Inr[OF assms(1) False] obtain g d changed d1 dv r u w
    where n: "next_waiting s g = Some d" and tr: "plain_transition d Scheduled now = Inr (changed, d1)"
      and u: "flush (put_deployment (promoted_row st' now d1) s) = Inr u"
      and w: "queue_headless_ota_command (promoted_row st' now d1) dv r now u = Inr w"
      and t: "deployments t = deployments w"
    by blast
  note d = next_waiting_Some[OF n]
  have "same_frame d1 (promoted_row st' now d1)" by (simp add: promoted_row_def same_frame_def)
  then have "same_row d (promoted_row st' now d1)" "dep_state (promoted_row st' now d1) = Scheduled"
    using same_frame_row transition_Inr[OF tr] same_row_trans by auto
  then have "row_change st d (promoted_row st' now d1)" using d by (intro enter_active_change) auto
  then show ?thesis using flushed_change[OF u _ _ _ assms(2)] queue_deployments[OF w] t d by metis
qed

lemma offered_row_Some:
  assumes "offered_row s now i = Some d"
  shows "d \<in> set (deployments s) \<and> dep_device_id d = i \<and> dep_state d \<in> {Scheduled, Offered}
    \<and> aware (dep_scheduled_at d) \<le> now \<and> \<not> expired d now"
proof -
  let ?f = "filter (\<lambda>d. dep_device_id d = i
             \<and> dep_state d \<in> {Scheduled, Offered} \<and> aware (dep_scheduled_at d) \<le> now
             \<and> (case dep_expires_at d of None \<Rightarrow> True | Some t \<Rightarrow> now < aware t)) (deployments s)"
  obtain es where "sort_key (\<lambda>d. aware (dep_scheduled_at d)) ?f = d # es"
    using assms unfolding offered_row_def by (auto split: list.splits)
  from sort_key_head(1)[OF this] show ?thesis by (auto simp: expired_def split: option.splits)
qed

lemma manifest_Inr:
  assumes "firmware_manifest sg hkdf hmac secret now device s = Inr (t, m)" and "m \<noteq> None"
  shows "\<exists>d r pn bh ex c tag changed d1. offered_row s now (fd_id device) = Some d
    \<and> releases s (dep_release_id d) = Some r \<and> rel_project_name r = Some pn \<and> rel_build_hash r = Some bh
    \<and> dep_expires_at d = Some ex \<and> release_servable r \<and> manifest_artifact_available sg r
    \<and> release_compatibility device (capabilities s (fd_id device)) r = Inr c \<and> reasons_remaining False d c = {}
    \<and> sign_ota_manifest hkdf hmac secret (fd_id device) (manifest_of (fd_id device) d r ex pn bh) = Inr tag
    \<and> m = Some (dict_set (manifest_of (fd_id device) d r ex pn bh) ''manifest_hmac'' (JStr tag))
    \<and> offer now d = Inr (changed, d1)
    \<and> flush (put_deployment d1 s) = Inr t"
  using assms unfolding firmware_manifest_def
  by (auto simp: result_simps Let_def split: if_splits option.splits sum.splits prod.splits)

lemma manifest_step:
  assumes "firmware_manifest sg hkdf hmac secret now device s = Inr (t, m)" and "distinct_ids s"
  shows "table_step st s t"
proof (cases m)
  case None
  then have "t = s" using assms(1)
    by (auto simp: firmware_manifest_def result_simps Let_def split: if_splits option.splits sum.splits prod.splits)
  then show ?thesis using table_step_same assms(2) by blast
next
  case (Some x)
  then obtain d changed d1 where n: "offered_row s now (fd_id device) = Some d"
    and tr: "offer now d = Inr (changed, d1)"
    and u: "flush (put_deployment d1 s) = Inr t"
    using manifest_Inr[OF assms(1)] by blast
  note d = offered_row_Some[OF n]
  have "same_row d d1 \<and> dep_state d1 = Offered"
    using tr d transition_Inr[of d Offered now False False False changed d1]
    by (auto simp: offer_def split: if_splits)
  then have "row_change st d d1" using d by (intro enter_active_change) auto
  then show ?thesis using flushed_change[OF u refl] d assms(2) by blast
qed

lemma download_step:
  assumes "device_download_firmware sg v now device ri di s = (a, t)" and "distinct_ids s"
  shows "table_step st s t"
proof -
  have "deployments t = deployments s"
    using assms(1) unfolding device_download_firmware_def
    by (auto simp: verified_artifact_def put_release_def split: sum.splits option.splits if_splits)
  then show ?thesis using table_step_same assms(2) by blast
qed


section \<open>Creating a rollout\<close>

definition appended :: "fw_db \<Rightarrow> fw_db \<Rightarrow> bool" where
  "appended s t \<longleftrightarrow> (\<exists>new. deployments t = deployments s @ new
       \<and> (\<forall>d\<in>set new. dep_wf d \<and> dep_state d \<in> {Scheduled, Waiting_canary}))
     \<and> distinct_ids t
     \<and> (distinct (map dep_device_id (active_deployments s))
          \<longrightarrow> distinct (map dep_device_id (active_deployments t)))"

lemma insert_deployment_Inr:
  "insert_deployment d s = Inr t \<Longrightarrow>
     t = s\<lparr>deployments := deployments s @ [d]\<rparr> \<and> dep_id d \<notin> dep_id ` set (deployments s)
     \<and> distinct (map dep_device_id (active_deployments t))"
  by (auto simp: insert_deployment_def flush_Inr split: if_splits)

lemma new_deployment_wf:
  "dep_wf (new_deployment i s st now q r g n device)"
  "dep_state (new_deployment i s st now q r g n device) = (if n = 0 then Scheduled else Waiting_canary)"
  by (simp_all add: new_deployment_def dep_wf_def Let_def)

lemma create_one_Inr:
  assumes "create_one pr st now q r priors g fresh (n, i) (s, ids) = Inr (t, ids')"
  shows "t = s \<or> (\<exists>device u. fw_devices s i = Some device
      \<and> insert_deployment (new_deployment (fresh n) s st now q r g n device) s = Inr u
      \<and> deployments t = deployments u)"
proof (cases "t = s")
  case False
  with assms obtain device u where "fw_devices s i = Some device"
    and ins: "insert_deployment (new_deployment (fresh n) s st now q r g n device) s = Inr u"
    and rest: "queue_first n (new_deployment (fresh n) s st now q r g n device) device r now u = Inr t"
    by (auto simp: create_one_def result_simps Let_def split: option.splits if_splits)
  then show ?thesis using queue_deployments by (auto simp: queue_first_def split: if_splits)
qed simp

lemma create_one_appended:
  assumes "create_one pr st now q r priors g fresh x (s, ids) = Inr (t, ids')" and "appended s0 s"
  shows "appended s0 t"
proof (cases "t = s")
  case False
  obtain n i where "x = (n, i)" by (cases x)
  with create_one_Inr[of pr st now q r priors g fresh n i s ids t ids'] assms(1) False
  obtain device u where ins: "insert_deployment (new_deployment (fresh n) s st now q r g n device) s = Inr u"
    and t: "deployments t = deployments u" by auto
  note u = insert_deployment_Inr[OF ins]
  have "active_deployments t = active_deployments u" using t by (rule active_cong)
  then show ?thesis
    using assms(2) u t new_deployment_wf[of "fresh n" s st now q r g n device]
    by (auto simp: appended_def distinct_ids_def)
qed (use assms in simp)

lemma create_appended:
  assumes "create_deployments pr st now fg fresh q s = Inr (t, ids)" and "distinct_ids s"
  shows "appended s t"
proof -
  obtain r u where run: "foldE (create_one pr st now q r (prior_rows s q) (rollout_group q (prior_rows s q) fg) fresh)
      (List.enumerate 0 (rq_device_ids q)) (s, []) = Inr (u, ids)"
    and t: "deployments t = deployments u"
    using assms(1) by (auto simp: create_deployments_def result_simps Let_def split: option.splits if_splits)
  have start: "appended s (fst (s, []))" using assms(2) by (simp add: appended_def)
  have "appended s (fst (u, ids))"
    by (rule foldE_invariant[OF run, of "\<lambda>x. appended s (fst x)", OF start])
      (metis create_one_appended prod.collapse)
  moreover have "active_deployments t = active_deployments u" using t by (rule active_cong)
  ultimately show ?thesis using t by (simp add: appended_def distinct_ids_def)
qed

lemma create_step:
  assumes "create_deployments pr st' now fg fresh q s = Inr (t, ids)" and "distinct_ids s"
  shows "table_step st s t"
proof -
  obtain new where "deployments t = deployments s @ new"
    "\<forall>d\<in>set new. dep_wf d \<and> dep_state d \<in> {Scheduled, Waiting_canary}"
    using create_appended[OF assms] by (auto simp: appended_def)
  moreover have "list_all2 (\<lambda>d d'. d' = d \<or> row_change st d d') (deployments s) (deployments s)"
    by (rule list_all2_refl) simp
  ultimately show ?thesis using create_appended[OF assms] unfolding table_step_def appended_def by blast
qed

section \<open>The system\<close>

inductive fw_operation :: "fw_settings \<Rightarrow> fw_db \<Rightarrow> fw_db \<Rightarrow> bool" for st :: fw_settings where
  Reconcile: "reconcile_stale_firmware_deployments st now limit s = Inr (t, outcomes) \<Longrightarrow> fw_operation st s t"
| Heartbeat: "reconcile_firmware_heartbeat st now hp s = Inr t \<Longrightarrow> fw_operation st s t"
| Reading: "confirm_firmware_reading st now device_id readings durable s = Inr t \<Longrightarrow> fw_operation st s t"
| Report: "valid_report rp \<Longrightarrow> report_deployment now device_id rp s = Inr (t, answer) \<Longrightarrow> fw_operation st s t"
| Agent_result: "record_headless_ota_result command result state now s = Inr t \<Longrightarrow> fw_operation st s t"
| Agent_heartbeat: "record_headless_ota_heartbeat st now ah s = Inr t \<Longrightarrow> fw_operation st s t"
| Create: "create_deployments pr st now fresh_group fresh q s = Inr (t, ids) \<Longrightarrow> fw_operation st s t"
| Cancel: "cancel_deployment pr now deployment_id s = Inr (t, row) \<Longrightarrow> fw_operation st s t"
| Retry: "retry_deployment pr st now deployment_id s = Inr (t, row) \<Longrightarrow> fw_operation st s t"
| Promote: "promote_canary pr st now deployment_id s = Inr (t, outcome) \<Longrightarrow> fw_operation st s t"
| Manifest: "firmware_manifest sg hkdf hmac secret now device s = Inr (t, manifest) \<Longrightarrow> fw_operation st s t"
| Download: "device_download_firmware sg interval now device release_id deployment_id s = (result', t) \<Longrightarrow> fw_operation st s t"

inductive fw_step :: "fw_settings \<Rightarrow> fw_db \<Rightarrow> fw_db \<Rightarrow> bool" for st :: fw_settings where
  Operation: "fw_operation st s t \<Longrightarrow> fw_step st s t"
| Environment: "deployments t = deployments s \<Longrightarrow> fw_step st s t"

inductive_cases fw_operation_cases [elim]: "fw_operation st s t"
inductive_cases fw_step_cases [elim]: "fw_step st s t"

definition row_inv :: "fw_settings \<Rightarrow> firmware_deployment \<Rightarrow> bool" where
  "row_inv st d \<longleftrightarrow> dep_wf d \<and> (dep_state d = Completed \<longrightarrow> completed_proof st d)"

definition fw_inv :: "fw_settings \<Rightarrow> fw_db \<Rightarrow> bool" where
  "fw_inv st s \<longleftrightarrow> distinct_ids s \<and> distinct (map dep_device_id (active_deployments s))
     \<and> (\<forall>d\<in>set (deployments s). row_inv st d)"

lemma fw_operation_table:
  assumes "fw_operation st s t" and "distinct_ids s"
  shows "table_step st s t"
  using assms(1)
proof cases
  case Reconcile
  then show ?thesis using reconcile_table_step assms(2) by blast
next
  case Heartbeat
  then show ?thesis using handler_table[OF heartbeat_step] assms(2) by blast
next
  case Reading
  then show ?thesis using handler_table[OF reading_step] assms(2) by blast
next
  case Report
  then show ?thesis using handler_table[OF report_step] assms(2) by blast
next
  case Agent_result
  then show ?thesis using handler_table[OF agent_result_step] assms(2) by blast
next
  case Agent_heartbeat
  then show ?thesis using handler_table[OF agent_heartbeat_step] assms(2) by blast
next
  case Create
  then show ?thesis using create_step assms(2) by blast
next
  case Cancel
  then show ?thesis using cancel_step assms(2) by blast
next
  case Retry
  then show ?thesis using retry_step assms(2) by blast
next
  case Promote
  then show ?thesis using promote_step assms(2) by blast
next
  case Manifest
  then show ?thesis using manifest_step assms(2) by blast
next
  case Download
  then show ?thesis using download_step assms(2) by blast
qed

lemma fw_step_table:
  assumes "fw_step st s t" and "distinct_ids s"
  shows "table_step st s t"
  using assms(1)
proof cases
  case Operation
  then show ?thesis using fw_operation_table assms(2) by blast
next
  case Environment
  then show ?thesis using table_step_same assms(2) by blast
qed

lemma table_step_rows:
  assumes "table_step st s t" and "\<forall>d\<in>set (deployments s). row_inv st d"
  shows "\<forall>d\<in>set (deployments t). row_inv st d"
proof -
  obtain old new where t: "deployments t = old @ new"
    and old: "list_all2 (\<lambda>d d'. d' = d \<or> row_change st d d') (deployments s) old"
    and new: "\<forall>d\<in>set new. dep_wf d \<and> dep_state d \<in> {Scheduled, Waiting_canary}"
    using assms(1) by (auto simp: table_step_def)
  have "row_inv st d" if d: "d \<in> set old" for d
  proof -
    obtain e where "e \<in> set (deployments s)" "d = e \<or> row_change st e d"
      using list_all2_member(2)[OF old, of d] d by blast
    then show ?thesis using assms(2) by (auto simp: row_inv_def row_change_def)
  qed
  moreover have "row_inv st d" if "d \<in> set new" for d
    using new that by (auto simp: row_inv_def)
  ultimately show ?thesis using t by auto
qed

lemma fw_step_inv: "fw_inv st s \<Longrightarrow> fw_step st s t \<Longrightarrow> fw_inv st t"
  using fw_step_table[of st s t] table_step_rows[of st s t]
  by (auto simp: fw_inv_def table_step_def)

interpretation fw: invariant_system "\<lambda>s. deployments s = []" "fw_step st" "fw_inv st" for st
proof unfold_locales
  show "fw_inv st s" if "deployments s = []" for s
    using that by (simp add: fw_inv_def distinct_ids_def active_deployments_def)
  show "fw_inv st t" if "fw_inv st s" "fw_step st s t" for s t
    using that by (rule fw_step_inv)
qed

text \<open>A completed row is never changed, and no row is ever lost.\<close>

lemma table_step_keeps:
  assumes "table_step st s t" and "d \<in> set (deployments s)"
  shows "\<exists>d'\<in>set (deployments t). d' = d \<or> row_change st d d'"
proof -
  obtain old new where t: "deployments t = old @ new"
    and old: "list_all2 (\<lambda>d d'. d' = d \<or> row_change st d d') (deployments s) old"
    using assms(1) by (auto simp: table_step_def)
  show ?thesis using list_all2_member(1)[OF old, of d] assms(2) t by auto
qed

end
