(* ===== verification/Firmware_Samples.thy ===== *)
theory Firmware_Samples
  imports Firmware_Routes
begin

text \<open>
  A small installation on which the properties are exercised: one sensor with an OTA capability,
  one verified release, an operator and rows in every state.
\<close>

section \<open>A sample installation\<close>

definition sample_settings :: fw_settings where
  "sample_settings = \<lparr>firmware_manifest_ttl_seconds = 3600, firmware_verification_heartbeat_count = 2,
     firmware_download_stale_seconds = 900, firmware_interruption_grace_seconds = 60,
     firmware_sensor_return_timeout_seconds = 900, firmware_post_boot_timeout_seconds = 1800,
     firmware_legacy_evidence_timeout_seconds = 86400, firmware_reconcile_batch_size = 50,
     heartbeat_expectation_seconds = 60\<rparr>"

definition sample_release :: firmware_release where
  "sample_release = \<lparr>rel_id = ''r'', rel_version = ''1.1.0'', rel_trust_mode = ''existing_device_hmac'',
     rel_project_name = Some ''sensor'', rel_hardware_target = ''esp32-s3'', rel_protocol_min = ''p'',
     rel_protocol_max = ''p'', rel_size_bytes = 1000, rel_sha256 = ''aa'', rel_build_hash = Some ''bb'',
     rel_verification_status = ''verified'', rel_artifact_path = Some ''a'', rel_file_path = None,
     rel_artifact_verified_at = None, rel_active = False\<rparr>"

definition sample_id :: string where
  "sample_id = ''0000000000000000000000000000000a''"

definition sample_device :: fw_device where
  "sample_device = \<lparr>fd_id = sample_id, fd_protocol_version = ''p'', fd_firmware_version = Some ''1.0.0'',
     fd_firmware_build_hash = Some ''b0'', fd_last_seen_at = None, fd_site_id = ''s'', fd_revoked_at = None,
     fd_lifecycle_status = ''active''\<rparr>"

definition sample_capability :: device_capability where
  "sample_capability = \<lparr>cap_hardware_target = ''esp32-s3'', cap_features = [(''ota'', JDict
     [(''supported'', JBool True), (''rollback_supported'', JBool True), (''protocol_version'', JInt 2),
      (''authentication_mode'', JStr ''existing_device_hmac''), (''partition_size_bytes'', JInt 1000)])]\<rparr>"

definition sample_db :: "firmware_deployment list \<Rightarrow> fw_db" where
  "sample_db rows = \<lparr>deployments = rows, releases = [''r'' \<mapsto> sample_release],
     fw_devices = [sample_id \<mapsto> sample_device], heartbeats = [], alerts = [], audits = [],
     reset_gates = Map.empty, reset_participants = [], capabilities = [sample_id \<mapsto> sample_capability],
     ota_commands = []\<rparr>"

definition sample_request :: deployment_request where
  "sample_request = \<lparr>rq_release_id = ''r'', rq_device_ids = [sample_id], rq_scheduled_at = 0,
     rq_expires_at = None, rq_allow_downgrade = False, rq_idempotency_key = Some ''0123456789abcdef'',
     rq_canary_first = True\<rparr>"

definition sample_operator :: principal where
  "sample_operator = \<lparr>pr_user_id = ''u'', pr_permissions = [''firmware.deploy''], pr_all_sites = True,
     pr_site_ids = [], pr_reauthenticated_at = None\<rparr>"

definition sample_row :: "dstate \<Rightarrow> firmware_deployment" where
  "sample_row x = (new_deployment ''x'' (sample_db []) sample_settings 0 sample_request sample_release None 0
     sample_device)\<lparr>dep_state := x, dep_status := x,
       dep_terminal_at := (if x \<in> set TERMINAL_DEPLOYMENT_STATES then Some (Aware 0) else None)\<rparr>"

lemmas sample_defs = sample_settings_def sample_release_def sample_device_def sample_capability_def
  sample_db_def sample_request_def sample_operator_def sample_row_def sample_id_def

definition sample_heartbeat :: "string \<Rightarrow> int \<Rightarrow> heartbeat_payload" where
  "sample_heartbeat boot n = \<lparr>hp_device_id = sample_id, hp_boot_id = boot, hp_firmware_version = ''1.1.0'',
     hp_firmware_build_hash = ''bb'', hp_resources = [(''ota_recovery'', JDict
       [(''deployment_id'', JStr ''x''), (''attempt'', JInt 1), (''evidence_sequence'', JInt n)])],
     hp_pzem_ok = True, hp_sd_ok = True, hp_time_trusted = True\<rparr>"

definition sample_report :: report_payload where
  "sample_report = \<lparr>rp_device = sample_id, rp_deployment_id = ''x'', rp_release_id = ''r'', rp_attempt = 1,
     rp_state = Manifest_authenticated, rp_current_firmware_version = ''1.0.0'', rp_current_build_hash = ''b0'',
     rp_target_version = ''1.1.0'', rp_target_sha256 = ''aa'', rp_bytes_received = 0, rp_image_size = 1000,
     rp_progress = 0, rp_boot_id = ''b0'', rp_evidence_sequence = Some 1, rp_failure_code = None,
     rp_failure_summary = None\<rparr>"

definition sample_storage :: storage where
  "sample_storage = \<lparr>sg_root = [''fw''], sg_resolve_in_root = (\<lambda>p. [''fw'', p]), sg_resolve = (\<lambda>p. [p]),
     sg_file_size = (\<lambda>_. Some 1000), sg_sha256 = (\<lambda>_. ''aa'')\<rparr>"

text \<open>A row that gathered evidence on an earlier boot of the target image.\<close>

definition proven_row :: "dstate \<Rightarrow> firmware_deployment" where
  "proven_row x = (sample_row x)\<lparr>dep_verification_heartbeats := 1, dep_last_boot_id := Some ''b1'',
     dep_stabilization_started_at := Some (Aware 0), dep_reading_confirmed_at := Some (Aware 0),
     dep_validated_version := Some ''1.1.0'', dep_validated_build_hash := Some ''bb'',
     dep_last_report_payload := [(''evidence_sequence'', JInt 5), (''boot_id'', JStr ''b1'')]\<rparr>"

end
