(* ===== verification/Firmware_Properties.thy ===== *)
theory Firmware_Properties
  imports Firmware_System Firmware_Samples
begin

text \<open>
  Properties of the deployments table: the invariant of every reachable database, and the
  exactness, the liveness and the effect of the reconciler.
\<close>

section \<open>Reachable databases\<close>

lemma sample_creates:
  "case create_deployments sample_operator sample_settings 0 ''g'' (\<lambda>_. ''x'') sample_request (sample_db []) of
     Inl _ \<Rightarrow> False | Inr (t, ids) \<Rightarrow> deployments t = [sample_row Scheduled] \<and> ids = [''x'']"
  by code_simp

text \<open>C9. Starting from an empty deployments table, whatever handlers, routes, reconciler passes
  and unrelated changes run in whatever order: deployment ids are unique, a device has at most one
  deployment that is not terminal, state and status agree, the terminal instant is set exactly
  in terminal states, the progress stays within 0 and 100, and a completed deployment has the
  required number of verification heartbeats, a confirmed reading and a stabilization start.\<close>

theorem reachable_deployments_sound:
  assumes "deployments s = []" and "(fw_step st)\<^sup>*\<^sup>* s t"
  shows "distinct (map dep_id (deployments t))
    \<and> distinct (map dep_device_id (filter (\<lambda>d. dep_state d \<notin> {Completed, Failed, Cancelled, Rolled_back}) (deployments t)))
    \<and> (\<forall>d\<in>set (deployments t).
          dep_status d = dep_state d
        \<and> (dep_terminal_at d \<noteq> None \<longleftrightarrow> dep_state d \<in> {Completed, Failed, Cancelled, Rolled_back})
        \<and> 0 \<le> dep_progress d \<and> dep_progress d \<le> 100 \<and> 1 \<le> dep_revision d
        \<and> (dep_state d = Completed \<longrightarrow>
             firmware_verification_heartbeat_count st \<le> dep_verification_heartbeats d
             \<and> dep_reading_confirmed_at d \<noteq> None \<and> dep_stabilization_started_at d \<noteq> None))"
proof -
  have "fw_inv st t" using fw.reachable_inv[OF assms] .
  moreover from this have "dep_wf d \<and> (dep_state d = Completed \<longrightarrow> completed_proof st d)"
    if "d \<in> set (deployments t)" for d using that by (auto simp: fw_inv_def row_inv_def)
  ultimately show ?thesis
    by (auto simp: fw_inv_def distinct_ids_def active_deployments_def dep_wf_def completed_proof_def)
qed

theorem reachable_deployments_sound_witness:
  "\<exists>t. (fw_step sample_settings)\<^sup>*\<^sup>* (sample_db []) t \<and> deployments t = [sample_row Scheduled]
     \<and> (\<forall>d\<in>set (deployments t). dep_status d = dep_state d \<and> dep_progress d \<le> 100)"
proof -
  obtain t ids where c: "create_deployments sample_operator sample_settings 0 ''g'' (\<lambda>_. ''x'') sample_request
      (sample_db []) = Inr (t, ids)" and t: "deployments t = [sample_row Scheduled]"
    using returned_pair[OF sample_creates] by blast
  have "(fw_step sample_settings)\<^sup>*\<^sup>* (sample_db []) t" using fw_step.Operation[OF fw_operation.Create[OF c]] by blast
  moreover have "deployments (sample_db []) = []" by (simp add: sample_db_def)
  ultimately show ?thesis using reachable_deployments_sound[of "sample_db []" sample_settings t] t by blast
qed

text \<open>C10. From a sound database no sequence of steps loses a deployment or rewinds one: a row with
  the same id remains, with the same device and release and no smaller attempt and revision; and a
  completed row remains exactly as it is.\<close>

theorem deployments_never_lost:
  assumes "fw_inv st s" and "(fw_step st)\<^sup>*\<^sup>* s t" and "d \<in> set (deployments s)"
  shows "(\<exists>d'\<in>set (deployments t). dep_id d' = dep_id d \<and> dep_device_id d' = dep_device_id d
      \<and> dep_release_id d' = dep_release_id d \<and> dep_attempt d \<le> dep_attempt d'
      \<and> dep_revision d \<le> dep_revision d')
    \<and> (dep_state d = Completed \<longrightarrow> d \<in> set (deployments t))"
proof -
  let ?R = "\<lambda>e. dep_id e = dep_id d \<and> dep_device_id e = dep_device_id d
      \<and> dep_release_id e = dep_release_id d \<and> dep_attempt d \<le> dep_attempt e \<and> dep_revision d \<le> dep_revision e
      \<and> (dep_state d = Completed \<longrightarrow> e = d)"
  from assms(2) have "\<exists>e\<in>set (deployments t). ?R e"
  proof (induction rule: rtranclp_induct)
    case base
    then show ?case using assms(3) by auto
  next
    case (step y z)
    then obtain e where e: "e \<in> set (deployments y)" "?R e" by blast
    have "distinct_ids y" using fw.inv_steps[OF step.hyps(1) assms(1)] by (simp add: fw_inv_def)
    then obtain e' where "e' \<in> set (deployments z)" "e' = e \<or> row_change st e e'"
      using table_step_keeps[OF fw_step_table[OF step.hyps(2)] e(1)] by blast
    with e(2) show ?case by (force simp: row_change_def)
  qed
  then show ?thesis by blast
qed

lemma sample_retries:
  "case retry_deployment sample_operator sample_settings 0 ''x'' (sample_db [sample_row Failed]) of
     Inl _ \<Rightarrow> False | Inr (t, d) \<Rightarrow> dep_attempt d = 2"
  by code_simp

theorem deployments_never_lost_witness:
  "\<exists>t d. retry_deployment sample_operator sample_settings 0 ''x'' (sample_db [sample_row Failed]) = Inr (t, d)
     \<and> dep_attempt d = 2 \<and> (\<exists>d'\<in>set (deployments t). dep_id d' = ''x'' \<and> 1 \<le> dep_attempt d')"
proof -
  obtain t d where r: "retry_deployment sample_operator sample_settings 0 ''x'' (sample_db [sample_row Failed]) = Inr (t, d)"
    and d: "dep_attempt d = 2" using returned_pair[OF sample_retries] by blast
  have run: "(fw_step sample_settings)\<^sup>*\<^sup>* (sample_db [sample_row Failed]) t" using fw_step.Operation[OF fw_operation.Retry[OF r]] by blast
  have row: "sample_row Failed \<in> set (deployments (sample_db [sample_row Failed]))" by (simp add: sample_db_def)
  have f: "dep_id (sample_row Failed) = ''x''" "dep_attempt (sample_row Failed) = 1"
    by (simp_all add: sample_row_def new_deployment_def Let_def)
  have "fw_inv sample_settings (sample_db [sample_row Failed])"
    by (simp add: fw_inv_def distinct_ids_def active_deployments_def row_inv_def dep_wf_def sample_db_def
        sample_row_def new_deployment_def Let_def)
  from deployments_never_lost[OF this run row] f have "\<exists>d'\<in>set (deployments t). dep_id d' = ''x'' \<and> 1 \<le> dep_attempt d'"
    by auto
  with r d show ?thesis by blast
qed

section \<open>The reconciler\<close>

text \<open>C11. The classifier of stale deployments is equivalent to the reference predicate: it
  decides exactly the deployments that are not terminal and overdue (legacy rows without source
  identity, identified rollbacks, expired or unexpiring waits, stages past their timeout), and the
  decision is rolled back exactly for an identified rollback with retained identity, failed otherwise.\<close>

theorem classification_exact:
  "map_option rd_state (classify_stale_firmware_deployment d dev st now) =
     (if dep_state d \<notin> {Completed, Failed, Cancelled, Rolled_back} \<and> overdue st now d
      then Some (if rollback_identified d \<and> \<not> unproven_legacy st now d then Rolled_back else Failed)
      else None)"
  using classify_state[of d dev st now] by (auto simp: overdue_outcome_def split: if_splits)

text \<open>C12. Every deployment that is not terminal becomes overdue: there is an instant from which on
  the classifier always decides it, so no attempt can stay open for ever without new activity.\<close>

theorem classification_eventually:
  assumes "dep_state d \<in> set ACTIVE_DEPLOYMENT_STATES"
  shows "\<exists>deadline. \<forall>now\<ge>deadline. classify_stale_firmware_deployment d dev st now \<noteq> None"
proof -
  let ?late = "\<lambda>n. last_activity d + seconds (max 1 n)"
  have late: "n \<le> age_of d now" if "?late n \<le> now" for n now
    using that elapsed_seconds_ge[of "max 1 n" "last_activity d" now] unfolding age_of_def by linarith
  have "\<exists>deadline. \<forall>now\<ge>deadline. overdue st now d"
  proof (cases "stage_timeout st (dep_state d)")
    case (Some n)
    then show ?thesis using late by (intro exI[of _ "?late n"]) (auto simp: overdue_def)
  next
    case None
    have waiting: "dep_state d \<in> {Waiting_canary, Scheduled, Waiting_for_schedule}"
    proof (cases "dep_state d")
    qed (use assms None in \<open>auto simp: stage_timeout_def\<close>)
    show ?thesis
    proof (cases "dep_expires_at d")
      case None
      then show ?thesis using waiting late
        by (intro exI[of _ "?late (firmware_legacy_evidence_timeout_seconds st)"]) (auto simp: overdue_def)
    next
      case (Some t)
      then show ?thesis using waiting by (intro exI[of _ "aware t"]) (auto simp: overdue_def expired_def)
    qed
  qed
  then show ?thesis using assms by (auto simp: classify_None)
qed

theorem classification_eventually_witness:
  "\<exists>deadline. \<forall>now\<ge>deadline.
     classify_stale_firmware_deployment (sample_row Offered) sample_device sample_settings now \<noteq> None"
  by (rule classification_eventually) (simp add: sample_row_def)




text \<open>
  A bounded batch is ordered by the last change of state, not by the last activity: a download that
  entered its state earlier and still reports keeps an overdue one out of a batch of one.
\<close>

theorem batch_hides_overdue_download:
  "case reconcile_stale_firmware_deployments sample_settings 1000000000 (Some 1)
      (sample_db [(sample_row Downloading)\<lparr>dep_last_report_at := Some (Aware 999000000)\<rparr>,
         (sample_row Downloading)\<lparr>dep_id := ''y'', dep_state_changed_at := Aware 1\<rparr>]) of
     Inl _ \<Rightarrow> False
   | Inr (t, outcomes) \<Rightarrow> map dep_state (deployments t) = [Downloading, Downloading]"
  "overdue sample_settings 1000000000 ((sample_row Downloading)\<lparr>dep_id := ''y'', dep_state_changed_at := Aware 1\<rparr>)"
  subgoal by code_simp
  subgoal by (simp add: overdue_def stage_timeout_def age_of_def last_activity_def elapsed_seconds_def
        sample_defs new_deployment_def Let_def)
  done

end
