(* ===== verification/Firmware_Releases.thy ===== *)
theory Firmware_Releases
  imports Firmware_System
begin

text \<open>
  What the firmware subsystem does to its releases: a new rollout marks its release active and a
  download records a passed check or a quarantine, so a quarantined release stays quarantined whatever operations follow.
\<close>

section \<open>Operations that leave the releases alone\<close>

lemma releases_written [simp]:
  "releases (put_deployment d s) = releases s" "releases (add_audit a s) = releases s"
  by (simp_all add: put_deployment_def add_audit_def)

lemma heartbeat_releases:
  assumes "reconcile_firmware_heartbeat st now p s = Inr t"
  shows "releases t = releases s"
proof -
  have adopt: "releases u = releases s" if "adopt_target now p r (d, s) = Inr (d1, u)" for r d d1 u
    using that by (auto simp: adopt_target_def Let_def result_simps)
  have restart: "releases u = releases s" if "restart_target now p (d, s) = (d1, u)" for d d1 u
    using that by (auto simp: restart_target_def split: if_splits)
  have "releases u = releases s" if "target_identity_heartbeat st now p r d s = Inr u" for r d u
    using that by (auto simp: target_identity_heartbeat_def result_simps split: if_splits
        dest!: adopt restart)
  moreover have "releases u = releases s" if "other_identity_heartbeat st now p d s = Inr u" for d u
    using that by (auto simp: other_identity_heartbeat_def result_simps split: if_splits)
  ultimately show ?thesis
    using assms by (auto simp: reconcile_firmware_heartbeat_def result_simps flush_Inr split: option.splits if_splits)
qed

lemma reconcile_releases:
  assumes "reconcile_stale_firmware_deployments st now limit s = Inr (t, outcomes)"
  shows "releases t = releases s"
proof -
  let ?P = "\<lambda>x :: fw_db \<times> (string, int) dict. releases (fst x) = releases s"
  have one: "?P v" if "reconcile_one st now row u = Inr v" "?P u" for row u v
    using that by (auto simp: reconcile_one_def Let_def result_simps split: prod.splits option.splits if_splits)
  obtain rows o' where "foldE (reconcile_one st now) rows (s, o') = Inr (t, outcomes)"
    using assms by (auto simp: reconcile_stale_firmware_deployments_def Let_def)
  from foldE_invariant[OF this, of ?P] one show ?thesis by auto
qed

lemma queue_releases:
  assumes "queue_headless_ota_command d device r now s = Inr t"
  shows "releases t = releases s"
  using assms by (auto simp: queue_headless_ota_command_def add_command_def split: if_splits option.splits)

lemma create_releases:
  assumes "create_deployments pr st now fresh_group fresh q s = Inr (t, ids)"
  shows "\<exists>r. releases s (rq_release_id q) = Some r
    \<and> releases t = (releases s)(rq_release_id q \<mapsto> r\<lparr>rel_active := True\<rparr>)"
proof -
  let ?P = "\<lambda>x :: fw_db \<times> string list. releases (fst x) = releases s"
  have inserted: "releases v = releases u" if "insert_deployment d u = Inr v" for d u v
    using that by (auto simp: insert_deployment_def flush_Inr split: if_splits)
  have first: "releases v = releases u" if "queue_first n d device r now u = Inr v" for n d device r u v
    using that queue_releases by (auto simp: queue_first_def split: if_splits)
  have one: "?P v" if "create_one pr st now q r priors grp fresh target u = Inr v" "?P u" for r priors grp target u v
    using that
    by (auto simp: create_one_def Let_def result_simps split: prod.splits option.splits if_splits
        dest!: inserted first)
  obtain r priors grp targets u where
      run: "foldE (create_one pr st now q r priors grp fresh) targets (s, []) = Inr (u, ids)"
    and r: "releases s (rq_release_id q) = Some r"
    and t: "releases t = (releases u)(rq_release_id q \<mapsto> r\<lparr>rel_active := True\<rparr>)"
    using assms by (auto simp: create_deployments_def Let_def result_simps split: option.splits if_splits)
  from foldE_invariant[OF run, of ?P] one have "releases u = releases s" by auto
  with r t show ?thesis by simp
qed

lemma operator_releases:
  "cancel_deployment pr now i s = Inr (t, row) \<Longrightarrow> releases t = releases s"
  "retry_deployment pr st now i s = Inr (t, row) \<Longrightarrow> releases t = releases s"
  "promote_canary pr st now i s = Inr (t, outcome) \<Longrightarrow> releases t = releases s"
  subgoal by (auto simp: cancel_deployment_def result_simps flush_Inr split: if_splits)
  subgoal by (auto simp: retry_deployment_def Let_def result_simps flush_Inr split: if_splits option.splits
        dest!: queue_releases)
  subgoal by (auto simp: promote_canary_def Let_def result_simps flush_Inr split: if_splits option.splits
        dest!: queue_releases)
  done

lemma sensor_releases:
  "confirm_firmware_reading st now i readings durable s = Inr t \<Longrightarrow> releases t = releases s"
  "report_deployment now i rp s = Inr (t, answer) \<Longrightarrow> releases t = releases s"
  "record_headless_ota_result command result state now s = Inr t \<Longrightarrow> releases t = releases s"
  "record_headless_ota_heartbeat st now ah s = Inr t \<Longrightarrow> releases t = releases s"
  "firmware_manifest sg hkdf hmac secret now device s = Inr (t, manifest) \<Longrightarrow> releases t = releases s"
  subgoal by (auto simp: confirm_firmware_reading_def result_simps flush_Inr split: if_splits option.splits)
  subgoal by (auto simp: report_deployment_def accept_report_def result_simps flush_Inr split: if_splits option.splits)
  subgoal by (auto simp: record_headless_ota_result_def Let_def result_simps flush_Inr split: if_splits option.splits)
  subgoal by (auto simp: record_headless_ota_heartbeat_def result_simps flush_Inr split: if_splits option.splits)
  subgoal by (auto simp: firmware_manifest_def Let_def result_simps flush_Inr
        split: if_splits option.splits sum.splits)
  done

section \<open>Quarantine\<close>

definition releases_keyed :: "fw_db \<Rightarrow> bool" where
  "releases_keyed s \<longleftrightarrow> (\<forall>i r. releases s i = Some r \<longrightarrow> rel_id r = i)"

definition quarantined :: "fw_db \<Rightarrow> string \<Rightarrow> bool" where
  "quarantined s i \<longleftrightarrow> (\<exists>r. releases s i = Some r \<and> rel_verification_status r = ''quarantined'')"

lemma download_cases:
  assumes "device_download_firmware sg v now device ri di s = (a, t)"
  shows "(\<exists>e. a = Inl e) \<and> t = s
    \<or> (\<exists>d r. find_deployment s di = Some d \<and> releases s ri = Some r \<and> download_authorized d r (fd_id device) now
        \<and> verified_artifact sg v now r s = (a, t))"
proof -
  define gate where "gate = bindE (ensure_device_reset_mutations_allowed s [fd_id device]) (\<lambda>_.
      case (find_deployment s di, releases s ri) of
        (Some d, Some r) \<Rightarrow>
          if \<not> download_authorized d r (fd_id device) now then Inl (FwProblem 404 ''firmware_unavailable'')
          else (case release_compatibility device (capabilities s (fd_id device)) r of
             Inl e \<Rightarrow> Inl (FwValue e)
           | Inr c \<Rightarrow> if reasons_remaining True d c \<noteq> {} then Inl (FwProblem 409 ''firmware_incompatible'')
               else Inr r)
      | _ \<Rightarrow> Inl (FwProblem 404 ''firmware_unavailable''))"
  have run: "device_download_firmware sg v now device ri di s =
      (case gate of Inl e \<Rightarrow> (Inl e, s) | Inr r \<Rightarrow> verified_artifact sg v now r s)"
    by (simp only: device_download_firmware_def gate_def)
  show ?thesis
  proof (cases gate)
    case (Inl e)
    then show ?thesis using run assms by simp
  next
    case (Inr r)
    then have "\<exists>d. find_deployment s di = Some d \<and> releases s ri = Some r \<and> download_authorized d r (fd_id device) now"
      by (auto simp: gate_def bindE_eq_Inr split: option.splits if_splits sum.splits)
    then show ?thesis using run assms Inr by auto
  qed
qed

text \<open>An artifact check passes the path on, or quarantines, and changes no other release.\<close>

lemma verified_artifact_releases:
  assumes "verified_artifact sg v now r s = (a, t)" and "releases s ri = Some r" and "releases_keyed s"
  shows "\<exists>r'. releases t = (releases s)(ri \<mapsto> r') \<and> rel_id r' = rel_id r
    \<and> rel_verification_status r' \<in> {rel_verification_status r, ''quarantined''}"
proof -
  have "rel_id r = ri" and same: "releases s = (releases s)(ri \<mapsto> r)"
    using assms(2,3) by (auto simp: releases_keyed_def)
  then show ?thesis
    using assms(1)
    by (auto simp: verified_artifact_def put_release_def split: sum.splits option.splits if_splits intro!: exI)
qed

lemma operation_keeps_quarantine:
  assumes "fw_operation st s t" and "releases_keyed s"
  shows "releases_keyed t \<and> (quarantined s i \<longrightarrow> quarantined t i)"
proof -
  have "releases t = releases s \<or> (\<exists>ri r r'. releases s ri = Some r \<and> releases t = (releases s)(ri \<mapsto> r')
      \<and> rel_id r' = rel_id r \<and> rel_verification_status r' \<in> {rel_verification_status r, ''quarantined''})"
    using assms(1)
  proof cases
    case Download
    with download_cases[OF this] verified_artifact_releases[OF _ _ assms(2)] show ?thesis by blast
  next
    case Create
    from create_releases[OF this] obtain ri r where r: "releases s ri = Some r"
      "releases t = (releases s)(ri \<mapsto> r\<lparr>rel_active := True\<rparr>)" by blast
    then show ?thesis by (intro disjI2 exI[of _ ri] exI[of _ r] exI[of _ "r\<lparr>rel_active := True\<rparr>"]) simp
  qed (simp_all add: heartbeat_releases reconcile_releases operator_releases sensor_releases)
  then show ?thesis using assms(2) by (auto simp: releases_keyed_def quarantined_def split: if_splits)
qed

text \<open>A quarantined release is not served.\<close>

lemma quarantined_not_served:
  assumes "quarantined s ri"
  shows "\<exists>e. device_download_firmware sg v now device ri di s = (Inl e, s)"
proof -
  obtain a t where run: "device_download_firmware sg v now device ri di s = (a, t)" by fastforce
  from download_cases[OF this] assms run show ?thesis
    by (auto simp: quarantined_def download_authorized_def release_servable_def)
qed

text \<open>
  The rest of the server uploads new releases under fresh ids and never writes an existing row, so
  what happens later is a sequence of operations and of changes that leave the release's row alone.
\<close>

definition later_step :: "fw_settings \<Rightarrow> string \<Rightarrow> fw_db \<Rightarrow> fw_db \<Rightarrow> bool" where
  "later_step st i s t \<longleftrightarrow> fw_operation st s t \<or> releases_keyed t \<and> releases t i = releases s i"

lemma later_quarantined:
  assumes "(later_step st i)\<^sup>*\<^sup>* s t" and "releases_keyed s" and "quarantined s i"
  shows "quarantined t i"
proof -
  from assms have "releases_keyed t \<and> quarantined t i"
  proof (induction rule: rtranclp_induct)
    case (step y z)
    then show ?case using operation_keeps_quarantine[of st y z i]
      by (auto simp: later_step_def quarantined_def)
  qed simp
  then show ?thesis by simp
qed

end
