(* ===== verification/Firmware_Evidence.thy ===== *)
theory Firmware_Evidence
  imports Firmware_Releases Firmware_Samples Ota_Properties
begin

text \<open>
  Properties of single handlers and routes: what a sensor's heartbeats and reports can and cannot do
  to a deployment, idempotence of reports and of rollout requests, one sensor at a time in a rollout,
  the authenticity of what a sensor is offered, and executions in which the handlers miss what their
  comments promise.
\<close>

section \<open>Evidence from the sensor\<close>

lemma adopt_total:
  assumes "dep_state d \<in> set ACTIVE_DEPLOYMENT_STATES \<or> target_supersedes_terminal_report d p r"
  shows "\<exists>d' s'. adopt_target now p r (d, s) = Inr (d', s')"
proof -
  have "dep_state d = Awaiting_heartbeat \<or> transition_allowed (dep_state d) Awaiting_heartbeat True
      (target_supersedes_terminal_report d p r) False"
    using assms by (auto simp: transition_allowed_def target_supersedes_terminal_report_def)
  then show ?thesis by (auto simp: adopt_target_def transition_firmware_deployment_def Let_def)
qed

lemma target_heartbeat_total:
  assumes "dep_state d \<in> set ACTIVE_DEPLOYMENT_STATES \<or> target_supersedes_terminal_report d p r"
  shows "\<exists>t. target_identity_heartbeat st now p r d s = Inr t"
proof -
  obtain d1 s1 where one: "(if dep_state d \<notin> {Validated, Awaiting_heartbeat} then adopt_target now p r (d, s)
            else Inr (restart_target now p (d, s))) = Inr (d1, s1)"
  proof (cases "dep_state d \<in> {Validated, Awaiting_heartbeat}")
    case True
    then show ?thesis using that by (cases "restart_target now p (d, s)") auto
  next
    case False
    then show ?thesis using that adopt_total[OF assms, of now s] by auto
  qed
  obtain d2 where two: "begin_stabilization now (keep_target_boot now p d1) = Inr d2"
    using begin_stabilization_total by blast
  obtain d3 where "count_heartbeat st now s1 d2 = Inr d3"
    using complete_total unfolding count_heartbeat_def by blast
  with one two show ?thesis unfolding target_identity_heartbeat_def by auto
qed

lemma other_heartbeat_total:
  assumes "dep_state d \<in> set ACTIVE_DEPLOYMENT_STATES"
  shows "\<exists>t. other_identity_heartbeat st now p d s = Inr t"
proof -
  have "\<exists>x. transition_firmware_deployment d Rolled_back now True False False = Inr x"
    using assms by (auto simp: transition_firmware_deployment_def transition_allowed_def)
  moreover have "\<exists>x. plain_transition d Failed now = Inr x" if "interruption_proven d p st now"
  proof -
    have "dep_state d \<in> {Manifest_authenticated, Download_started, Downloading, Binary_verified}"
      using that by (simp add: interruption_proven_def Let_def)
    then have "Failed \<in> set (DEPLOYMENT_TRANSITIONS (dep_state d))" by auto
    from plain_transition_ok[OF this] show ?thesis by blast
  qed
  ultimately show ?thesis by (auto simp: other_identity_heartbeat_def)
qed

lemma active_row_changed:
  assumes "changes_row (\<lambda>e e'. e = d \<and> row_step st e e') s t" and "distinct_ids s"
    and "dep_state d \<notin> {Completed, Failed, Cancelled, Rolled_back}" and "d \<in> set (deployments s)"
    and "distinct (map dep_device_id (active_deployments s))"
  shows "distinct (map dep_device_id (active_deployments t))"
proof (cases "deployments t = deployments s")
  case True
  then show ?thesis using assms(5) active_cong[OF True] by simp
next
  case False
  with assms(1) obtain d' where step: "row_step st d d'" and t: "deployments t = deployments (put_deployment d' s)"
    by (auto simp: changes_row_def)
  have same: "dep_id d' = dep_id d" "dep_device_id d' = dep_device_id d"
    using step by (auto simp: row_step_def same_row_def)
  have rows: "deployments t = map (\<lambda>x. if x = d then d' else x) (deployments s)"
    unfolding t by (rule put_settled[OF assms(2,4) same(1)])
  show ?thesis
    unfolding active_deployments_def rows
    by (rule distinct_filter_map) (use assms(3,5) same in \<open>auto simp: active_deployments_def\<close>)
qed

text \<open>C14. The heartbeat hook never attempts a forbidden transition: it succeeds, or what it did
  is refused by the index that allows one open deployment per device, and that can only happen
  when the heartbeat superseded a terminal report.\<close>

theorem heartbeat_never_invalid:
  assumes "distinct (map dep_device_id (active_deployments s))" and "distinct (map dep_id (deployments s))"
  shows "(\<exists>t. reconcile_firmware_heartbeat st now p s = Inr t)
    \<or> (reconcile_firmware_heartbeat st now p s = Inl (FwIntegrity ''uq_firmware_deployment_active_device'')
       \<and> (\<exists>d r. d \<in> set (deployments s) \<and> releases s (dep_release_id d) = Some r
            \<and> dep_state d \<in> {Failed, Rolled_back} \<and> target_supersedes_terminal_report d p r))"
proof (rule ccontr)
  assume not: "\<not> ?thesis"
  then have "\<nexists>t. reconcile_firmware_heartbeat st now p s = Inr t" by blast
  then obtain d r where
    sel: "latest_scheduled (filter (\<lambda>d. dep_device_id d = hp_device_id p
             \<and> dep_state d \<in> set HEARTBEAT_STATES) (deployments s)) = Some d"
    and rel: "releases s (dep_release_id d) = Some r"
    and keep: "\<not> (dep_state d \<in> {Failed, Rolled_back} \<and> \<not> target_supersedes_terminal_report d p r)"
    by (auto simp: reconcile_firmware_heartbeat_def split: option.splits if_splits)
  have d: "d \<in> set (deployments s)" "dep_state d \<notin> {Completed, Cancelled}"
    using latest_scheduled_Some[OF sel] by (auto simp: HEARTBEAT_STATES_def)
  define run where "run = (if target_identity p r then target_identity_heartbeat st now p r d s
                           else other_identity_heartbeat st now p d s)"
  have eq: "reconcile_firmware_heartbeat st now p s = bindE run flush"
    using sel rel keep by (auto simp: reconcile_firmware_heartbeat_def run_def)
  have supers: "dep_state d \<in> set ACTIVE_DEPLOYMENT_STATES \<or> target_supersedes_terminal_report d p r"
    using d(2) keep by auto
  then obtain t where t: "run = Inr t"
    unfolding run_def
    using target_heartbeat_total[of d p r st now s] other_heartbeat_total[of d st now p s]
    by (cases "target_identity p r") (auto simp: target_supersedes_terminal_report_def)
  with eq not have idx: "\<not> distinct (map dep_device_id (active_deployments t))"
    and closed: "dep_state d \<notin> {Failed, Rolled_back} \<or> \<not> target_supersedes_terminal_report d p r"
    using d(1) rel by (auto simp: flush_def split: if_splits)
  then have act: "dep_state d \<notin> {Completed, Failed, Cancelled, Rolled_back}" using keep d(2) by auto
  then have "changes_row (\<lambda>e e'. e = d \<and> row_step st e e') s t"
    using t target_heartbeat_step[of st now p r d s t] other_heartbeat_step[of st now p d s t] d
    unfolding run_def by (auto split: if_splits)
  then have "distinct (map dep_device_id (active_deployments t))"
    using active_row_changed[OF _ _ act d(1) assms(1)] assms(2) by (simp add: distinct_ids_def)
  with idx show False ..
qed

theorem heartbeat_never_invalid_witness:
  "\<exists>t. reconcile_firmware_heartbeat sample_settings 0 (sample_heartbeat ''b1'' 1) (sample_db [sample_row Rebooting]) = Inr t"
proof -
  let ?s = "sample_db [sample_row Rebooting]"
  have "distinct (map dep_device_id (active_deployments ?s))" "distinct (map dep_id (deployments ?s))"
    by (simp_all add: active_deployments_def sample_db_def)
  moreover have "deployments ?s = [sample_row Rebooting]" "dep_state (sample_row Rebooting) = Rebooting"
    by (simp_all add: sample_db_def sample_row_def)
  ultimately show ?thesis
    using heartbeat_never_invalid[of ?s sample_settings 0 "sample_heartbeat ''b1'' 1"] by auto
qed



text \<open>C15. A reboot of the target image restarts its proof: when a heartbeat of the target arrives
  with another boot id than the retained one, the deployment is still waiting afterwards, with at most
  this one heartbeat counted, no confirmed reading, a stabilization window that starts now, and the
  new boot retained.\<close>

theorem target_reboot_restarts_proof:
  assumes "reconcile_firmware_heartbeat st now p s = Inr t"
    and "latest_scheduled (filter (\<lambda>d. dep_device_id d = hp_device_id p
             \<and> dep_state d \<in> set HEARTBEAT_STATES) (deployments s)) = Some d"
    and "releases s (dep_release_id d) = Some r" and "target_identity p r"
    and "dep_state d \<in> {Validated, Awaiting_heartbeat}"
    and "truthy (dep_last_boot_id d)" and "dep_last_boot_id d \<noteq> Some (hp_boot_id p)"
  shows "\<exists>d'\<in>set (deployments t). dep_id d' = dep_id d \<and> dep_state d' \<in> {Validated, Awaiting_heartbeat}
    \<and> dep_verification_heartbeats d' \<le> 1 \<and> dep_reading_confirmed_at d' = None
    \<and> dep_stabilization_started_at d' = Some (Aware now) \<and> dep_last_boot_id d' = Some (hp_boot_id p)"
proof -
  have d: "d \<in> set (deployments s)" using latest_scheduled_Some[OF assms(2)] by simp
  obtain d1 s1 where r: "restart_target now p (d, s) = (d1, s1)" by fastforce
  define k where "k = keep_target_boot now p d1"
  have s1: "deployments s1 = deployments s" "dep_id d1 = dep_id d" "dep_state d1 = dep_state d"
    using restart_step[OF r] by (auto simp: same_row_def)
  have k: "dep_id k = dep_id d" "dep_state k = dep_state d" "dep_verification_heartbeats k = 0"
    "dep_reading_confirmed_at k = None" "dep_stabilization_started_at k = Some (Aware now)"
    "dep_last_boot_id k = Some (hp_boot_id p)"
    using r assms(6,7) by (auto simp: k_def restart_target_def keep_target_boot_def Let_def)
  obtain d2 where b: "begin_stabilization now k = Inr d2" using begin_stabilization_total by blast
  have d2: "dep_id d2 = dep_id d" "dep_state d2 = Awaiting_heartbeat" "dep_verification_heartbeats d2 = 0"
    "dep_reading_confirmed_at d2 = None" "dep_stabilization_started_at d2 = Some (Aware now)"
    "dep_last_boot_id d2 = Some (hp_boot_id p)"
    using b k assms(5)
    by (auto simp: begin_stabilization_def transition_firmware_deployment_def transition_allowed_def
        enter_state_def split: if_splits)
  define d3 where "d3 = d2\<lparr>dep_verification_heartbeats := 1\<rparr>"
  have c: "count_heartbeat st now s1 d2 = Inr d3"
    using d2 by (simp add: count_heartbeat_def complete_firmware_if_stable_def d3_def)
  have "t = put_deployment (if heartbeat_healthy p then d3 else k) s1"
    using assms(1-5) r b c
    by (auto simp: reconcile_firmware_heartbeat_def target_identity_heartbeat_def k_def bindE_eq_Inr flush_Inr
        split: if_splits)
  moreover have "x \<in> set (deployments (put_deployment x s1))" if "dep_id x = dep_id d" for x
    using d s1(1) that by (force simp: put_deployment_def)
  ultimately show ?thesis
    using k d2 assms(5) by (intro bexI[of _ "if heartbeat_healthy p then d3 else k"]) (auto simp: d3_def)
qed

lemma sample_reboot:
  "case reconcile_firmware_heartbeat sample_settings 100000000 (sample_heartbeat ''b2'' 6)
      (sample_db [proven_row Awaiting_heartbeat]) of Inl _ \<Rightarrow> False | Inr t \<Rightarrow> True"
  "latest_scheduled (filter (\<lambda>d. dep_device_id d = hp_device_id (sample_heartbeat ''b2'' 6)
      \<and> dep_state d \<in> set HEARTBEAT_STATES) (deployments (sample_db [proven_row Awaiting_heartbeat])))
     = Some (proven_row Awaiting_heartbeat)"
  "releases (sample_db [proven_row Awaiting_heartbeat]) (dep_release_id (proven_row Awaiting_heartbeat)) = Some sample_release"
  "target_identity (sample_heartbeat ''b2'' 6) sample_release"
  by code_simp+

theorem target_reboot_restarts_proof_witness:
  "\<exists>t. reconcile_firmware_heartbeat sample_settings 100000000 (sample_heartbeat ''b2'' 6)
       (sample_db [proven_row Awaiting_heartbeat]) = Inr t
     \<and> (\<exists>d\<in>set (deployments t). dep_verification_heartbeats d \<le> 1 \<and> dep_reading_confirmed_at d = None)"
proof -
  obtain t where t: "reconcile_firmware_heartbeat sample_settings 100000000 (sample_heartbeat ''b2'' 6)
       (sample_db [proven_row Awaiting_heartbeat]) = Inr t"
    using sample_reboot(1) by (auto split: sum.splits)
  have "dep_state (proven_row Awaiting_heartbeat) \<in> {Validated, Awaiting_heartbeat}"
    "truthy (dep_last_boot_id (proven_row Awaiting_heartbeat))"
    "dep_last_boot_id (proven_row Awaiting_heartbeat) \<noteq> Some (hp_boot_id (sample_heartbeat ''b2'' 6))"
    by (simp_all add: proven_row_def sample_row_def sample_heartbeat_def)
  from target_reboot_restarts_proof[OF t sample_reboot(2-4) this] t show ?thesis by blast
qed


section \<open>Reports\<close>

lemma find_put:
  assumes "find_deployment s i = Some d" and "dep_id d' = i"
  shows "find_deployment (put_deployment d' s) i = Some d'"
proof -
  have "find (\<lambda>d. dep_id d = i) ds = Some d \<Longrightarrow>
      find (\<lambda>d. dep_id d = i) (map (\<lambda>x. if dep_id x = dep_id d' then d' else x) ds) = Some d'" for ds
    using assms(2) by (induction ds) (auto split: if_splits)
  then show ?thesis using assms(1) by (simp add: find_deployment_def put_deployment_def)
qed

lemma put_gate:
  "releases (put_deployment d s) = releases s"
  "ensure_device_reset_mutations_allowed (put_deployment d s) is = ensure_device_reset_mutations_allowed s is"
proof -
  have "reset_blocked (put_deployment d s) i = reset_blocked s i" for i
    by (simp add: reset_blocked_def put_deployment_def)
  then show "ensure_device_reset_mutations_allowed (put_deployment d s) is = ensure_device_reset_mutations_allowed s is"
    by (simp add: ensure_device_reset_mutations_allowed_def) (simp add: put_deployment_def)
qed (simp add: put_deployment_def)

text \<open>C17. An accepted report changes at most the deployment it names, and that along the state graph:
  either nothing changes and the report is answered as a duplicate, or the row takes the reported
  state, which follows its state in the graph or repeats downloading, with revision increased by one
  and the progress and received bytes never decreasing.\<close>

theorem report_follows_lifecycle:
  assumes "report_deployment now i p s = Inr (t, a)" and "valid_report p"
  shows "t = s \<and> rr_duplicate a
    \<or> (\<exists>d d'. find_deployment s (rp_deployment_id p) = Some d
        \<and> t = put_deployment d' s \<and> \<not> rr_duplicate a
        \<and> dep_id d' = dep_id d \<and> dep_device_id d = i \<and> dep_attempt d' = rp_attempt p
        \<and> dep_state d' = rp_state p
        \<and> (rp_state p \<in> set (DEPLOYMENT_TRANSITIONS (dep_state d)) \<or> rp_state p = Downloading \<and> dep_state d = Downloading)
        \<and> dep_revision d' = dep_revision d + 1
        \<and> dep_progress d \<le> dep_progress d' \<and> dep_bytes_received d \<le> dep_bytes_received d')"
proof -
  obtain d r where f: "find_deployment s (rp_deployment_id p) = Some d" and dev: "dep_device_id d = i"
    and m: "report_matches p d r = Inr ()" and acc: "accept_report now p r d s = Inr (t, a)"
    using report_deployment_Inr[OF assms(1)] by metis
  have att: "dep_attempt d = rp_attempt p" using m by (auto simp: report_matches_def Let_def split: if_splits)
  from accept_report_cases[OF acc] show ?thesis
  proof
    assume "t = s \<and> a = report_answer True d"
    then show ?thesis by (simp add: report_answer_def)
  next
    assume "\<exists>d'. report_follows p d = Inr () \<and> apply_report now p r d = Inr d'
         \<and> flush (put_deployment d' s) = Inr t \<and> a = report_answer False d'"
    then obtain d' where fl: "report_follows p d = Inr ()" and ap: "apply_report now p r d = Inr d'"
      and t: "flush (put_deployment d' s) = Inr t" and a: "a = report_answer False d'" by blast
    note step = apply_report_step[OF ap assms(2)]
    have "dep_id d' = dep_id d" "dep_attempt d' = dep_attempt d" using step by (auto simp: same_row_def)
    moreover have "t = put_deployment d' s" using t by (simp add: flush_Inr)
    ultimately show ?thesis
      using f dev att a step report_follows_graph[OF fl]
      by (intro disjI2 exI[of _ d] exI[of _ d']) (auto simp: report_answer_def)
  qed
qed

lemma sample_reports:
  "case report_deployment 1 sample_id sample_report (sample_db [sample_row Offered]) of
     Inl _ \<Rightarrow> False | Inr (t, a) \<Rightarrow> \<not> rr_duplicate a \<and> map dep_state (deployments t) = [Manifest_authenticated]"
  "valid_report sample_report"
  by code_simp+

theorem report_follows_lifecycle_witness:
  "\<exists>t a d d'. report_deployment 1 sample_id sample_report (sample_db [sample_row Offered]) = Inr (t, a)
     \<and> find_deployment (sample_db [sample_row Offered]) ''x'' = Some d
     \<and> t = put_deployment d' (sample_db [sample_row Offered]) \<and> dep_state d' = Manifest_authenticated \<and> dep_revision d' = dep_revision d + 1"
proof -
  obtain t a where r: "report_deployment 1 sample_id sample_report (sample_db [sample_row Offered]) = Inr (t, a)"
    and a: "\<not> rr_duplicate a" using returned_pair[OF sample_reports(1)] by blast
  have "rp_deployment_id sample_report = ''x''" "rp_state sample_report = Manifest_authenticated"
    by (simp_all add: sample_report_def)
  with report_follows_lifecycle[OF r sample_reports(2)] a obtain d d' where
    "find_deployment (sample_db [sample_row Offered]) ''x'' = Some d"
    "t = put_deployment d' (sample_db [sample_row Offered])" "dep_state d' = Manifest_authenticated" "dep_revision d' = dep_revision d + 1" by auto
  with r show ?thesis by (intro exI conjI)
qed


text \<open>C16. Reports are idempotent: sending an accepted report again, at any later time, changes nothing
  and is answered as a duplicate with the state, revision and attempt of the first answer.\<close>

theorem report_retry_idempotent:
  assumes "report_deployment now i p s = Inr (t, a)" and "valid_report p"
  shows "report_deployment now' i p t = Inr (t, a\<lparr>rr_duplicate := True\<rparr>)"
proof -
  obtain d r where f: "find_deployment s (rp_deployment_id p) = Some d"
    and rel: "releases s (dep_release_id d) = Some r" "rel_id r = rp_release_id p"
    and dev: "dep_device_id d = i" "rp_device p = i"
    and gate: "ensure_device_reset_mutations_allowed s [i] = Inr ()"
    and m: "report_matches p d r = Inr ()" and acc: "accept_report now p r d s = Inr (t, a)"
    using report_deployment_Inr[OF assms(1)] by metis
  from accept_report_cases[OF acc] show ?thesis
  proof
    assume same: "t = s \<and> a = report_answer True d"
    then have "accept_report now' p r d s = Inr (s, report_answer True d)"
    proof -
      have "\<not> (\<exists>d'. a = report_answer False d')" using same by (simp add: report_answer_def)
      then have "duplicate_report p d \<or> \<not> stale_evidence p d \<and> is_superseded_target_report d r (rp_state p)
             (rp_current_firmware_version p) (rp_current_build_hash p)"
        using acc by (auto simp: accept_report_def bindE_eq_Inr split: if_splits)
      then show ?thesis by (auto simp: accept_report_def)
    qed
    then show ?thesis
      using same f rel dev gate m by (simp add: report_deployment_def report_answer_def)
  next
    assume "\<exists>d'. report_follows p d = Inr () \<and> apply_report now p r d = Inr d'
         \<and> flush (put_deployment d' s) = Inr t \<and> a = report_answer False d'"
    then obtain d' where ap: "apply_report now p r d = Inr d'"
      and t: "flush (put_deployment d' s) = Inr t" and a: "a = report_answer False d'" by blast
    note step = apply_report_step[OF ap assms(2)]
    have row: "dep_id d' = dep_id d" "dep_attempt d' = dep_attempt d" "dep_device_id d' = dep_device_id d"
      "dep_release_id d' = dep_release_id d" "dep_state d' = rp_state p" "dep_last_report_payload d' = report_data p"
      using step by (auto simp: same_row_def)
    have t': "t = put_deployment d' s" using t by (simp add: flush_Inr)
    have "find_deployment t (rp_deployment_id p) = Some d'"
      using find_put[OF f] row(1) find_deployment_Some[OF f] t' by simp
    moreover have "releases t = releases s" "ensure_device_reset_mutations_allowed t [i] = Inr ()"
      using gate t' put_gate by simp_all
    moreover have "rp_state p \<notin> {Awaiting_heartbeat, Completed}"
      using assms(2) by (auto simp: valid_report_def DEVICE_REPORT_STATES_def)
    then have "report_matches p d' r = Inr ()"
      using m row(2,5) by (auto simp: report_matches_def Let_def split: if_splits)
    moreover have "accept_report now' p r d' t = Inr (t, report_answer True d')"
      using row(6) by (simp add: accept_report_def duplicate_report_def)
    ultimately show ?thesis
      using rel dev row a by (simp add: report_deployment_def report_answer_def)
  qed
qed

theorem report_retry_idempotent_witness:
  "\<exists>t a. report_deployment 1 sample_id sample_report (sample_db [sample_row Offered]) = Inr (t, a)
     \<and> \<not> rr_duplicate a \<and> report_deployment 99 sample_id sample_report t = Inr (t, a\<lparr>rr_duplicate := True\<rparr>)"
  using returned_pair[OF sample_reports(1)] report_retry_idempotent[OF _ sample_reports(2)] by metis



section \<open>Rollouts\<close>

lemma create_one_prior:
  assumes "create_one pr st now q r priors g fresh (n, i) (s, ids) = Inr (t, ids')"
    and "\<And>device. fw_devices s i = Some device \<Longrightarrow> fd_id device = i"
    and "find (\<lambda>d. dep_device_id d = i) (rev priors) = Some d"
  shows "t = s \<and> ids' = ids @ [dep_id d]"
  using assms by (auto simp: create_one_def bindE_eq_Inr split: option.splits if_splits)

lemma create_all_prior:
  assumes "foldE (create_one pr st now q r priors g fresh) (List.enumerate n is) (s, ids) = Inr (t, ids')"
    and "\<And>i device. fw_devices s i = Some device \<Longrightarrow> fd_id device = i"
    and "\<And>i. i \<in> set is \<Longrightarrow> find (\<lambda>d. dep_device_id d = i) (rev priors) = Some (f i)"
  shows "t = s \<and> ids' = ids @ map (dep_id \<circ> f) is"
  using assms
proof (induction "is" arbitrary: n ids)
  case Nil
  then show ?case by simp
next
  case (Cons i "is")
  obtain u ui where one: "create_one pr st now q r priors g fresh (n, i) (s, ids) = Inr (u, ui)"
    and rest: "foldE (create_one pr st now q r priors g fresh) (List.enumerate (Suc n) is) (u, ui) = Inr (t, ids')"
    using Cons.prems(1) by (auto simp: bindE_eq_Inr)
  have "u = s" "ui = ids @ [dep_id (f i)]"
    using create_one_prior[OF one Cons.prems(2) Cons.prems(3)] by auto
  then show ?case using Cons.IH[of "Suc n" ui] rest Cons.prems(2,3) by simp
qed

lemma find_distinct_key:
  assumes "distinct (map k xs)" and "x \<in> set xs"
  shows "find (\<lambda>y. k y = k x) (rev xs) = Some x"
proof -
  have "find (\<lambda>y. k y = k x) ys = Some x" if "distinct (map k ys)" "x \<in> set ys" for ys
    using that by (induction ys) (auto simp: rev_image_eqI)
  from this[of "rev xs"] show ?thesis using assms by (simp add: rev_map[symmetric])
qed

text \<open>Replaying a rollout request under its idempotency key creates nothing: when deployments of
  that key exist, a request that is answered at all adds no deployment and no command, and its answer
  names the existing deployments in rollout order.\<close>

theorem rollout_replay_creates_nothing:
  assumes "create_deployments pr st now fresh_group fresh q s = Inr (t, ids)" and "valid_request q"
    and "prior_rows s q \<noteq> []" and "\<forall>i device. fw_devices s i = Some device \<longrightarrow> fd_id device = i"
  shows "deployments t = deployments s \<and> ota_commands t = ota_commands s \<and> ids = map dep_id (prior_rows s q)"
proof -
  let ?p = "prior_rows s q"
  obtain r u where ok: "\<not> prior_conflict q r ?p"
    and run: "foldE (create_one pr st now q r ?p (rollout_group q ?p fresh_group) fresh)
      (List.enumerate 0 (rq_device_ids q)) (s, []) = Inr (u, ids)"
    and t: "deployments t = deployments u" "ota_commands t = ota_commands u"
    using assms(1,3) by (auto simp: create_deployments_def result_simps Let_def add_audit_def split: option.splits if_splits)
  have devs: "map dep_device_id ?p = rq_device_ids q" using ok by (simp add: prior_conflict_def Let_def)
  then have dist: "distinct (map dep_device_id ?p)" using assms(2) by (simp add: valid_request_def)
  define f where "f i = the (find (\<lambda>d. dep_device_id d = i) (rev ?p))" for i
  have f: "find (\<lambda>d. dep_device_id d = dep_device_id x) (rev ?p) = Some x" if "x \<in> set ?p" for x
    by (rule find_distinct_key[OF dist that])
  have fx: "find (\<lambda>d. dep_device_id d = i) (rev ?p) = Some (f i)" if i: "i \<in> set (rq_device_ids q)" for i
  proof -
    obtain x where x: "x \<in> set ?p" "i = dep_device_id x" using i unfolding devs[symmetric] by auto
    show ?thesis using f[OF x(1)] unfolding x(2) f_def by simp
  qed
  have "u = s \<and> ids = [] @ map (dep_id \<circ> f) (rq_device_ids q)"
    by (rule create_all_prior[OF run _ fx]) (use assms(4) in blast)
  moreover have "map (dep_id \<circ> f) (rq_device_ids q) = map dep_id ?p"
    unfolding devs[symmetric] using f by (simp add: f_def)
  ultimately show ?thesis using t by simp
qed

lemma sample_replay:
  "case create_deployments sample_operator sample_settings 5 ''h'' (\<lambda>_. ''y'') sample_request
      (sample_db [sample_row Offered]) of Inl _ \<Rightarrow> False | Inr (t, ids) \<Rightarrow> True"
  "valid_request sample_request"
  "prior_rows (sample_db [sample_row Offered]) sample_request = [sample_row Offered]"
  by code_simp+

theorem rollout_replay_creates_nothing_witness:
  "\<exists>t. create_deployments sample_operator sample_settings 5 ''h'' (\<lambda>_. ''y'') sample_request
        (sample_db [sample_row Offered]) = Inr (t, [''x'']) \<and> deployments t = [sample_row Offered]"
proof -
  obtain t ids where r: "create_deployments sample_operator sample_settings 5 ''h'' (\<lambda>_. ''y'') sample_request
      (sample_db [sample_row Offered]) = Inr (t, ids)" using returned_pair[OF sample_replay(1)] by blast
  have "\<forall>i device. fw_devices (sample_db [sample_row Offered]) i = Some device \<longrightarrow> fd_id device = i"
    by (auto simp: sample_db_def sample_device_def split: if_splits)
  from rollout_replay_creates_nothing[OF r sample_replay(2) _ this] sample_replay(3)
  have "deployments t = deployments (sample_db [sample_row Offered])" "ids = map dep_id [sample_row Offered]" by simp_all
  moreover have "dep_id (sample_row Offered) = ''x''" by (simp add: sample_row_def new_deployment_def Let_def)
  ultimately show ?thesis using r by (simp add: sample_db_def)
qed


text \<open>Rollouts run one sensor at a time: a promotion that moves a deployment needs a completed and
  verified member of the same group, finds no member of the group under way, and schedules the
  waiting member with the least rollout order, which is the only change to the table.\<close>

theorem promotion_one_at_a_time:
  assumes "promote_canary pr st now i s = Inr (t, a)" and "t \<noteq> s"
  shows "\<exists>canary d d'. canary \<in> set (deployments s) \<and> dep_id canary = i \<and> canary_verified s st canary
     \<and> d \<in> set (deployments s) \<and> dep_state d = Waiting_canary
     \<and> dep_rollout_group_id d = dep_rollout_group_id canary
     \<and> (\<forall>e\<in>set (deployments s). dep_rollout_group_id e = dep_rollout_group_id canary \<longrightarrow>
          \<not> operational (dep_state e) \<and> (dep_state e = Waiting_canary \<longrightarrow> dep_rollout_order d \<le> dep_rollout_order e))
     \<and> dep_id d' = dep_id d \<and> dep_state d' = Scheduled \<and> deployments t = deployments (put_deployment d' s)"
proof -
  from promote_Inr[OF assms] obtain canary d changed d1 dv r u w
    where c: "canary \<in> set (deployments s)" "dep_id canary = i" "canary_verified s st canary"
      and idle: "\<forall>e\<in>set (deployments s). dep_rollout_group_id e = dep_rollout_group_id canary \<longrightarrow> \<not> operational (dep_state e)"
      and n: "next_waiting s (dep_rollout_group_id canary) = Some d"
      and tr: "plain_transition d Scheduled now = Inr (changed, d1)"
      and u: "flush (put_deployment (promoted_row st now d1) s) = Inr u"
      and w: "queue_headless_ota_command (promoted_row st now d1) dv r now u = Inr w"
      and t: "deployments t = deployments w" by blast
  have moved: "dep_id (promoted_row st now d1) = dep_id d" "dep_state (promoted_row st now d1) = Scheduled"
    using transition_Inr[OF tr] by (auto simp: promoted_row_def same_row_def)
  have rows: "deployments t = deployments (put_deployment (promoted_row st now d1) s)"
    using t queue_deployments[OF w] u by (simp add: flush_Inr)
  show ?thesis
    using c idle next_waiting_Some[OF n] next_waiting_least[OF n] moved rows
    by (intro exI[of _ canary] exI[of _ d] exI[of _ "promoted_row st now d1"] conjI ballI impI) simp_all
qed

definition sample_rollout :: "firmware_deployment list" where
  "sample_rollout =
     [(proven_row Completed)\<lparr>dep_rollout_group_id := Some ''g'', dep_verification_heartbeats := 2\<rparr>,
      (sample_row Waiting_canary)\<lparr>dep_id := ''y'', dep_rollout_group_id := Some ''g'', dep_rollout_order := 1\<rparr>]"

lemma sample_promotes:
  "case promote_canary sample_operator sample_settings 7 ''x'' (sample_db sample_rollout) of
     Inl _ \<Rightarrow> False | Inr (t, a) \<Rightarrow> map dep_state (deployments t) = [Completed, Scheduled]"
  "map dep_state (deployments (sample_db sample_rollout)) = [Completed, Waiting_canary]"
  by code_simp+

theorem promotion_one_at_a_time_witness:
  "\<exists>t a d'. promote_canary sample_operator sample_settings 7 ''x'' (sample_db sample_rollout) = Inr (t, a)
     \<and> dep_state d' = Scheduled \<and> deployments t = deployments (put_deployment d' (sample_db sample_rollout))"
proof -
  obtain t a where r: "promote_canary sample_operator sample_settings 7 ''x'' (sample_db sample_rollout) = Inr (t, a)"
    and t: "map dep_state (deployments t) = [Completed, Scheduled]" using returned_pair[OF sample_promotes(1)] by auto
  have "t \<noteq> sample_db sample_rollout" using t sample_promotes(2) by auto
  from promotion_one_at_a_time[OF r this] r show ?thesis by blast
qed


text \<open>C20. A retry succeeds only for an unsuccessful terminal deployment of a known sensor, when no other
  deployment of the sensor is open and no other member of its rollout is under way.  It answers, and
  stores as the only change to the table, exactly this row: identity, release, sensor, idempotency key,
  rollout position, promotion, downgrade permission and creation kept; the next attempt and revision,
  scheduled now and expiring a manifest lifetime later; the source identity the sensor has now; and
  every trace of the earlier attempt cleared, which is its progress, report, milestones, failure,
  validated and rollback identities, boot, interruption evidence, heartbeats, stabilization and reading.\<close>

theorem retry_starts_clean_attempt:
  assumes "retry_deployment pr st now i s = Inr (t, d')"
  shows "\<exists>d device. d \<in> set (deployments s) \<and> dep_id d = i \<and> dep_state d \<in> {Failed, Cancelled, Rolled_back}
     \<and> fw_devices s (dep_device_id d) = Some device
     \<and> d' = \<lparr>dep_id = i, dep_release_id = dep_release_id d, dep_device_id = dep_device_id d,
         dep_status = Scheduled, dep_state = Scheduled, dep_idempotency_key = dep_idempotency_key d,
         dep_rollout_group_id = dep_rollout_group_id d, dep_rollout_order = dep_rollout_order d,
         dep_promoted_at = dep_promoted_at d, dep_revision = dep_revision d + 1, dep_attempt = dep_attempt d + 1,
         dep_progress = 0, dep_bytes_received = 0, dep_scheduled_at = Aware now,
         dep_expires_at = Some (Aware (now + seconds (firmware_manifest_ttl_seconds st))),
         dep_allow_downgrade = dep_allow_downgrade d, dep_downloaded_at = None, dep_installed_at = None,
         dep_validated_at = None, dep_failure_reason = None, dep_failure_code = None,
         dep_failure_summary = None, dep_last_report_at = None, dep_last_report_payload = [],
         dep_validated_version = None, dep_validated_build_hash = None, dep_rollback_version = None,
         dep_rollback_build_hash = None, dep_last_boot_id = None,
         dep_source_version = fd_firmware_version device, dep_source_build_hash = fd_firmware_build_hash device,
         dep_source_boot_id = last_boot_of s (fd_id device), dep_interruption_evidence = [],
         dep_verification_heartbeats = 0, dep_stabilization_started_at = None,
         dep_reading_confirmed_at = None, dep_rollback_at = None, dep_state_changed_at = Aware now,
         dep_terminal_at = None, dep_created_at = dep_created_at d\<rparr>
     \<and> deployments t = map (\<lambda>e. if dep_id e = i then d' else e) (deployments s)
     \<and> (\<forall>e\<in>set (deployments s). dep_id e \<noteq> i \<longrightarrow>
          (dep_device_id e = dep_device_id d \<longrightarrow> dep_state e \<in> {Completed, Failed, Cancelled, Rolled_back})
        \<and> (dep_rollout_group_id d \<noteq> None \<and> dep_rollout_group_id e = dep_rollout_group_id d
             \<longrightarrow> \<not> operational (dep_state e)))"
proof -
  from retry_Inr[OF assms] obtain d device where d: "d \<in> set (deployments s)" "dep_id d = i"
      "dep_state d \<in> {Failed, Cancelled, Rolled_back}" "fw_devices s (dep_device_id d) = Some device"
      "\<not> other_active s d" "dep_rollout_group_id d = None \<or> \<not> active_sibling s d"
    and d': "d' = reset_attempt st now device s (enter_state now Scheduled d)"
      "deployments t = deployments (put_deployment d' s)" by blast
  have id: "dep_id d' = i" using d d' by (simp add: reset_attempt_def enter_state_def)
  have rows: "deployments t = map (\<lambda>e. if dep_id e = i then d' else e) (deployments s)"
    using d'(2) id by (simp add: put_deployment_def)
  show ?thesis
    using d(1-4) rows d(5,6) unfolding d'(1)
    by (intro exI[of _ d] exI[of _ device] conjI)
      (auto simp: reset_attempt_def enter_state_def other_active_def active_sibling_def)
qed

lemma proven_retries:
  "case retry_deployment sample_operator sample_settings 0 ''x'' (sample_db [proven_row Failed]) of
     Inl _ \<Rightarrow> False | Inr (t, d) \<Rightarrow> True"
  by code_simp

theorem retry_starts_clean_attempt_witness:
  "\<exists>t d. retry_deployment sample_operator sample_settings 0 ''x'' (sample_db [proven_row Failed]) = Inr (t, d)
     \<and> dep_state d = Scheduled \<and> dep_verification_heartbeats d = 0 \<and> dep_reading_confirmed_at d = None
     \<and> dep_stabilization_started_at d = None \<and> dep_last_boot_id d = None \<and> deployments t = [d]"
proof -
  obtain t d where r: "retry_deployment sample_operator sample_settings 0 ''x'' (sample_db [proven_row Failed]) = Inr (t, d)"
    using returned_pair[OF proven_retries] by blast
  have "dep_id (proven_row Failed) = ''x''" "deployments (sample_db [proven_row Failed]) = [proven_row Failed]"
    by (simp_all add: sample_defs proven_row_def new_deployment_def Let_def)
  with retry_starts_clean_attempt[OF r] r show ?thesis by auto
qed


section \<open>What a sensor is offered\<close>

text \<open>C18. A manifest is offered only for a deployment of that sensor inside its schedule window, for a
  verified release whose artifact lies inside the storage root with the recorded size and whose
  compatibility has no remaining objection; the manifest names the deployment, release and digest, and
  the sensor's own verification with its secret accepts it.\<close>

theorem offered_manifest_authentic:
  assumes "firmware_manifest sg hkdf hmac secret now device s = Inr (t, Some m)"
  shows "verify_ota_manifest_hmac hkdf hmac secret (fd_id device) m = Inr True
    \<and> (\<exists>d r p c. d \<in> set (deployments s) \<and> dep_device_id d = fd_id device \<and> dep_state d \<in> {Scheduled, Offered}
        \<and> aware (dep_scheduled_at d) \<le> now \<and> \<not> expired d now
        \<and> releases s (dep_release_id d) = Some r \<and> rel_verification_status r = ''verified''
        \<and> artifact_candidate sg r = Some p \<and> inside (sg_root sg) p \<and> sg_file_size sg p = Some (rel_size_bytes r)
        \<and> release_compatibility device (capabilities s (fd_id device)) r = Inr c
        \<and> set (cmp_reasons c) \<subseteq> (if dep_allow_downgrade d then {''downgrade_requires_confirmation''} else {})
        \<and> map_of m ''deployment_id'' = Some (JStr (dep_id d)) \<and> map_of m ''release_id'' = Some (JStr (rel_id r))
        \<and> map_of m ''sha256'' = Some (JStr (rel_sha256 r)) \<and> map_of m ''attempt'' = Some (JInt (dep_attempt d)))"
proof -
  from manifest_Inr[OF assms] obtain d r pn bh ex c tag where
    o': "offered_row s now (fd_id device) = Some d" and rel: "releases s (dep_release_id d) = Some r"
    and serve: "release_servable r" "manifest_artifact_available sg r"
    and comp: "release_compatibility device (capabilities s (fd_id device)) r = Inr c" "reasons_remaining False d c = {}"
    and sig: "sign_ota_manifest hkdf hmac secret (fd_id device) (manifest_of (fd_id device) d r ex pn bh) = Inr tag"
    and m: "m = dict_set (manifest_of (fd_id device) d r ex pn bh) ''manifest_hmac'' (JStr tag)"
    by auto
  have "verify_ota_manifest_hmac hkdf hmac secret (fd_id device) m = Inr True"
    using sign_then_verify[OF _ sig, of m] m by (simp add: manifest_of_def)
  moreover obtain p where "artifact_candidate sg r = Some p" "inside (sg_root sg) p" "sg_file_size sg p = Some (rel_size_bytes r)"
    using serve(2) by (auto simp: manifest_artifact_available_def split: option.splits)
  moreover have "set (cmp_reasons c) \<subseteq> (if dep_allow_downgrade d then {''downgrade_requires_confirmation''} else {})"
    using comp(2) by (auto simp: reasons_remaining_def)
  moreover have "map_of m ''deployment_id'' = Some (JStr (dep_id d))" "map_of m ''release_id'' = Some (JStr (rel_id r))"
    "map_of m ''sha256'' = Some (JStr (rel_sha256 r))" "map_of m ''attempt'' = Some (JInt (dep_attempt d))"
    unfolding m by (simp_all add: manifest_of_def)
  ultimately show ?thesis
    using offered_row_Some[OF o'] rel serve(1) comp(1) unfolding release_servable_def by blast
qed

abbreviation sample_hkdf :: "string \<Rightarrow> string \<Rightarrow> nat \<Rightarrow> string \<Rightarrow> string" where
  "sample_hkdf \<equiv> \<lambda>salt info n s. take n (salt @ s)"

abbreviation sample_hmac :: "string \<Rightarrow> string \<Rightarrow> string" where
  "sample_hmac \<equiv> \<lambda>k m. take 3 k"

lemma sample_offer_parts:
  "ensure_device_reset_mutations_allowed (sample_db [sample_row Scheduled]) [sample_id] = Inr ()"
  "offered_row (sample_db [sample_row Scheduled]) 1 sample_id = Some (sample_row Scheduled)"
  "release_servable sample_release" "manifest_artifact_available sample_storage sample_release"
  "case release_compatibility sample_device (Some sample_capability) sample_release of
     Inl _ \<Rightarrow> False | Inr c \<Rightarrow> reasons_remaining False (sample_row Scheduled) c = {}"
  "derive_ota_manifest_key sample_hkdf ''secret'' sample_id = Inr ''00000000-0000-0000-0000-00000000''"
  by code_simp+

lemma sample_offers:
  "\<exists>t m. firmware_manifest sample_storage sample_hkdf sample_hmac ''secret'' 1 sample_device
      (sample_db [sample_row Scheduled]) = Inr (t, Some m)"
proof -
  let ?s = "sample_db [sample_row Scheduled]"
  have "sign_ota_manifest sample_hkdf sample_hmac ''secret'' sample_id m = Inr (urlsafe_b64 ''000'')" for m
    unfolding sign_ota_manifest_def sample_offer_parts(6) by simp
  moreover obtain c where "release_compatibility sample_device (Some sample_capability) sample_release = Inr c"
    "reasons_remaining False (sample_row Scheduled) c = {}"
    using sample_offer_parts(5) by (auto split: sum.splits)
  moreover have "fd_id sample_device = sample_id" "capabilities ?s sample_id = Some sample_capability"
    "releases ?s ''r'' = Some sample_release" "dep_release_id (sample_row Scheduled) = ''r''"
    "rel_project_name sample_release = Some ''sensor''" "rel_build_hash sample_release = Some ''bb''"
    "dep_expires_at (sample_row Scheduled) = Some (Aware 3600000000)"
    by (simp_all add: sample_device_def sample_db_def sample_row_def sample_release_def new_deployment_def
        request_expiry_def sample_request_def sample_settings_def seconds_def Let_def)
  moreover have "offer 1 (sample_row Scheduled) = Inr (True, enter_state 1 Offered (sample_row Scheduled))"
    by (simp add: offer_def transition_firmware_deployment_def transition_allowed_def sample_row_def Let_def)
  moreover have "flush (put_deployment (enter_state 1 Offered (sample_row Scheduled)) ?s)
      = Inr (put_deployment (enter_state 1 Offered (sample_row Scheduled)) ?s)"
    by (simp add: flush_Inr active_deployments_def put_deployment_def sample_db_def)
  ultimately show ?thesis
    using sample_offer_parts(1-4) by (simp add: firmware_manifest_def Let_def)
qed

theorem offered_manifest_authentic_witness:
  "\<exists>t m. firmware_manifest sample_storage sample_hkdf sample_hmac ''secret'' 1 sample_device
       (sample_db [sample_row Scheduled]) = Inr (t, Some m)
     \<and> verify_ota_manifest_hmac sample_hkdf sample_hmac ''secret'' sample_id m = Inr True"
proof -
  obtain t m where m: "firmware_manifest sample_storage sample_hkdf sample_hmac ''secret'' 1 sample_device
      (sample_db [sample_row Scheduled]) = Inr (t, Some m)"
    using sample_offers by blast
  have "fd_id sample_device = sample_id" by (simp add: sample_device_def)
  with offered_manifest_authentic[OF m] m show ?thesis by metis
qed

text \<open>C19. A download is served only to the sensor of an open, unexpired deployment of a verified
  release, from a file inside the storage root that has the recorded size and, when the last check is
  older than the verification interval, the recorded digest.  When an admitted request finds a file of
  another size, or a due check another digest, it is answered 503 and the release is quarantined, with
  nothing else of it changed; from then on, whatever operations of the firmware subsystem run and
  whatever else happens outside the release's own row, the route serves no sensor that release any more.\<close>

theorem download_only_verified:
  assumes "device_download_firmware sg interval now device release_id deployment_id s = (outcome, t)"
    and "\<forall>i r. releases s i = Some r \<longrightarrow> rel_id r = i"
  shows "(\<forall>p. outcome = Inr p \<longrightarrow>
      (\<exists>d r. find_deployment s deployment_id = Some d \<and> releases s release_id = Some r
         \<and> download_authorized d r (fd_id device) now \<and> inside (sg_root sg) p
         \<and> sg_file_size sg p = Some (rel_size_bytes r)
         \<and> (sg_sha256 sg p = rel_sha256 r
            \<or> (\<exists>v. rel_artifact_verified_at r = Some v \<and> now - seconds interval < aware v))))
    \<and> (\<forall>d r c p. ensure_device_reset_mutations_allowed s [fd_id device] = Inr ()
         \<and> find_deployment s deployment_id = Some d \<and> releases s release_id = Some r
         \<and> download_authorized d r (fd_id device) now
         \<and> release_compatibility device (capabilities s (fd_id device)) r = Inr c \<and> reasons_remaining True d c = {}
         \<and> artifact_candidate sg r = Some p \<and> inside (sg_root sg) p
         \<and> (sg_file_size sg p \<noteq> Some (rel_size_bytes r)
            \<or> sg_sha256 sg p \<noteq> rel_sha256 r
              \<and> (\<forall>v. rel_artifact_verified_at r = Some v \<longrightarrow> aware v \<le> now - seconds interval))
         \<longrightarrow> outcome = Inl (FwProblem 503 ''firmware_integrity_failure'')
           \<and> t = s\<lparr>releases := (releases s)(release_id \<mapsto> r\<lparr>rel_verification_status := ''quarantined''\<rparr>)\<rparr>
           \<and> (\<forall>st u sg' interval' now' device' di. (later_step st release_id)\<^sup>*\<^sup>* t u \<longrightarrow>
                (\<exists>e. device_download_firmware sg' interval' now' device' release_id di u = (Inl e, u))))"
proof (rule conjI; intro allI impI)
  fix p assume p: "outcome = Inr p"
  with download_cases[OF assms(1)] obtain d r where d: "find_deployment s deployment_id = Some d"
      "releases s release_id = Some r" "download_authorized d r (fd_id device) now"
    and run: "verified_artifact sg interval now r s = (outcome, t)" by auto
  from run p have "inside (sg_root sg) p \<and> sg_file_size sg p = Some (rel_size_bytes r)
         \<and> (sg_sha256 sg p = rel_sha256 r
            \<or> (\<exists>v. rel_artifact_verified_at r = Some v \<and> now - seconds interval < aware v))"
    by (auto simp: verified_artifact_def resolve_artifact_def split: option.splits if_splits sum.splits)
  with d show "\<exists>d r. find_deployment s deployment_id = Some d \<and> releases s release_id = Some r
         \<and> download_authorized d r (fd_id device) now \<and> inside (sg_root sg) p
         \<and> sg_file_size sg p = Some (rel_size_bytes r)
         \<and> (sg_sha256 sg p = rel_sha256 r
            \<or> (\<exists>v. rel_artifact_verified_at r = Some v \<and> now - seconds interval < aware v))" by blast
next
  fix d r c p
  assume g: "ensure_device_reset_mutations_allowed s [fd_id device] = Inr ()
         \<and> find_deployment s deployment_id = Some d \<and> releases s release_id = Some r
         \<and> download_authorized d r (fd_id device) now
         \<and> release_compatibility device (capabilities s (fd_id device)) r = Inr c \<and> reasons_remaining True d c = {}
         \<and> artifact_candidate sg r = Some p \<and> inside (sg_root sg) p
         \<and> (sg_file_size sg p \<noteq> Some (rel_size_bytes r)
            \<or> sg_sha256 sg p \<noteq> rel_sha256 r
              \<and> (\<forall>v. rel_artifact_verified_at r = Some v \<longrightarrow> aware v \<le> now - seconds interval))"
  let ?q = "r\<lparr>rel_verification_status := ''quarantined''\<rparr>"
  have id: "rel_id r = release_id" using g assms(2) by blast
  have run: "verified_artifact sg interval now r s = (outcome, t)"
    using assms(1) g by (simp add: device_download_firmware_def)
  have failed: "verified_artifact sg interval now r s = (Inl (FwProblem 503 ''firmware_integrity_failure''), put_release ?q s)"
    using g by (auto simp: verified_artifact_def resolve_artifact_def split: option.splits)
  have o': "outcome = Inl (FwProblem 503 ''firmware_integrity_failure'')"
    and t: "t = s\<lparr>releases := (releases s)(release_id \<mapsto> ?q)\<rparr>"
    using run unfolding failed by (auto simp: put_release_def id)
  have q: "quarantined t release_id" and k: "releases_keyed t"
    using assms(2) id unfolding t by (auto simp: quarantined_def releases_keyed_def)
  have "\<exists>e. device_download_firmware sg' interval' now' device' release_id di u = (Inl e, u)"
    if "(later_step st release_id)\<^sup>*\<^sup>* t u" for st u sg' interval' now' device' di
    using quarantined_not_served[OF later_quarantined[OF that k q]] .
  with o' t show "outcome = Inl (FwProblem 503 ''firmware_integrity_failure'')
           \<and> t = s\<lparr>releases := (releases s)(release_id \<mapsto> ?q)\<rparr>
           \<and> (\<forall>st u sg' interval' now' device' di. (later_step st release_id)\<^sup>*\<^sup>* t u \<longrightarrow>
                (\<exists>e. device_download_firmware sg' interval' now' device' release_id di u = (Inl e, u)))" by blast
qed

definition damaged_storage :: storage where
  "damaged_storage = sample_storage\<lparr>sg_file_size := \<lambda>_. Some 7\<rparr>"

lemma sample_downloads:
  "fst (device_download_firmware sample_storage 60 1 sample_device ''r'' ''x'' (sample_db [sample_row Offered]))
     = Inr [''fw'', ''a'']"
  "ensure_device_reset_mutations_allowed (sample_db [sample_row Offered]) [fd_id sample_device] = Inr ()"
  "download_authorized (sample_row Offered) sample_release (fd_id sample_device) 1"
  "case release_compatibility sample_device (capabilities (sample_db [sample_row Offered]) (fd_id sample_device)) sample_release of
     Inl _ \<Rightarrow> False | Inr c \<Rightarrow> reasons_remaining True (sample_row Offered) c = {}"
  "artifact_candidate damaged_storage sample_release = Some [''fw'', ''a'']"
  "inside (sg_root damaged_storage) [''fw'', ''a'']"
  "sg_file_size damaged_storage [''fw'', ''a''] \<noteq> Some (rel_size_bytes sample_release)"
  by code_simp+

theorem download_only_verified_witness:
  "(\<exists>t r. device_download_firmware sample_storage 60 1 sample_device ''r'' ''x'' (sample_db [sample_row Offered])
       = (Inr [''fw'', ''a''], t)
     \<and> releases (sample_db [sample_row Offered]) ''r'' = Some r \<and> rel_verification_status r = ''verified'')
   \<and> (\<exists>t r. device_download_firmware damaged_storage 60 1 sample_device ''r'' ''x'' (sample_db [sample_row Offered])
       = (Inl (FwProblem 503 ''firmware_integrity_failure''), t)
     \<and> releases t ''r'' = Some r \<and> rel_verification_status r = ''quarantined''
     \<and> (\<exists>e. device_download_firmware sample_storage 60 9 sample_device ''r'' ''x'' t = (Inl e, t)))"
proof
  let ?s = "sample_db [sample_row Offered]"
  have keyed: "\<forall>i r. releases ?s i = Some r \<longrightarrow> rel_id r = i"
    by (auto simp: sample_db_def sample_release_def split: if_splits)
  obtain t where r: "device_download_firmware sample_storage 60 1 sample_device ''r'' ''x'' ?s = (Inr [''fw'', ''a''], t)"
    using sample_downloads(1) by (cases "device_download_firmware sample_storage 60 1 sample_device ''r'' ''x'' ?s") auto
  from download_only_verified[OF r keyed] r
  show "\<exists>t r. device_download_firmware sample_storage 60 1 sample_device ''r'' ''x'' ?s = (Inr [''fw'', ''a''], t)
     \<and> releases ?s ''r'' = Some r \<and> rel_verification_status r = ''verified''"
    by (auto simp: download_authorized_def release_servable_def)
  obtain a u where q: "device_download_firmware damaged_storage 60 1 sample_device ''r'' ''x'' ?s = (a, u)" by fastforce
  obtain c where c: "release_compatibility sample_device (capabilities ?s (fd_id sample_device)) sample_release = Inr c"
    "reasons_remaining True (sample_row Offered) c = {}" using sample_downloads(4) by (auto split: sum.splits)
  have f: "find_deployment ?s ''x'' = Some (sample_row Offered)" "releases ?s ''r'' = Some sample_release"
    by (simp_all add: find_deployment_def sample_db_def sample_row_def new_deployment_def Let_def)
  have u: "a = Inl (FwProblem 503 ''firmware_integrity_failure'')
      \<and> u = ?s\<lparr>releases := (releases ?s)(''r'' \<mapsto> sample_release\<lparr>rel_verification_status := ''quarantined''\<rparr>)\<rparr>
      \<and> (\<forall>st v sg' interval' now' device' di. (later_step st ''r'')\<^sup>*\<^sup>* u v \<longrightarrow>
                (\<exists>e. device_download_firmware sg' interval' now' device' ''r'' di v = (Inl e, v)))"
    using conjunct2[OF download_only_verified[OF q keyed], rule_format, of "sample_row Offered" sample_release c]
      sample_downloads(2-7) c f by blast
  then show "\<exists>t r. device_download_firmware damaged_storage 60 1 sample_device ''r'' ''x'' ?s
       = (Inl (FwProblem 503 ''firmware_integrity_failure''), t)
     \<and> releases t ''r'' = Some r \<and> rel_verification_status r = ''quarantined''
     \<and> (\<exists>e. device_download_firmware sample_storage 60 9 sample_device ''r'' ''x'' t = (Inl e, t))"
    using q by (intro exI[of _ u] exI[of _ "sample_release\<lparr>rel_verification_status := ''quarantined''\<rparr>"]) auto
qed


section \<open>The headless agent\<close>

text \<open>C21. A headless agent cannot report the failure of an update that was never offered: for a
  deployment that is still scheduled (or waits for its canary, or has a detected rollback) a failed result
  raises an invalid transition instead of being recorded, so the command never becomes terminal.\<close>

theorem agent_failure_unrecordable:
  assumes "cm_command_type command = ''ota_update''"
    and "map_of result ''deployment_id'' = Some (JStr (dep_id d))"
    and "map_of result ''release_id'' = Some (JStr (dep_release_id d))"
    and "find_deployment s (dep_id d) = Some d" and "dep_device_id d = cm_device_id command"
    and "dep_state d \<in> {Scheduled, Waiting_canary, Rollback_detected}"
    and "0 < safe_int (map_of result ''image_size'')"
    and "safe_int (map_of result ''bytes_received'') \<le> safe_int (map_of result ''image_size'')"
    and "safe_int (map_of result ''progress'') \<le> 100"
  shows "record_headless_ota_result command result ''failed'' now s = Inl (InvalidTransition (dep_state d) Failed)"
  using assms
  by (auto simp: record_headless_ota_result_def headless_target_def Let_def
      advance_headless_deployment_def note_result_def transition_firmware_deployment_def transition_allowed_def)


theorem agent_failure_unrecordable_witness:
  "record_headless_ota_result \<lparr>cm_command_type = ''ota_update'', cm_device_id = sample_id\<rparr>
     [(''deployment_id'', JStr ''x''), (''release_id'', JStr ''r''), (''image_size'', JInt 1000)] ''failed'' 3
     (sample_db [sample_row Scheduled]) = Inl (InvalidTransition Scheduled Failed)"
  using agent_failure_unrecordable[where d = "sample_row Scheduled" and s = "sample_db [sample_row Scheduled]"
      and command = "\<lparr>cm_command_type = ''ota_update'', cm_device_id = sample_id\<rparr>" and now = 3
      and result = "[(''deployment_id'', JStr ''x''), (''release_id'', JStr ''r''), (''image_size'', JInt 1000)]"]
  by (simp add: sample_defs new_deployment_def Let_def find_deployment_def safe_int_def)

section \<open>Executions that miss the promised evidence\<close>

lemma healthy_count:
  assumes "count_heartbeat st now s d = Inr d'"
  shows "dep_id d' = dep_id d \<and> dep_verification_heartbeats d' = dep_verification_heartbeats d + 1
    \<and> dep_reading_confirmed_at d' = dep_reading_confirmed_at d \<and> dep_last_boot_id d' = dep_last_boot_id d
    \<and> dep_stabilization_started_at d' = dep_stabilization_started_at d
    \<and> (dep_state d = Awaiting_heartbeat \<longrightarrow>
        (dep_state d' = Completed \<longleftrightarrow> firmware_verification_heartbeat_count st \<le> dep_verification_heartbeats d + 1
           \<and> dep_reading_confirmed_at d \<noteq> None \<and> stable_since d st now \<and> critical_alerts s (dep_device_id d) = []))"
proof -
  have "stable_since (d\<lparr>dep_verification_heartbeats := n\<rparr>) st now = stable_since d st now" for n
    by (simp add: stable_since_def)
  then show ?thesis
    using assms
    by (auto simp: count_heartbeat_def complete_firmware_if_stable_def transition_firmware_deployment_def
        enter_state_def result_simps split: if_splits)
qed

text \<open>The evidence of an earlier boot can complete a deployment: when a healthy target heartbeat
  supersedes a failed or rolled back report, the heartbeats, the confirmed reading and the start of the
  stabilization window recorded before are all kept and counted with the new boot, so the deployment
  completes at once when only this heartbeat was missing.\<close>

theorem superseding_keeps_earlier_evidence:
  assumes "reconcile_firmware_heartbeat st now p s = Inr t"
    and "latest_scheduled (filter (\<lambda>d. dep_device_id d = hp_device_id p
             \<and> dep_state d \<in> set HEARTBEAT_STATES) (deployments s)) = Some d"
    and "releases s (dep_release_id d) = Some r" and "target_supersedes_terminal_report d p r"
    and "heartbeat_healthy p" and "dep_stabilization_started_at d \<noteq> None"
  shows "\<exists>d'\<in>set (deployments t). dep_id d' = dep_id d \<and> dep_last_boot_id d' = Some (hp_boot_id p)
    \<and> dep_verification_heartbeats d' = dep_verification_heartbeats d + 1
    \<and> dep_reading_confirmed_at d' = dep_reading_confirmed_at d
    \<and> dep_stabilization_started_at d' = dep_stabilization_started_at d
    \<and> (dep_state d' = Completed \<longleftrightarrow> firmware_verification_heartbeat_count st \<le> dep_verification_heartbeats d + 1
         \<and> dep_reading_confirmed_at d \<noteq> None \<and> stable_since d st now \<and> critical_alerts s (dep_device_id d) = [])"
proof -
  have d: "d \<in> set (deployments s)" using latest_scheduled_Some[OF assms(2)] by simp
  have st: "dep_state d \<in> {Failed, Rolled_back}" "target_identity p r"
    using assms(4) by (auto simp: target_supersedes_terminal_report_def)
  define d1 where "d1 = clear_failure (adopt_row now p r (enter_state now Awaiting_heartbeat d))"
  define s1 where "s1 = add_audit (device_audit now ''firmware.deployment_target_reconciled'' (hp_device_id p)
      (dep_id d) [(''state'', JStr ''awaiting_heartbeat''), (''ota_recovery'', JDict (recovery_of p))]) s"
  have adopt: "adopt_target now p r (d, s) = Inr (d1, s1)"
    using assms(4) st(1) by (auto simp: adopt_target_def transition_firmware_deployment_def transition_allowed_def
        d1_def s1_def)
  define k where "k = keep_target_boot now p d1"
  obtain y where y: "dep_stabilization_started_at d = Some y" using assms(6) by auto
  have k: "dep_id k = dep_id d" "dep_state k = Awaiting_heartbeat" "dep_device_id k = dep_device_id d"
    "dep_verification_heartbeats k = dep_verification_heartbeats d" "dep_last_boot_id k = Some (hp_boot_id p)"
    "dep_reading_confirmed_at k = dep_reading_confirmed_at d"
    "dep_stabilization_started_at k = dep_stabilization_started_at d"
    using y by (simp_all add: k_def keep_target_boot_def d1_def clear_failure_def adopt_row_def enter_state_def Let_def)
  have b: "begin_stabilization now k = Inr k" using k(2) by (simp add: begin_stabilization_def)
  obtain d3 where c: "count_heartbeat st now s1 k = Inr d3"
    using complete_total unfolding count_heartbeat_def by blast
  have "target_identity_heartbeat st now p r d s = Inr (put_deployment d3 s1)"
    using st(1) adopt b c assms(5) by (auto simp: target_identity_heartbeat_def k_def)
  then have t: "t = put_deployment d3 s1"
    using assms(1-4) st(2) by (simp add: reconcile_firmware_heartbeat_def flush_Inr)
  have "critical_alerts s1 = critical_alerts s" by (simp add: s1_def add_audit_def critical_alerts_def fun_eq_iff)
  moreover have "stable_since k st now = stable_since d st now" using k(7) by (simp add: stable_since_def)
  moreover have "d3 \<in> set (deployments t)"
    using d healthy_count[OF c] k(1) unfolding t by (force simp: put_deployment_def s1_def add_audit_def)
  ultimately show ?thesis using healthy_count[OF c] k by (intro bexI[of _ d3]) auto
qed

lemma sample_superseding:
  "case reconcile_firmware_heartbeat sample_settings 100000000 (sample_heartbeat ''b2'' 6) (sample_db [proven_row Failed]) of
     Inl _ \<Rightarrow> False
   | Inr t \<Rightarrow> map (\<lambda>d. (dep_state d, dep_last_boot_id d)) (deployments t) = [(Completed, Some ''b2'')]"
  "latest_scheduled (filter (\<lambda>d. dep_device_id d = hp_device_id (sample_heartbeat ''b2'' 6)
      \<and> dep_state d \<in> set HEARTBEAT_STATES) (deployments (sample_db [proven_row Failed]))) = Some (proven_row Failed)"
  "releases (sample_db [proven_row Failed]) (dep_release_id (proven_row Failed)) = Some sample_release"
  "target_supersedes_terminal_report (proven_row Failed) (sample_heartbeat ''b2'' 6) sample_release"
  "heartbeat_healthy (sample_heartbeat ''b2'' 6)"
  by code_simp+

theorem superseding_keeps_earlier_evidence_witness:
  "\<exists>t. reconcile_firmware_heartbeat sample_settings 100000000 (sample_heartbeat ''b2'' 6) (sample_db [proven_row Failed])
       = Inr t
     \<and> map (\<lambda>d. (dep_state d, dep_last_boot_id d)) (deployments t) = [(Completed, Some ''b2'')]
     \<and> (\<exists>d\<in>set (deployments t). dep_reading_confirmed_at d = dep_reading_confirmed_at (proven_row Failed))"
proof -
  obtain t where t: "reconcile_firmware_heartbeat sample_settings 100000000 (sample_heartbeat ''b2'' 6)
      (sample_db [proven_row Failed]) = Inr t"
    and rows: "map (\<lambda>d. (dep_state d, dep_last_boot_id d)) (deployments t) = [(Completed, Some ''b2'')]"
    using sample_superseding(1) by (auto split: sum.splits)
  have "dep_stabilization_started_at (proven_row Failed) \<noteq> None" by (simp add: proven_row_def)
  from superseding_keeps_earlier_evidence[OF t sample_superseding(2-5) this]
  have "\<exists>d\<in>set (deployments t). dep_reading_confirmed_at d = dep_reading_confirmed_at (proven_row Failed)" by (elim bexE) blast
  with t rows show ?thesis by (intro exI conjI)
qed

text \<open>Superseding a failed deployment while the sensor's next deployment is scheduled violates the index.\<close>

theorem superseding_conflicts_with_scheduled:
  "case reconcile_firmware_heartbeat sample_settings 1 (sample_heartbeat ''b2'' 6)
      (sample_db [proven_row Failed, (sample_row Scheduled)\<lparr>dep_id := ''y'', dep_idempotency_key := None\<rparr>]) of
     Inl e \<Rightarrow> e = FwIntegrity ''uq_firmware_deployment_active_device'' | Inr _ \<Rightarrow> False"
  by code_simp

text \<open>Superseding a failed member while another member of the rollout is under way makes two run at once.\<close>

theorem superseding_breaks_serial_rollout:
  "case reconcile_firmware_heartbeat sample_settings 1 (sample_heartbeat ''b2'' 6)
      (sample_db [(proven_row Failed)\<lparr>dep_rollout_group_id := Some ''g''\<rparr>,
         (sample_row Offered)\<lparr>dep_id := ''y'', dep_device_id := ''e'', dep_rollout_group_id := Some ''g''\<rparr>]) of
     Inl _ \<Rightarrow> False
   | Inr t \<Rightarrow> map (\<lambda>d. (dep_rollout_group_id d, operational (dep_state d))) (deployments t)
       = [(Some ''g'', True), (Some ''g'', True)]"
  by code_simp

text \<open>A headless agent that rebooted completes with the evidence of its earlier boot.\<close>

theorem agent_boot_change_keeps_evidence:
  "case record_headless_ota_heartbeat sample_settings 100000000
      \<lparr>ah_device_id = sample_id, ah_boot_id = ''b2'', ah_firmware_version = ''1.1.0'', ah_build_hash = ''bb'',
       ah_ota = [(''state'', JStr ''validated'')]\<rparr> (sample_db [proven_row Awaiting_heartbeat]) of
     Inl _ \<Rightarrow> False
   | Inr t \<Rightarrow> map (\<lambda>d. (dep_state d, dep_last_boot_id d)) (deployments t) = [(Completed, Some ''b2'')]"
  by code_simp

end
