(* ===== verification/Rate_Engine.thy ===== *)
theory Rate_Engine
  imports Decimals Datetimes "HOL-Library.Product_Lexorder"
begin

text \<open>
  Model of \<^verbatim>\<open>app/rates/engine.py\<close>.  The plan dictionary is a record of its decoded entries: an
  entry that the dictionary may lack is an option, prices and bounds are decimals, a
  \<^verbatim>\<open>MM-DD\<close> text is the pair of its numbers.  The time zone database is a parameter: a zone gives the
  UTC offset and the fold of an instant and the instant of a wall time.  Timestamps are aware and
  in UTC, as the callers pass them, so differences are exact.  A raise is \<^verbatim>\<open>Inl\<close> of its error.
\<close>

datatype rate_error =
    RateValue string | RateRuntime string | RateKey string | RateInvalidOperation

section \<open>Zones and wall times\<close>

record zone =
  zn_offset :: "instant \<Rightarrow> int"
  zn_fold :: "instant \<Rightarrow> bool"
  zn_utc :: "int \<Rightarrow> bool \<Rightarrow> instant"

definition wall :: "zone \<Rightarrow> instant \<Rightarrow> int" where
  "wall z t = t + zn_offset z t"

definition local_date :: "zone \<Rightarrow> instant \<Rightarrow> date" where
  "local_date z t = utc_date (wall z t)"

definition minute_us :: int where
  "minute_us = 60000000"

definition local_minute :: "zone \<Rightarrow> instant \<Rightarrow> int" where
  "local_minute z t = wall z t mod day_microseconds div minute_us"

definition naive_at :: "date \<Rightarrow> int \<Rightarrow> int" where
  "naive_at d minute = (ordinal d - 719163) * day_microseconds + minute * minute_us"

section \<open>Plans\<close>

type_synonym month_day = "int \<times> int"
type_synonym period = "int \<times> int \<times> string \<times> decimal"

record tier =
  ti_tier_id :: string
  ti_name :: string
  ti_order :: int
  ti_lower_kwh :: "decimal option"
  ti_upper_kwh :: "decimal option"
  ti_lower_multiplier :: "decimal option"
  ti_upper_multiplier :: "decimal option"
  ti_price :: decimal
  ti_tou_prices :: "(string, decimal) dict"

record season_span =
  sp_start :: month_day
  sp_end :: month_day
  sp_priority :: int

record seasonal_baseline =
  sb_start :: month_day
  sb_end :: month_day
  sb_daily :: "decimal option"

record adjustment =
  ad_name :: string
  ad_component :: string
  ad_operation :: string
  ad_value :: decimal
  ad_unit :: string
  ad_scope :: string
  ad_effective_from :: "date option"
  ad_effective_to :: "date option"
  ad_order :: int

record plan =
  pn_pricing_model :: string
  pn_flat_rate :: "decimal option"
  pn_expected_start_day :: int
  pn_basis :: string
  pn_rounding_policy :: string
  pn_daily_baseline :: "decimal option"
  pn_seasonal_baselines :: "seasonal_baseline list"
  pn_tiers :: "tier list"
  pn_hybrid_method :: string
  pn_periods :: "(string, (string, period list) dict) dict"
  pn_special :: "(string, (date, period list) dict) dict"
  pn_seasons :: "(string, season_span) dict"
  pn_adjustments :: "adjustment list"
  pn_base_service_charge :: decimal
  pn_baseline_credit :: "decimal option"

definition tiered_model :: "plan \<Rightarrow> bool" where
  "tiered_model p \<longleftrightarrow> pn_pricing_model p \<in> {''tiered'', ''time_of_use_tiered''}"

definition tou_model :: "plan \<Rightarrow> bool" where
  "tou_model p \<longleftrightarrow> pn_pricing_model p \<in> {''time_of_use'', ''time_of_use_tiered''}"

section \<open>Projection of a billing cycle\<close>

datatype projection_method = Straight_line | Recent_7_day | Same_weekday_profile

record projection =
  pj_method :: projection_method
  pj_actual :: decimal
  pj_projected :: decimal
  pj_elapsed_percent :: decimal
  pj_confidence :: string

definition project_billing_cycle ::
  "decimal \<Rightarrow> int \<Rightarrow> int \<Rightarrow> projection_method \<Rightarrow> decimal option \<Rightarrow> decimal option \<Rightarrow> rate_error + projection"
where
  "project_billing_cycle actual elapsed whole method recent profile =
     (if actual < 0 \<or> elapsed \<le> 0 \<or> whole < elapsed
      then Inl (RateValue ''projection inputs must describe a positive partial billing cycle'')
      else
        let remaining = whole - elapsed in
        bindE (case method of
            Straight_line \<Rightarrow> Inr (ddiv (dmul actual (of_int whole)) (of_int elapsed))
          | Recent_7_day \<Rightarrow>
              (case recent of
                 Some r \<Rightarrow> if 0 \<le> r then Inr (dadd actual (ddiv (dmul r (of_int remaining)) 86400))
                   else Inl (RateValue ''recent seven-day projection requires a non-negative daily average'')
               | None \<Rightarrow> Inl (RateValue ''recent seven-day projection requires a non-negative daily average''))
          | Same_weekday_profile \<Rightarrow>
              (case profile of
                 Some r \<Rightarrow> if 0 \<le> r then Inr (dadd actual r)
                   else Inl (RateValue ''same-weekday projection requires remaining profile energy'')
               | None \<Rightarrow> Inl (RateValue ''same-weekday projection requires remaining profile energy'')))
          (\<lambda>projected.
            let percent = dmul (ddiv (of_int elapsed) (of_int whole)) 100
            in Inr \<lparr>pj_method = method, pj_actual = actual, pj_projected = projected,
                    pj_elapsed_percent = percent,
                    pj_confidence = (if percent < 25 then ''low'' else if percent < 60 then ''medium'' else ''high'')\<rparr>))"

definition display_currency :: "decimal \<Rightarrow> decimal option" where
  "display_currency v = quantize round_half_up 2 v"

section \<open>Validation of a plan\<close>

definition sorted_tiers :: "plan \<Rightarrow> tier list" where
  "sorted_tiers p = sort_key ti_order (pn_tiers p)"

definition lower_of :: "string \<Rightarrow> tier \<Rightarrow> decimal" where
  "lower_of basis t =
     (case (if basis = ''daily_baseline_kwh'' then ti_lower_multiplier t else ti_lower_kwh t) of
        None \<Rightarrow> 0 | Some x \<Rightarrow> x)"

definition upper_of :: "string \<Rightarrow> tier \<Rightarrow> decimal option" where
  "upper_of basis t = (if basis = ''daily_baseline_kwh'' then ti_upper_multiplier t else ti_upper_kwh t)"

text \<open>The loop over the ordered tiers, with the ids seen and the running boundary.\<close>

fun check_tiers :: "string \<Rightarrow> tier list \<Rightarrow> string list \<Rightarrow> decimal \<Rightarrow> rate_error + unit" where
  "check_tiers basis [] ids cursor = Inr ()"
| "check_tiers basis (t # ts) ids cursor =
     (if ti_tier_id t = [] \<or> ti_tier_id t \<in> set ids
      then Inl (RateValue ''tier IDs must be present and unique'')
      else if lower_of basis t \<noteq> cursor \<or> ti_price t < 0
      then Inl (RateValue ''tier bounds must be gap-free and rates non-negative'')
      else if ts \<noteq> [] \<and> (case upper_of basis t of None \<Rightarrow> True | Some u \<Rightarrow> u \<le> lower_of basis t)
      then Inl (RateValue ''every non-final tier needs a greater upper boundary'')
      else check_tiers basis ts (ti_tier_id t # ids)
             (case upper_of basis t of Some u \<Rightarrow> u | None \<Rightarrow> cursor))"

definition validate_tiers :: "plan \<Rightarrow> rate_error + unit" where
  "validate_tiers p =
     (let ts = sorted_tiers p in
      if length ts < 2 \<or> map ti_order ts \<noteq> map int [0..<length ts]
      then Inl (RateValue ''tiered pricing requires ordered contiguous tiers'')
      else if pn_basis p \<notin> {''fixed_cycle_kwh'', ''daily_baseline_kwh''}
      then Inl (RateValue ''unsupported tier threshold basis'')
      else bindE (check_tiers (pn_basis p) ts [] 0) (\<lambda>_.
        if ti_upper_kwh (last ts) \<noteq> None \<or> ti_upper_multiplier (last ts) \<noteq> None
        then Inl (RateValue ''the final tier must be open-ended'') else Inr ()))"

text \<open>A day's periods, sorted by their start, tile the 1440 minutes.\<close>

fun check_periods :: "period list \<Rightarrow> int \<Rightarrow> rate_error + unit" where
  "check_periods [] cursor =
     (if cursor = 1440 then Inr () else Inl (RateValue ''does not cover 24 hours''))"
| "check_periods ((start, e, bucket, price) # ps) cursor =
     (if start \<noteq> cursor \<or> e \<le> start \<or> price < 0
      then Inl (RateValue ''periods must be non-overlapping and contiguous'')
      else if bucket = [] then Inl (RateValue ''rate bucket cannot be empty'')
      else check_periods ps e)"

definition sorted_periods :: "period list \<Rightarrow> period list" where
  "sorted_periods ps = sort_key fst ps"

definition all_schedules :: "plan \<Rightarrow> period list list" where
  "all_schedules p =
     concat (map (\<lambda>(season, days). map snd days) (pn_periods p))
     @ concat (map (\<lambda>(season, dates). map snd dates) (pn_special p))"

definition validate_plan :: "plan \<Rightarrow> rate_error + unit" where
  "validate_plan p =
     (if pn_pricing_model p \<notin> {''flat'', ''time_of_use'', ''tiered'', ''time_of_use_tiered''}
      then Inl (RateValue ''unsupported pricing model'')
      else bindE (if pn_pricing_model p = ''flat''
                  then (case pn_flat_rate p of
                          None \<Rightarrow> Inl (RateValue ''flat pricing requires a rate'')
                        | Some r \<Rightarrow> if r < 0 then Inl (RateValue ''flat energy rate cannot be negative'') else Inr ())
                  else Inr ()) (\<lambda>_.
           bindE (if tiered_model p then validate_tiers p else Inr ()) (\<lambda>_.
           if \<not> tou_model p then Inr ()
           else foldE (\<lambda>ps _. check_periods (sorted_periods ps) 0) (all_schedules p) ())))"

section \<open>Seasons and periods\<close>

definition in_span :: "month_day \<Rightarrow> month_day \<Rightarrow> month_day \<Rightarrow> bool" where
  "in_span current start e \<longleftrightarrow>
     (start \<le> e \<and> start \<le> current \<and> current \<le> e) \<or> (e < start \<and> (start \<le> current \<or> current \<le> e))"

definition month_day_of :: "date \<Rightarrow> month_day" where
  "month_day_of d = (case d of (y, m, k) \<Rightarrow> (m, k))"

definition season_of :: "plan \<Rightarrow> date \<Rightarrow> rate_error + string" where
  "season_of p d =
     (if pn_seasons p \<noteq> []
      then (case find (\<lambda>(name, s). in_span (month_day_of d) (sp_start s) (sp_end s))
                   (sort_key (\<lambda>(name, s). - sp_priority s) (pn_seasons p)) of
              Some (name, _) \<Rightarrow> Inr name
            | None \<Rightarrow> Inl (RateRuntime ''validated rate plan has no matching season''))
      else if (6, 1) \<le> month_day_of d \<and> month_day_of d \<le> (9, 30) then Inr ''summer'' else Inr ''winter'')"

definition day_type :: "date \<Rightarrow> string" where
  "day_type d = (if 5 \<le> weekday d then ''weekend'' else ''weekday'')"

text \<open>The default argument of \<^verbatim>\<open>dict.get\<close> is evaluated first, so it may raise even on a special day.\<close>

definition periods_for_date :: "plan \<Rightarrow> date \<Rightarrow> rate_error + period list" where
  "periods_for_date p d =
     (if \<not> tou_model p then Inr [(0, 1440, ''all-hours'', 0)]
      else bindE (season_of p d) (\<lambda>season.
        case map_of (pn_periods p) season of
          None \<Rightarrow> Inl (RateKey season)
        | Some days \<Rightarrow>
            (case map_of days (day_type d) of
               None \<Rightarrow> Inl (RateKey (day_type d))
             | Some normal \<Rightarrow> Inr (dict_get (dict_get (pn_special p) season []) d normal))))"

definition period_at :: "plan \<Rightarrow> zone \<Rightarrow> instant \<Rightarrow> rate_error + (string \<times> decimal)" where
  "period_at p z t =
     (if pn_pricing_model p = ''flat''
      then (case pn_flat_rate p of Some r \<Rightarrow> Inr (''flat'', r) | None \<Rightarrow> Inl (RateKey ''flat_rate_per_kwh''))
      else if pn_pricing_model p = ''tiered'' then Inr (''all-hours'', 0)
      else bindE (periods_for_date p (local_date z t)) (\<lambda>ps.
        case find (\<lambda>(start, e, bucket, price). start \<le> local_minute z t \<and> local_minute z t < e) ps of
          Some (start, e, bucket, price) \<Rightarrow> Inr (bucket, price)
        | None \<Rightarrow> Inl (RateRuntime ''validated rate plan has no matching period'')))"

section \<open>Tariff boundaries\<close>

text \<open>A wall time that a spring transition skips has no instant, one that repeats has two.\<close>

definition valid_wall_instants :: "zone \<Rightarrow> date \<Rightarrow> int \<Rightarrow> instant list" where
  "valid_wall_instants z day minute =
     (let naive = naive_at day minute
      in concat (map (\<lambda>fold. let u = zn_utc z naive fold in
           if wall z u = naive \<and> zn_fold z u = fold then [u] else []) [False, True]))"

text \<open>\<^verbatim>\<open>timedelta / 2\<close> rounds half to even.\<close>

definition half :: "int \<Rightarrow> int" where
  "half d = round_half_even (of_int d / 2)"

lemma half_bounds: "1000000 < d \<Longrightarrow> 0 < half d \<and> half d < d"
proof -
  assume d: "1000000 < d"
  have lo: "1 \<le> half d" unfolding half_def by (rule round_half_even_ge_of_int) (use d in simp)
  have hi: "half d \<le> d - 1" unfolding half_def by (rule round_half_even_le_of_int) (use d in simp)
  show "0 < half d \<and> half d < d" using lo hi by simp
qed

text \<open>The bisection for the transition between two probes with different offsets.\<close>

function bisect :: "zone \<Rightarrow> int \<Rightarrow> instant \<Rightarrow> instant \<Rightarrow> instant" where
  "bisect z prior low high =
     (if 1000000 < high - low
      then let midpoint = low + half (high - low)
           in if zn_offset z midpoint = prior then bisect z prior midpoint high
              else bisect z prior low midpoint
      else high)"
  by pat_completeness auto

termination
  by (relation "measure (\<lambda>(z, prior, low, high). nat (high - low))") (use half_bounds in fastforce)+

declare bisect.simps [simp del]

definition probe_us :: int where
  "probe_us = 900000000"

function offset_changes :: "zone \<Rightarrow> instant \<Rightarrow> instant \<Rightarrow> instant list" where
  "offset_changes z probe end_utc =
     (if probe < end_utc
      then let next_probe = min end_utc (probe + probe_us);
               change = (if zn_offset z next_probe \<noteq> zn_offset z probe
                         then [let h = bisect z (zn_offset z probe) probe next_probe in h - h mod 1000000]
                         else [])
           in change @ offset_changes z next_probe end_utc
      else [])"
  by pat_completeness auto

termination
  by (relation "measure (\<lambda>(z, probe, e). nat (e - probe))") (auto simp: probe_us_def)

declare offset_changes.simps [simp del]

definition day_candidates :: "plan \<Rightarrow> zone \<Rightarrow> int \<Rightarrow> instant list \<Rightarrow> rate_error + instant list" where
  "day_candidates p z n acc =
     (let day = date_of n in
      bindE (periods_for_date p day) (\<lambda>ps.
        Inr (acc @ valid_wall_instants z day 0
          @ concat (map (\<lambda>(start, e, _, _). valid_wall_instants z day start @ valid_wall_instants z day e) ps))))"

definition boundaries :: "plan \<Rightarrow> zone \<Rightarrow> instant \<Rightarrow> instant \<Rightarrow> rate_error + instant list" where
  "boundaries p z start_utc end_utc =
     (if pn_pricing_model p \<in> {''flat'', ''tiered''} then Inr (sorted_list_of_set {start_utc, end_utc})
      else
        let first = ordinal (local_date z start_utc) - 1; final = ordinal (local_date z end_utc) + 1 in
        bindE (foldE (day_candidates p z) [first..final] [start_utc, end_utc]) (\<lambda>cs.
          Inr (sorted_list_of_set (set (filter (\<lambda>t. start_utc \<le> t \<and> t \<le> end_utc)
                 (cs @ offset_changes z start_utc end_utc))))))"

definition next_period_at :: "plan \<Rightarrow> zone \<Rightarrow> instant \<Rightarrow> rate_error + (instant \<times> string \<times> decimal)" where
  "next_period_at p z t =
     (if pn_pricing_model p \<in> {''flat'', ''tiered''}
      then let midnight = zn_utc z (naive_at (date_add (local_date z t) 1) 0) False in
           bindE (period_at p z (midnight + 1000000)) (\<lambda>(bucket, price). Inr (midnight, bucket, price))
      else bindE (boundaries p z t (t + 3 * day_microseconds)) (\<lambda>bs.
        case find (\<lambda>b. t < b) bs of
          Some b \<Rightarrow> bindE (period_at p z (b + 1000000)) (\<lambda>(bucket, price). Inr (b, bucket, price))
        | None \<Rightarrow> Inl (RateRuntime ''validated rate plan has no future period boundary'')))"


section \<open>Tiers of a billing cycle\<close>

definition configured_baseline :: "plan \<Rightarrow> date \<Rightarrow> decimal option" where
  "configured_baseline p d =
     (case find (\<lambda>b. in_span (month_day_of d) (sb_start b) (sb_end b)) (pn_seasonal_baselines p) of
        Some b \<Rightarrow> sb_daily b | None \<Rightarrow> pn_daily_baseline p)"

definition baseline_for_cycle :: "plan \<Rightarrow> zone \<Rightarrow> instant \<Rightarrow> instant \<Rightarrow> rate_error + decimal" where
  "baseline_for_cycle p z cycle_start cycle_end =
     (let start_day = ordinal (local_date z cycle_start); end_day = ordinal (local_date z cycle_end) in
      bindE (foldE (\<lambda>n acc. case configured_baseline p (date_of n) of
                 None \<Rightarrow> Inl (RateValue ''no daily baseline is configured'')
               | Some b \<Rightarrow> Inr (dadd acc b)) [start_day..end_day - 1] 0) (\<lambda>total'.
        if end_day \<le> start_day then Inl (RateValue ''billing cycle must span at least one local day'')
        else Inr total'))"

definition quantized :: "(rat \<Rightarrow> int) \<Rightarrow> decimal \<Rightarrow> rate_error + decimal" where
  "quantized mode v = (case quantize mode 0 v of Some x \<Rightarrow> Inr x | None \<Rightarrow> Inl RateInvalidOperation)"

definition round_threshold :: "decimal \<Rightarrow> string \<Rightarrow> rate_error + decimal" where
  "round_threshold v policy =
     (if policy = ''none'' then Inr v
      else if policy = ''nearest_kwh'' then quantized round_half_up v
      else if policy = ''floor_kwh'' then quantized floor v
      else if policy = ''ceil_kwh'' then quantized ceiling v
      else Inl (RateKey policy))"

record resolved_tier =
  rt_tier :: tier
  rt_lower :: decimal
  rt_upper :: "decimal option"
  rt_baseline :: "decimal option"

definition resolve_tier :: "plan \<Rightarrow> decimal option \<Rightarrow> tier \<Rightarrow> rate_error + resolved_tier" where
  "resolve_tier p baseline t =
     (case baseline of
        Some b \<Rightarrow>
          bindE (round_threshold (dmul b (lower_of ''daily_baseline_kwh'' t)) (pn_rounding_policy p)) (\<lambda>lower.
          bindE (case ti_upper_multiplier t of
                   None \<Rightarrow> Inr None
                 | Some m \<Rightarrow> bindE (round_threshold (dmul b m) (pn_rounding_policy p)) (\<lambda>u. Inr (Some u))) (\<lambda>upper.
          Inr \<lparr>rt_tier = t, rt_lower = lower, rt_upper = upper, rt_baseline = baseline\<rparr>))
      | None \<Rightarrow>
          Inr \<lparr>rt_tier = t, rt_lower = lower_of ''fixed_cycle_kwh'' t, rt_upper = ti_upper_kwh t, rt_baseline = None\<rparr>)"

fun mapE :: "('a \<Rightarrow> 'e + 'b) \<Rightarrow> 'a list \<Rightarrow> 'e + 'b list" where
  "mapE f [] = Inr []"
| "mapE f (x # xs) = bindE (f x) (\<lambda>y. bindE (mapE f xs) (\<lambda>ys. Inr (y # ys)))"

definition resolved_tiers :: "plan \<Rightarrow> zone \<Rightarrow> instant \<Rightarrow> instant \<Rightarrow> rate_error + resolved_tier list" where
  "resolved_tiers p z cycle_start cycle_end =
     (if \<not> tiered_model p then Inr []
      else bindE (if pn_basis p = ''daily_baseline_kwh''
                  then bindE (baseline_for_cycle p z cycle_start cycle_end) (\<lambda>b. Inr (Some b))
                  else Inr None) (\<lambda>baseline.
        mapE (resolve_tier p baseline) (sorted_tiers p)))"

definition tier_at :: "resolved_tier list \<Rightarrow> decimal \<Rightarrow> resolved_tier option" where
  "tier_at ts usage =
     find (\<lambda>t. rt_lower t \<le> usage \<and> (case rt_upper t of None \<Rightarrow> True | Some u \<Rightarrow> usage < u)) ts"

section \<open>Billing cycles\<close>

definition cycle_boundary :: "plan \<Rightarrow> int \<Rightarrow> int \<Rightarrow> date" where
  "cycle_boundary p year month = (year, month, min (pn_expected_start_day p) (days_in_month year month))"

definition next_month :: "int \<times> int \<Rightarrow> int \<times> int" where
  "next_month ym = (case ym of (y, m) \<Rightarrow> if m = 12 then (y + 1, 1) else (y, m + 1))"

definition previous_month :: "int \<times> int \<Rightarrow> int \<times> int" where
  "previous_month ym = (case ym of (y, m) \<Rightarrow> if m = 1 then (y - 1, 12) else (y, m - 1))"

definition cycle_month :: "plan \<Rightarrow> zone \<Rightarrow> instant \<Rightarrow> int \<times> int" where
  "cycle_month p z t =
     (case local_date z t of (y, m, k) \<Rightarrow>
        if wall z t < naive_at (cycle_boundary p y m) 0 then previous_month (y, m) else (y, m))"

definition cycle_naive :: "plan \<Rightarrow> int \<times> int \<Rightarrow> int" where
  "cycle_naive p ym = (case ym of (y, m) \<Rightarrow> naive_at (cycle_boundary p y m) 0)"

definition billing_cycle_bounds :: "plan \<Rightarrow> zone \<Rightarrow> instant \<Rightarrow> instant \<times> instant" where
  "billing_cycle_bounds p z t =
     (let ym = cycle_month p z t
      in (zn_utc z (cycle_naive p ym) False, zn_utc z (cycle_naive p (next_month ym)) False))"

section \<open>Pricing an interval\<close>

record cost_slice =
  cs_start :: instant
  cs_end :: instant
  cs_energy :: decimal
  cs_bucket :: string
  cs_price :: decimal
  cs_cost :: decimal
  cs_tier_id :: "string option"
  cs_tier_name :: "string option"
  cs_tou_period :: "string option"
  cs_cumulative_start :: "decimal option"
  cs_cumulative_end :: "decimal option"

definition tier_price :: "plan \<Rightarrow> tier \<Rightarrow> string \<Rightarrow> decimal \<Rightarrow> rate_error + decimal" where
  "tier_price p t tou_bucket tou_rate =
     (if pn_pricing_model p = ''tiered'' then Inr (ti_price t)
      else if pn_hybrid_method p = ''tier_period_matrix''
      then (case map_of (ti_tou_prices t) tou_bucket of Some x \<Rightarrow> Inr x | None \<Rightarrow> Inl (RateKey tou_bucket))
      else Inr (dadd (ti_price t) tou_rate))"

definition tier_bucket :: "plan \<Rightarrow> tier \<Rightarrow> string \<Rightarrow> string" where
  "tier_bucket p t tou_bucket =
     (if pn_pricing_model p = ''time_of_use_tiered'' then ti_name t @ '' '' @ [CHR 0xB7] @ '' '' @ tou_bucket
      else ti_name t)"

definition tou_label :: "plan \<Rightarrow> string \<Rightarrow> string option" where
  "tou_label p tou_bucket =
     (if pn_pricing_model p = ''time_of_use_tiered'' then Some tou_bucket else None)"

record allocation =
  al_cumulative :: decimal
  al_slices :: "cost_slice list"
  al_by_bucket :: "(string, decimal) dict"
  al_by_tier :: "(string, decimal) dict"
  al_charge_by_tier :: "(string, decimal) dict"

definition bump :: "(string, decimal) dict \<Rightarrow> string \<Rightarrow> decimal \<Rightarrow> (string, decimal) dict" where
  "bump d k v = dict_set d k (dadd (dict_get d k 0) v)"

definition add_segment ::
  "plan \<Rightarrow> tier \<Rightarrow> string \<Rightarrow> decimal \<Rightarrow> instant \<Rightarrow> instant \<Rightarrow> decimal \<Rightarrow> allocation \<Rightarrow> allocation"
where
  "add_segment p t tou_bucket price left right energy a =
     (let cost = dmul energy price; bucket = tier_bucket p t tou_bucket
      in \<lparr>al_cumulative = dadd (al_cumulative a) energy,
          al_slices = al_slices a @ [\<lparr>cs_start = left, cs_end = right, cs_energy = energy, cs_bucket = bucket,
             cs_price = price, cs_cost = cost, cs_tier_id = Some (ti_tier_id t), cs_tier_name = Some (ti_name t),
             cs_tou_period = tou_label p tou_bucket, cs_cumulative_start = Some (al_cumulative a),
             cs_cumulative_end = Some (dadd (al_cumulative a) energy)\<rparr>],
          al_by_bucket = bump (al_by_bucket a) bucket energy,
          al_by_tier = bump (al_by_tier a) (ti_name t) energy,
          al_charge_by_tier = bump (al_charge_by_tier a) (ti_name t) cost\<rparr>)"

definition segment_us :: "decimal \<Rightarrow> decimal \<Rightarrow> decimal \<Rightarrow> int" where
  "segment_us seconds' energy allocated =
     round_half_up (dmul (dmul seconds' (ddiv energy allocated)) 1000000)"

text \<open>
  The allocation of a piece to the tiers.  The loop ends only if every turn uses up something,
  so it is a partial function; \<^verbatim>\<open>None\<close> would be a loop that never returns.
\<close>

partial_function (option) allocate_tiers ::
  "plan \<Rightarrow> resolved_tier list \<Rightarrow> string \<Rightarrow> decimal \<Rightarrow> decimal \<Rightarrow> decimal \<Rightarrow> instant \<Rightarrow> decimal \<Rightarrow> instant \<Rightarrow> allocation
   \<Rightarrow> (rate_error + allocation) option"
where
  "allocate_tiers p ts tou_bucket tou_rate allocated seconds' right remaining segment_left a =
     (if remaining \<le> 0 then Some (Inr a)
      else case tier_at ts (al_cumulative a) of
        None \<Rightarrow> Some (Inl (RateRuntime ''validated tiers do not cover cumulative usage''))
      | Some t \<Rightarrow>
          let capacity = (case rt_upper t of None \<Rightarrow> remaining | Some u \<Rightarrow> max 0 (dsub u (al_cumulative a)));
              energy = min remaining capacity
          in if energy \<le> 0
             then Some (Inl (RateRuntime ''tier allocation made no chronological progress''))
             else (case tier_price p (rt_tier t) tou_bucket tou_rate of
                Inl e \<Rightarrow> Some (Inl e)
              | Inr price \<Rightarrow>
                  let segment_right = (if energy = remaining then right
                        else segment_left + segment_us seconds' energy allocated)
                  in allocate_tiers p ts tou_bucket tou_rate allocated seconds' right (dsub remaining energy)
                       segment_right
                       (add_segment p (rt_tier t) tou_bucket price segment_left segment_right energy a)))"

declare allocate_tiers.simps [code]

text \<open>A piece without energy still gets a slice, at the price of the tier reached.\<close>

definition empty_piece ::
  "plan \<Rightarrow> resolved_tier list \<Rightarrow> string \<Rightarrow> decimal \<Rightarrow> instant \<Rightarrow> instant \<Rightarrow> allocation \<Rightarrow> rate_error + allocation"
where
  "empty_piece p ts tou_bucket tou_rate left right a =
     (case tier_at ts (al_cumulative a) of
        None \<Rightarrow> Inr a
      | Some t \<Rightarrow> bindE (tier_price p (rt_tier t) tou_bucket tou_rate) (\<lambda>price.
          Inr (a\<lparr>al_slices := al_slices a @ [\<lparr>cs_start = left, cs_end = right, cs_energy = 0,
                cs_bucket = tier_bucket p (rt_tier t) tou_bucket, cs_price = price, cs_cost = 0,
                cs_tier_id = Some (ti_tier_id (rt_tier t)), cs_tier_name = Some (ti_name (rt_tier t)),
                cs_tou_period = tou_label p tou_bucket, cs_cumulative_start = Some (al_cumulative a),
                cs_cumulative_end = Some (al_cumulative a)\<rparr>]\<rparr>)))"

text \<open>A piece of a plan without tiers.\<close>

definition plain_piece ::
  "plan \<Rightarrow> string \<Rightarrow> decimal \<Rightarrow> decimal \<Rightarrow> instant \<Rightarrow> instant \<Rightarrow> allocation \<Rightarrow> rate_error + allocation"
where
  "plain_piece p tou_bucket tou_rate energy left right a =
     bindE (if pn_pricing_model p = ''flat''
            then (case pn_flat_rate p of Some r \<Rightarrow> Inr r | None \<Rightarrow> Inl (RateKey ''flat_rate_per_kwh''))
            else Inr tou_rate) (\<lambda>price.
       let bucket = (if pn_pricing_model p = ''flat'' then ''Flat'' else tou_bucket)
       in Inr (a\<lparr>al_slices := al_slices a @ [\<lparr>cs_start = left, cs_end = right, cs_energy = energy,
                cs_bucket = bucket, cs_price = price, cs_cost = dmul energy price,
                cs_tier_id = None, cs_tier_name = None,
                cs_tou_period = (if pn_pricing_model p = ''time_of_use'' then Some tou_bucket else None),
                cs_cumulative_start = None, cs_cumulative_end = None\<rparr>],
             al_by_bucket := bump (al_by_bucket a) bucket energy\<rparr>))"

definition us_seconds :: "int \<Rightarrow> decimal" where
  "us_seconds us = of_int us / 10 ^ 6"

definition price_piece ::
  "plan \<Rightarrow> zone \<Rightarrow> resolved_tier list \<Rightarrow> decimal \<Rightarrow> decimal \<Rightarrow> instant \<times> instant \<Rightarrow> allocation
   \<Rightarrow> (rate_error + allocation) option"
where
  "price_piece p z ts energy total_seconds' piece a =
     (case piece of (left, right) \<Rightarrow>
        let seconds' = us_seconds (right - left);
            allocated = ddiv (dmul energy seconds') total_seconds'
        in (case period_at p z (left + half (right - left)) of
              Inl e \<Rightarrow> Some (Inl e)
            | Inr (tou_bucket, tou_rate) \<Rightarrow>
                if ts = [] then Some (plain_piece p tou_bucket tou_rate allocated left right a)
                else (case allocate_tiers p ts tou_bucket tou_rate allocated seconds' right allocated left a of
                   None \<Rightarrow> None
                 | Some (Inl e) \<Rightarrow> Some (Inl e)
                 | Some (Inr b) \<Rightarrow> if allocated = 0
                     then Some (empty_piece p ts tou_bucket tou_rate left right b) else Some (Inr b))))"

fun price_pieces ::
  "plan \<Rightarrow> zone \<Rightarrow> resolved_tier list \<Rightarrow> decimal \<Rightarrow> decimal \<Rightarrow> instant list \<Rightarrow> allocation
   \<Rightarrow> (rate_error + allocation) option"
where
  "price_pieces p z ts energy total_seconds' (l # r # bs) a =
     (case price_piece p z ts energy total_seconds' (l, r) a of
        None \<Rightarrow> None
      | Some (Inl e) \<Rightarrow> Some (Inl e)
      | Some (Inr b) \<Rightarrow> price_pieces p z ts energy total_seconds' (r # bs) b)"
| "price_pieces p z ts energy total_seconds' bs a = Some (Inr a)"


section \<open>Adjustments and the whole calculation\<close>

definition full_scope :: "string \<Rightarrow> bool" where
  "full_scope scope \<longleftrightarrow> scope \<in> {''full_account'', ''full_account_estimate''}"

definition allocated_scope :: "string \<Rightarrow> bool" where
  "allocated_scope scope \<longleftrightarrow>
     scope \<in> {''allocated_account'', ''allocated_account_estimate'', ''full_account'', ''full_account_estimate''}"

record request =
  rq_start :: instant
  rq_end :: instant
  rq_energy :: decimal
  rq_scope :: string
  rq_baseline_allocation :: "decimal option"
  rq_billing_days :: "int option"
  rq_cca_per_kwh :: decimal
  rq_other :: decimal
  rq_before :: decimal
  rq_cycle_start :: "instant option"
  rq_cycle_end :: "instant option"

record charges =
  ch_total :: decimal
  ch_fixed :: decimal
  ch_baseline :: decimal
  ch_cca :: decimal
  ch_other :: decimal
  ch_breakdown :: "(string, decimal) dict"

record calculation =
  ca_slices :: "cost_slice list"
  ca_by_bucket :: "(string, decimal) dict"
  ca_by_tier :: "(string, decimal) dict"
  ca_charge_by_tier :: "(string, decimal) dict"
  ca_thresholds :: "resolved_tier list"
  ca_energy_charge :: decimal
  ca_charges :: charges

definition eligible_slices :: "zone \<Rightarrow> adjustment \<Rightarrow> cost_slice list \<Rightarrow> cost_slice list" where
  "eligible_slices z i ss =
     filter (\<lambda>s. let d = ordinal (local_date z (cs_start s)) in
        (case ad_effective_from i of None \<Rightarrow> True | Some f \<Rightarrow> ordinal f \<le> d)
        \<and> (case ad_effective_to i of None \<Rightarrow> True | Some u \<Rightarrow> d \<le> ordinal u)) ss"

definition slice_days :: "zone \<Rightarrow> cost_slice list \<Rightarrow> date list" where
  "slice_days z ss = remdups (map (\<lambda>s. local_date z (cs_start s)) ss)"

definition year_month_of :: "date \<Rightarrow> int \<times> int" where
  "year_month_of d = (case d of (y, m, k) \<Rightarrow> (y, m))"

text \<open>The amount of an adjustment before its sign; \<^verbatim>\<open>None\<close> is the \<^verbatim>\<open>continue\<close> of a baseline credit without an allocation.\<close>

definition adjustment_amount ::
  "zone \<Rightarrow> request \<Rightarrow> adjustment \<Rightarrow> cost_slice list \<Rightarrow> decimal \<Rightarrow> decimal option"
where
  "adjustment_amount z rq i eligible running =
     (let energy = dsum (map cs_energy eligible); days = slice_days z eligible in
      if ad_component i = ''baseline_credit''
      then (case rq_baseline_allocation rq of
              None \<Rightarrow> None
            | Some b \<Rightarrow> if full_scope (rq_scope rq) then Some (dmul (min energy b) (ad_value i)) else None)
      else if ad_unit i = ''per_kwh'' then Some (dmul energy (ad_value i))
      else if ad_unit i = ''per_day'' then Some (dmul (ad_value i) (of_nat (max 1 (length days))))
      else if ad_unit i = ''per_month''
      then Some (dmul (ad_value i) (of_nat (max 1 (length (remdups (map year_month_of days))))))
      else if ad_unit i = ''percent'' then Some (ddiv (dmul running (ad_value i)) 100)
      else Some (ad_value i))"

definition signed_amount :: "adjustment \<Rightarrow> decimal \<Rightarrow> decimal \<Rightarrow> decimal" where
  "signed_amount i amount running =
     (if ad_component i = ''minimum_charge'' then max 0 (dsub amount running)
      else if ad_operation i = ''multiply'' then dmul running (dsub (ad_value i) 1)
      else if ad_operation i = ''subtract'' then dneg amount
      else amount)"

definition apply_adjustment :: "zone \<Rightarrow> request \<Rightarrow> cost_slice list \<Rightarrow> adjustment \<Rightarrow> charges \<Rightarrow> charges" where
  "apply_adjustment z rq ss i c =
     (if (ad_scope i = ''full_account_estimate'' \<and> \<not> full_scope (rq_scope rq))
         \<or> (ad_scope i = ''allocated_account_estimate'' \<and> \<not> allocated_scope (rq_scope rq)) then c
      else let eligible = eligible_slices z i ss in
        if eligible = [] then c
        else case adjustment_amount z rq i eligible (ch_total c) of
          None \<Rightarrow> c
        | Some amount \<Rightarrow>
            let signed = signed_amount i amount (ch_total c);
                c' = c\<lparr>ch_total := dadd (ch_total c) signed,
                       ch_breakdown := dict_set (ch_breakdown c) (ad_name i) signed\<rparr>
            in if ad_component i \<in> {''daily_fixed_charge'', ''monthly_fixed_charge''}
               then c'\<lparr>ch_fixed := dadd (ch_fixed c) signed\<rparr>
               else if ad_component i = ''baseline_credit''
               then c'\<lparr>ch_baseline := dadd (ch_baseline c) amount\<rparr>
               else if ad_component i \<in> {''cca'', ''direct_access'', ''generation_provider''}
               then c'\<lparr>ch_cca := dadd (ch_cca c) signed\<rparr>
               else c'\<lparr>ch_other := dadd (ch_other c) signed\<rparr>)"

definition billing_days_of :: "zone \<Rightarrow> request \<Rightarrow> cost_slice list \<Rightarrow> int" where
  "billing_days_of z rq ss =
     (case rq_billing_days rq of
        Some n \<Rightarrow> n
      | None \<Rightarrow> max 1 (int (length (remdups (local_date z (rq_end rq) # map (\<lambda>s. local_date z (cs_start s)) ss)))))"

definition opening_charges :: "plan \<Rightarrow> zone \<Rightarrow> request \<Rightarrow> cost_slice list \<Rightarrow> decimal \<Rightarrow> charges" where
  "opening_charges p z rq ss energy_charge =
     (let legacy = full_scope (rq_scope rq) \<and> pn_adjustments p = [];
          fixed = (if legacy then dmul (pn_base_service_charge p) (of_int (billing_days_of z rq ss)) else 0);
          baseline = (if legacy
            then (case (pn_baseline_credit p, rq_baseline_allocation rq) of
                    (Some credit, Some b) \<Rightarrow> dmul (min (rq_energy rq) b) credit | _ \<Rightarrow> 0)
            else 0);
          cca = dmul (rq_energy rq) (rq_cca_per_kwh rq);
          other = (if rq_scope rq \<noteq> ''energy_only'' then rq_other rq else 0)
      in \<lparr>ch_total = dadd (dadd (dsub (dadd energy_charge fixed) baseline) cca) other,
          ch_fixed = fixed, ch_baseline = baseline, ch_cca = cca, ch_other = other, ch_breakdown = []\<rparr>)"

definition all_charges :: "plan \<Rightarrow> zone \<Rightarrow> request \<Rightarrow> cost_slice list \<Rightarrow> charges" where
  "all_charges p z rq ss =
     fold (apply_adjustment z rq ss) (sort_key ad_order (pn_adjustments p))
       (opening_charges p z rq ss (dsum (map cs_cost ss)))"

definition calculation_cycle :: "plan \<Rightarrow> zone \<Rightarrow> request \<Rightarrow> instant \<times> instant" where
  "calculation_cycle p z rq =
     (case billing_cycle_bounds p z (rq_start rq) of (inferred_start, inferred_end) \<Rightarrow>
        (case rq_cycle_start rq of None \<Rightarrow> inferred_start | Some s \<Rightarrow> s,
         case rq_cycle_end rq of None \<Rightarrow> inferred_end | Some e \<Rightarrow> e))"

definition request_tiers :: "plan \<Rightarrow> zone \<Rightarrow> request \<Rightarrow> rate_error + resolved_tier list" where
  "request_tiers p z rq =
     (if tiered_model p
      then (case calculation_cycle p z rq of (cycle_start, cycle_end) \<Rightarrow> resolved_tiers p z cycle_start cycle_end)
      else Inr [])"

definition empty_allocation :: "decimal \<Rightarrow> allocation" where
  "empty_allocation before =
     \<lparr>al_cumulative = before, al_slices = [], al_by_bucket = [], al_by_tier = [], al_charge_by_tier = []\<rparr>"

definition calculate :: "plan \<Rightarrow> zone \<Rightarrow> request \<Rightarrow> (rate_error + calculation) option" where
  "calculate p z rq =
     (if rq_end rq \<le> rq_start rq \<or> rq_energy rq < 0
      then Some (Inl (RateValue ''calculation interval and energy must be valid''))
      else if rq_before rq < 0 then Some (Inl (RateValue ''cumulative usage cannot be negative''))
      else if tiered_model p \<and> snd (calculation_cycle p z rq) \<le> fst (calculation_cycle p z rq)
      then Some (Inl (RateValue ''tiered calculations require an exact aware billing cycle''))
      else case boundaries p z (rq_start rq) (rq_end rq) of
        Inl e \<Rightarrow> Some (Inl e)
      | Inr bs \<Rightarrow>
          (case request_tiers p z rq of
             Inl e \<Rightarrow> Some (Inl e)
           | Inr ts \<Rightarrow>
               (case price_pieces p z ts (rq_energy rq) (us_seconds (rq_end rq - rq_start rq)) bs
                       (empty_allocation (rq_before rq)) of
                  None \<Rightarrow> None
                | Some (Inl e) \<Rightarrow> Some (Inl e)
                | Some (Inr a) \<Rightarrow>
                    Some (Inr \<lparr>ca_slices = al_slices a, ca_by_bucket = al_by_bucket a,
                               ca_by_tier = al_by_tier a, ca_charge_by_tier = al_charge_by_tier a,
                               ca_thresholds = ts, ca_energy_charge = dsum (map cs_cost (al_slices a)),
                               ca_charges = all_charges p z rq (al_slices a)\<rparr>))))"

end
