(* ===== verification/Rate_Documents.thy ===== *)
theory Rate_Documents
  imports Rate_Engine
begin

text \<open>
  Model of \<^verbatim>\<open>app/rates/documents.py\<close>: the rate plan document, its field validators, the validation
  report and the translation of a document into the plan of the rate engine.  A field holds its
  decoded value, a decimal field the number that \<^verbatim>\<open>_exact_decimal\<close> returned.  Text fields that no
  operation reads (notes, citations, descriptions, the split of a price into delivery and
  generation) are left out, and an issue has its code and its path but not its message.
\<close>

section \<open>Exact decimals\<close>

text \<open>What \<^verbatim>\<open>Decimal(text)\<close> gives: a coefficient and an exponent, an infinity or NaN, or a parse error.\<close>

datatype decimal_text = Finite int int | Special | Malformed

definition exact_decimal :: "decimal_text \<Rightarrow> int \<Rightarrow> rate_error + decimal" where
  "exact_decimal v places =
     (case v of
        Malformed \<Rightarrow> Inl (RateValue ''must be an exact decimal string'')
      | Special \<Rightarrow> Inl (RateValue ''must be finite'')
      | Finite c e \<Rightarrow> if places < \<bar>e\<bar> then Inl (RateValue ''must be finite'') else Inr (of_int c * 10 powi e))"

lemma exact_decimal_grid: "exact_decimal v 8 = Inr x \<Longrightarrow> on_grid 8 x"
proof -
  assume "exact_decimal v 8 = Inr x"
  then obtain c e where x: "x = of_int c * 10 powi e" "\<bar>e\<bar> \<le> 8"
    by (auto simp: exact_decimal_def split: decimal_text.splits if_splits)
  have "x * 10 ^ 8 = of_int c * (10 powi e * 10 powi 8)" by (simp add: x)
  also have "\<dots> = of_int c * 10 powi (e + 8)" by (simp add: powi10_add)
  also have "\<dots> = of_int (c * 10 ^ nat (e + 8))" using x(2) by (simp add: power_int_def)
  finally show ?thesis by (rule on_gridI)
qed

section \<open>Documents and their validators\<close>

record seasonal_baseline_document =
  sd_name :: string
  sd_start :: month_day
  sd_end :: month_day
  sd_daily_kwh :: decimal

record threshold_document =
  th_basis :: string
  th_daily_baseline :: "decimal option"
  th_rounding_policy :: string
  th_seasonal :: "seasonal_baseline_document list"

record tier_document =
  td_tier_id :: string
  td_name :: string
  td_order :: int
  td_lower :: decimal
  td_upper :: "decimal option"
  td_lower_multiplier :: "decimal option"
  td_upper_multiplier :: "decimal option"
  td_price :: decimal
  td_tou_prices :: "(string, decimal) dict"

record period_document =
  pd_label :: string
  pd_start :: int
  pd_end :: int
  pd_price :: decimal

record schedule_document =
  sc_day_type :: string
  sc_dates :: "date list"
  sc_periods :: "period_document list"

record season_document =
  se_name :: string
  se_start :: month_day
  se_end :: month_day
  se_priority :: int
  se_schedules :: "schedule_document list"

record document =
  do_plan_code :: string
  do_utility :: string
  do_currency :: string
  do_timezone :: string
  do_pricing_model :: string
  do_flat_rate :: "decimal option"
  do_expected_start_day :: int
  do_threshold :: threshold_document
  do_tiers :: "tier_document list"
  do_hybrid :: "string option"
  do_ownership_scope :: string
  do_owner_id :: "string option"
  do_effective_from :: date
  do_effective_through :: "date option"
  do_cost_scope_default :: string
  do_provider_mode :: string
  do_seasons :: "season_document list"
  do_adjustments :: "adjustment list"

definition text_between :: "nat \<Rightarrow> nat \<Rightarrow> string \<Rightarrow> bool" where
  "text_between lo hi s \<longleftrightarrow> lo \<le> length s \<and> length s \<le> hi"

definition digit_char :: "char \<Rightarrow> bool" where
  "digit_char c \<longleftrightarrow> (48 :: nat) \<le> of_char c \<and> of_char c \<le> (57 :: nat)"

definition upper_letter :: "char \<Rightarrow> bool" where
  "upper_letter c \<longleftrightarrow> (65 :: nat) \<le> of_char c \<and> of_char c \<le> (90 :: nat)"

definition lower_letter :: "char \<Rightarrow> bool" where
  "lower_letter c \<longleftrightarrow> (97 :: nat) \<le> of_char c \<and> of_char c \<le> (122 :: nat)"

text \<open>A month and day of the leap year 2024.\<close>

definition valid_month_day :: "month_day \<Rightarrow> bool" where
  "valid_month_day md = (case md of (m, k) \<Rightarrow> valid_date (2024, m, k))"

definition seasonal_baseline_ok :: "seasonal_baseline_document \<Rightarrow> bool" where
  "seasonal_baseline_ok b \<longleftrightarrow> text_between 1 80 (sd_name b) \<and> on_grid 8 (sd_daily_kwh b) \<and> 0 < sd_daily_kwh b
     \<and> valid_month_day (sd_start b) \<and> valid_month_day (sd_end b)"

definition threshold_ok :: "threshold_document \<Rightarrow> bool" where
  "threshold_ok t \<longleftrightarrow> th_basis t \<in> {''fixed_cycle_kwh'', ''daily_baseline_kwh''}
     \<and> th_rounding_policy t \<in> {''none'', ''nearest_kwh'', ''floor_kwh'', ''ceil_kwh''}
     \<and> (\<forall>b\<in>set_option (th_daily_baseline t). on_grid 8 b \<and> 0 < b)
     \<and> list_all seasonal_baseline_ok (th_seasonal t)
     \<and> \<not> (th_basis t = ''daily_baseline_kwh'' \<and> th_daily_baseline t = None \<and> th_seasonal t = [])
     \<and> \<not> (th_basis t = ''fixed_cycle_kwh'' \<and> (th_daily_baseline t \<noteq> None \<or> th_seasonal t \<noteq> []))"

definition tier_value_ok :: "decimal \<Rightarrow> bool" where
  "tier_value_ok v \<longleftrightarrow> on_grid 8 v \<and> 0 \<le> v"

definition tier_ok :: "tier_document \<Rightarrow> bool" where
  "tier_ok t \<longleftrightarrow> text_between 1 80 (td_tier_id t)
     \<and> (case td_tier_id t of [] \<Rightarrow> False | c # cs \<Rightarrow> (digit_char c \<or> upper_letter c \<or> lower_letter c)
          \<and> list_all (\<lambda>c. digit_char c \<or> upper_letter c \<or> lower_letter c \<or> c \<in> {CHR ''.'', CHR ''_'', CHR ''-''}) cs)
     \<and> text_between 1 120 (td_name t) \<and> 0 \<le> td_order t
     \<and> tier_value_ok (td_lower t) \<and> tier_value_ok (td_price t)
     \<and> (\<forall>v\<in>set_option (td_upper t) \<union> set_option (td_lower_multiplier t) \<union> set_option (td_upper_multiplier t). tier_value_ok v)
     \<and> list_all (\<lambda>(bucket, price). text_between 1 80 bucket \<and> tier_value_ok price) (td_tou_prices t)"

definition period_ok :: "period_document \<Rightarrow> bool" where
  "period_ok q \<longleftrightarrow> text_between 1 80 (pd_label q) \<and> 0 \<le> pd_start q \<and> pd_start q \<le> 1439
     \<and> 1 \<le> pd_end q \<and> pd_end q \<le> 1440 \<and> on_grid 8 (pd_price q) \<and> pd_start q < pd_end q"

definition schedule_ok :: "schedule_document \<Rightarrow> bool" where
  "schedule_ok s \<longleftrightarrow> sc_day_type s \<in> {''weekday'', ''weekend'', ''all-days'', ''holiday'', ''date-override''}
     \<and> list_all period_ok (sc_periods s)"

definition season_ok :: "season_document \<Rightarrow> bool" where
  "season_ok s \<longleftrightarrow> text_between 1 80 (se_name s) \<and> valid_month_day (se_start s) \<and> valid_month_day (se_end s)
     \<and> list_all schedule_ok (se_schedules s)"

definition adjustment_ok :: "adjustment \<Rightarrow> bool" where
  "adjustment_ok i \<longleftrightarrow> text_between 1 120 (ad_name i)
     \<and> ad_component i \<in> {''daily_fixed_charge'', ''monthly_fixed_charge'', ''minimum_charge'', ''baseline_credit'',
          ''percentage_tax'', ''fixed_tax'', ''generation_provider'', ''cca'', ''direct_access'', ''manual_credit'', ''other''}
     \<and> ad_operation i \<in> {''add'', ''subtract'', ''minimum'', ''multiply''} \<and> on_grid 8 (ad_value i)
     \<and> (case (ad_effective_from i, ad_effective_to i) of (Some f, Some t) \<Rightarrow> ordinal f \<le> ordinal t | _ \<Rightarrow> True)"

definition plan_code_ok :: "string \<Rightarrow> bool" where
  "plan_code_ok s = (case s of [] \<Rightarrow> False | c # cs \<Rightarrow> (digit_char c \<or> upper_letter c) \<and> text_between 1 79 cs
     \<and> list_all (\<lambda>c. digit_char c \<or> upper_letter c \<or> c \<in> {CHR ''.'', CHR ''_'', CHR ''-''}) cs)"

text \<open>The validators of the document class; \<^verbatim>\<open>known_zone\<close> is the time zone database.\<close>

definition document_ok :: "(string \<Rightarrow> bool) \<Rightarrow> document \<Rightarrow> bool" where
  "document_ok known_zone d \<longleftrightarrow>
     plan_code_ok (do_plan_code d) \<and> text_between 1 160 (do_utility d)
     \<and> length (do_currency d) = 3 \<and> list_all upper_letter (do_currency d) \<and> known_zone (do_timezone d)
     \<and> do_pricing_model d \<in> {''flat'', ''time_of_use'', ''tiered'', ''time_of_use_tiered''}
     \<and> (\<forall>r\<in>set_option (do_flat_rate d). on_grid 8 r \<and> 0 \<le> r)
     \<and> 1 \<le> do_expected_start_day d \<and> do_expected_start_day d \<le> 31 \<and> threshold_ok (do_threshold d)
     \<and> list_all tier_ok (do_tiers d)
     \<and> do_hybrid d \<in> {None, Some ''tier_period_matrix'', Some ''tier_base_plus_tou_adder'', Some ''tou_base_plus_tier_adder''}
     \<and> do_ownership_scope d \<in> {''global'', ''site'', ''utility_account''}
     \<and> do_cost_scope_default d \<in> {''energy_only'', ''allocated_account_estimate'', ''full_account_estimate''}
     \<and> do_provider_mode d \<in> {''sce_delivery_generation'', ''sce_delivery_cca'', ''sce_delivery_direct_access'', ''custom_combined''}
     \<and> list_all season_ok (do_seasons d) \<and> list_all adjustment_ok (do_adjustments d)
     \<and> (\<forall>t\<in>set_option (do_effective_through d). ordinal (do_effective_from d) \<le> ordinal t)
     \<and> (do_ownership_scope d \<noteq> ''global'' \<longrightarrow> truthy (do_owner_id d))
     \<and> (do_pricing_model d = ''flat'' \<longrightarrow> do_flat_rate d \<noteq> None)
     \<and> (do_pricing_model d \<in> {''tiered'', ''time_of_use_tiered''} \<longrightarrow> 2 \<le> length (do_tiers d))
     \<and> (do_pricing_model d = ''time_of_use_tiered'' \<longleftrightarrow> do_hybrid d \<noteq> None)"

section \<open>The validation report\<close>

record issue =
  is_code :: string
  is_path :: string

record report =
  rp_valid :: bool
  rp_errors :: "issue list"
  rp_warnings :: "issue list"
  rp_coverage :: "(string, bool) dict"

definition issue_at :: "string \<Rightarrow> string \<Rightarrow> issue" where
  "issue_at code path = \<lparr>is_code = code, is_path = path\<rparr>"

definition yday :: "month_day \<Rightarrow> int" where
  "yday md = (case md of (m, k) \<Rightarrow> ordinal (2024, m, k) - ordinal (2023, 12, 31))"

definition season_days :: "season_document \<Rightarrow> int set" where
  "season_days s =
     (let start = yday (se_start s); e = yday (se_end s)
      in if start \<le> e then {start..e} else {start..366} \<union> {1..e})"

definition lower_text :: "string \<Rightarrow> string" where
  "lower_text s = map (\<lambda>c. if upper_letter c then char_of (of_char c + 32 :: nat) else c) s"

definition needs_time_schedule :: "document \<Rightarrow> bool" where
  "needs_time_schedule d \<longleftrightarrow> do_pricing_model d \<in> {''time_of_use'', ''time_of_use_tiered''}"

definition has_tiers :: "document \<Rightarrow> bool" where
  "has_tiers d \<longleftrightarrow> do_pricing_model d \<in> {''tiered'', ''time_of_use_tiered''}"

text \<open>The loop over the sorted periods of a schedule: errors, warnings, the minute reached and whether it is gap-free.\<close>

fun period_issues ::
  "string \<Rightarrow> decimal \<Rightarrow> nat \<Rightarrow> int \<Rightarrow> period_document list \<Rightarrow> issue list \<times> issue list \<times> int \<times> bool"
where
  "period_issues base limit i cursor [] = ([], [], cursor, True)"
| "period_issues base limit i cursor (q # qs) =
     (let path = base @ ''.periods.'' @ int_text (int i);
          order = (if pd_start q < cursor then [issue_at ''period_overlap'' path]
                   else if cursor < pd_start q then [issue_at ''period_gap'' path] else []);
          negative = (if pd_price q < 0 then [issue_at ''negative_rate'' (path @ ''.price_per_kwh'')] else []);
          sanity = (if limit < pd_price q then [issue_at ''rate_sanity'' (path @ ''.price_per_kwh'')] else [])
      in case period_issues base limit (Suc i) (max cursor (pd_end q)) qs of
           (es, ws, reached, valid) \<Rightarrow> (order @ negative @ es, sanity @ ws, reached, order = [] \<and> valid))"

definition schedule_issues ::
  "decimal \<Rightarrow> season_document \<Rightarrow> schedule_document \<Rightarrow> issue list \<times> issue list \<times> string \<times> bool"
where
  "schedule_issues limit s c =
     (let base = ''seasons.'' @ se_name s @ ''.'' @ sc_day_type c in
      case period_issues base limit 0 0 (sort_key pd_start (sc_periods c)) of
        (es, ws, reached, valid) \<Rightarrow>
          (es @ (if reached \<noteq> 1440 then [issue_at ''period_gap'' base] else []), ws,
           se_name s @ ''/'' @ sc_day_type c, valid \<and> reached = 1440))"

definition normal_days :: "season_document \<Rightarrow> bool" where
  "normal_days s \<longleftrightarrow> ''all-days'' \<in> set (map sc_day_type (se_schedules s))
     \<or> {''weekday'', ''weekend''} \<subseteq> set (map sc_day_type (se_schedules s))"

definition season_issues :: "decimal \<Rightarrow> season_document \<Rightarrow> issue list \<times> issue list \<times> (string \<times> bool) list" where
  "season_issues limit s =
     (let parts = map (schedule_issues limit s) (se_schedules s)
      in ((if normal_days s then [] else [issue_at ''day_type_coverage'' (''seasons.'' @ se_name s @ ''.schedules'')])
            @ concat (map fst parts),
          concat (map (fst \<circ> snd) parts), map (snd \<circ> snd) parts))"

definition day_owners :: "document \<Rightarrow> int \<Rightarrow> season_document list" where
  "day_owners d day = filter (\<lambda>s. day \<in> season_days s) (do_seasons d)"

definition top_priority :: "season_document list \<Rightarrow> int" where
  "top_priority owners = Max (set (map se_priority owners))"

text \<open>The loop over the days of the leap year stops at its first issue.\<close>

fun annual_issues :: "document \<Rightarrow> int list \<Rightarrow> issue list" where
  "annual_issues d [] = []"
| "annual_issues d (day # days) =
     (let owners = day_owners d day in
      if owners = [] then [issue_at ''annual_gap'' ''seasons'']
      else if 1 < length (filter (\<lambda>s. se_priority s = top_priority owners) owners)
      then [issue_at ''season_conflict'' ''seasons'']
      else annual_issues d days)"

definition bound_issues ::
  "string \<Rightarrow> string \<Rightarrow> string \<Rightarrow> string \<Rightarrow> bool \<Rightarrow> decimal \<Rightarrow> decimal \<Rightarrow> decimal option \<Rightarrow> issue list"
where
  "bound_issues path lower_key upper_key required final cursor lower upper =
     (if lower \<noteq> cursor then [issue_at ''tier_gap_or_overlap'' (path @ ''.'' @ lower_key)] else [])
     @ (case upper of
          None \<Rightarrow> if final then [] else [issue_at required (path @ ''.'' @ upper_key)]
        | Some u \<Rightarrow> if final then [issue_at ''final_tier_open'' (path @ ''.'' @ upper_key)]
            else if u \<le> lower then [issue_at ''tier_bounds'' (path @ ''.'' @ upper_key)] else [])"

fun tier_issues :: "string \<Rightarrow> decimal \<Rightarrow> nat \<Rightarrow> decimal \<Rightarrow> tier_document list \<Rightarrow> issue list \<times> issue list" where
  "tier_issues basis limit i cursor [] = ([], [])"
| "tier_issues basis limit i cursor (t # ts) =
     (let final = (ts = []); path = ''tiers.'' @ int_text (int i);
          fixed = (basis = ''fixed_cycle_kwh'');
          lower = (if fixed then td_lower t else (case td_lower_multiplier t of None \<Rightarrow> 0 | Some m \<Rightarrow> m));
          upper = (if fixed then td_upper t else td_upper_multiplier t);
          bounds = (if fixed
            then bound_issues path ''lower_bound_inclusive_kwh'' ''upper_bound_exclusive_kwh'' ''tier_upper_required''
                   final cursor lower upper
            else bound_issues path ''lower_bound_multiplier'' ''upper_bound_multiplier'' ''tier_multiplier_required''
                   final cursor lower upper);
          mixed = (if fixed \<and> (td_lower_multiplier t \<noteq> None \<or> td_upper_multiplier t \<noteq> None)
            then [issue_at ''threshold_basis_mismatch'' path] else []);
          open_tier = (if \<not> final \<and> upper = None then [issue_at ''open_tier_position'' path] else []);
          sanity = (if limit < td_price t then [issue_at ''rate_sanity'' (path @ ''.price_per_kwh'')] else [])
      in case tier_issues basis limit (Suc i) (case upper of Some u \<Rightarrow> u | None \<Rightarrow> cursor) ts of
           (es, ws) \<Rightarrow> (bounds @ mixed @ open_tier @ es, sanity @ ws))"

definition period_labels :: "document \<Rightarrow> string set" where
  "period_labels d = (\<Union>s\<in>set (do_seasons d). \<Union>c\<in>set (se_schedules s). pd_label ` set (sc_periods c))"

definition matrix_issues :: "document \<Rightarrow> tier_document list \<Rightarrow> issue list" where
  "matrix_issues d ts =
     concat (map (\<lambda>(i, t). if period_labels d \<noteq> fst ` set (td_tou_prices t)
       then [issue_at ''hybrid_matrix_coverage'' (''tiers.'' @ int_text (int i) @ ''.tou_prices'')] else [])
       (enumerate 0 ts))"

definition tier_section :: "decimal \<Rightarrow> document \<Rightarrow> issue list \<times> issue list" where
  "tier_section limit d =
     (if \<not> has_tiers d then ([], [])
      else let ts = sort_key td_order (do_tiers d) in
        case tier_issues (th_basis (do_threshold d)) limit 0 0 ts of (es, ws) \<Rightarrow>
          ((if map td_order ts \<noteq> map int [0..<length ts] then [issue_at ''tier_order'' ''tiers''] else [])
           @ (if distinct (map td_tier_id ts) then [] else [issue_at ''tier_id_duplicate'' ''tiers''])
           @ es
           @ (if do_pricing_model d = ''time_of_use_tiered''
                \<and> (case do_hybrid d of None \<Rightarrow> True | Some m \<Rightarrow> m = ''tier_period_matrix'')
              then matrix_issues d ts else []), ws))"

definition adjustment_issues :: "decimal \<Rightarrow> document \<Rightarrow> issue list \<times> issue list" where
  "adjustment_issues fixed_limit d =
     (let indexed = map (\<lambda>(i, a). (''adjustments.'' @ int_text (int i), a)) (enumerate 0 (do_adjustments d))
      in (concat (map (\<lambda>(path, a). if ad_component a = ''baseline_credit'' \<and> ad_unit a \<noteq> ''per_kwh''
            then [issue_at ''baseline_unit'' (path @ ''.unit'')] else []) indexed),
          concat (map (\<lambda>(path, a).
            (if ad_component a = ''daily_fixed_charge'' \<and> fixed_limit < dabs (ad_value a)
             then [issue_at ''fixed_charge_sanity'' (path @ ''.value'')] else [])
            @ (if do_cost_scope_default d = ''energy_only'' \<and> ad_scope a = ''full_account_estimate''
               then [issue_at ''inactive_account_charge'' (path @ ''.scope'')] else [])) indexed)))"

definition evidence_issues :: "(string, string) dict \<Rightarrow> issue list" where
  "evidence_issues evidence =
     concat (map (\<lambda>f. if truthy (map_of evidence f) then [] else [issue_at ''source_evidence'' (''source.'' @ f)])
       [''artifact_id'', ''sha256'', ''parser_id'', ''parser_version''])"

definition validate_document ::
  "bool \<Rightarrow> (string, string) dict \<Rightarrow> decimal \<Rightarrow> decimal \<Rightarrow> document \<Rightarrow> report"
where
  "validate_document require_evidence evidence max_energy_rate max_fixed_daily d =
     (let seasons = map (season_issues max_energy_rate) (do_seasons d);
          tiers = tier_section max_energy_rate d;
          adjustments = adjustment_issues max_fixed_daily d;
          errors =
            (if do_currency d \<noteq> ''USD'' then [issue_at ''currency'' ''currency''] else [])
            @ (if needs_time_schedule d \<and> do_seasons d = [] then [issue_at ''season_required'' ''seasons''] else [])
            @ concat (map fst seasons)
            @ (if needs_time_schedule d then annual_issues d [1..366] else [])
            @ fst tiers @ fst adjustments
            @ (if require_evidence then evidence_issues evidence else []);
          warnings =
            (if lower_text (do_utility d) \<notin> {''southern california edison'', ''sce'', ''custom''}
             then [issue_at ''utility_unrecognized'' ''utility''] else [])
            @ concat (map (fst \<circ> snd) seasons)
            @ (if do_pricing_model d = ''flat'' \<and> (case do_flat_rate d of None \<Rightarrow> False | Some r \<Rightarrow> max_energy_rate < r)
               then [issue_at ''rate_sanity'' ''flat_rate_per_kwh''] else [])
            @ snd tiers @ snd adjustments
      in \<lparr>rp_valid = (errors = []), rp_errors = errors, rp_warnings = warnings,
          rp_coverage = fold (\<lambda>(k, v) c. dict_set c k v) (concat (map (snd \<circ> snd) seasons)) []\<rparr>)"

section \<open>The plan of a document\<close>

definition period_values :: "schedule_document \<Rightarrow> period list" where
  "period_values c = map (\<lambda>q. (pd_start q, pd_end q, pd_label q, pd_price q)) (sort_key pd_start (sc_periods c))"

definition add_day :: "schedule_document \<Rightarrow> (string, period list) dict \<Rightarrow> (string, period list) dict" where
  "add_day c days =
     (if sc_day_type c = ''all-days''
      then dict_set (dict_set days ''weekday'' (period_values c)) ''weekend'' (period_values c)
      else if sc_day_type c \<in> {''weekday'', ''weekend''} then dict_set days (sc_day_type c) (period_values c)
      else days)"

definition add_special ::
  "string \<Rightarrow> schedule_document \<Rightarrow> (string, (date, period list) dict) dict \<Rightarrow> (string, (date, period list) dict) dict"
where
  "add_special season c special =
     (if sc_day_type c \<in> {''holiday'', ''date-override''}
      then fold (\<lambda>day sp. dict_set sp season (dict_set (dict_get sp season []) day (period_values c))) (sc_dates c) special
      else special)"

definition engine_tier :: "tier_document \<Rightarrow> tier" where
  "engine_tier t = \<lparr>ti_tier_id = td_tier_id t, ti_name = td_name t, ti_order = td_order t,
     ti_lower_kwh = Some (td_lower t), ti_upper_kwh = td_upper t, ti_lower_multiplier = td_lower_multiplier t,
     ti_upper_multiplier = td_upper_multiplier t, ti_price = td_price t, ti_tou_prices = td_tou_prices t\<rparr>"

definition first_value :: "string \<Rightarrow> adjustment list \<Rightarrow> decimal option" where
  "first_value component is = map_option ad_value (find (\<lambda>a. ad_component a = component) is)"

definition engine_plan :: "document \<Rightarrow> plan" where
  "engine_plan d =
     \<lparr>pn_pricing_model = do_pricing_model d,
      pn_flat_rate = do_flat_rate d,
      pn_expected_start_day = do_expected_start_day d,
      pn_basis = th_basis (do_threshold d),
      pn_rounding_policy = th_rounding_policy (do_threshold d),
      pn_daily_baseline = th_daily_baseline (do_threshold d),
      pn_seasonal_baselines = map (\<lambda>b. \<lparr>sb_start = sd_start b, sb_end = sd_end b, sb_daily = Some (sd_daily_kwh b)\<rparr>)
        (th_seasonal (do_threshold d)),
      pn_tiers = map engine_tier (do_tiers d),
      pn_hybrid_method = (case do_hybrid d of None \<Rightarrow> ''tier_period_matrix'' | Some m \<Rightarrow> m),
      pn_periods = fold (\<lambda>s ps. dict_set ps (se_name s) (fold add_day (se_schedules s) [])) (do_seasons d) [],
      pn_special = fold (\<lambda>s sp. fold (add_special (se_name s)) (se_schedules s) sp) (do_seasons d) [],
      pn_seasons = fold (\<lambda>s m. dict_set m (se_name s) \<lparr>sp_start = se_start s, sp_end = se_end s, sp_priority = se_priority s\<rparr>)
        (do_seasons d) [],
      pn_adjustments = do_adjustments d,
      pn_base_service_charge = (case first_value ''daily_fixed_charge'' (do_adjustments d) of None \<Rightarrow> 0 | Some v \<Rightarrow> v),
      pn_baseline_credit = first_value ''baseline_credit'' (do_adjustments d)\<rparr>"

end
