(* ===== verification/Rate_Tiers.thy ===== *)
theory Rate_Tiers
  imports Rate_Engine
begin

text \<open>
  The tiers of a billing cycle.  Validated tiers form a chain from zero to the open-ended last
  tier, in either basis and under every rounding policy, so that every usage has its tier.  The
  allocation of a piece to the tiers ends: rounded arithmetic moves the cumulative usage by at
  least one unit of its last digit towards the bound of the tier.
\<close>

section \<open>Chains of tiers\<close>

fun tier_chain :: "decimal \<Rightarrow> resolved_tier list \<Rightarrow> bool" where
  "tier_chain c [] \<longleftrightarrow> False"
| "tier_chain c [t] \<longleftrightarrow> rt_lower t = c \<and> rt_upper t = None"
| "tier_chain c (t # t' # ts) \<longleftrightarrow>
     rt_lower t = c \<and> (case rt_upper t of None \<Rightarrow> False | Some u \<Rightarrow> c \<le> u \<and> tier_chain u (t' # ts))"

definition holds_usage :: "decimal \<Rightarrow> resolved_tier \<Rightarrow> bool" where
  "holds_usage x t \<longleftrightarrow> rt_lower t \<le> x \<and> (case rt_upper t of None \<Rightarrow> True | Some u \<Rightarrow> x < u)"

lemma tier_at_find: "tier_at ts x = find (holds_usage x) ts"
  by (simp add: tier_at_def holds_usage_def[abs_def])

lemma tier_at_Some: "tier_at ts x = Some t \<Longrightarrow> t \<in> set ts \<and> holds_usage x t"
  by (auto simp: tier_at_find find_Some_iff)

text \<open>Every usage from the start of a chain has its tier.\<close>

lemma tier_chain_covers:
  assumes "tier_chain c ts" and "c \<le> x"
  shows "\<exists>t. tier_at ts x = Some t"
  using assms
proof (induction c ts rule: tier_chain.induct)
  case (3 c t t' ts)
  then obtain u where u: "rt_upper t = Some u" "rt_lower t = c" "tier_chain u (t' # ts)"
    by (auto split: option.splits)
  show ?case
  proof (cases "x < u")
    case True
    then show ?thesis using u 3 by (simp add: tier_at_find holds_usage_def)
  next
    case False
    then have "\<exists>t. tier_at (t' # ts) x = Some t" using 3 u by simp
    then show ?thesis using False u by (simp add: tier_at_find holds_usage_def)
  qed
qed (auto simp: tier_at_find holds_usage_def)

section \<open>Validated tiers form a chain\<close>

definition resolves :: "string \<Rightarrow> (decimal \<Rightarrow> decimal) \<Rightarrow> tier \<Rightarrow> resolved_tier \<Rightarrow> bool" where
  "resolves basis g t r \<longleftrightarrow>
     rt_tier r = t \<and> rt_lower r = g (lower_of basis t) \<and> rt_upper r = map_option g (upper_of basis t)"

lemma check_tiers_chain:
  assumes "check_tiers basis ts ids c = Inr ()" and "ts \<noteq> []" and "upper_of basis (last ts) = None"
    and "list_all2 (resolves basis g) ts rs" and "mono g"
  shows "tier_chain (g c) rs"
  using assms(1-4)
proof (induction basis ts ids c arbitrary: rs rule: check_tiers.induct)
  case (2 basis t ts ids c)
  obtain r rs' where rs: "rs = r # rs'" "resolves basis g t r" "list_all2 (resolves basis g) ts rs'"
    using 2(5) by (auto simp: list_all2_Cons1)
  have t: "lower_of basis t = c" "check_tiers basis ts (ti_tier_id t # ids)
        (case upper_of basis t of Some u \<Rightarrow> u | None \<Rightarrow> c) = Inr ()"
    using 2(2) by (auto split: if_splits)
  show ?case
  proof (cases ts)
    case Nil
    then show ?thesis using 2(4) t rs by (simp add: resolves_def)
  next
    case (Cons t' ts')
    then obtain u where u: "upper_of basis t = Some u" "c < u"
      using 2(2) by (auto split: if_splits option.splits)
    obtain r' rs'' where rs': "rs' = r' # rs''" using rs(3) Cons by (auto simp: list_all2_Cons1)
    have "tier_chain (g u) rs'"
      using 2(1)[OF _ _ _ _ _ _ rs(3)] 2(2-4) t u Cons by (auto split: if_splits)
    then show ?thesis using rs rs' u t monoD[OF assms(5), of c u] by (simp add: resolves_def)
  qed
qed simp

lemma validate_tiers_parts:
  assumes "validate_tiers p = Inr ()"
  shows "2 \<le> length (sorted_tiers p) \<and> pn_basis p \<in> {''fixed_cycle_kwh'', ''daily_baseline_kwh''}
    \<and> check_tiers (pn_basis p) (sorted_tiers p) [] 0 = Inr ()
    \<and> ti_upper_kwh (last (sorted_tiers p)) = None \<and> ti_upper_multiplier (last (sorted_tiers p)) = None"
  using assms by (auto simp: validate_tiers_def Let_def bindE_eq_Inr not_less split: if_splits)

lemma mapE_Inr: "mapE f xs = Inr ys \<Longrightarrow> list_all2 (\<lambda>x y. f x = Inr y) xs ys"
  by (induction xs arbitrary: ys) (auto simp: bindE_eq_Inr)

lemma mapE_total: "(\<And>x. x \<in> set xs \<Longrightarrow> \<exists>y. f x = Inr y) \<Longrightarrow> \<exists>ys. mapE f xs = Inr ys"
proof (induction xs)
  case (Cons x xs)
  then obtain y ys where "f x = Inr y" "mapE f xs = Inr ys" by fastforce
  then show ?case by simp
qed simp

text \<open>The rounding of a threshold as a function, total below the limit of \<^verbatim>\<open>quantize\<close>.\<close>

definition rounding :: "string \<Rightarrow> decimal \<Rightarrow> decimal" where
  "rounding policy x =
     (if policy = ''nearest_kwh'' then of_int (round_half_up x)
      else if policy = ''floor_kwh'' then of_int \<lfloor>x\<rfloor>
      else if policy = ''ceil_kwh'' then of_int \<lceil>x\<rceil> else x)"

lemma mono_rounding: "mono (rounding policy)"
  by (rule monoI) (auto simp: rounding_def intro: round_half_up_mono floor_mono ceiling_mono)

lemma rounding_0 [simp]: "rounding policy 0 = 0"
  using round_half_up_of_int[of 0] by (simp add: rounding_def)

lemma quantized_Inr: "quantized mode v = Inr x \<longleftrightarrow> x = of_int (mode v) \<and> \<bar>mode v\<bar> < 10 ^ 28"
  by (auto simp: quantized_def quantize_def Let_def)

lemma round_threshold_Inr:
  "round_threshold v policy = Inr x \<Longrightarrow> x = rounding policy v \<and> (representable v \<longrightarrow> representable x)"
  by (auto simp: round_threshold_def rounding_def quantized_Inr intro!: representable_of_int split: if_splits)

lemma resolve_tier_daily:
  assumes "resolve_tier p (Some b) t = Inr r"
  shows "resolves ''daily_baseline_kwh'' (\<lambda>m. rounding (pn_rounding_policy p) (dmul b m)) t r
    \<and> (\<forall>u. rt_upper r = Some u \<longrightarrow> representable u)"
  using assms by (auto simp: resolve_tier_def bindE_eq_Inr resolves_def upper_of_def dest!: round_threshold_Inr
      split: option.splits)

lemma resolve_tier_fixed: "resolve_tier p None t = Inr r \<Longrightarrow> resolves ''fixed_cycle_kwh'' (\<lambda>m. m) t r"
  by (auto simp: resolve_tier_def resolves_def upper_of_def option.map_ident)

lemma mono_scaled: "0 \<le> b \<Longrightarrow> mono (\<lambda>m. rounding policy (dmul b m))"
  by (intro monoI monoD[OF mono_rounding]) (auto simp: dmul_def intro!: dec28_mono mult_left_mono)

text \<open>The baseline of a cycle is not negative when the configured ones are not.\<close>

definition baselines_nonneg :: "plan \<Rightarrow> bool" where
  "baselines_nonneg p \<longleftrightarrow>
     (\<forall>b\<in>set_option (pn_daily_baseline p) \<union> (\<Union>i\<in>set (pn_seasonal_baselines p). set_option (sb_daily i)). 0 \<le> b)"

lemma configured_baseline_nonneg:
  "baselines_nonneg p \<Longrightarrow> configured_baseline p d = Some b \<Longrightarrow> 0 \<le> b"
  unfolding baselines_nonneg_def configured_baseline_def
  by (auto split: option.splits simp: find_Some_iff)

lemma baseline_for_cycle_nonneg:
  assumes "baselines_nonneg p" and "baseline_for_cycle p z s e = Inr b"
  shows "0 \<le> b"
proof -
  obtain acc where acc: "foldE (\<lambda>n acc. case configured_baseline p (date_of n) of
                 None \<Rightarrow> Inl (RateValue ''no daily baseline is configured'')
               | Some b \<Rightarrow> Inr (dadd acc b)) [ordinal (local_date z s)..ordinal (local_date z e) - 1] 0 = Inr acc"
      and b: "b = acc"
    using assms(2) by (auto simp: baseline_for_cycle_def Let_def bindE_eq_Inr split: if_splits)
  have "0 \<le> acc"
    by (rule foldE_invariant[OF acc])
      (auto split: option.splits intro: dadd_nonneg configured_baseline_nonneg[OF assms(1)])
  then show ?thesis using b by simp
qed

lemma resolved_tiers_scaled:
  assumes "validate_tiers p = Inr ()" and "baselines_nonneg p" and "tiered_model p"
    and r: "resolved_tiers p z s e = Inr ts"
  shows "\<exists>g. mono g \<and> g 0 = 0 \<and> list_all2 (resolves (pn_basis p) g) (sorted_tiers p) ts"
proof (cases "pn_basis p = ''daily_baseline_kwh''")
  case True
  then obtain b where b: "baseline_for_cycle p z s e = Inr b"
      "mapE (resolve_tier p (Some b)) (sorted_tiers p) = Inr ts"
    using r assms(3) by (auto simp: resolved_tiers_def bindE_eq_Inr)
  let ?g = "\<lambda>m. rounding (pn_rounding_policy p) (dmul b m)"
  have "mono ?g" by (rule mono_scaled[OF baseline_for_cycle_nonneg[OF assms(2) b(1)]])
  moreover have "?g 0 = 0" by (simp add: dmul_def)
  moreover have "list_all2 (resolves (pn_basis p) ?g) (sorted_tiers p) ts"
    unfolding True by (rule list_all2_mono[OF mapE_Inr[OF b(2)]]) (simp add: resolve_tier_daily)
  ultimately show ?thesis by blast
next
  case False
  then have basis: "pn_basis p = ''fixed_cycle_kwh''" using validate_tiers_parts[OF assms(1)] by auto
  have "mapE (resolve_tier p None) (sorted_tiers p) = Inr ts"
    using r assms(3) False by (auto simp: resolved_tiers_def bindE_eq_Inr)
  then have "list_all2 (resolves (pn_basis p) (\<lambda>m. m)) (sorted_tiers p) ts"
    unfolding basis by (rule list_all2_mono[OF mapE_Inr]) (simp add: resolve_tier_fixed)
  moreover have "mono (\<lambda>m :: decimal. m)" by (simp add: monoI)
  ultimately show ?thesis by (intro exI[of _ "\<lambda>m. m"]) simp
qed

lemma resolved_tiers_chain:
  assumes "validate_tiers p = Inr ()" and "baselines_nonneg p" and "tiered_model p"
    and "resolved_tiers p z s e = Inr ts"
  shows "tier_chain 0 ts \<and> map rt_tier ts = sorted_tiers p"
proof -
  note parts = validate_tiers_parts[OF assms(1)]
  obtain g where g: "mono g" "g 0 = 0" "list_all2 (resolves (pn_basis p) g) (sorted_tiers p) ts"
    using resolved_tiers_scaled[OF assms] by blast
  have "tier_chain (g 0) ts"
    by (rule check_tiers_chain[of "pn_basis p" "sorted_tiers p" "[]"]) (use parts g in \<open>auto simp: upper_of_def\<close>)
  moreover have "map rt_tier ts = sorted_tiers p"
    using list_all2_mono[OF g(3), of "\<lambda>t r. rt_tier r = t"]
    by (auto simp: resolves_def list_all2_conv_all_nth intro!: nth_equalityI)
  ultimately show ?thesis using g(2) by simp
qed

end
