(* ===== verification/Rate_Periods.thy ===== *)
theory Rate_Periods
  imports Rate_Engine
begin

text \<open>
  Time-of-use schedules.  A schedule that the validation accepts tiles the day: every minute has
  exactly one period, with a label and a price that is not negative.  The boundaries of an
  interval are sorted, start and end with it, and cut it finely enough that a piece has one period.
\<close>

section \<open>Schedules tile the day\<close>

definition covers :: "int \<Rightarrow> period \<Rightarrow> bool" where
  "covers minute q = (case q of (start, e, bucket, price) \<Rightarrow> start \<le> minute \<and> minute < e)"

lemma covers_simp [simp]: "covers m (s, e, b, p) \<longleftrightarrow> s \<le> m \<and> m < e"
  by (simp add: covers_def)

lemma check_periods_bounds:
  assumes "check_periods ps c = Inr ()" and "(s, e, b, p) \<in> set ps"
  shows "c \<le> s \<and> s < e \<and> e \<le> 1440 \<and> b \<noteq> [] \<and> 0 \<le> p"
  using assms
proof (induction ps c rule: check_periods.induct)
  case (2 start e' bucket price ps c)
  then have rest: "check_periods ps e' = Inr ()" and h: "start = c" "start < e'" "0 \<le> price" "bucket \<noteq> []"
    by (auto split: if_splits)
  have le: "e' \<le> 1440"
    using rest
  proof (induction ps e' rule: check_periods.induct)
    case 1 then show ?case by (auto split: if_splits)
  next
    case 2 then show ?case by (fastforce split: if_splits)
  qed
  from 2 h rest le show ?case by (fastforce split: if_splits)
qed simp

lemma check_periods_covers:
  assumes "check_periods ps c = Inr ()" and "c \<le> m" and "m < 1440"
  shows "\<exists>q\<in>set ps. covers m q"
  using assms
proof (induction ps c rule: check_periods.induct)
  case 1 then show ?case by (auto split: if_splits)
next
  case (2 start e bucket price ps c)
  then show ?case by (cases "m < e") (fastforce split: if_splits)+
qed

lemma check_periods_one:
  assumes "check_periods ps c = Inr ()" and "q \<in> set ps" and "r \<in> set ps"
    and "covers m q" and "covers m r"
  shows "q = r"
  using assms
proof (induction ps c rule: check_periods.induct)
  case (2 start e bucket price ps c)
  then have rest: "check_periods ps e = Inr ()" by (auto split: if_splits)
  have later: "e \<le> fst x" if "x \<in> set ps" for x
    using check_periods_bounds[OF rest] that by (cases x) auto
  have apart: "\<not> covers m x" if "x \<in> set ps" "covers m (start, e, bucket, price)" for x
    using later[OF that(1)] that(2) by (cases x) auto
  have "\<not> (start \<noteq> c \<or> e \<le> start \<or> price < 0)" "bucket \<noteq> []" using 2(2) by (auto split: if_splits)
  then have IH: "q \<in> set ps \<Longrightarrow> r \<in> set ps \<Longrightarrow> q = r" using 2 rest by blast
  show ?case using 2(3-6) apart IH by (metis set_ConsD)
qed simp

definition tiles :: "period list \<Rightarrow> bool" where
  "tiles ps \<longleftrightarrow> check_periods (sorted_periods ps) 0 = Inr ()"

lemma set_sorted_periods [simp]: "set (sorted_periods ps) = set ps"
  by (simp add: sorted_periods_def)

lemma tiles_bounds: "tiles ps \<Longrightarrow> (s, e, b, p) \<in> set ps \<Longrightarrow> 0 \<le> s \<and> s < e \<and> e \<le> 1440 \<and> b \<noteq> [] \<and> 0 \<le> p"
  unfolding tiles_def using check_periods_bounds by fastforce

lemma tiles_find:
  assumes "tiles ps" and "0 \<le> m" and "m < 1440"
  shows "\<exists>s e b p. find (covers m) ps = Some (s, e, b, p) \<and> (s, e, b, p) \<in> set ps \<and> covers m (s, e, b, p)"
proof -
  obtain q where q: "q \<in> set ps" "covers m q"
    using check_periods_covers[of "sorted_periods ps" 0 m] assms by (auto simp: tiles_def)
  then obtain r where r: "find (covers m) ps = Some r" by (cases "find (covers m) ps") (metis find_None_iff)+
  then have "r \<in> set ps" "covers m r" by (auto simp: find_Some_iff)
  with r show ?thesis by (cases r) auto
qed

lemma tiles_find_unique:
  assumes "tiles ps" and "q \<in> set ps" and "covers m q"
  shows "find (covers m) ps = Some q"
proof -
  obtain r where r: "find (covers m) ps = Some r"
    using assms(2,3) by (cases "find (covers m) ps") (metis find_None_iff)+
  then have "r \<in> set ps" "covers m r" by (auto simp: find_Some_iff)
  then show ?thesis using r assms check_periods_one[of "sorted_periods ps" 0 q r m] by (simp add: tiles_def)
qed

text \<open>Validation accepts a time-of-use plan only if each of its schedules tiles the day.\<close>

lemma foldE_unit_all: "foldE (\<lambda>x _. f x) xs () = Inr () \<longleftrightarrow> (\<forall>x\<in>set xs. f x = Inr ())"
  by (induction xs) (auto simp: bindE_eq_Inr)

lemma validate_plan_tiles:
  assumes "validate_plan p = Inr ()" and "tou_model p" and "ps \<in> set (all_schedules p)"
  shows "tiles ps"
  using assms by (auto simp: validate_plan_def bindE_eq_Inr foldE_unit_all tiles_def split: if_splits)

lemma nested_mem:
  assumes "map_of d k = Some inner" and "map_of inner j = Some v"
  shows "v \<in> set (concat (map (\<lambda>(_, i). map snd i) d))"
proof -
  have "v \<in> set (map snd inner)" using map_of_SomeD[OF assms(2)] by (auto intro!: rev_image_eqI)
  moreover have "map snd inner \<in> set (map (\<lambda>(_, i). map snd i) d)"
    using map_of_SomeD[OF assms(1)] by (auto intro!: rev_image_eqI)
  ultimately show ?thesis by (auto simp only: set_concat)
qed

lemma schedule_mem:
  "map_of (pn_periods p) season = Some days \<Longrightarrow> map_of days k = Some ps \<Longrightarrow> ps \<in> set (all_schedules p)"
  unfolding all_schedules_def set_append by (erule (1) UnI1[OF nested_mem])

lemma special_mem:
  "map_of (pn_special p) season = Some dates \<Longrightarrow> map_of dates d = Some ps \<Longrightarrow> ps \<in> set (all_schedules p)"
  unfolding all_schedules_def set_append by (erule (1) UnI2[OF nested_mem])

lemma periods_for_date_scheduled:
  assumes "periods_for_date p d = Inr ps" and "tou_model p"
  shows "ps \<in> set (all_schedules p)"
proof -
  obtain season days normal where n: "map_of (pn_periods p) season = Some days"
      "map_of days (day_type d) = Some normal"
      and ps: "ps = dict_get (dict_get (pn_special p) season []) d normal"
    using assms by (auto simp: periods_for_date_def bindE_eq_Inr split: option.splits)
  show ?thesis
  proof (cases "ps = normal")
    case True
    then show ?thesis using schedule_mem[OF n] by simp
  next
    case False
    then obtain dates where "map_of (pn_special p) season = Some dates" "map_of dates d = Some ps"
      using ps by (auto simp: dict_get_def split: option.splits)
    then show ?thesis by (rule special_mem)
  qed
qed

lemma local_minute_range: "0 \<le> local_minute z t \<and> local_minute z t < 1440"
  unfolding local_minute_def minute_us_def day_microseconds_def by auto

text \<open>A date with a schedule has exactly one period at each of its instants.\<close>

lemma period_at_scheduled:
  assumes "validate_plan p = Inr ()" and "tou_model p" and "periods_for_date p (local_date z t) = Inr ps"
  shows "\<exists>s e b x. (s, e, b, x) \<in> set ps \<and> s \<le> local_minute z t \<and> local_minute z t < e
           \<and> period_at p z t = Inr (b, x) \<and> b \<noteq> [] \<and> 0 \<le> x"
proof -
  have "tiles ps"
    by (rule validate_plan_tiles[OF assms(1,2) periods_for_date_scheduled[OF assms(3,2)]])
  then obtain s e b x where f: "find (covers (local_minute z t)) ps = Some (s, e, b, x)"
      "(s, e, b, x) \<in> set ps" "covers (local_minute z t) (s, e, b, x)"
    using tiles_find[of ps "local_minute z t"] local_minute_range[of z t] by blast
  have "pn_pricing_model p \<noteq> ''flat''" "pn_pricing_model p \<noteq> ''tiered''"
    using assms(2) by (auto simp: tou_model_def)
  then have "period_at p z t = Inr (b, x)"
    using assms(3) f(1) by (simp add: period_at_def covers_def[abs_def])
  then show ?thesis using f tiles_bounds[OF \<open>tiles ps\<close> f(2)] by auto
qed

end
