(* ===== verification/Rate_Boundaries.thy ===== *)
theory Rate_Boundaries
  imports Rate_Periods
begin

text \<open>
  The boundaries of an interval are sorted and start and end with it; what they contain of the
  periods of each day.
\<close>

section \<open>Order of the boundaries\<close>

lemma boundaries_tou:
  assumes "boundaries p z s e = Inr bs" and "pn_pricing_model p \<notin> {''flat'', ''tiered''}"
  obtains cs where "foldE (day_candidates p z)
        [ordinal (local_date z s) - 1..ordinal (local_date z e) + 1] [s, e] = Inr cs"
    and "bs = sorted_list_of_set {u \<in> set cs \<union> set (offset_changes z s e). s \<le> u \<and> u \<le> e}"
proof -
  obtain cs where "foldE (day_candidates p z)
        [ordinal (local_date z s) - 1..ordinal (local_date z e) + 1] [s, e] = Inr cs"
    and "bs = sorted_list_of_set (set (filter (\<lambda>t. s \<le> t \<and> t \<le> e) (cs @ offset_changes z s e)))"
    using assms by (auto simp: boundaries_def Let_def bindE_eq_Inr)
  moreover have "set (filter (\<lambda>t. s \<le> t \<and> t \<le> e) (cs @ offset_changes z s e))
      = {u \<in> set cs \<union> set (offset_changes z s e). s \<le> u \<and> u \<le> e}" for cs by auto
  ultimately show ?thesis using that by simp
qed

lemma boundaries_set:
  assumes "boundaries p z s e = Inr bs" and "s < e"
  shows "sorted bs \<and> distinct bs \<and> {s, e} \<subseteq> set bs \<and> set bs \<subseteq> {s..e}"
proof (cases "pn_pricing_model p \<in> {''flat'', ''tiered''}")
  case True
  then show ?thesis using assms by (auto simp: boundaries_def)
next
  case False
  with assms(1) obtain cs where cs: "foldE (day_candidates p z)
        [ordinal (local_date z s) - 1..ordinal (local_date z e) + 1] [s, e] = Inr cs"
      and bs: "bs = sorted_list_of_set {u \<in> set cs \<union> set (offset_changes z s e). s \<le> u \<and> u \<le> e}"
    by (rule boundaries_tou)
  have "{s, e} \<subseteq> set cs"
    by (rule foldE_invariant[OF cs]) (auto simp: day_candidates_def Let_def bindE_eq_Inr)
  moreover have "finite {u \<in> set cs \<union> set (offset_changes z s e). s \<le> u \<and> u \<le> e}" by simp
  ultimately show ?thesis using assms(2) by (auto simp: bs)
qed

lemma sorted_ends:
  assumes "sorted bs" and "{s, e} \<subseteq> set bs" and "set bs \<subseteq> {s..e}"
  shows "hd bs = s \<and> last bs = (e :: 'a :: linorder)"
proof -
  have ne: "bs \<noteq> []" using assms(2) by auto
  have hd: "hd bs \<le> x" "x \<le> last bs" if "x \<in> set bs" for x
    using that assms(1) ne by (induction bs) (auto split: if_splits)
  from ne have "hd bs \<in> set bs" "last bs \<in> set bs" by auto
  then show ?thesis using hd[of s] hd[of e] assms(2,3) by (auto simp: order.antisym)
qed

lemma sorted_gap:
  assumes "sorted bs" and "Suc i < length bs" and "u \<in> set bs"
  shows "u \<le> bs ! i \<or> bs ! Suc i \<le> (u :: 'a :: linorder)"
proof -
  obtain j where "j < length bs" "u = bs ! j" using assms(3) by (auto simp: in_set_conv_nth)
  then show ?thesis using assms(1,2) by (cases "j \<le> i") (auto intro: sorted_nth_mono)
qed

section \<open>Periods of a day and their instants\<close>

lemma day_candidates_all:
  assumes "foldE (day_candidates p z) ns acc = Inr cs" and "n \<in> set ns"
  shows "set acc \<subseteq> set cs \<and> (\<exists>ps. periods_for_date p (date_of n) = Inr ps
    \<and> (\<forall>(s, e, b, x)\<in>set ps. set (valid_wall_instants z (date_of n) e) \<subseteq> set cs))"
  using assms
proof (induction ns arbitrary: acc)
  case (Cons k ns)
  from Cons.prems(1) obtain mid where mid: "day_candidates p z k acc = Inr mid"
      and rest: "foldE (day_candidates p z) ns mid = Inr cs"
    by (auto simp: bindE_eq_Inr)
  have keep: "set mid \<subseteq> set cs"
    by (rule foldE_invariant[OF rest]) (auto simp: day_candidates_def Let_def bindE_eq_Inr)
  obtain ps where ps: "periods_for_date p (date_of k) = Inr ps" and m: "mid = acc @
      valid_wall_instants z (date_of k) 0 @ concat (map (\<lambda>(start, e, _, _).
        valid_wall_instants z (date_of k) start @ valid_wall_instants z (date_of k) e) ps)"
    using mid by (auto simp: day_candidates_def Let_def bindE_eq_Inr)
  have mem: "set (valid_wall_instants z (date_of k) e) \<subseteq> set mid" if "(s, e, b, x) \<in> set ps" for s e b x
    using that unfolding m by force
  show ?case
  proof (cases "n = k")
    case True
    have "\<forall>(s, e, b, x)\<in>set ps. set (valid_wall_instants z (date_of k) e) \<subseteq> set cs"
      using mem keep by blast
    moreover have "set acc \<subseteq> set cs" using keep m by auto
    ultimately show ?thesis using ps True by blast
  next
    case False
    then have "n \<in> set ns" using Cons.prems(2) by simp
    from Cons.IH[OF rest this] show ?thesis using m by auto
  qed
qed simp

lemma wall_day: "ordinal (local_date z t) = wall z t div day_microseconds + 719163"
  by (simp add: local_date_def utc_date_def)

lemma local_date_ordinal: "date_of (ordinal (local_date z t)) = local_date z t"
  by (simp add: wall_day) (simp add: local_date_def utc_date_def)

text \<open>The wall time of an instant, from its date and minute.\<close>

lemma wall_parts:
  "naive_at (local_date z t) (local_minute z t) \<le> wall z t"
  "wall z t < naive_at (local_date z t) (local_minute z t) + minute_us"
proof -
  have d: "naive_at (local_date z t) (local_minute z t)
      = wall z t div day_microseconds * day_microseconds + wall z t mod day_microseconds div minute_us * minute_us"
    by (simp add: naive_at_def wall_day local_minute_def)
  show "naive_at (local_date z t) (local_minute z t) \<le> wall z t"
    "wall z t < naive_at (local_date z t) (local_minute z t) + minute_us"
    unfolding d using div_mult_mod_eq[of "wall z t" day_microseconds]
      div_mult_mod_eq[of "wall z t mod day_microseconds" minute_us]
      pos_mod_sign[of minute_us "wall z t mod day_microseconds"]
      pos_mod_bound[of minute_us "wall z t mod day_microseconds"] minute_us_def by linarith+
qed

lemma before_boundary:
  assumes "local_minute z t < m"
  shows "wall z t < naive_at (local_date z t) m"
proof -
  have "(local_minute z t + 1) * minute_us \<le> m * minute_us"
    using assms by (intro mult_right_mono) (auto simp: minute_us_def)
  then show ?thesis using wall_parts(2)[of z t] by (simp add: naive_at_def algebra_simps)
qed

text \<open>Two instants on one side of the end of a period of the earlier one.\<close>

lemma same_cell:
  assumes le: "wall z t1 \<le> wall z t2" and before: "wall z t2 < naive_at (local_date z t1) e" and "e \<le> 1440"
  shows "local_date z t2 = local_date z t1 \<and> local_minute z t1 \<le> local_minute z t2 \<and> local_minute z t2 < e"
proof -
  let ?d = "wall z t1 div day_microseconds"
  have w: "wall z t2 < ?d * day_microseconds + e * minute_us"
    using before by (simp add: naive_at_def wall_day)
  also have "\<dots> \<le> ?d * day_microseconds + day_microseconds"
    using assms(3) by (simp add: minute_us_def day_microseconds_def)
  finally have hi: "wall z t2 < (?d + 1) * day_microseconds" by (simp add: algebra_simps)
  have lo: "?d * day_microseconds \<le> wall z t2"
    using le by (simp add: day_microseconds_def)
  have d: "wall z t2 div day_microseconds = ?d"
    using hi lo by (intro int_div_pos_eq[of _ _ _ "wall z t2 - ?d * day_microseconds"])
      (auto simp: algebra_simps)
  have m: "wall z t2 mod day_microseconds = wall z t2 - ?d * day_microseconds" for t
    using d by (simp add: minus_div_mult_eq_mod[symmetric])
  have "local_minute z t1 \<le> local_minute z t2"
    unfolding local_minute_def minus_div_mult_eq_mod[symmetric] d
    using le by (intro zdiv_mono1) (auto simp: minute_us_def)
  moreover have "local_minute z t2 < e"
    unfolding local_minute_def m using w by (simp add: minute_us_def)
  ultimately show ?thesis using d by (simp add: local_date_def utc_date_def)
qed

lemma half_range: "0 < d \<Longrightarrow> 0 \<le> half d \<and> half d < d"
proof -
  assume d: "0 < d"
  show ?thesis
  proof (cases "d = 1")
    case True
    have "\<lfloor>1 / 2 :: rat\<rfloor> = 0" by (intro floor_unique) simp_all
    then show ?thesis by (simp add: half_def round_half_even_def True Let_def)
  next
    case False
    have lo: "0 \<le> half d" unfolding half_def by (rule round_half_even_ge_of_int) (use d in simp)
    have "half d \<le> d - 1" unfolding half_def by (rule round_half_even_le_of_int) (use d False in simp)
    then show ?thesis using lo by simp
  qed
qed

end
