(* ===== verification/Rate_Allocation.thy ===== *)
theory Rate_Allocation
  imports Rate_Tiers Rate_Boundaries
begin

text \<open>
  The allocation of energy to tiers and pieces.  The loop over the tiers returns for every chain of
  tiers with representable bounds, and an invariant that its body keeps holds of the result: the
  rule \<^verbatim>\<open>allocate_rule\<close>, from which the facts on slices and charges follow.
\<close>

section \<open>The loop over the tiers ends\<close>

definition bounds_representable :: "resolved_tier list \<Rightarrow> bool" where
  "bounds_representable ts \<longleftrightarrow> (\<forall>t\<in>set ts. \<forall>u. rt_upper t = Some u \<longrightarrow> representable u)"

text \<open>The highest finite bound; above it the tier is open and one turn uses up the energy.\<close>

definition top_bound :: "resolved_tier list \<Rightarrow> decimal" where
  "top_bound ts = fold max (concat (map (\<lambda>t. case rt_upper t of None \<Rightarrow> [] | Some u \<Rightarrow> [u]) ts)) 0"

lemma le_fold_max: "(x :: decimal) \<in> set xs \<or> x \<le> a \<Longrightarrow> x \<le> fold max xs a"
  by (induction xs arbitrary: a) (auto simp: max_def)

lemma top_bound_ge: "t \<in> set ts \<Longrightarrow> rt_upper t = Some u \<Longrightarrow> u \<le> top_bound ts"
  unfolding top_bound_def by (rule le_fold_max) (auto intro!: bexI[of _ t])

lemma advance_usage:
  assumes "representable c" and "representable u" and "0 < c" and "c < u"
  shows "c + dec_ulp c \<le> dadd c (dsub u c)"
  using dec.advance[of c u] assms by (simp add: representable_def dadd_def dsub_def)

lemma usage_gap:
  assumes "representable c" and "representable u" and "0 < c" and "c < u"
  shows "dec_ulp c \<le> u - c"
  using representable_gap[of c u] assms by simp

text \<open>The energy of one turn.\<close>

definition turn_energy :: "resolved_tier \<Rightarrow> decimal \<Rightarrow> decimal \<Rightarrow> decimal" where
  "turn_energy t remaining c =
     min remaining (case rt_upper t of None \<Rightarrow> remaining | Some u \<Rightarrow> max 0 (dsub u c))"

lemma turn_energy_pos:
  assumes "holds_usage c t" and "0 < remaining"
  shows "0 < turn_energy t remaining c"
  using assms by (auto simp: turn_energy_def holds_usage_def dsub_def less_max_iff_disj split: option.splits)

lemma turn_energy_partial:
  assumes "holds_usage c t" and "turn_energy t remaining c \<noteq> remaining"
  shows "\<exists>u. rt_upper t = Some u \<and> c < u \<and> turn_energy t remaining c = dsub u c"
proof -
  obtain u where u: "rt_upper t = Some u" "c < u"
    using assms by (auto simp: turn_energy_def holds_usage_def split: option.splits)
  then have "0 < dsub u c" by (simp add: dsub_def)
  then show ?thesis using assms(2) u by (auto simp: turn_energy_def min_def)
qed

text \<open>One turn of the loop on a usage that a tier holds.\<close>

lemma allocate_turn:
  assumes "0 < remaining" and "tier_at ts (al_cumulative a) = Some t"
    and "tier_price p (rt_tier t) tb rate = Inr price"
    and "energy = turn_energy t remaining (al_cumulative a)"
    and "right' = (if energy = remaining then right else left + segment_us secs energy allocated)"
  shows "allocate_tiers p ts tb rate allocated secs right remaining left a =
    allocate_tiers p ts tb rate allocated secs right (dsub remaining energy) right'
      (add_segment p (rt_tier t) tb price left right' energy a)"
proof -
  have "0 < energy" using tier_at_Some[OF assms(2)] turn_energy_pos assms(1,4) by auto
  moreover have "energy = min remaining
      (case rt_upper t of None \<Rightarrow> remaining | Some u \<Rightarrow> max 0 (dsub u (al_cumulative a)))"
    using assms(4) by (simp add: turn_energy_def)
  ultimately show ?thesis using assms(1,2,3,5)
    by (subst allocate_tiers.simps) (simp add: Let_def)
qed

lemma allocate_done: "remaining \<le> 0 \<Longrightarrow> allocate_tiers p ts tb rate allocated secs right remaining left a = Some (Inr a)"
  by (subst allocate_tiers.simps) simp

lemma al_cumulative_add [simp]:
  "al_cumulative (add_segment p t tb price left right energy a) = dadd (al_cumulative a) energy"
  by (simp add: add_segment_def Let_def)

lemma dsub_self [simp]: "dsub x x = 0"
  by (simp add: dsub_def)

text \<open>
  Total correctness of the loop: from a state with the invariant it returns a state with it and
  nothing left.  The number of turns is bounded by the distance to the top bound in units of the
  last digit of the usage reached.
\<close>

definition loop_keeps ::
  "plan \<Rightarrow> resolved_tier list \<Rightarrow> string \<Rightarrow> decimal \<Rightarrow> decimal \<Rightarrow> decimal \<Rightarrow> instant
   \<Rightarrow> (decimal \<Rightarrow> instant \<Rightarrow> allocation \<Rightarrow> bool) \<Rightarrow> bool"
where
  "loop_keeps p ts tb rate allocated secs right Inv \<longleftrightarrow>
     (\<forall>remaining left a t price energy right'.
        Inv remaining left a \<and> 0 < remaining \<and> tier_at ts (al_cumulative a) = Some t
        \<and> tier_price p (rt_tier t) tb rate = Inr price
        \<and> energy = turn_energy t remaining (al_cumulative a)
        \<and> right' = (if energy = remaining then right else left + segment_us secs energy allocated) \<longrightarrow>
        Inv (dsub remaining energy) right' (add_segment p (rt_tier t) tb price left right' energy a))"

definition tiers_ready :: "plan \<Rightarrow> resolved_tier list \<Rightarrow> string \<Rightarrow> decimal \<Rightarrow> bool" where
  "tiers_ready p ts tb rate \<longleftrightarrow>
     tier_chain 0 ts \<and> bounds_representable ts \<and> (\<forall>t\<in>set ts. \<exists>x. tier_price p (rt_tier t) tb rate = Inr x)"

lemma tiers_ready_turn:
  assumes "tiers_ready p ts tb rate" and "0 \<le> c"
  obtains t price where "tier_at ts c = Some t" "t \<in> set ts" "holds_usage c t"
    "tier_price p (rt_tier t) tb rate = Inr price"
proof -
  obtain t where t: "tier_at ts c = Some t"
    using tier_chain_covers assms unfolding tiers_ready_def by blast
  moreover obtain price where "tier_price p (rt_tier t) tb rate = Inr price"
    using assms tier_at_Some[OF t] unfolding tiers_ready_def by blast
  ultimately show thesis using that tier_at_Some[OF t] by blast
qed

lemma allocate_from_positive:
  assumes ready: "tiers_ready p ts tb rate" and keeps: "loop_keeps p ts tb rate allocated secs right Inv"
    and "Inv remaining left a" and "representable (al_cumulative a)" and "0 < al_cumulative a"
    and "0 < \<delta>" and "\<delta> \<le> dec_ulp (al_cumulative a)"
  shows "\<exists>b r l. allocate_tiers p ts tb rate allocated secs right remaining left a = Some (Inr b)
            \<and> Inv r l b \<and> r \<le> 0"
  using assms(3-7)
proof (induction "nat \<lfloor>(top_bound ts - al_cumulative a) / \<delta>\<rfloor>" arbitrary: remaining left a rule: less_induct)
  case less
  let ?c = "al_cumulative a"
  show ?case
  proof (cases "0 < remaining")
    case True
    obtain t price where t: "tier_at ts ?c = Some t" "t \<in> set ts" "holds_usage ?c t"
        "tier_price p (rt_tier t) tb rate = Inr price"
      using tiers_ready_turn[OF ready, of ?c] less.prems(3) by auto
    define energy where "energy = turn_energy t remaining ?c"
    define right' where "right' = (if energy = remaining then right else left + segment_us secs energy allocated)"
    let ?b = "add_segment p (rt_tier t) tb price left right' energy a"
    have turn: "allocate_tiers p ts tb rate allocated secs right remaining left a =
        allocate_tiers p ts tb rate allocated secs right (dsub remaining energy) right' ?b"
      by (rule allocate_turn[OF True t(1,4) energy_def right'_def])
    have inv: "Inv (dsub remaining energy) right' ?b"
      using keeps less.prems(1) True t energy_def right'_def unfolding loop_keeps_def by blast
    show ?thesis
    proof (cases "energy = remaining")
      case True
      then show ?thesis using turn inv by (auto simp: allocate_done)
    next
      case False
      then obtain u where u: "rt_upper t = Some u" "?c < u" "energy = dsub u ?c"
        using turn_energy_partial[OF t(3), of remaining] unfolding energy_def by blast
      have ru: "representable u" using ready t(2) u(1) by (auto simp: tiers_ready_def bounds_representable_def)
      have step: "?c + dec_ulp ?c \<le> al_cumulative ?b"
        using advance_usage[OF less.prems(2) ru less.prems(3) u(2)] u(3) by simp
      have pos: "0 < al_cumulative ?b" using step less.prems(3) dec_ulp_pos[of ?c] by linarith
      have "?c \<le> al_cumulative ?b" using step dec_ulp_pos[of ?c] by linarith
      then have ulp: "\<delta> \<le> dec_ulp (al_cumulative ?b)"
        using dec_ulp_mono[OF less.prems(3)] less.prems(5) by (meson order.trans)
      have "\<delta> \<le> top_bound ts - ?c"
        using usage_gap[OF less.prems(2) ru less.prems(3) u(2)] top_bound_ge[OF t(2) u(1)] less.prems(5) by linarith
      then have "1 \<le> (top_bound ts - ?c) / \<delta>" using less.prems(4) by simp
      moreover have "(top_bound ts - al_cumulative ?b) / \<delta> \<le> (top_bound ts - ?c) / \<delta> - 1"
      proof -
        have "top_bound ts - al_cumulative ?b \<le> (top_bound ts - ?c) - \<delta>" using step less.prems(5) by linarith
        then have "(top_bound ts - al_cumulative ?b) / \<delta> \<le> ((top_bound ts - ?c) - \<delta>) / \<delta>"
          using less.prems(4) by (simp add: divide_right_mono)
        then show ?thesis using less.prems(4) by (simp add: diff_divide_distrib)
      qed
      ultimately have "nat \<lfloor>(top_bound ts - al_cumulative ?b) / \<delta>\<rfloor> < nat \<lfloor>(top_bound ts - ?c) / \<delta>\<rfloor>"
        by linarith
      from less.hyps[OF this inv _ pos less.prems(4) ulp] show ?thesis unfolding turn by simp
    qed
  next
    case False
    then show ?thesis using less.prems(1) by (auto simp: allocate_done)
  qed
qed

lemma allocate_rule:
  assumes ready: "tiers_ready p ts tb rate" and keeps: "loop_keeps p ts tb rate allocated secs right Inv"
    and inv: "Inv remaining left a" and rep: "representable (al_cumulative a)" and nonneg: "0 \<le> al_cumulative a"
  shows "\<exists>b r l. allocate_tiers p ts tb rate allocated secs right remaining left a = Some (Inr b)
            \<and> Inv r l b \<and> r \<le> 0"
proof (cases "0 < remaining")
  case True
  show ?thesis
  proof (cases "al_cumulative a = 0")
    case zero: True
    obtain t price where t: "tier_at ts 0 = Some t" "t \<in> set ts" "holds_usage 0 t"
        "tier_price p (rt_tier t) tb rate = Inr price"
      using tiers_ready_turn[OF ready, of 0] by auto
    define energy where "energy = turn_energy t remaining (al_cumulative a)"
    define right' where "right' = (if energy = remaining then right else left + segment_us secs energy allocated)"
    let ?b = "add_segment p (rt_tier t) tb price left right' energy a"
    have turn: "allocate_tiers p ts tb rate allocated secs right remaining left a =
        allocate_tiers p ts tb rate allocated secs right (dsub remaining energy) right' ?b"
      by (rule allocate_turn[OF True _ t(4) energy_def right'_def]) (simp add: zero t)
    have inv': "Inv (dsub remaining energy) right' ?b"
      using keeps inv True t zero energy_def right'_def unfolding loop_keeps_def by metis
    have "0 < al_cumulative ?b"
      using turn_energy_pos[OF t(3) True] by (simp add: energy_def zero dadd_def)
    from allocate_from_positive[OF ready keeps inv' _ this dec_ulp_pos order.refl]
    show ?thesis unfolding turn by simp
  next
    case False
    then have "0 < al_cumulative a" using nonneg by simp
    from allocate_from_positive[OF ready keeps inv rep this dec_ulp_pos order.refl] show ?thesis .
  qed
next
  case False
  then show ?thesis using inv by (auto simp: allocate_done)
qed

section \<open>Slices of a piece\<close>

fun contiguous :: "instant \<Rightarrow> cost_slice list \<Rightarrow> instant \<Rightarrow> bool" where
  "contiguous l [] r \<longleftrightarrow> l = r"
| "contiguous l (s # ss) r \<longleftrightarrow> cs_start s = l \<and> contiguous (cs_end s) ss r"

lemma contiguous_append: "contiguous l xs m \<Longrightarrow> contiguous m ys r \<Longrightarrow> contiguous l (xs @ ys) r"
  by (induction xs arbitrary: l) auto

text \<open>A slice is priced in the tier that holds the usage at its start.\<close>

definition slice_priced :: "plan \<Rightarrow> resolved_tier list \<Rightarrow> string \<Rightarrow> decimal \<Rightarrow> cost_slice \<Rightarrow> bool" where
  "slice_priced p ts tb rate s \<longleftrightarrow>
     0 \<le> cs_energy s \<and> cs_cost s = dmul (cs_energy s) (cs_price s)
     \<and> (if ts = [] then cs_price s = (if pn_pricing_model p = ''flat'' then the (pn_flat_rate p) else rate)
        else \<exists>t\<in>set ts. \<exists>c. cs_cumulative_start s = Some c \<and> holds_usage c t
               \<and> cs_cumulative_end s = Some (dadd c (cs_energy s))
               \<and> cs_tier_id s = Some (ti_tier_id (rt_tier t))
               \<and> tier_price p (rt_tier t) tb rate = Inr (cs_price s))"

definition piece_inv ::
  "plan \<Rightarrow> resolved_tier list \<Rightarrow> string \<Rightarrow> decimal \<Rightarrow> instant \<Rightarrow> instant \<Rightarrow> allocation
   \<Rightarrow> decimal \<Rightarrow> instant \<Rightarrow> allocation \<Rightarrow> bool"
where
  "piece_inv p ts tb rate left right a0 remaining l a \<longleftrightarrow>
     0 \<le> remaining \<and> (remaining = 0 \<longrightarrow> l = right) \<and> representable (al_cumulative a) \<and> 0 \<le> al_cumulative a
     \<and> (\<exists>ss. al_slices a = al_slices a0 @ ss \<and> contiguous left ss l \<and> (\<forall>s\<in>set ss. slice_priced p ts tb rate s))"

lemma al_slices_add [simp]:
  "al_slices (add_segment p t tb price left right energy a) = al_slices a @ [\<lparr>cs_start = left, cs_end = right,
     cs_energy = energy, cs_bucket = tier_bucket p t tb, cs_price = price, cs_cost = dmul energy price,
     cs_tier_id = Some (ti_tier_id t), cs_tier_name = Some (ti_name t), cs_tou_period = tou_label p tb,
     cs_cumulative_start = Some (al_cumulative a), cs_cumulative_end = Some (dadd (al_cumulative a) energy)\<rparr>]"
  by (simp add: add_segment_def Let_def)

lemma piece_inv_kept:
  assumes "ts \<noteq> []"
  shows "loop_keeps p ts tb rate allocated secs right (piece_inv p ts tb rate left right a0)"
  unfolding loop_keeps_def
proof (intro allI impI)
  fix remaining l a t price energy right'
  assume "piece_inv p ts tb rate left right a0 remaining l a \<and> 0 < remaining \<and> tier_at ts (al_cumulative a) = Some t
    \<and> tier_price p (rt_tier t) tb rate = Inr price \<and> energy = turn_energy t remaining (al_cumulative a)
    \<and> right' = (if energy = remaining then right else l + segment_us secs energy allocated)"
  then have inv: "piece_inv p ts tb rate left right a0 remaining l a" and r: "0 < remaining"
    and t: "tier_at ts (al_cumulative a) = Some t" "tier_price p (rt_tier t) tb rate = Inr price"
    and e: "energy = turn_energy t remaining (al_cumulative a)"
    and right': "right' = (if energy = remaining then right else l + segment_us secs energy allocated)" by auto
  note mem = tier_at_Some[OF t(1)]
  have pos: "0 < energy" unfolding e by (rule turn_energy_pos) (use mem r in auto)
  have le: "energy \<le> remaining" unfolding e turn_energy_def by simp
  obtain ss where ss: "al_slices a = al_slices a0 @ ss" "contiguous left ss l" "\<forall>s\<in>set ss. slice_priced p ts tb rate s"
    using inv unfolding piece_inv_def by blast
  have rem: "0 \<le> dsub remaining energy \<and> (dsub remaining energy = 0 \<longrightarrow> energy = remaining)"
    using le by (simp add: dsub_def)
  let ?b = "add_segment p (rt_tier t) tb price l right' energy a"
  obtain s where s: "al_slices ?b = al_slices a @ [s]" "cs_start s = l" "cs_end s = right'" "slice_priced p ts tb rate s"
    using mem t pos assms by (auto simp: slice_priced_def)
  have "contiguous left (ss @ [s]) right'" using contiguous_append[OF ss(2)] s by simp
  then show "piece_inv p ts tb rate left right a0 (dsub remaining energy) right' ?b"
    using rem inv right' pos ss s unfolding piece_inv_def
    by (intro conjI exI[of _ "ss @ [s]"]) (auto intro: dadd_nonneg)
qed

lemma price_piece_tiers:
  assumes ready: "tiers_ready p ts tb rate" and at: "period_at p z (l + half (r - l)) = Inr (tb, rate)"
    and "0 \<le> energy" and "0 < secs" and "l < r" and rep: "representable (al_cumulative a)" and nonneg: "0 \<le> al_cumulative a"
  shows "\<exists>b ss. price_piece p z ts energy secs (l, r) a = Some (Inr b) \<and> al_slices b = al_slices a @ ss
     \<and> contiguous l ss r \<and> (\<forall>s\<in>set ss. slice_priced p ts tb rate s)
     \<and> representable (al_cumulative b) \<and> 0 \<le> al_cumulative b"
proof -
  have ne: "ts \<noteq> []" using ready by (auto simp: tiers_ready_def)
  define us where "us = us_seconds (r - l)"
  define allocated where "allocated = ddiv (dmul energy us) secs"
  have nn: "0 \<le> allocated" unfolding allocated_def us_def using assms(3-5)
    by (intro ddiv_nonneg dmul_nonneg) (auto simp: us_seconds_def)
  show ?thesis
  proof (cases "allocated = 0")
    case True
    obtain t price where t: "tier_at ts (al_cumulative a) = Some t" "t \<in> set ts" "holds_usage (al_cumulative a) t"
        "tier_price p (rt_tier t) tb rate = Inr price"
      using tiers_ready_turn[OF ready nonneg] by blast
    have "price_piece p z ts energy secs (l, r) a = Some (empty_piece p ts tb rate l r a)"
      using at ne True by (simp add: price_piece_def allocate_done flip: us_def allocated_def)
    then show ?thesis using t ne rep nonneg
      by (auto simp: empty_piece_def slice_priced_def dmul_def dadd_def representable_def)
  next
    case False
    have "piece_inv p ts tb rate l r a allocated l a"
      using False nn rep nonneg by (simp add: piece_inv_def)
    from allocate_rule[OF ready piece_inv_kept[OF ne] this rep nonneg, of allocated us]
    obtain b rr ll where b: "allocate_tiers p ts tb rate allocated us r allocated l a = Some (Inr b)"
        "piece_inv p ts tb rate l r a rr ll b" "rr \<le> 0" by blast
    then have "ll = r" by (auto simp: piece_inv_def)
    moreover have "price_piece p z ts energy secs (l, r) a = Some (Inr b)"
      using at ne b(1) False by (simp add: price_piece_def flip: us_def allocated_def)
    ultimately show ?thesis using b(2) unfolding piece_inv_def by blast
  qed
qed

lemma price_piece_plain:
  assumes "pn_pricing_model p = ''flat'' \<longrightarrow> pn_flat_rate p \<noteq> None"
    and at: "period_at p z (l + half (r - l)) = Inr (tb, rate)"
    and "0 \<le> energy" and "0 < secs" and "l < r"
  shows "\<exists>b ss. price_piece p z [] energy secs (l, r) a = Some (Inr b) \<and> al_slices b = al_slices a @ ss
     \<and> contiguous l ss r \<and> (\<forall>s\<in>set ss. slice_priced p [] tb rate s) \<and> al_cumulative b = al_cumulative a"
proof -
  have "0 \<le> ddiv (dmul energy (us_seconds (r - l))) secs"
    using assms(3-5) by (intro ddiv_nonneg dmul_nonneg) (auto simp: us_seconds_def)
  then show ?thesis using assms(1,2) by (auto simp: price_piece_def plain_piece_def slice_priced_def Let_def)
qed

section \<open>All the pieces\<close>

text \<open>What the pieces of an interval need: a period in each, and a price in each tier for it.\<close>

definition pieces_ready :: "plan \<Rightarrow> zone \<Rightarrow> resolved_tier list \<Rightarrow> bool" where
  "pieces_ready p z ts \<longleftrightarrow>
     (\<forall>t. \<exists>tb rate. period_at p z t = Inr (tb, rate) \<and> 0 \<le> rate \<and> (ts \<noteq> [] \<longrightarrow> tiers_ready p ts tb rate))
     \<and> (pn_pricing_model p = ''flat'' \<longrightarrow> pn_flat_rate p \<noteq> None)"

definition slice_ok :: "plan \<Rightarrow> zone \<Rightarrow> resolved_tier list \<Rightarrow> cost_slice \<Rightarrow> bool" where
  "slice_ok p z ts s \<longleftrightarrow> (\<exists>t tb rate. period_at p z t = Inr (tb, rate) \<and> slice_priced p ts tb rate s)"

lemma price_piece_ok:
  assumes "pieces_ready p z ts" and "0 \<le> energy" and "0 < secs" and "l < r"
    and "representable (al_cumulative a)" and "0 \<le> al_cumulative a"
  shows "\<exists>b ss. price_piece p z ts energy secs (l, r) a = Some (Inr b) \<and> al_slices b = al_slices a @ ss
     \<and> contiguous l ss r \<and> (\<forall>s\<in>set ss. slice_ok p z ts s)
     \<and> representable (al_cumulative b) \<and> 0 \<le> al_cumulative b"
proof -
  obtain tb rate where at: "period_at p z (l + half (r - l)) = Inr (tb, rate)"
      and ready: "ts \<noteq> [] \<longrightarrow> tiers_ready p ts tb rate"
    using assms(1) unfolding pieces_ready_def by blast
  have ok: "slice_priced p ts tb rate s \<Longrightarrow> slice_ok p z ts s" for s
    using at unfolding slice_ok_def by blast
  show ?thesis
  proof (cases "ts = []")
    case True
    have "pn_pricing_model p = ''flat'' \<longrightarrow> pn_flat_rate p \<noteq> None" using assms(1) by (simp add: pieces_ready_def)
    from price_piece_plain[OF this at assms(2-4), of a] show ?thesis unfolding True using ok assms(5,6) True by metis
  next
    case False
    with ready have "tiers_ready p ts tb rate" by simp
    from price_piece_tiers[OF this at assms(2-6)] show ?thesis using ok by metis
  qed
qed

lemma price_pieces_ok:
  assumes ready: "pieces_ready p z ts" and "0 \<le> energy" and "0 < secs"
    and "sorted_wrt (<) bs" and "bs \<noteq> []"
    and "representable (al_cumulative a)" and "0 \<le> al_cumulative a"
  shows "\<exists>b ss. price_pieces p z ts energy secs bs a = Some (Inr b) \<and> al_slices b = al_slices a @ ss
     \<and> contiguous (hd bs) ss (last bs) \<and> (\<forall>s\<in>set ss. slice_ok p z ts s)"
  using assms(4-7)
proof (induction bs arbitrary: a rule: induct_list012)
  case (3 l r bs)
  from 3(3) have lt: "l < r" by simp
  from price_piece_ok[OF ready assms(2,3) lt 3(5,6)] obtain b ss where
    b: "price_piece p z ts energy secs (l, r) a = Some (Inr b)" "al_slices b = al_slices a @ ss" "contiguous l ss r"
       "\<forall>s\<in>set ss. slice_ok p z ts s" "representable (al_cumulative b)" "0 \<le> al_cumulative b" by blast
  from 3(2)[OF _ _ b(5,6)] 3(3) obtain c ss' where
    c: "price_pieces p z ts energy secs (r # bs) b = Some (Inr c)" "al_slices c = al_slices b @ ss'"
       "contiguous r ss' (last (r # bs))" "\<forall>s\<in>set ss'. slice_ok p z ts s" by auto
  have "contiguous (hd (l # r # bs)) (ss @ ss') (last (l # r # bs))"
    using contiguous_append[OF b(3) c(3)] by simp
  then show ?case using b c by (intro exI[of _ c] exI[of _ "ss @ ss'"]) auto
qed auto

text \<open>The interval is cut into at least one piece, by boundaries in strictly increasing order.\<close>

lemma boundaries_pieces:
  assumes "boundaries p z s e = Inr bs" and "s < e"
  shows "sorted_wrt (<) bs \<and> bs \<noteq> [] \<and> hd bs = s \<and> last bs = e"
  using boundaries_set[OF assms] sorted_ends[of bs s e] by (auto simp: strict_sorted_iff)

lemma boundaries_total:
  assumes "\<And>n. \<exists>ps. periods_for_date p (date_of n) = Inr ps"
  shows "\<exists>bs. boundaries p z s e = Inr bs"
proof -
  have "\<exists>cs. day_candidates p z n acc = Inr cs" for n acc
    using assms[of n] by (auto simp: day_candidates_def Let_def)
  then have "\<exists>cs. foldE (day_candidates p z) ns acc = Inr cs \<and> True" for ns acc
    by (intro foldE_total) auto
  then show ?thesis by (auto simp: boundaries_def Let_def) (metis bindE_simps(2))
qed

lemma slice_ok_cost_nonneg:
  assumes "pieces_ready p z ts" and "slice_ok p z ts s"
    and "ts = [] \<longrightarrow> (pn_pricing_model p = ''flat'' \<longrightarrow> 0 \<le> the (pn_flat_rate p))"
    and "\<And>t tb rate x. t \<in> set ts \<Longrightarrow> 0 \<le> rate \<Longrightarrow> tier_price p (rt_tier t) tb rate = Inr x \<Longrightarrow> 0 \<le> x"
  shows "0 \<le> cs_cost s"
proof -
  obtain t tb rate where at: "period_at p z t = Inr (tb, rate)" and s: "slice_priced p ts tb rate s"
    using assms(2) unfolding slice_ok_def by blast
  have "0 \<le> rate" using assms(1) at unfolding pieces_ready_def by (metis Inr_inject prod.inject)
  then have "0 \<le> cs_price s" using s assms(3,4) by (auto simp: slice_priced_def split: if_splits)
  then show ?thesis using s by (auto simp: slice_priced_def intro: dmul_nonneg)
qed

text \<open>A request that passes the guards is priced.\<close>

definition request_ok :: "plan \<Rightarrow> zone \<Rightarrow> request \<Rightarrow> bool" where
  "request_ok p z rq \<longleftrightarrow> rq_start rq < rq_end rq \<and> 0 \<le> rq_energy rq \<and> 0 \<le> rq_before rq
     \<and> (tiered_model p \<longrightarrow> fst (calculation_cycle p z rq) < snd (calculation_cycle p z rq))"

lemma calculate_returns:
  assumes "request_ok p z rq" and "representable (rq_before rq)"
    and "boundaries p z (rq_start rq) (rq_end rq) = Inr bs" and "request_tiers p z rq = Inr ts"
    and ready: "pieces_ready p z ts"
  shows "\<exists>c. calculate p z rq = Some (Inr c) \<and> contiguous (rq_start rq) (ca_slices c) (rq_end rq)
     \<and> (\<forall>s\<in>set (ca_slices c). slice_ok p z ts s) \<and> ca_thresholds c = ts
     \<and> ca_energy_charge c = dsum (map cs_cost (ca_slices c))
     \<and> ca_charges c = all_charges p z rq (ca_slices c)"
proof -
  have r: "rq_start rq < rq_end rq" "0 \<le> rq_energy rq" using assms(1) by (auto simp: request_ok_def)
  note b = boundaries_pieces[OF assms(3) r(1)]
  have secs: "0 < us_seconds (rq_end rq - rq_start rq)" using r by (simp add: us_seconds_def)
  obtain a where a: "price_pieces p z ts (rq_energy rq) (us_seconds (rq_end rq - rq_start rq)) bs
        (empty_allocation (rq_before rq)) = Some (Inr a)"
      "contiguous (rq_start rq) (al_slices a) (rq_end rq)" "\<forall>s\<in>set (al_slices a). slice_ok p z ts s"
    using price_pieces_ok[OF ready r(2) secs, of bs "empty_allocation (rq_before rq)"] b assms(1,2)
    by (auto simp: empty_allocation_def request_ok_def)
  have g: "\<not> (rq_end rq \<le> rq_start rq \<or> rq_energy rq < 0)" "\<not> rq_before rq < 0"
    "\<not> (tiered_model p \<and> snd (calculation_cycle p z rq) \<le> fst (calculation_cycle p z rq))"
    using assms(1) by (auto simp: request_ok_def)
  show ?thesis using a(2,3) unfolding calculate_def if_not_P[OF g(1)] if_not_P[OF g(2)] if_not_P[OF g(3)]
    by (simp add: a(1) assms(3,4))
qed

end
