(* ===== verification/Rate_Cycles.thy ===== *)
theory Rate_Cycles
  imports Rate_Boundaries
begin

text \<open>
  Billing cycles partition local time: the cycle of an instant contains its wall time, and all
  instants of a cycle have the same one, whatever the start day and the lengths of the months.
\<close>

section \<open>Months\<close>

lemma valid_month: "1 \<le> m \<Longrightarrow> m \<le> 12 \<Longrightarrow> 28 \<le> days_in_month y m \<and> days_in_month y m \<le> 31"
proof -
  assume "1 \<le> m" "m \<le> 12"
  then have "m = 1 \<or> m = 2 \<or> m = 3 \<or> m = 4 \<or> m = 5 \<or> m = 6 \<or> m = 7 \<or> m = 8 \<or> m = 9 \<or> m = 10 \<or> m = 11 \<or> m = 12"
    by presburger
  then show ?thesis by (auto simp: days_in_month_def month_lengths_def)
qed

lemma next_month_range: "1 \<le> snd ym \<Longrightarrow> snd ym \<le> 12 \<Longrightarrow> 1 \<le> snd (next_month ym) \<and> snd (next_month ym) \<le> 12"
  by (auto simp: next_month_def split: prod.splits)

lemma days_before_month_Suc:
  assumes "1 \<le> m" and "m \<le> 11"
  shows "days_before_month y (m + 1) = days_before_month y m + days_in_month y m"
proof -
  have "nat m = Suc (nat (m - 1))" using assms by simp
  moreover have "nat (m - 1) < length (month_lengths y)" using assms by simp
  ultimately show ?thesis by (simp add: days_before_month_def days_in_month_def take_Suc_conv_app_nth)
qed

text \<open>The first day of the next month follows the last day of this one.\<close>

lemma ordinal_next_month:
  assumes "1 \<le> m" and "m \<le> 12"
  shows "ordinal (case next_month (y, m) of (y', m') \<Rightarrow> (y', m', 1)) = ordinal (y, m, 1) + days_in_month y m"
proof (cases "m = 12")
  case True
  have "days_before_month y 12 + days_in_month y 12 = sum_list (month_lengths y)"
    by (simp add: days_before_month_def days_in_month_def month_lengths_def)
  then show ?thesis using True days_before_year_step[of y]
    by (simp add: next_month_def ordinal_def days_before_month_def)
next
  case False
  then show ?thesis using assms days_before_month_Suc[of m y] by (simp add: next_month_def ordinal_def)
qed

lemma ordinal_day: "ordinal (y, m, k) = ordinal (y, m, 1) + (k - 1)"
  by (simp add: ordinal_def)

section \<open>Starts of cycles\<close>

definition cycle_day :: "plan \<Rightarrow> int \<times> int \<Rightarrow> int" where
  "cycle_day p ym = ordinal (cycle_boundary p (fst ym) (snd ym))"

lemma cycle_naive_day: "cycle_naive p ym = (cycle_day p ym - 719163) * day_microseconds"
  by (simp add: cycle_naive_def cycle_day_def naive_at_def split: prod.splits)

lemma cycle_day_range:
  assumes "1 \<le> pn_expected_start_day p" and "1 \<le> m" and "m \<le> 12"
  shows "ordinal (y, m, 1) \<le> cycle_day p (y, m) \<and> cycle_day p (y, m) < ordinal (y, m, 1) + days_in_month y m"
  using valid_month[OF assms(2,3), of y] assms(1) ordinal_day[of y m "min (pn_expected_start_day p) (days_in_month y m)"]
  by (auto simp: cycle_day_def cycle_boundary_def)

lemma cycle_day_next:
  assumes "1 \<le> pn_expected_start_day p" and "1 \<le> m" and "m \<le> 12"
  shows "ordinal (y, m, 1) + days_in_month y m \<le> cycle_day p (next_month (y, m))"
proof -
  obtain y' m' where n: "next_month (y, m) = (y', m')" by fastforce
  have "1 \<le> m'" "m' \<le> 12" using next_month_range[of "(y, m)"] assms n by auto
  from cycle_day_range[OF assms(1) this, of y'] ordinal_next_month[OF assms(2,3), of y] n
  show ?thesis by simp
qed

text \<open>Months counted from year zero; the starts of the cycles increase with the count.\<close>

definition month_at :: "int \<Rightarrow> int \<times> int" where
  "month_at n = (n div 12, n mod 12 + 1)"

definition month_count :: "int \<times> int \<Rightarrow> int" where
  "month_count ym = fst ym * 12 + snd ym - 1"

lemma month_at_count: "1 \<le> snd ym \<Longrightarrow> snd ym \<le> 12 \<Longrightarrow> month_at (month_count ym) = ym"
proof (cases ym)
  case (Pair y m)
  assume "1 \<le> snd ym" "snd ym \<le> 12"
  then have "(y * 12 + m - 1) div 12 = y" "(y * 12 + m - 1) mod 12 = m - 1"
    using Pair int_div_pos_eq[of "y * 12 + m - 1" 12 y "m - 1"] int_mod_pos_eq[of "y * 12 + m - 1" 12 y "m - 1"] by auto
  then show ?thesis using Pair by (simp add: month_at_def month_count_def)
qed

lemma next_month_at: "next_month (month_at n) = month_at (n + 1)"
proof -
  obtain q r where n: "n = 12 * q + r" "0 \<le> r" "r < 12"
    using div_mult_mod_eq[of n 12] pos_mod_bound[of 12 n] pos_mod_sign[of 12 n] by (metis mult.commute zero_less_numeral)
  then have d: "n div 12 = q" "n mod 12 = r" by auto
  have "month_at (n + 1) = (if r = 11 then (q + 1, 1) else (q, r + 2))"
  proof (cases "r = 11")
    case True
    then have "n + 1 = 12 * (q + 1)" using n by simp
    then show ?thesis using True by (simp add: month_at_def)
  next
    case False
    then have "(n + 1) div 12 = q" "(n + 1) mod 12 = r + 1"
      using n int_div_pos_eq[of "n + 1" 12 q "r + 1"] int_mod_pos_eq[of "n + 1" 12 q "r + 1"] by auto
    then show ?thesis using False by (simp add: month_at_def)
  qed
  then show ?thesis using d by (auto simp: next_month_def month_at_def[of n])
qed

lemma month_at_range: "1 \<le> snd (month_at n) \<and> snd (month_at n) \<le> 12"
  using pos_mod_bound[of 12 n] by (simp add: month_at_def)

lemma cycle_day_step:
  assumes "1 \<le> pn_expected_start_day p"
  shows "cycle_day p (month_at n) < cycle_day p (month_at (n + 1))"
proof -
  obtain y m where ym: "month_at n = (y, m)" by fastforce
  then have m: "1 \<le> m" "m \<le> 12" using month_at_range[of n] by auto
  show ?thesis using cycle_day_range[OF assms m, of y] cycle_day_next[OF assms m, of y] next_month_at[of n] ym by simp
qed

lemma cycle_day_mono:
  assumes "1 \<le> pn_expected_start_day p" and "i \<le> j"
  shows "cycle_day p (month_at i) \<le> cycle_day p (month_at j)"
  using assms(2)
proof (induction j rule: int_ge_induct)
  case (step j)
  then show ?case using cycle_day_step[OF assms(1), of j] by simp
qed simp

section \<open>The cycle of an instant\<close>

lemma wall_in_day:
  "(ordinal (local_date z t) - 719163) * day_microseconds \<le> wall z t"
  "wall z t < (ordinal (local_date z t) + 1 - 719163) * day_microseconds"
  using div_mult_mod_eq[of "wall z t" day_microseconds] pos_mod_bound[of day_microseconds "wall z t"]
    pos_mod_sign[of day_microseconds "wall z t"]
  by (auto simp: wall_day day_microseconds_def algebra_simps)

lemma local_date_month:
  assumes "local_date z t = (y, m, k)"
  shows "1 \<le> m \<and> m \<le> 12 \<and> 1 \<le> k \<and> k \<le> days_in_month y m"
  using assms valid_date_of[of "wall z t div day_microseconds + 719163"]
  by (simp add: local_date_def utc_date_def valid_date_def)

lemma previous_next: "1 \<le> m \<Longrightarrow> m \<le> 12 \<Longrightarrow> next_month (previous_month (y, m)) = (y, m)"
  by (auto simp: next_month_def previous_month_def)

lemma previous_month_range: "1 \<le> m \<Longrightarrow> m \<le> 12 \<Longrightarrow> 1 \<le> snd (previous_month (y, m)) \<and> snd (previous_month (y, m)) \<le> 12"
  by (auto simp: previous_month_def)

lemma scale_days: "a \<le> b \<Longrightarrow> (a - 719163) * day_microseconds \<le> (b - 719163) * day_microseconds"
  by (simp add: day_microseconds_def)

lemma cycle_month_contains:
  assumes "1 \<le> pn_expected_start_day p"
  shows "1 \<le> snd (cycle_month p z t) \<and> snd (cycle_month p z t) \<le> 12
    \<and> cycle_naive p (cycle_month p z t) \<le> wall z t \<and> wall z t < cycle_naive p (next_month (cycle_month p z t))"
proof -
  obtain y m k where d: "local_date z t = (y, m, k)" by (cases "local_date z t") auto
  note r = local_date_month[OF d]
  have o: "ordinal (local_date z t) = ordinal (y, m, 1) + (k - 1)" unfolding d by (rule ordinal_day)
  have naive: "naive_at (cycle_boundary p y m) 0 = cycle_naive p (y, m)" by (simp add: cycle_naive_def)
  show ?thesis
  proof (cases "wall z t < cycle_naive p (y, m)")
    case True
    then have c: "cycle_month p z t = previous_month (y, m)" using d naive by (simp add: cycle_month_def)
    obtain y' m' where pm: "previous_month (y, m) = (y', m')" by fastforce
    have m': "1 \<le> m'" "m' \<le> 12" using previous_month_range[of m y] r pm by auto
    have nx: "next_month (y', m') = (y, m)" using previous_next[of m y] r pm by simp
    have "cycle_day p (y', m') \<le> ordinal (local_date z t)"
      using cycle_day_range[OF assms m', of y'] ordinal_next_month[OF m', of y'] nx o r by simp
    then have "cycle_naive p (y', m') \<le> wall z t"
      unfolding cycle_naive_day by (rule order.trans[OF scale_days wall_in_day(1)])
    then show ?thesis using True c pm nx m' by simp
  next
    case False
    then have c: "cycle_month p z t = (y, m)" using d naive by (simp add: cycle_month_def)
    have "ordinal (local_date z t) + 1 \<le> cycle_day p (next_month (y, m))"
      using cycle_day_next[OF assms, of m y] o r by simp
    from scale_days[OF this] wall_in_day(2)[of z t] have "wall z t < cycle_naive p (next_month (y, m))"
      unfolding cycle_naive_day by simp
    then show ?thesis using False c r by simp
  qed
qed

lemma cycle_month_unique:
  assumes "1 \<le> pn_expected_start_day p" and "1 \<le> snd ym" "snd ym \<le> 12"
    and "cycle_naive p ym \<le> wall z t" and "wall z t < cycle_naive p (next_month ym)"
  shows "cycle_month p z t = ym"
proof -
  let ?i = "month_count ym" and ?c = "cycle_month p z t"
  let ?j = "month_count ?c"
  note c = cycle_month_contains[OF assms(1), of z t]
  have i: "month_at ?i = ym" and j: "month_at ?j = ?c" using month_at_count assms(2,3) c by auto
  have D: "0 < day_microseconds" by (simp add: day_microseconds_def)
  have lt: "cycle_day p (month_at a) < cycle_day p (month_at (b + 1))"
    if "cycle_naive p (month_at a) \<le> w" "w < cycle_naive p (month_at (b + 1))" for a b w
    using order.strict_trans1[OF that] D by (simp add: cycle_naive_day)
  have "cycle_day p (month_at ?i) < cycle_day p (month_at (?j + 1))"
    by (rule lt[of ?i "wall z t" ?j]) (use assms(4) c i j next_month_at[of ?j] in simp_all)
  then have "?i \<le> ?j" using cycle_day_mono[OF assms(1), of "?j + 1" ?i] by linarith
  moreover have "cycle_day p (month_at ?j) < cycle_day p (month_at (?i + 1))"
    by (rule lt[of ?j "wall z t" ?i]) (use assms(5) c i j next_month_at[of ?i] in simp_all)
  then have "?j \<le> ?i" using cycle_day_mono[OF assms(1), of "?i + 1" ?j] by linarith
  ultimately have "?i = ?j" by (rule order.antisym)
  then show ?thesis using i j by metis
qed

section \<open>Amounts shown\<close>

lemma round_half_up_bounds: "\<bar>of_int (round_half_up x) - x\<bar> \<le> 1 / 2"
proof (cases "0 \<le> x")
  case True
  have "x - 1 / 2 \<le> of_int \<lfloor>x + 1 / 2\<rfloor>" "of_int \<lfloor>x + 1 / 2\<rfloor> \<le> x + 1 / 2" by linarith+
  then show ?thesis using True unfolding round_half_up_def by (simp only: if_True)
next
  case False
  have "- x - 1 / 2 \<le> of_int \<lfloor>- x + 1 / 2\<rfloor>" "of_int \<lfloor>- x + 1 / 2\<rfloor> \<le> - x + 1 / 2" by linarith+
  then show ?thesis using False unfolding round_half_up_def by (simp only: if_False of_int_minus)
qed

lemma display_currency_close:
  assumes "display_currency v = Some w"
  shows "\<bar>w - v\<bar> \<le> 1 / 200 \<and> on_grid 2 w"
proof -
  have w: "w = of_int (round_half_up (v * 100)) / 100"
    using assms by (auto simp: display_currency_def quantize_def Let_def split: if_splits)
  have "\<bar>w * 100 - v * 100\<bar> \<le> 1 / 2" using round_half_up_bounds[of "v * 100"] w by simp
  then have "\<bar>w - v\<bar> \<le> 1 / 200" by linarith
  moreover have "on_grid 2 w" by (rule on_gridI[of _ _ "round_half_up (v * 100)"]) (simp add: w)
  ultimately show ?thesis by simp
qed

end
