(* ===== verification/Rate_Accepted.thy ===== *)
theory Rate_Accepted
  imports Rate_Documents Rate_Allocation Rate_Cycles
begin

text \<open>
  From a document to its prices: what the validation report guarantees about the plan of the
  engine.  Each schedule of an accepted document tiles the day, each day of the year has a season,
  the tiers form a chain, and the hybrid matrix has a price for every period.
\<close>

section \<open>Dictionaries built from lists\<close>

lemma dict_set_fresh: "k \<notin> fst ` set d \<Longrightarrow> dict_set d k v = d @ [(k, v)]"
  unfolding dict_set_def by (induction d) auto

lemma set_dict_set: "set (dict_set d k v) \<subseteq> insert (k, v) (set d)"
  unfolding dict_set_def by (induction d) auto

lemma dict_set_mem: "x \<in> set (dict_set d k v) \<Longrightarrow> x \<in> set d \<or> snd x = v"
  using set_dict_set[of d k v] by auto

lemma fold_dict_set:
  assumes "distinct (map key xs)" and "fst ` set d \<inter> key ` set xs = {}"
  shows "fold (\<lambda>x m. dict_set m (key x) (val x)) xs d = d @ map (\<lambda>x. (key x, val x)) xs"
  using assms
proof (induction xs arbitrary: d)
  case (Cons x xs)
  then have "dict_set d (key x) (val x) = d @ [(key x, val x)]" by (intro dict_set_fresh) auto
  then show ?case using Cons by auto
qed simp

lemma map_of_list: "distinct (map key xs) \<Longrightarrow> x \<in> set xs \<Longrightarrow> map_of (map (\<lambda>x. (key x, val x)) xs) (key x) = Some (val x)"
  by (rule map_of_is_SomeI) (auto simp: comp_def)

section \<open>Schedules of an accepted document\<close>

definition accepted :: "document \<Rightarrow> bool" where
  "accepted d \<longleftrightarrow> (\<exists>require evidence rate_limit fixed_limit. rp_valid (validate_document require evidence rate_limit fixed_limit d))"

lemma accepted_parts:
  assumes "accepted d"
  obtains rate_limit where "\<And>s. s \<in> set (do_seasons d) \<Longrightarrow> fst (season_issues rate_limit s) = []"
    and "needs_time_schedule d \<Longrightarrow> do_seasons d \<noteq> [] \<and> annual_issues d [1..366] = []"
    and "fst (tier_section rate_limit d) = []"
proof -
  obtain r e x y where v: "rp_valid (validate_document r e x y d)" using assms by (auto simp: accepted_def)
  show thesis by (rule that[of x]) (use v in \<open>auto simp: validate_document_def Let_def split: if_splits\<close>)
qed

lemma season_issues_schedule:
  assumes "fst (season_issues limit s) = []" and "c \<in> set (se_schedules s)"
  shows "\<exists>ws v. period_issues (''seasons.'' @ se_name s @ ''.'' @ sc_day_type c) limit 0 0
      (sort_key pd_start (sc_periods c)) = ([], ws, 1440, v)"
proof -
  obtain es ws reached v where p: "period_issues (''seasons.'' @ se_name s @ ''.'' @ sc_day_type c) limit 0 0
      (sort_key pd_start (sc_periods c)) = (es, ws, reached, v)" using prod_cases4 by blast
  have "fst (schedule_issues limit s c) = []" using assms by (auto simp: season_issues_def Let_def)
  then show ?thesis using p by (auto simp: schedule_issues_def Let_def split: if_splits)
qed

lemma season_issues_normal: "fst (season_issues limit s) = [] \<Longrightarrow> normal_days s"
  by (auto simp: season_issues_def Let_def split: if_splits)

lemma period_issues_check:
  assumes "period_issues base limit i cursor qs = ([], ws, 1440, v)" and "list_all period_ok qs"
  shows "check_periods (map (\<lambda>q. (pd_start q, pd_end q, pd_label q, pd_price q)) qs) cursor = Inr ()"
  using assms
proof (induction base limit i cursor qs arbitrary: ws v rule: period_issues.induct)
  case (2 base limit i cursor q qs)
  obtain es ws' c v' where p: "period_issues base limit (Suc i) (max cursor (pd_end q)) qs = (es, ws', c, v')"
    using prod_cases4 by blast
  have ok: "pd_start q < pd_end q" "pd_label q \<noteq> []"
    using 2(3) by (auto simp: period_ok_def text_between_def)
  have q: "pd_start q = cursor" "0 \<le> pd_price q" "es = []" "c = 1440"
    using 2(2) p by (auto simp: Let_def split: if_splits)
  then have "max cursor (pd_end q) = pd_end q" using ok by simp
  then have "check_periods (map (\<lambda>q. (pd_start q, pd_end q, pd_label q, pd_price q)) qs) (pd_end q) = Inr ()"
    using 2(1)[OF refl refl refl refl] p q 2(3) by simp
  then show ?case using q ok by simp
qed (auto split: if_splits)

lemma document_schedule_ok:
  assumes "document_ok known d" and "s \<in> set (do_seasons d)" and "c \<in> set (se_schedules s)"
  shows "list_all period_ok (sort_key pd_start (sc_periods c))"
  using assms by (auto simp: document_ok_def season_ok_def schedule_ok_def list_all_iff)

lemma document_tiles:
  assumes "document_ok known d" and "accepted d" and "s \<in> set (do_seasons d)" and "c \<in> set (se_schedules s)"
  shows "tiles (period_values c)"
proof -
  obtain limit where "fst (season_issues limit s) = []" using accepted_parts[OF assms(2)] assms(3) by blast
  from season_issues_schedule[OF this assms(4)] period_issues_check document_schedule_ok[OF assms(1,3,4)]
  have "check_periods (period_values c) 0 = Inr ()" unfolding period_values_def by blast
  moreover have "sorted_periods (period_values c) = period_values c"
    unfolding sorted_periods_def period_values_def
    by (rule sort_key_id_if_sorted) (simp add: comp_def)
  ultimately show ?thesis by (simp add: tiles_def)
qed

section \<open>Schedules of the plan\<close>

definition document_values :: "document \<Rightarrow> period list set" where
  "document_values d = {period_values c | s c. s \<in> set (do_seasons d) \<and> c \<in> set (se_schedules s)}"

lemma add_day_values:
  "(k, ps) \<in> set (fold add_day cs days) \<Longrightarrow> (k, ps) \<in> set days \<or> (\<exists>c\<in>set cs. ps = period_values c)"
proof (induction cs arbitrary: days)
  case (Cons c cs)
  then have "(k, ps) \<in> set (add_day c days) \<or> (\<exists>c\<in>set cs. ps = period_values c)" by simp
  moreover have "x \<in> set days \<or> snd x = period_values c" if "x \<in> set (add_day c days)" for x
    using that by (auto simp: add_day_def dest!: dict_set_mem split: if_splits)
  ultimately show ?case by fastforce
qed simp

lemma plan_periods_values:
  "(n, days) \<in> set (pn_periods (engine_plan d)) \<Longrightarrow> (k, ps) \<in> set days \<Longrightarrow> ps \<in> document_values d"
proof -
  have "(n, days) \<in> set (fold (\<lambda>s ps. dict_set ps (se_name s) (fold add_day (se_schedules s) [])) ss m)
      \<Longrightarrow> (n, days) \<in> set m \<or> (\<exists>s\<in>set ss. days = fold add_day (se_schedules s) [])" for ss m
  proof (induction ss arbitrary: m)
    case (Cons s ss)
    then show ?case using set_dict_set[of m "se_name s" "fold add_day (se_schedules s) []"] by fastforce
  qed simp
  moreover assume "(n, days) \<in> set (pn_periods (engine_plan d))" "(k, ps) \<in> set days"
  ultimately show ?thesis using add_day_values[of k ps _ "[]"]
    unfolding document_values_def engine_plan_def by fastforce
qed

definition special_from :: "period list set \<Rightarrow> (string, (date, period list) dict) dict \<Rightarrow> bool" where
  "special_from V sp \<longleftrightarrow> (\<forall>(n, dates)\<in>set sp. \<forall>(k, ps)\<in>set dates. ps \<in> V)"

lemma special_from_get: "special_from V sp \<Longrightarrow> \<forall>(k, ps)\<in>set (dict_get sp n []). ps \<in> V"
proof (cases "map_of sp n")
  case (Some dates)
  assume "special_from V sp"
  then show ?thesis using map_of_SomeD[OF Some] Some unfolding special_from_def by (auto simp: dict_get_def)
qed (simp add: dict_get_def)

lemma special_from_set:
  assumes "special_from V sp" and "\<forall>(k, ps)\<in>set dates. ps \<in> V"
  shows "special_from V (dict_set sp n dates)"
  using assms set_dict_set[of sp n dates] unfolding special_from_def by blast

lemma special_from_add:
  assumes "special_from V sp" and "period_values c \<in> V"
  shows "special_from V (add_special n c sp)"
proof -
  have "special_from V (fold (\<lambda>day sp. dict_set sp n (dict_set (dict_get sp n []) day (period_values c))) days sp)" for days
    using assms(1)
  proof (induction days arbitrary: sp)
    case (Cons day days)
    have "\<forall>(k, ps)\<in>set (dict_set (dict_get sp n []) day (period_values c)). ps \<in> V"
      using special_from_get[OF Cons.prems, of n] set_dict_set[of "dict_get sp n []" day "period_values c"] assms(2) by blast
    from Cons.IH[OF special_from_set[OF Cons.prems this]] show ?case by simp
  qed simp
  then show ?thesis using assms(1) by (simp add: add_special_def)
qed

lemma fold_invariant_set: "P s \<Longrightarrow> (\<And>x s. x \<in> set xs \<Longrightarrow> P s \<Longrightarrow> P (f x s)) \<Longrightarrow> P (fold f xs s)"
  by (induction xs arbitrary: s) auto

lemma plan_special_values: "special_from (document_values d) (pn_special (engine_plan d))"
proof -
  have inner: "special_from (document_values d) (fold (add_special (se_name s)) (se_schedules s) sp)"
    if "s \<in> set (do_seasons d)" "special_from (document_values d) sp" for s sp
  proof (rule fold_invariant_set[where P = "special_from (document_values d)", OF that(2)])
    fix c sp assume "c \<in> set (se_schedules s)" "special_from (document_values d) sp"
    moreover have "period_values c \<in> document_values d" using that(1) calculation(1) by (auto simp: document_values_def)
    ultimately show "special_from (document_values d) (add_special (se_name s) c sp)" by (intro special_from_add)
  qed
  have "special_from (document_values d) (fold (\<lambda>s sp. fold (add_special (se_name s)) (se_schedules s) sp) (do_seasons d) [])"
    by (rule fold_invariant_set[where P = "special_from (document_values d)"]) (use inner in \<open>auto simp: special_from_def\<close>)
  then show ?thesis by (simp add: engine_plan_def)
qed

lemma all_schedules_values: "ps \<in> set (all_schedules (engine_plan d)) \<Longrightarrow> ps \<in> document_values d"
  using plan_periods_values[of _ _ d] plan_special_values[of d]
  unfolding all_schedules_def special_from_def by (auto; blast)

lemma schedules_tile:
  assumes "document_ok known d" and "accepted d" and "ps \<in> set (all_schedules (engine_plan d))"
  shows "tiles ps"
  using all_schedules_values[OF assms(3)] document_tiles[OF assms(1,2)] by (auto simp: document_values_def)

section \<open>Seasons of the plan\<close>

lemma yday_month: "yday (m, k) = days_before_month 2024 m + k"
  by (simp add: yday_def ordinal_def days_before_year_def days_before_month_def month_lengths_def is_leap_def)

lemma leap_month:
  assumes "1 \<le> m" and "m \<le> 12"
  shows "days_in_month y m \<le> days_in_month 2024 m"
    and "days_before_month 2024 m + days_in_month 2024 m \<le> 366"
proof -
  have "m = 1 \<or> m = 2 \<or> m = 3 \<or> m = 4 \<or> m = 5 \<or> m = 6 \<or> m = 7 \<or> m = 8 \<or> m = 9 \<or> m = 10 \<or> m = 11 \<or> m = 12"
    using assms by presburger
  then show "days_in_month y m \<le> days_in_month 2024 m" "days_before_month 2024 m + days_in_month 2024 m \<le> 366"
    by (auto simp: days_in_month_def days_before_month_def month_lengths_def is_leap_def)
qed

lemma days_before_month_mono:
  assumes "1 \<le> m" and "m < m'" and "m' \<le> 12"
  shows "days_before_month y m + days_in_month y m \<le> days_before_month y m'"
proof -
  have "m + 1 \<le> m'" using assms by simp
  then have "m' \<le> 12 \<Longrightarrow> days_before_month y (m + 1) \<le> days_before_month y m'"
  proof (induction m' rule: int_ge_induct)
    case (step i)
    then show ?case using days_before_month_Suc[of i y] valid_month[of i y] assms(1) by simp
  qed simp
  then show ?thesis using days_before_month_Suc[of m y] assms by simp
qed

text \<open>Day numbers of the leap year order months and days as the engine compares them.\<close>

lemma yday_less:
  assumes "valid_month_day a" and "valid_month_day b"
  shows "yday a \<le> yday b \<longleftrightarrow> a \<le> b"
proof -
  obtain m k m' k' where ab: "a = (m, k)" "b = (m', k')" by (cases a, cases b)
  have r: "1 \<le> m" "m \<le> 12" "1 \<le> k" "k \<le> days_in_month 2024 m" "1 \<le> m'" "m' \<le> 12" "1 \<le> k'" "k' \<le> days_in_month 2024 m'"
    using assms by (auto simp: ab valid_month_day_def valid_date_def)
  consider "m < m'" | "m = m'" | "m' < m" by linarith
  then show ?thesis
  proof cases
    case 1 then show ?thesis using days_before_month_mono[of m m' 2024] r by (simp add: ab yday_month)
  next
    case 2 then show ?thesis by (simp add: ab yday_month)
  next
    case 3 then show ?thesis using days_before_month_mono[of m' m 2024] r by (auto simp: ab yday_month)
  qed
qed

lemma yday_range: "valid_month_day a \<Longrightarrow> 1 \<le> yday a \<and> yday a \<le> 366"
proof -
  assume v: "valid_month_day a"
  obtain m k where a: "a = (m, k)" by (cases a)
  then have r: "1 \<le> m" "m \<le> 12" "1 \<le> k" "k \<le> days_in_month 2024 m"
    using v by (auto simp: valid_month_day_def valid_date_def)
  have "0 \<le> days_before_month 2024 m"
    using days_before_month_mono[of 1 m 2024] valid_month[of 1 2024] r by (cases "m = 1") (auto simp: days_before_month_def)
  then show ?thesis using leap_month(2)[OF r(1,2)] r by (simp add: a yday_month)
qed

lemma in_span_days:
  assumes "valid_month_day a" and "valid_month_day (se_start s)" and "valid_month_day (se_end s)"
  shows "in_span a (se_start s) (se_end s) \<longleftrightarrow> yday a \<in> season_days s"
proof -
  define A S E where "A = yday a" and "S = yday (se_start s)" and "E = yday (se_end s)"
  have c: "se_start s \<le> a \<longleftrightarrow> S \<le> A" "a \<le> se_end s \<longleftrightarrow> A \<le> E" "se_start s \<le> se_end s \<longleftrightarrow> S \<le> E"
    unfolding A_def S_def E_def using yday_less assms by blast+
  have "in_span a (se_start s) (se_end s) \<longleftrightarrow> (S \<le> E \<and> S \<le> A \<and> A \<le> E) \<or> (\<not> S \<le> E \<and> (S \<le> A \<or> A \<le> E))"
    unfolding in_span_def c not_le[symmetric] by (rule refl)
  then show ?thesis using yday_range[OF assms(1)]
    unfolding season_days_def Let_def A_def[symmetric] S_def[symmetric] E_def[symmetric] by auto
qed

lemma annual_issues_owner: "annual_issues d days = [] \<Longrightarrow> day \<in> set days \<Longrightarrow> day_owners d day \<noteq> []"
  by (induction d days rule: annual_issues.induct) (auto simp: Let_def split: if_splits)

lemma month_day_valid: "valid_month_day (month_day_of (date_of n))"
proof -
  obtain y m k where d: "date_of n = (y, m, k)" by (cases "date_of n")
  then have "valid_date (y, m, k)" using valid_date_of[of n] by simp
  then show ?thesis using leap_month(1)[of m y] by (auto simp: d month_day_of_def valid_month_day_def valid_date_def)
qed

lemma find_mem: "find P xs = Some x \<Longrightarrow> x \<in> set xs"
  by (auto simp: find_Some_iff)

lemma season_in_force:
  assumes "document_ok known d" and "accepted d" and "needs_time_schedule d" and "distinct (map se_name (do_seasons d))"
  shows "\<exists>s\<in>set (do_seasons d). season_of (engine_plan d) (date_of n) = Inr (se_name s)"
proof -
  let ?a = "month_day_of (date_of n)"
  have ne: "do_seasons d \<noteq> []" and an: "annual_issues d [1..366] = []"
    using accepted_parts[OF assms(2)] assms(3) by blast+
  define ss where "ss = map (\<lambda>s. (se_name s, \<lparr>sp_start = se_start s, sp_end = se_end s, sp_priority = se_priority s\<rparr>)) (do_seasons d)"
  have seasons: "pn_seasons (engine_plan d) = ss"
    using fold_dict_set[OF assms(4), of "[]" "\<lambda>s. \<lparr>sp_start = se_start s, sp_end = se_end s, sp_priority = se_priority s\<rparr>"]
    by (simp add: engine_plan_def ss_def)
  have ok: "valid_month_day (se_start s)" "valid_month_day (se_end s)" if "s \<in> set (do_seasons d)" for s
    using assms(1) that by (auto simp: document_ok_def season_ok_def list_all_iff)
  have "day_owners d (yday ?a) \<noteq> []"
    by (rule annual_issues_owner[OF an]) (use yday_range[OF month_day_valid] in simp)
  then obtain s where s: "s \<in> set (do_seasons d)" "yday ?a \<in> season_days s"
    using hd_in_set[of "day_owners d (yday ?a)"] by (auto simp: day_owners_def simp del: hd_in_set)
  then have "in_span ?a (se_start s) (se_end s)" using in_span_days[OF month_day_valid ok[OF s(1)]] by simp
  then have "\<exists>x\<in>set (sort_key (\<lambda>(name, s). - sp_priority s) ss). (\<lambda>(name, s). in_span ?a (sp_start s) (sp_end s)) x"
    using s(1) by (force simp: ss_def)
  then obtain x where x: "find (\<lambda>(name, s). in_span ?a (sp_start s) (sp_end s)) (sort_key (\<lambda>(name, s). - sp_priority s) ss) = Some x"
    by (cases "find (\<lambda>(name, s). in_span ?a (sp_start s) (sp_end s)) (sort_key (\<lambda>(name, s). - sp_priority s) ss)")
      (metis find_None_iff)+
  have "x \<in> set (sort_key (\<lambda>(name, s). - sp_priority s) ss)" by (rule find_mem[OF x])
  then have mem: "x \<in> set ss" by simp
  have "ss \<noteq> []" using ne by (simp add: ss_def)
  then have "season_of (engine_plan d) (date_of n) = Inr (fst x)"
    using x by (simp add: season_of_def seasons split: prod.splits)
  moreover have "\<exists>s\<in>set (do_seasons d). fst x = se_name s" using mem by (auto simp: ss_def)
  ultimately show ?thesis by auto
qed

lemma add_day_keys:
  assumes "k \<in> {''weekday'', ''weekend''}"
    and "map_of days k \<noteq> None \<or> ''all-days'' \<in> set (map sc_day_type cs) \<or> k \<in> set (map sc_day_type cs)"
  shows "map_of (fold add_day cs days) k \<noteq> None"
  using assms(2)
proof (induction cs arbitrary: days)
  case (Cons c cs)
  have keep: "map_of days k \<noteq> None \<Longrightarrow> map_of (add_day c days) k \<noteq> None" by (auto simp: add_day_def)
  have new: "sc_day_type c = ''all-days'' \<or> sc_day_type c = k \<Longrightarrow> map_of (add_day c days) k \<noteq> None"
    using assms(1) by (auto simp: add_day_def)
  show ?case unfolding fold_Cons comp_apply using Cons.prems keep new by (intro Cons.IH) auto
qed simp

lemma document_periods_total:
  assumes "document_ok known d" and "accepted d" and "needs_time_schedule d" and "distinct (map se_name (do_seasons d))"
  shows "\<exists>ps. periods_for_date (engine_plan d) (date_of n) = Inr ps"
proof -
  obtain s where s: "s \<in> set (do_seasons d)" "season_of (engine_plan d) (date_of n) = Inr (se_name s)"
    using season_in_force[OF assms] by blast
  have "pn_periods (engine_plan d) = map (\<lambda>s. (se_name s, fold add_day (se_schedules s) [])) (do_seasons d)"
    using fold_dict_set[OF assms(4), of "[]" "\<lambda>s. fold add_day (se_schedules s) []"] by (simp add: engine_plan_def)
  then have days: "map_of (pn_periods (engine_plan d)) (se_name s) = Some (fold add_day (se_schedules s) [])"
    using map_of_list[OF assms(4) s(1), of "\<lambda>s. fold add_day (se_schedules s) []"] by simp
  have "normal_days s" using accepted_parts[OF assms(2)] s(1) season_issues_normal by blast
  then have "map_of (fold add_day (se_schedules s) []) k \<noteq> None" if "k \<in> {''weekday'', ''weekend''}" for k
    using add_day_keys[OF that, of "[]" "se_schedules s"] that unfolding normal_days_def by blast
  moreover have "day_type (date_of n) \<in> {''weekday'', ''weekend''}" by (simp add: day_type_def)
  ultimately obtain ps where "map_of (fold add_day (se_schedules s) []) (day_type (date_of n)) = Some ps" by blast
  then show ?thesis using s(2) days by (simp add: periods_for_date_def)
qed

section \<open>Tiers of the plan\<close>

lemma sort_key_engine: "sort_key ti_order (map engine_tier ts) = map engine_tier (sort_key td_order ts)"
proof -
  have insert: "insort_key ti_order (engine_tier t) (map engine_tier us) = map engine_tier (insort_key td_order t us)" for t us
    by (induction us) (simp_all add: engine_tier_def)
  show ?thesis by (induction ts) (simp_all add: insert)
qed

lemma engine_tier_bounds [simp]:
  "lower_of basis (engine_tier t) =
     (if basis = ''daily_baseline_kwh'' then (case td_lower_multiplier t of None \<Rightarrow> 0 | Some m \<Rightarrow> m) else td_lower t)"
  "upper_of basis (engine_tier t) = (if basis = ''daily_baseline_kwh'' then td_upper_multiplier t else td_upper t)"
  "ti_tier_id (engine_tier t) = td_tier_id t" "ti_price (engine_tier t) = td_price t"
  "ti_order (engine_tier t) = td_order t" "ti_upper_kwh (engine_tier t) = td_upper t"
  "ti_upper_multiplier (engine_tier t) = td_upper_multiplier t" "ti_tou_prices (engine_tier t) = td_tou_prices t"
  by (simp_all add: lower_of_def upper_of_def engine_tier_def)

lemma tier_issues_check:
  assumes "fst (tier_issues basis limit i cursor ts) = []"
    and "basis \<in> {''fixed_cycle_kwh'', ''daily_baseline_kwh''}" and "list_all tier_ok ts"
    and "distinct (map td_tier_id ts)" and "set ids \<inter> td_tier_id ` set ts = {}"
  shows "check_tiers basis (map engine_tier ts) ids cursor = Inr ()
    \<and> (ts \<noteq> [] \<longrightarrow> upper_of basis (engine_tier (last ts)) = None)
    \<and> (ts \<noteq> [] \<and> basis = ''fixed_cycle_kwh'' \<longrightarrow> td_upper_multiplier (last ts) = None)"
  using assms
proof (induction ts arbitrary: i cursor ids)
  case (Cons t ts)
  let ?lower = "lower_of basis (engine_tier t)" and ?upper = "upper_of basis (engine_tier t)"
  let ?next = "case ?upper of Some u \<Rightarrow> u | None \<Rightarrow> cursor"
  obtain es ws where p: "tier_issues basis limit (Suc i) ?next ts = (es, ws)" by fastforce
  have h: "es = []" "?lower = cursor" "ts = [] \<Longrightarrow> ?upper = None"
      "ts \<noteq> [] \<Longrightarrow> \<exists>u. ?upper = Some u \<and> cursor < u"
      "basis = ''fixed_cycle_kwh'' \<Longrightarrow> td_upper_multiplier t = None"
    using Cons.prems(1,2) p by (auto simp: Let_def bound_issues_def split: if_splits option.splits)
  have id: "td_tier_id t \<noteq> []" "td_tier_id t \<notin> set ids" "0 \<le> td_price t"
    using Cons.prems(3,5) by (auto simp: tier_ok_def text_between_def tier_value_ok_def)
  have IH: "check_tiers basis (map engine_tier ts) (td_tier_id t # ids) ?next = Inr ()
      \<and> (ts \<noteq> [] \<longrightarrow> upper_of basis (engine_tier (last ts)) = None)
      \<and> (ts \<noteq> [] \<and> basis = ''fixed_cycle_kwh'' \<longrightarrow> td_upper_multiplier (last ts) = None)"
    by (rule Cons.IH[of "Suc i"]) (use Cons.prems(2-5) p h(1) in auto)
  have "check_tiers basis (engine_tier t # map engine_tier ts) ids cursor = Inr ()"
    using h(2,4) id IH by (cases "ts = []") (auto simp del: engine_tier_bounds(1,2))
  then show ?case using h IH by (cases "ts = []") (auto simp del: engine_tier_bounds(1,2))
qed simp

lemma tier_section_parts:
  assumes "fst (tier_section limit d) = []" and "has_tiers d" and "ts = sort_key td_order (do_tiers d)"
  shows "map td_order ts = map int [0..<length ts]" and "distinct (map td_tier_id ts)"
    and "fst (tier_issues (th_basis (do_threshold d)) limit 0 0 ts) = []"
    and "do_pricing_model d = ''time_of_use_tiered'' \<and> (case do_hybrid d of None \<Rightarrow> True | Some m \<Rightarrow> m = ''tier_period_matrix'')
      \<Longrightarrow> matrix_issues d ts = []"
proof -
  obtain es ws where p: "tier_issues (th_basis (do_threshold d)) limit 0 0 ts = (es, ws)" by fastforce
  show "map td_order ts = map int [0..<length ts]" "distinct (map td_tier_id ts)"
    "fst (tier_issues (th_basis (do_threshold d)) limit 0 0 ts) = []"
    "do_pricing_model d = ''time_of_use_tiered'' \<and> (case do_hybrid d of None \<Rightarrow> True | Some m \<Rightarrow> m = ''tier_period_matrix'')
      \<Longrightarrow> matrix_issues d ts = []"
    using assms(1,2) p unfolding tier_section_def Let_def assms(3)[symmetric] by (simp_all split: if_splits)
qed

lemma engine_plan_fields [simp]:
  "pn_pricing_model (engine_plan d) = do_pricing_model d" "pn_flat_rate (engine_plan d) = do_flat_rate d"
  "pn_basis (engine_plan d) = th_basis (do_threshold d)" "pn_tiers (engine_plan d) = map engine_tier (do_tiers d)"
  "pn_hybrid_method (engine_plan d) = (case do_hybrid d of None \<Rightarrow> ''tier_period_matrix'' | Some m \<Rightarrow> m)"
  "pn_daily_baseline (engine_plan d) = th_daily_baseline (do_threshold d)"
  "pn_expected_start_day (engine_plan d) = do_expected_start_day d"
  "tiered_model (engine_plan d) = has_tiers d" "tou_model (engine_plan d) = needs_time_schedule d"
  by (auto simp: engine_plan_def tiered_model_def has_tiers_def tou_model_def needs_time_schedule_def)

lemma sorted_tiers_engine: "sorted_tiers (engine_plan d) = map engine_tier (sort_key td_order (do_tiers d))"
  by (simp add: sorted_tiers_def sort_key_engine)

text \<open>The last tier has no upper bound in kWh; the report checks this only in the fixed basis.\<close>

definition final_tier_open :: "document \<Rightarrow> bool" where
  "final_tier_open d \<longleftrightarrow> (has_tiers d \<longrightarrow> td_upper (last (sort_key td_order (do_tiers d))) = None)"

lemma document_parts:
  assumes "document_ok known d"
  shows "list_all tier_ok (sort_key td_order (do_tiers d))" and "threshold_ok (do_threshold d)"
    and "has_tiers d \<Longrightarrow> 2 \<le> length (do_tiers d)"
  using assms by (auto simp: document_ok_def has_tiers_def list_all_iff)

lemma document_validates_tiers:
  assumes "document_ok known d" and "accepted d" and "final_tier_open d" and "has_tiers d"
  shows "validate_tiers (engine_plan d) = Inr ()"
proof -
  define ts where "ts = sort_key td_order (do_tiers d)"
  obtain limit where "fst (tier_section limit d) = []" using accepted_parts[OF assms(2)] by blast
  note parts = tier_section_parts[OF this assms(4) ts_def]
  have basis: "th_basis (do_threshold d) \<in> {''fixed_cycle_kwh'', ''daily_baseline_kwh''}"
    using document_parts(2)[OF assms(1)] by (simp add: threshold_ok_def)
  have len: "2 \<le> length ts" using document_parts(3)[OF assms(1,4)] by (simp add: ts_def)
  then have ne: "ts \<noteq> []" by auto
  note check = tier_issues_check[OF parts(3) basis _ parts(2), of "[]"]
  have c: "check_tiers (th_basis (do_threshold d)) (map engine_tier ts) [] 0 = Inr ()"
    "upper_of (th_basis (do_threshold d)) (engine_tier (last ts)) = None"
    "th_basis (do_threshold d) = ''fixed_cycle_kwh'' \<Longrightarrow> td_upper_multiplier (last ts) = None"
    using check document_parts(1)[OF assms(1)] ne by (auto simp: ts_def)
  have "td_upper (last ts) = None" using assms(3,4) by (simp add: final_tier_open_def ts_def)
  moreover have "td_upper_multiplier (last ts) = None" using c(2,3) basis by (auto split: if_splits)
  moreover have "map ti_order (map engine_tier ts) = map int [0..<length ts]" using parts(1) by (simp add: comp_def)
  ultimately show ?thesis
    using c(1) basis len ne by (simp add: validate_tiers_def sorted_tiers_engine Let_def last_map flip: ts_def)
qed

lemma document_validates:
  assumes "document_ok known d" and "accepted d" and "final_tier_open d"
  shows "validate_plan (engine_plan d) = Inr ()"
proof -
  have model: "do_pricing_model d \<in> {''flat'', ''time_of_use'', ''tiered'', ''time_of_use_tiered''}"
    and flat: "do_pricing_model d = ''flat'' \<Longrightarrow> \<exists>r. do_flat_rate d = Some r \<and> 0 \<le> r"
    using assms(1) by (auto simp: document_ok_def)
  have tiers: "has_tiers d \<Longrightarrow> validate_tiers (engine_plan d) = Inr ()" by (rule document_validates_tiers[OF assms])
  have "foldE (\<lambda>ps _. check_periods (sorted_periods ps) 0) (all_schedules (engine_plan d)) () = Inr ()"
    using schedules_tile[OF assms(1,2)] by (simp add: foldE_unit_all tiles_def)
  then show ?thesis using model flat tiers by (auto simp: validate_plan_def)
qed

section \<open>Prices of the plan\<close>

lemma document_period:
  assumes ok: "document_ok known d" and acc: "accepted d" and fin: "final_tier_open d"
    and names: "distinct (map se_name (do_seasons d))"
  shows "\<exists>b x. period_at (engine_plan d) z t = Inr (b, x) \<and> 0 \<le> x \<and> (needs_time_schedule d \<longrightarrow> b \<in> period_labels d)"
proof (cases "needs_time_schedule d")
  case True
  obtain ps where ps: "periods_for_date (engine_plan d) (local_date z t) = Inr ps"
    using document_periods_total[OF ok acc True names] unfolding local_date_def utc_date_def by blast
  from period_at_scheduled[OF document_validates[OF ok acc fin] _ ps] True obtain s e b x
    where q: "(s, e, b, x) \<in> set ps" "period_at (engine_plan d) z t = Inr (b, x)" "0 \<le> x" by auto
  have "ps \<in> document_values d"
    by (rule all_schedules_values[OF periods_for_date_scheduled[OF ps]]) (use True in simp)
  then have "b \<in> period_labels d" using q(1)
    unfolding document_values_def period_values_def period_labels_def by (auto intro!: bexI imageI)
  then show ?thesis using q by auto
next
  case False
  then have "do_pricing_model d = ''flat'' \<and> (\<exists>r. do_flat_rate d = Some r \<and> 0 \<le> r) \<or> do_pricing_model d = ''tiered''"
    using ok unfolding document_ok_def needs_time_schedule_def by auto
  then show ?thesis using False by (auto simp: period_at_def)
qed

lemma matrix_issues_labels: "matrix_issues d ts = [] \<Longrightarrow> t \<in> set ts \<Longrightarrow> fst ` set (td_tou_prices t) = period_labels d"
proof -
  assume m: "matrix_issues d ts = []" and "t \<in> set ts"
  then obtain i where "i < length ts" "t = ts ! i" by (auto simp: in_set_conv_nth)
  then have "(i, t) \<in> set (enumerate 0 ts)" by (simp add: in_set_enumerate_eq)
  then have "(case (i, t) of (i, t) \<Rightarrow> if period_labels d \<noteq> fst ` set (td_tou_prices t)
      then [issue_at ''hybrid_matrix_coverage'' (''tiers.'' @ int_text (int i) @ ''.tou_prices'')] else []) = []"
    using m unfolding matrix_issues_def concat_eq_Nil_conv set_map by blast
  then show ?thesis by (simp split: if_splits)
qed

lemma document_tier_price:
  assumes ok: "document_ok known d" and acc: "accepted d" and tiers: "has_tiers d" and t: "t \<in> set (do_tiers d)"
    and label: "needs_time_schedule d \<longrightarrow> b \<in> period_labels d" and x: "0 \<le> x"
  shows "\<exists>y. tier_price (engine_plan d) (engine_tier t) b x = Inr y \<and> 0 \<le> y"
proof -
  have tok: "tier_ok t" using ok t by (auto simp: document_ok_def list_all_iff)
  then have price: "0 \<le> td_price t" by (simp add: tier_ok_def tier_value_ok_def)
  show ?thesis
  proof (cases "do_pricing_model d = ''tiered'' \<or> pn_hybrid_method (engine_plan d) \<noteq> ''tier_period_matrix''")
    case True
    then show ?thesis using price x by (auto simp: tier_price_def intro: dadd_nonneg)
  next
    case False
    then have model: "do_pricing_model d = ''time_of_use_tiered''"
        "case do_hybrid d of None \<Rightarrow> True | Some m \<Rightarrow> m = ''tier_period_matrix''"
      using tiers by (auto simp: has_tiers_def split: option.splits)
    obtain limit where "fst (tier_section limit d) = []" using accepted_parts[OF acc] by blast
    from tier_section_parts(4)[OF this tiers refl] model have "matrix_issues d (sort_key td_order (do_tiers d)) = []" by blast
    from matrix_issues_labels[OF this, of t] t label model have "b \<in> fst ` set (td_tou_prices t)"
      by (simp add: needs_time_schedule_def)
    then obtain y where y: "map_of (td_tou_prices t) b = Some y" by (metis map_of_eq_None_iff not_None_eq)
    then have "0 \<le> y" using tok map_of_SomeD[OF y] by (auto simp: tier_ok_def tier_value_ok_def list_all_iff)
    then show ?thesis using y False by (simp add: tier_price_def)
  qed
qed

end
