(* ===== verification/Rate_Exact.thy ===== *)
theory Rate_Exact
  imports Rate_Allocation
begin

text \<open>
  The tier loop computes the tariff of the billing cycle.  The reference is the piecewise linear
  function of the usage that the tiers describe; for amounts within the precision of the decimal
  context the charge of an interval is the difference of the tariff at its two ends.
\<close>

section \<open>The tariff as a function of usage\<close>

definition tier_part :: "decimal \<Rightarrow> resolved_tier \<Rightarrow> decimal" where
  "tier_part x t = max 0 ((case rt_upper t of None \<Rightarrow> x | Some u \<Rightarrow> min x u) - rt_lower t)"

definition tariff :: "resolved_tier list \<Rightarrow> decimal \<Rightarrow> decimal" where
  "tariff ts x = (\<Sum>t\<leftarrow>ts. tier_part x t * ti_price (rt_tier t))"

lemma tariff_below:
  assumes "tier_chain c ts" and "x \<le> c"
  shows "tariff ts x = 0"
  using assms
proof (induction c ts rule: tier_chain.induct)
  case (3 c t t' ts)
  then obtain u where u: "rt_upper t = Some u" "rt_lower t = c" "c \<le> u" "tier_chain u (t' # ts)"
    by (auto split: option.splits)
  have "tariff (t' # ts) x = 0" using 3 u by simp
  moreover have "tier_part x t = 0" using u 3(3) by (simp add: tier_part_def)
  ultimately show ?case by (simp add: tariff_def)
qed (auto simp: tariff_def tier_part_def)

lemma tariff_within:
  assumes "tier_chain c ts" and "tier_at ts x = Some t" and "c \<le> x" and "x \<le> y"
    and "\<And>u. rt_upper t = Some u \<Longrightarrow> y \<le> u"
  shows "tariff ts y = tariff ts x + (y - x) * ti_price (rt_tier t)"
  using assms
proof (induction c ts rule: tier_chain.induct)
  case (2 c t')
  then show ?case by (auto simp: tariff_def tier_part_def tier_at_find holds_usage_def algebra_simps)
next
  case (3 c t1 t2 ts)
  then obtain u where u: "rt_upper t1 = Some u" "rt_lower t1 = c" "c \<le> u" "tier_chain u (t2 # ts)"
    by (auto split: option.splits)
  have split: "tariff (t1 # t2 # ts) v = tier_part v t1 * ti_price (rt_tier t1) + tariff (t2 # ts) v" for v
    by (simp add: tariff_def)
  show ?case
  proof (cases "x < u")
    case True
    then have t: "t = t1" using 3 u by (simp add: tier_at_find holds_usage_def)
    then have "y \<le> u" using 3 u by simp
    then have "tariff (t2 # ts) y = 0" "tariff (t2 # ts) x = 0" using tariff_below[OF u(4)] True by auto
    then show ?thesis unfolding split t using u 3(4,5) \<open>y \<le> u\<close> by (simp add: tier_part_def algebra_simps)
  next
    case False
    then have "tier_at (t2 # ts) x = Some t" using 3 u by (simp add: tier_at_find holds_usage_def)
    then have "tariff (t2 # ts) y = tariff (t2 # ts) x + (y - x) * ti_price (rt_tier t)"
      using 3 u False by (intro "3.IH"[OF u(1)]) auto
    then show ?thesis unfolding split using u False 3(5) by (simp add: tier_part_def min_def)
  qed
qed simp

section \<open>Exact amounts\<close>

lemma on_grid_mult: "on_grid a x \<Longrightarrow> on_grid b y \<Longrightarrow> on_grid (a + b) (x * y)"
proof -
  assume "on_grid a x" "on_grid b y"
  then obtain m n where "x * 10 ^ a = of_int m" "y * 10 ^ b = of_int n" unfolding on_grid_iff by blast
  then have "x * y * 10 ^ (a + b) = of_int m * of_int n" by (metis mult.assoc mult.left_commute power_add)
  then show ?thesis by (intro on_gridI[of _ _ "m * n"]) simp
qed

lemma on_grid_0 [simp]: "on_grid k 0"
  by (simp add: on_grid_def)

text \<open>
  The amounts of a request fit the precision: usages have at most \<^verbatim>\<open>k\<close> places, prices at most eight
  and at most \<^verbatim>\<open>M\<close>, and the largest product stays below 28 digits.
\<close>

definition amounts_fit :: "nat \<Rightarrow> decimal \<Rightarrow> decimal \<Rightarrow> resolved_tier list \<Rightarrow> bool" where
  "amounts_fit k M limit ts \<longleftrightarrow> 1 \<le> M \<and> limit * M * 10 ^ (k + 8) \<le> 10 ^ 28
     \<and> (\<forall>t\<in>set ts. on_grid 8 (ti_price (rt_tier t)) \<and> 0 \<le> ti_price (rt_tier t) \<and> ti_price (rt_tier t) \<le> M
         \<and> (\<forall>u\<in>set_option (rt_upper t). on_grid k u))"

lemma amounts_fit_scale:
  assumes "amounts_fit k M limit ts" and "0 \<le> x" and "x \<le> limit"
  shows "x * M * 10 ^ (k + 8) \<le> 10 ^ 28" and "x * 10 ^ k \<le> 10 ^ 28"
proof -
  have M: "1 \<le> M" "limit * M * 10 ^ (k + 8) \<le> 10 ^ 28" using assms(1) by (auto simp: amounts_fit_def)
  have "x * M * 10 ^ (k + 8) \<le> limit * M * 10 ^ (k + 8)" using assms(3) M by (intro mult_right_mono) auto
  then show fit: "x * M * 10 ^ (k + 8) \<le> 10 ^ 28" using M(2) by (rule order.trans)
  have "x * 10 ^ k \<le> x * M * 10 ^ (k + 8)"
  proof -
    have "(10::rat) ^ k \<le> M * 10 ^ (k + 8)"
      using M(1) mult_mono[of 1 M "10 ^ k" "10 ^ (k + 8) :: rat"] by (simp add: power_increasing)
    from mult_left_mono[OF this assms(2)] show ?thesis by (simp add: mult.assoc)
  qed
  with fit show "x * 10 ^ k \<le> 10 ^ 28" by simp
qed

text \<open>The energy of a turn is exact.\<close>

lemma turn_energy_exact:
  assumes fit: "amounts_fit k M (c + r) ts" and t: "t \<in> set ts" "holds_usage c t"
    and "on_grid k c" and "on_grid k r" and "0 \<le> c" and "0 < r"
  shows "turn_energy t r c = (case rt_upper t of None \<Rightarrow> r | Some u \<Rightarrow> min r (u - c)) \<and> on_grid k (turn_energy t r c)"
proof (cases "rt_upper t")
  case None
  then show ?thesis using assms by (simp add: turn_energy_def)
next
  case (Some u)
  have cu: "c < u" and gu: "on_grid k u"
    using t Some fit by (auto simp: holds_usage_def amounts_fit_def)
  show ?thesis
  proof (cases "u - c \<le> r")
    case True
    have "\<bar>u - c\<bar> * 10 ^ k \<le> 10 ^ 28"
      using amounts_fit_scale(2)[OF fit, of "u - c"] cu True assms(6) by simp
    then have "dsub u c = u - c" by (rule dsub_exact[OF gu assms(4)])
    then show ?thesis using True cu Some on_grid_diff[OF gu assms(4)] by (simp add: turn_energy_def min_def)
  next
    case False
    have "\<bar>r\<bar> * 10 ^ k \<le> 10 ^ 28" using amounts_fit_scale(2)[OF fit, of r] assms(6,7) by simp
    then have "dec28 r = r" by (rule dec28_exact[OF assms(5)])
    then have "r \<le> dsub u c" unfolding dsub_def using dec28_mono[of r "u - c"] False by simp
    then have "min r (max 0 (dsub u c)) = r" by (simp add: min_def max_def)
    then show ?thesis using False Some assms(5) by (simp add: turn_energy_def)
  qed
qed

definition exact_inv ::
  "nat \<Rightarrow> decimal \<Rightarrow> resolved_tier list \<Rightarrow> decimal \<Rightarrow> decimal \<Rightarrow> decimal \<Rightarrow> instant \<Rightarrow> allocation \<Rightarrow> bool"
where
  "exact_inv k M ts before limit r l a \<longleftrightarrow>
     (let c = al_cumulative a; charge = dsum (map cs_cost (al_slices a)) in
      on_grid k c \<and> on_grid k r \<and> before \<le> c \<and> 0 \<le> r \<and> c + r = limit
      \<and> sum_list (map cs_energy (al_slices a)) = c - before
      \<and> charge = tariff ts c - tariff ts before \<and> on_grid (k + 8) charge
      \<and> 0 \<le> charge \<and> charge \<le> (c - before) * M)"

lemma dsum_snoc [simp]: "dsum (xs @ [x]) = dadd (dsum xs) x"
  by (simp add: dsum_def)

lemma exact_inv_kept:
  assumes chain: "tier_chain 0 ts" and fit: "amounts_fit k M limit ts" and before: "0 \<le> before"
    and model: "pn_pricing_model p = ''tiered''"
  shows "loop_keeps p ts tb rate allocated secs right (exact_inv k M ts before limit)"
  unfolding loop_keeps_def
proof (intro allI impI, elim conjE)
  fix r l a t price e right'
  assume inv: "exact_inv k M ts before limit r l a" and r: "0 < r" and t: "tier_at ts (al_cumulative a) = Some t"
    and price: "tier_price p (rt_tier t) tb rate = Inr price" and e: "e = turn_energy t r (al_cumulative a)"
    and "right' = (if e = r then right else l + segment_us secs e allocated)"
  define c where "c = al_cumulative a"
  define charge where "charge = dsum (map cs_cost (al_slices a))"
  have I: "on_grid k c" "on_grid k r" "before \<le> c" "c + r = limit" "charge = tariff ts c - tariff ts before"
      "on_grid (k + 8) charge" "0 \<le> charge" "charge \<le> (c - before) * M"
      "sum_list (map cs_energy (al_slices a)) = c - before"
    using inv by (auto simp: exact_inv_def Let_def c_def charge_def)
  have c0: "0 \<le> c" using I before by simp
  note mem = tier_at_Some[OF t, folded c_def]
  have x: "price = ti_price (rt_tier t)" using price model by (simp add: tier_price_def)
  have P: "on_grid 8 price" "0 \<le> price" "price \<le> M" using fit mem x by (auto simp: amounts_fit_def)
  have E: "e = (case rt_upper t of None \<Rightarrow> r | Some u \<Rightarrow> min r (u - c))" "on_grid k e"
    using turn_energy_exact[of k M c r ts t] fit mem I r c0 unfolding e c_def[symmetric] by auto
  have pos: "0 < e" unfolding e c_def[symmetric] by (rule turn_energy_pos) (use mem r in auto)
  have le: "e \<le> r" unfolding e turn_energy_def by simp
  have upto: "\<And>u. rt_upper t = Some u \<Longrightarrow> c + e \<le> u" using E(1) by auto
  have c': "dadd c e = c + e"
    using amounts_fit_scale(2)[OF fit, of "c + e"] I c0 pos le by (intro dadd_exact[of k]) (auto intro: E I)
  have r': "dsub r e = r - e"
    using amounts_fit_scale(2)[OF fit, of "r - e"] I c0 pos le by (intro dsub_exact[of k]) (auto intro: E I)
  have ge: "on_grid (k + 8) (e * price)" by (rule on_grid_mult[OF E(2) P(1)])
  have em: "e * price \<le> e * M" using P pos by (intro mult_left_mono) auto
  have big: "e * M * 10 ^ (k + 8) \<le> 10 ^ 28" using I c0 pos le by (intro amounts_fit_scale(1)[OF fit]) auto
  have cost: "dmul e price = e * price" unfolding dmul_def
  proof (rule dec28_exact[OF ge])
    have "e * price * 10 ^ (k + 8) \<le> e * M * 10 ^ (k + 8)" using em by (rule mult_right_mono) simp
    also note big
    finally have "e * price * 10 ^ (k + 8) \<le> 10 ^ 28" .
    moreover have "\<bar>e * price\<bar> = e * price" using pos P by simp
    ultimately show "\<bar>e * price\<bar> * 10 ^ (k + 8) \<le> 10 ^ 28" by simp
  qed
  have bound: "charge + e * price \<le> (c + e - before) * M" using I em by (simp add: algebra_simps)
  have charge': "dadd charge (e * price) = charge + e * price" unfolding dadd_def
  proof (rule dec28_exact[OF on_grid_add[OF I(6) ge]])
    have "(charge + e * price) * 10 ^ (k + 8) \<le> (c + e - before) * M * 10 ^ (k + 8)"
      using bound by (rule mult_right_mono) simp
    also have "\<dots> \<le> 10 ^ 28" using I before c0 pos le by (intro amounts_fit_scale(1)[OF fit]) auto
    finally show "\<bar>charge + e * price\<bar> * 10 ^ (k + 8) \<le> 10 ^ 28" using I pos P by simp
  qed
  have tariff': "tariff ts (c + e) = tariff ts c + e * price"
    using tariff_within[OF chain t[folded c_def], of "c + e"] c0 pos upto x by simp
  have "exact_inv k M ts before limit (r - e) right' (add_segment p (rt_tier t) tb price l right' e a)"
    using I E pos le c' P on_grid_add[OF I(1) E(2)] on_grid_diff[OF I(2) E(2)] on_grid_add[OF I(6) ge]
      cost charge' bound tariff'
    by (simp add: exact_inv_def Let_def flip: c_def charge_def)
  then show "exact_inv k M ts before limit (dsub r e) right' (add_segment p (rt_tier t) tb price l right' e a)"
    using r' by simp
qed

section \<open>The charge of an interval of a tiered plan\<close>

lemma boundaries_tiered: "pn_pricing_model p = ''tiered'' \<Longrightarrow> s < e \<Longrightarrow> boundaries p z s e = Inr [s, e]"
  by (simp add: boundaries_def sorted_list_of_set.fold_insort_key.insert_remove)

lemma us_seconds_grid: "on_grid 6 (us_seconds us)"
  by (rule on_gridI[of _ _ us]) (simp add: us_seconds_def)

text \<open>The share of a piece that is the whole interval is its energy.\<close>

lemma whole_share:
  assumes "on_grid k energy" and "0 \<le> energy" and "0 < us" and "energy * us_seconds us * 10 ^ (k + 6) \<le> 10 ^ 28"
    and "energy * 10 ^ k \<le> 10 ^ 28"
  shows "ddiv (dmul energy (us_seconds us)) (us_seconds us) = energy"
proof -
  have pos: "0 < us_seconds us" using assms(3) by (simp add: us_seconds_def)
  have "dmul energy (us_seconds us) = energy * us_seconds us" unfolding dmul_def
    by (rule dec28_exact[OF on_grid_mult[OF assms(1) us_seconds_grid]]) (use assms(2,4) pos in simp)
  moreover have "dec28 energy = energy" by (rule dec28_exact[OF assms(1)]) (use assms(2,5) in simp)
  ultimately show ?thesis using pos by (simp add: ddiv_def)
qed

lemma calculate_tiered:
  assumes model: "pn_pricing_model p = ''tiered''" and ok: "request_ok p z rq"
    and tiers: "request_tiers p z rq = Inr ts" and chain: "tier_chain 0 ts" and repr: "bounds_representable ts"
    and fit: "amounts_fit k M (rq_before rq + rq_energy rq) ts"
    and grid: "on_grid k (rq_before rq)" "on_grid k (rq_energy rq)"
    and secs: "rq_energy rq * us_seconds (rq_end rq - rq_start rq) * 10 ^ (k + 6) \<le> 10 ^ 28"
  shows "\<exists>c. calculate p z rq = Some (Inr c)
     \<and> ca_energy_charge c = tariff ts (rq_before rq + rq_energy rq) - tariff ts (rq_before rq)
     \<and> sum_list (map cs_energy (ca_slices c)) = rq_energy rq"
proof -
  let ?e = "rq_energy rq" and ?b = "rq_before rq" and ?s = "rq_start rq" and ?t = "rq_end rq"
  have r: "?s < ?t" "0 \<le> ?e" "0 \<le> ?b" using ok by (auto simp: request_ok_def)
  have ne: "ts \<noteq> []" using chain by auto
  have at: "period_at p z u = Inr (''all-hours'', 0)" for u using model by (simp add: period_at_def)
  have ready: "tiers_ready p ts ''all-hours'' 0" using chain repr model by (simp add: tiers_ready_def tier_price_def)
  have rep: "representable ?b"
    using dec28_exact[OF grid(1)] amounts_fit_scale(2)[OF fit, of ?b] r by (simp add: representable_def)
  let ?us = "us_seconds (?t - ?s)"
  have share: "ddiv (dmul ?e ?us) ?us = ?e"
    using whole_share[OF grid(2) r(2) _ secs] amounts_fit_scale(2)[OF fit, of ?e] r by simp
  define a0 where "a0 = empty_allocation ?b"
  have a0: "al_cumulative a0 = ?b" "al_slices a0 = []" by (simp_all add: a0_def empty_allocation_def)
  have inv0: "exact_inv k M ts ?b (?b + ?e) ?e ?s a0"
    using grid r by (simp add: exact_inv_def a0 dsum_def)
  from allocate_rule[OF ready exact_inv_kept[OF chain fit r(3) model] inv0, of ?e ?us ?t]
  obtain a rr l where a: "allocate_tiers p ts ''all-hours'' 0 ?e ?us ?t ?e ?s a0 = Some (Inr a)"
      "exact_inv k M ts ?b (?b + ?e) rr l a" "rr \<le> 0"
    using rep r(3) a0(1) by auto
  then have fin: "dsum (map cs_cost (al_slices a)) = tariff ts (?b + ?e) - tariff ts ?b"
      "sum_list (map cs_energy (al_slices a)) = ?e"
    by (auto simp: exact_inv_def Let_def)
  obtain c where c: "price_piece p z ts ?e ?us (?s, ?t) a0 = Some (Inr c)"
      "dsum (map cs_cost (al_slices c)) = tariff ts (?b + ?e) - tariff ts ?b"
      "sum_list (map cs_energy (al_slices c)) = ?e"
  proof (cases "?e = 0")
    case False
    then show thesis using that[of a] a(1) fin ne at share by (simp add: price_piece_def)
  next
    case True
    obtain t price where t: "tier_at ts ?b = Some t" "tier_price p (rt_tier t) ''all-hours'' 0 = Inr price"
      using tiers_ready_turn[OF ready r(3)] by metis
    have "a = a0" using a(1) True by (simp add: allocate_done)
    then obtain c where "empty_piece p ts ''all-hours'' 0 ?s ?t a = Inr c" "map cs_cost (al_slices c) = [0]"
        "map cs_energy (al_slices c) = [0]"
      using t a0 by (auto simp: empty_piece_def)
    then show thesis using that[of c] a(1) ne at share True by (simp add: price_piece_def dsum_def dadd_def)
  qed
  have g: "\<not> (?t \<le> ?s \<or> ?e < 0)" "\<not> ?b < 0"
    "\<not> (tiered_model p \<and> snd (calculation_cycle p z rq) \<le> fst (calculation_cycle p z rq))"
    using ok by (auto simp: request_ok_def)
  show ?thesis unfolding calculate_def if_not_P[OF g(1)] if_not_P[OF g(2)] if_not_P[OF g(3)]
    using c by (simp add: boundaries_tiered[OF model r(1)] tiers a0_def)
qed

end
