(* ===== verification/Rate_Transitions.thy ===== *)
theory Rate_Transitions
  imports Rate_Boundaries
begin

text \<open>
  Intervals that contain changes of the UTC offset.  What the engine relies on of the time zone database
  is \<^verbatim>\<open>zone_ok\<close>: the conversion of the local time of an instant, with its fold, gives the instant back;
  offsets change at whole seconds and at most once between two probes; the offsets of an interval differ by
  at most a day.  Then the bisection finds every change, and no piece between two boundaries contains one.
\<close>

definition zone_ok :: "zone \<Rightarrow> instant \<Rightarrow> instant \<Rightarrow> bool" where
  "zone_ok z s e \<longleftrightarrow>
     (\<forall>t. s \<le> t \<and> t \<le> e \<longrightarrow> zn_utc z (wall z t) (zn_fold z t) = t)
     \<and> (\<forall>a b. s \<le> a \<and> a \<le> b \<and> b \<le> e \<and> b \<le> a + probe_us \<longrightarrow>
          (\<exists>c. 1000000 dvd c \<and> (\<forall>t. a \<le> t \<and> t \<le> b \<longrightarrow> zn_offset z t = (if t < c then zn_offset z a else zn_offset z b))))
     \<and> (\<forall>t u. s \<le> t \<and> t \<le> e \<and> s \<le> u \<and> u \<le> e \<longrightarrow> \<bar>zn_offset z t - zn_offset z u\<bar> \<le> day_microseconds)"

lemma zone_ok_change:
  assumes "zone_ok z s e" and "s \<le> a" and "a \<le> b" and "b \<le> e" and "b \<le> a + probe_us"
  obtains c where "1000000 dvd c"
    "\<And>t. a \<le> t \<Longrightarrow> t \<le> b \<Longrightarrow> zn_offset z t = (if t < c then zn_offset z a else zn_offset z b)"
proof -
  have "\<exists>c. 1000000 dvd c \<and> (\<forall>t. a \<le> t \<and> t \<le> b \<longrightarrow> zn_offset z t = (if t < c then zn_offset z a else zn_offset z b))"
    using assms unfolding zone_ok_def by blast
  then show ?thesis using that by blast
qed

lemma zone_ok_offsets:
  "zone_ok z s e \<Longrightarrow> s \<le> t \<Longrightarrow> t \<le> e \<Longrightarrow> s \<le> u \<Longrightarrow> u \<le> e \<Longrightarrow> \<bar>zn_offset z t - zn_offset z u\<bar> \<le> day_microseconds"
  unfolding zone_ok_def by blast

lemma wall_instant_valid:
  assumes "zone_ok z s e" and "s \<le> u" and "u \<le> e" and "wall z u = naive_at d m"
  shows "u \<in> set (valid_wall_instants z d m)"
proof -
  have "zn_utc z (naive_at d m) (zn_fold z u) = u" using assms by (auto simp: zone_ok_def)
  then show ?thesis using assms(4) by (cases "zn_fold z u") (auto simp: valid_wall_instants_def Let_def)
qed

section \<open>The bisection\<close>

lemma bisect_finds:
  assumes "low < c" "c \<le> high" "1000000 dvd c"
    and "\<forall>t. low \<le> t \<and> t \<le> high \<longrightarrow> (zn_offset z t = prior \<longleftrightarrow> t < c)"
  shows "bisect z prior low high - bisect z prior low high mod 1000000 = c"
  using assms
proof (induction z prior low high rule: bisect.induct)
  case (1 z prior low high)
  show ?case
  proof (cases "1000000 < high - low")
    case True
    let ?m = "low + half (high - low)"
    have m: "low \<le> ?m" "?m \<le> high" using half_bounds[OF True] by simp_all
    show ?thesis
    proof (cases "zn_offset z ?m = prior")
      case prior: True
      then have "?m < c" using 1(6) m by simp
      with 1(1)[OF True refl prior] 1(4-6) m show ?thesis using True prior
        by (simp add: bisect.simps[of z prior low high])
    next
      case other: False
      then have "c \<le> ?m" using 1(6) m by (meson not_le)
      with 1(2)[OF True refl other] 1(3,5,6) m show ?thesis using True other
        by (simp add: bisect.simps[of z prior low high])
    qed
  next
    case False
    obtain k where k: "c = 1000000 * k" using 1(5) by auto
    have "high div 1000000 = k"
      using 1(3,4) False k by linarith
    then show ?thesis using False k by (simp add: bisect.simps[of z prior low high] minus_mod_eq_mult_div)
  qed
qed

lemma offset_changes_complete:
  assumes "zone_ok z s e" and "s \<le> probe" and "probe \<le> t1" "t1 < t2" "t2 \<le> e"
    and "zn_offset z t1 \<noteq> zn_offset z t2"
  shows "\<exists>c\<in>set (offset_changes z probe e). t1 < c \<and> c \<le> t2"
  using assms
proof (induction z probe e arbitrary: t1 rule: offset_changes.induct)
  case (1 z probe e)
  let ?n = "min e (probe + probe_us)"
  have p: "probe < e" "probe \<le> ?n" "?n \<le> e" using 1 by (auto simp: probe_us_def)
  note step = offset_changes.simps[of z probe e]
  have ok: "zone_ok z s e" "s \<le> ?n" using 1(2,3) p by auto
  note IH = 1(1)[OF p(1) refl refl ok]
  have rest: "set (offset_changes z ?n e) \<subseteq> set (offset_changes z probe e)"
    using p(1) by (subst step) (auto simp: Let_def)
  have inside: "\<exists>c\<in>set (offset_changes z probe e). a < c \<and> c \<le> b"
    if ab: "probe \<le> a" "a < b" "b \<le> ?n" "zn_offset z a \<noteq> zn_offset z b" for a b
  proof -
    obtain c where c: "1000000 dvd c"
      "\<And>t. probe \<le> t \<Longrightarrow> t \<le> ?n \<Longrightarrow> zn_offset z t = (if t < c then zn_offset z probe else zn_offset z ?n)"
      using zone_ok_change[OF ok(1) 1(3) p(2,3) min.cobounded2] by blast
    have d: "zn_offset z ?n \<noteq> zn_offset z probe" "a < c" "c \<le> b"
      using c(2)[of a] c(2)[of b] ab by (auto split: if_splits)
    have "bisect z (zn_offset z probe) probe ?n - bisect z (zn_offset z probe) probe ?n mod 1000000 = c"
    proof (rule bisect_finds[OF _ _ c(1)])
      show "probe < c" "c \<le> ?n" using d ab by auto
      show "\<forall>t. probe \<le> t \<and> t \<le> ?n \<longrightarrow> (zn_offset z t = zn_offset z probe \<longleftrightarrow> t < c)"
      proof (intro allI impI)
        fix t assume "probe \<le> t \<and> t \<le> ?n"
        then have "zn_offset z t = (if t < c then zn_offset z probe else zn_offset z ?n)" using c(2) by blast
        then show "zn_offset z t = zn_offset z probe \<longleftrightarrow> t < c" using d(1) by presburger
      qed
    qed
    then have "c \<in> set (offset_changes z probe e)" using p(1) d(1) by (subst step) (simp add: Let_def)
    then show ?thesis using d by blast
  qed
  consider (within) "t2 \<le> ?n" | (out) "?n \<le> t1" | (across) "t1 < ?n" "?n < t2" by linarith
  then show ?case
  proof cases
    case within
    then show ?thesis using inside[of t1 t2] 1(4,5,7) by blast
  next
    case out
    then show ?thesis using IH[of t1] 1(5-7) rest by blast
  next
    case across
    show ?thesis
    proof (cases "zn_offset z t1 = zn_offset z ?n")
      case True
      then obtain c where "c \<in> set (offset_changes z ?n e)" "?n < c" "c \<le> t2"
        using IH[OF order_refl across(2) 1(6)] 1(7) by metis
      then show ?thesis using across rest by (intro bexI[of _ c]) auto
    next
      case False
      then obtain c where "c \<in> set (offset_changes z probe e)" "t1 < c" "c \<le> ?n"
        using inside[OF 1(4) across(1) order_refl] by blast
      then show ?thesis using across by (intro bexI[of _ c]) auto
    qed
  qed
qed

section \<open>One period in each piece\<close>

text \<open>No piece contains a change of the offset.\<close>

lemma piece_offset:
  assumes ok: "zone_ok z s e" and tou: "tou_model p" and se: "s < e" and bs: "boundaries p z s e = Inr bs"
    and i: "Suc i < length bs" and t: "bs ! i \<le> t1" "t1 \<le> t2" "t2 < bs ! Suc i"
  shows "zn_offset z t1 = zn_offset z t2"
proof (rule ccontr)
  assume differ: "zn_offset z t1 \<noteq> zn_offset z t2"
  note b = boundaries_set[OF bs se]
  have "bs ! i \<in> set bs" "bs ! Suc i \<in> set bs" using i by auto
  then have r: "s \<le> t1" "t2 \<le> e" using b t by auto
  have "t1 < t2" using differ t(2) by (cases "t1 = t2") auto
  from offset_changes_complete[OF ok order_refl r(1) this r(2) differ]
  obtain c where c: "c \<in> set (offset_changes z s e)" "t1 < c" "c \<le> t2" by blast
  have "pn_pricing_model p \<notin> {''flat'', ''tiered''}" using tou by (auto simp: tou_model_def)
  from boundaries_tou[OF bs this] obtain cs
    where bs': "bs = sorted_list_of_set {u \<in> set cs \<union> set (offset_changes z s e). s \<le> u \<and> u \<le> e}" by blast
  have "c \<in> set bs" unfolding bs' using c r by simp
  then show False using sorted_gap[OF _ i, of c] b c t by auto
qed

lemma day_in_range:
  assumes "zone_ok z s e" and "s \<le> t" and "t \<le> e"
  shows "ordinal (local_date z t) \<in> set [ordinal (local_date z s) - 1..ordinal (local_date z e) + 1]"
proof -
  have "\<bar>zn_offset z t - zn_offset z s\<bar> \<le> day_microseconds" "\<bar>zn_offset z t - zn_offset z e\<bar> \<le> day_microseconds"
    using assms by (intro zone_ok_offsets[OF assms(1)]; simp)+
  then have "wall z s + (- 1) * day_microseconds \<le> wall z t" "wall z t \<le> wall z e + 1 * day_microseconds"
    using assms(2,3) by (auto simp: wall_def)
  from zdiv_mono1[OF this(1), of day_microseconds] zdiv_mono1[OF this(2), of day_microseconds]
  show ?thesis by (auto simp: wall_day day_microseconds_def)
qed

lemma piece_period_ordered:
  assumes valid: "validate_plan p = Inr ()" and tou: "tou_model p" and se: "s < e"
    and ok: "zone_ok z s e" and bs: "boundaries p z s e = Inr bs" and i: "Suc i < length bs"
    and t: "bs ! i \<le> t1" "t1 \<le> t2" "t2 < bs ! Suc i"
  shows "period_at p z t1 = period_at p z t2"
proof -
  note b = boundaries_set[OF bs se]
  have "bs ! i \<in> set bs" "bs ! Suc i \<in> set bs" using i by auto
  then have r: "s \<le> t1" "t2 \<le> e" using b t by auto
  define off where "off = zn_offset z t1"
  have w: "wall z u = u + off" if "t1 \<le> u" "u \<le> t2" for u
    using piece_offset[OF ok tou se bs i t(1) that(1)] that t(3) by (simp add: wall_def off_def)
  have model: "pn_pricing_model p \<notin> {''flat'', ''tiered''}" using tou by (auto simp: tou_model_def)
  obtain cs where cs: "foldE (day_candidates p z)
        [ordinal (local_date z s) - 1..ordinal (local_date z e) + 1] [s, e] = Inr cs"
      and "bs = sorted_list_of_set {u \<in> set cs \<union> set (offset_changes z s e). s \<le> u \<and> u \<le> e}"
    using boundaries_tou[OF bs model] by blast
  then have bs': "set bs = {u \<in> set cs \<union> set (offset_changes z s e). s \<le> u \<and> u \<le> e}" by simp
  have "t1 \<le> e" using r t by simp
  from day_candidates_all[OF cs day_in_range[OF ok r(1) this]] obtain ps
    where ps: "periods_for_date p (local_date z t1) = Inr ps"
      and ends: "\<And>a c b x. (a, c, b, x) \<in> set ps \<Longrightarrow> set (valid_wall_instants z (local_date z t1) c) \<subseteq> set cs"
    unfolding local_date_ordinal by blast
  obtain a c b x where q: "(a, c, b, x) \<in> set ps" "a \<le> local_minute z t1" "local_minute z t1 < c"
      and at: "period_at p z t1 = Inr (b, x)"
    using period_at_scheduled[OF valid tou ps] by blast
  have tiles: "tiles ps" by (rule validate_plan_tiles[OF valid tou periods_for_date_scheduled[OF ps tou]])
  have c: "c \<le> 1440" using tiles_bounds[OF tiles q(1)] by simp
  let ?u = "naive_at (local_date z t1) c - off"
  have after: "t1 < ?u" using before_boundary[OF q(3)] w[of t1] t by simp
  have "t2 < ?u"
  proof (rule ccontr)
    assume "\<not> t2 < ?u"
    then have in_: "s \<le> ?u" "?u \<le> e" "?u \<le> t2" using after r t by auto
    have "wall z ?u = naive_at (local_date z t1) c" using w[of ?u] after in_ by simp
    from wall_instant_valid[OF ok in_(1,2) this]
    have "?u \<in> set bs" using ends[OF q(1)] in_ bs' by auto
    then show False using sorted_gap[OF _ i, of ?u] b after in_ t by auto
  qed
  then have "wall z t2 < naive_at (local_date z t1) c" using w[of t2] t by simp
  from same_cell[OF _ this c] have cell: "local_date z t2 = local_date z t1"
      "a \<le> local_minute z t2" "local_minute z t2 < c"
    using w[of t1] w[of t2] t q by auto
  have "find (covers (local_minute z t2)) ps = Some (a, c, b, x)"
    by (rule tiles_find_unique[OF tiles q(1)]) (use cell in simp)
  then have "period_at p z t2 = Inr (b, x)"
    using ps cell(1) model by (simp add: period_at_def covers_def[abs_def])
  then show ?thesis using at by simp
qed

lemma piece_period:
  assumes "validate_plan p = Inr ()" and "s < e" and "zone_ok z s e"
    and "boundaries p z s e = Inr bs" and "Suc i < length bs"
    and "bs ! i \<le> t1" "t1 < bs ! Suc i" "bs ! i \<le> t2" "t2 < bs ! Suc i"
  shows "period_at p z t1 = period_at p z t2"
proof (cases "tou_model p")
  case True
  show ?thesis
  proof (cases "t1 \<le> t2")
    case le: True
    show ?thesis using piece_period_ordered[OF assms(1) True assms(2-6) le assms(9)] .
  next
    case False
    then show ?thesis using piece_period_ordered[OF assms(1) True assms(2-5,8) _ assms(7)] by simp
  qed
next
  case False
  then have "pn_pricing_model p = ''flat'' \<or> pn_pricing_model p = ''tiered''"
    using assms(1) by (auto simp: validate_plan_def tou_model_def split: if_splits)
  then show ?thesis by (auto simp: period_at_def)
qed

end
