(* ===== verification/Rate_Properties.thy ===== *)
theory Rate_Properties
  imports Rate_Accepted Rate_Exact Rate_Transitions
begin

text \<open>
  The properties of the rate engine and of rate plan documents, with witnesses on a two-tier plan
  in a zone eight hours behind UTC.
\<close>

section \<open>From an accepted document to a price\<close>
















text \<open>The sample plan of the witnesses.\<close>

definition sample_zone :: zone where
  "sample_zone = \<lparr>zn_offset = (\<lambda>_. - 28800000000), zn_fold = (\<lambda>_. False), zn_utc = (\<lambda>w _. w + 28800000000)\<rparr>"

definition sample_document :: document where
  "sample_document = \<lparr>do_plan_code = ''HOME-1'', do_utility = ''SCE'', do_currency = ''USD'',
     do_timezone = ''America/Los_Angeles'', do_pricing_model = ''tiered'', do_flat_rate = None,
     do_expected_start_day = 31,
     do_threshold = \<lparr>th_basis = ''fixed_cycle_kwh'', th_daily_baseline = None, th_rounding_policy = ''none'', th_seasonal = []\<rparr>,
     do_tiers = [\<lparr>td_tier_id = ''t1'', td_name = ''Base'', td_order = 0, td_lower = 0, td_upper = Some 100,
                  td_lower_multiplier = None, td_upper_multiplier = None, td_price = 1/4, td_tou_prices = []\<rparr>,
                 \<lparr>td_tier_id = ''t2'', td_name = ''Over'', td_order = 1, td_lower = 100, td_upper = None,
                  td_lower_multiplier = None, td_upper_multiplier = None, td_price = 2/5, td_tou_prices = []\<rparr>],
     do_hybrid = None, do_ownership_scope = ''global'', do_owner_id = None, do_effective_from = (2026, 1, 1),
     do_effective_through = None, do_cost_scope_default = ''energy_only'', do_provider_mode = ''custom_combined'',
     do_seasons = [], do_adjustments = []\<rparr>"

definition sample_request :: request where
  "sample_request = \<lparr>rq_start = 1790000000000000, rq_end = 1790003600000000, rq_energy = 30, rq_scope = ''energy_only'',
     rq_baseline_allocation = None, rq_billing_days = None, rq_cca_per_kwh = 0, rq_other = 0, rq_before = 90,
     rq_cycle_start = None, rq_cycle_end = None\<rparr>"

lemma representable_small: "representable 90" "representable 100"
  using representable_of_int[of 90] representable_of_int[of 100] by simp_all



lemma sample_request_ok: "request_ok (engine_plan sample_document) sample_zone sample_request"
  by code_simp




section \<open>The charge of a tiered plan\<close>

text \<open>C26. For a tiered plan the energy charge that the allocation loop computes is the one the tiers define: the
  difference of the piecewise linear tariff of the cycle at the usage after and before the interval.  The energies of
  the slices add up to the energy of the request.  This holds for amounts that the decimal context represents exactly
  (usage with at most \<^verbatim>\<open>k\<close> places, prices with at most eight and at most \<^verbatim>\<open>M\<close>, products below 28 digits), however many
  tiers the interval crosses.\<close>

theorem tiered_charge_is_tariff_difference:
  assumes "validate_plan p = Inr ()" and "pn_pricing_model p = ''tiered''" and "baselines_nonneg p"
    and "request_ok p z rq" and "request_tiers p z rq = Inr ts" and "bounds_representable ts"
    and "amounts_fit k M (rq_before rq + rq_energy rq) ts"
    and "on_grid k (rq_before rq)" and "on_grid k (rq_energy rq)"
    and "rq_energy rq * us_seconds (rq_end rq - rq_start rq) * 10 ^ (k + 6) \<le> 10 ^ 28"
  shows "\<exists>c. calculate p z rq = Some (Inr c)
    \<and> ca_energy_charge c = tariff ts (rq_before rq + rq_energy rq) - tariff ts (rq_before rq)
    \<and> sum_list (map cs_energy (ca_slices c)) = rq_energy rq"
proof -
  have t: "tiered_model p" using assms(2) by (simp add: tiered_model_def)
  have v: "validate_tiers p = Inr ()" using assms(1,2) by (auto simp: validate_plan_def tiered_model_def bindE_eq_Inr)
  obtain s e where "resolved_tiers p z s e = Inr ts"
    using assms(5) t by (auto simp: request_tiers_def split: prod.splits)
  from resolved_tiers_chain[OF v assms(3) t this] have "tier_chain 0 ts" by simp
  from calculate_tiered[OF assms(2,4,5) this assms(6-10)] show ?thesis .
qed

definition sample_plan :: plan where
  "sample_plan = engine_plan sample_document"

definition sample_tiers :: "resolved_tier list" where
  "sample_tiers = map (\<lambda>t. \<lparr>rt_tier = t, rt_lower = the (ti_lower_kwh t), rt_upper = ti_upper_kwh t, rt_baseline = None\<rparr>)
     (sorted_tiers sample_plan)"

lemma sample_tiers_resolved: "request_tiers sample_plan sample_zone sample_request = Inr sample_tiers"
  by code_simp

lemma sample_plan_valid: "validate_plan sample_plan = Inr ()"
  by code_simp

lemma sample_fit: "amounts_fit 6 1 120 sample_tiers"
  by code_simp

text \<open>Thirty kWh after ninety, with a bound at a hundred: ten at 0.25 and twenty at 0.40.\<close>

theorem tiered_charge_is_tariff_difference_witness:
  "\<exists>c. calculate sample_plan sample_zone sample_request = Some (Inr c) \<and> ca_energy_charge c = 21/2"
proof -
  have "bounds_representable sample_tiers" using representable_small(2)
    by (simp add: bounds_representable_def sample_tiers_def sample_plan_def sorted_tiers_def engine_plan_def
        sample_document_def engine_tier_def)
  moreover have "baselines_nonneg sample_plan" by code_simp
  moreover have "request_ok sample_plan sample_zone sample_request" using sample_request_ok by (simp add: sample_plan_def)
  moreover have "on_grid 6 90" "on_grid 6 30" by code_simp+
  moreover have "pn_pricing_model sample_plan = ''tiered''" by code_simp
  moreover have "us_seconds (rq_end sample_request - rq_start sample_request) = 3600" by code_simp
  ultimately have "\<exists>c. calculate sample_plan sample_zone sample_request = Some (Inr c)
      \<and> ca_energy_charge c = tariff sample_tiers 120 - tariff sample_tiers 90"
    using tiered_charge_is_tariff_difference[OF sample_plan_valid _ _ _ sample_tiers_resolved, of 6 1] sample_fit
    by (auto simp: sample_request_def)
  moreover have "tariff sample_tiers 120 - tariff sample_tiers 90 = 21/2" by code_simp
  ultimately show ?thesis by simp
qed

section \<open>Pieces, cycles and displayed amounts\<close>

text \<open>C27. The boundaries that cut an interval for pricing are in increasing order, begin with its start and end with
  its end, and every instant of a piece has the tariff period, label and price, that the engine looks up at the middle
  of the piece.  The interval may contain changes of the UTC offset: skipped and repeated local times are allowed, as
  long as the time zone database behaves as \<^verbatim>\<open>zone_ok\<close> says.\<close>

theorem one_period_between_boundaries:
  assumes "validate_plan p = Inr ()" and "s < e" and "zone_ok z s e" and "boundaries p z s e = Inr bs"
  shows "sorted_wrt (<) bs \<and> hd bs = s \<and> last bs = e
    \<and> (\<forall>i t. Suc i < length bs \<and> bs ! i \<le> t \<and> t < bs ! Suc i
         \<longrightarrow> period_at p z t = period_at p z (bs ! i + half (bs ! Suc i - bs ! i)))"
proof -
  note b = boundaries_pieces[OF assms(4,2)]
  have "period_at p z t = period_at p z (bs ! i + half (bs ! Suc i - bs ! i))"
    if "Suc i < length bs" "bs ! i \<le> t" "t < bs ! Suc i" for i t
  proof -
    have "bs ! i < bs ! Suc i" using b that by (intro sorted_wrt_nth_less) auto
    then have "0 \<le> half (bs ! Suc i - bs ! i)" "half (bs ! Suc i - bs ! i) < bs ! Suc i - bs ! i"
      using half_range[of "bs ! Suc i - bs ! i"] by auto
    then show ?thesis by (intro piece_period[OF assms that]) auto
  qed
  then show ?thesis using b by blast
qed

definition sample_tou :: plan where
  "sample_tou = sample_plan\<lparr>pn_pricing_model := ''time_of_use'', pn_seasons := [],
     pn_periods := map (\<lambda>s. (s, map (\<lambda>d. (d, [(0, 960, ''off'', 1/4), (960, 1260, ''peak'', 1/2), (1260, 1440, ''off'', 1/4)]))
       [''weekday'', ''weekend''])) [''summer'', ''winter'']\<rparr>"

text \<open>A zone whose clocks go back by one hour at ten o'clock UTC of the first day: one local hour repeats.\<close>

definition sample_autumn :: zone where
  "sample_autumn =
     \<lparr>zn_offset = (\<lambda>t. if t < 36000000000 then - 25200000000 else - 28800000000),
      zn_fold = (\<lambda>t. 36000000000 \<le> t \<and> t < 39600000000),
      zn_utc = (\<lambda>w fold. if fold then (if 36000000000 \<le> w + 28800000000 then w + 28800000000 else w + 25200000000)
                else if w + 25200000000 < 36000000000 then w + 25200000000 else w + 28800000000)\<rparr>"

lemma sample_autumn_ok: "zone_ok sample_autumn s e"
proof -
  have "zn_utc sample_autumn (wall sample_autumn t) (zn_fold sample_autumn t) = t" for t
    by (simp add: sample_autumn_def wall_def)
  moreover have "\<exists>c. 1000000 dvd c \<and> (\<forall>t. a \<le> t \<and> t \<le> b \<longrightarrow>
      zn_offset sample_autumn t = (if t < c then zn_offset sample_autumn a else zn_offset sample_autumn b))" if "a \<le> b" for a b
    using that by (intro exI[of _ 36000000000]) (auto simp: sample_autumn_def)
  moreover have "\<bar>zn_offset sample_autumn t - zn_offset sample_autumn u\<bar> \<le> day_microseconds" for t u
    by (simp add: sample_autumn_def day_microseconds_def)
  ultimately show ?thesis unfolding zone_ok_def by blast
qed

theorem one_period_between_boundaries_witness:
  "\<exists>bs. boundaries sample_tou sample_autumn 0 86400000000 = Inr bs \<and> hd bs = 0 \<and> last bs = 86400000000
     \<and> period_at sample_tou sample_autumn 0 = period_at sample_tou sample_autumn (half (bs ! 1))"
proof -
  have v: "validate_plan sample_tou = Inr ()" by code_simp
  have "\<exists>ps. periods_for_date sample_tou d = Inr ps" for d
    unfolding periods_for_date_def season_of_def day_type_def sample_tou_def tou_model_def by simp
  then obtain bs where bs: "boundaries sample_tou sample_autumn 0 86400000000 = Inr bs" using boundaries_total by blast
  note c = one_period_between_boundaries[OF v _ sample_autumn_ok bs]
  have ends: "hd bs = 0" "last bs = 86400000000" "sorted_wrt (<) bs" using c by simp_all
  have "bs \<noteq> []" using boundaries_set[OF bs] by auto
  then have len: "Suc 0 < length bs" using ends(1,2) by (cases bs; cases "tl bs") auto
  then have first: "bs ! 0 = 0" using ends(1) by (cases bs) auto
  have "bs ! 0 < bs ! Suc 0" using ends(3) len by (intro sorted_wrt_nth_less) auto
  then have "period_at sample_tou sample_autumn 0 = period_at sample_tou sample_autumn (half (bs ! 1))"
    using c len first by force
  then show ?thesis using bs ends by blast
qed

text \<open>C28. Billing cycles partition local time.  Whatever the configured start day (clipped to the length of each month)
  and the time zone, the wall time of an instant is at or after the start of its cycle and before the start of the next
  one, and every instant whose wall time lies there has the same cycle bounds.\<close>

theorem billing_cycles_partition_time:
  assumes "1 \<le> pn_expected_start_day p"
  shows "cycle_naive p (cycle_month p z t) \<le> wall z t \<and> wall z t < cycle_naive p (next_month (cycle_month p z t))
    \<and> (\<forall>u. cycle_naive p (cycle_month p z t) \<le> wall z u \<and> wall z u < cycle_naive p (next_month (cycle_month p z t))
          \<longrightarrow> billing_cycle_bounds p z u = billing_cycle_bounds p z t)"
proof -
  note c = cycle_month_contains[OF assms, of z t]
  have "billing_cycle_bounds p z u = billing_cycle_bounds p z t"
    if "cycle_naive p (cycle_month p z t) \<le> wall z u" "wall z u < cycle_naive p (next_month (cycle_month p z t))" for u
    using cycle_month_unique[OF assms, of "cycle_month p z t" z u] c that unfolding billing_cycle_bounds_def by simp
  then show ?thesis using c by blast
qed

theorem billing_cycles_partition_time_witness:
  "cycle_month sample_plan sample_zone 1772300000000000 = (2026, 2)
   \<and> cycle_naive sample_plan (2026, 2) \<le> wall sample_zone 1772300000000000
   \<and> wall sample_zone 1772300000000000 < cycle_naive sample_plan (2026, 3)"
proof -
  have m: "cycle_month sample_plan sample_zone 1772300000000000 = (2026, 2)" by code_simp
  have "1 \<le> pn_expected_start_day sample_plan" by code_simp
  from billing_cycles_partition_time[OF this, of sample_zone 1772300000000000] show ?thesis
    unfolding m by (simp add: next_month_def)
qed

text \<open>A displayed currency amount has whole cents and differs from the computed amount by at most half a cent; the
  conversion fails only for amounts of 28 digits or more.\<close>

theorem displayed_amount_is_close:
  "(case display_currency v of
      Some w \<Rightarrow> \<bar>w - v\<bar> \<le> 1 / 200 \<and> on_grid 2 w
    | None \<Rightarrow> 10 ^ 28 \<le> \<bar>round_half_up (v * 100)\<bar>)"
proof (cases "display_currency v")
  case None
  then show ?thesis by (simp add: display_currency_def quantize_def Let_def split: if_splits)
next
  case (Some w)
  then show ?thesis using display_currency_close[OF Some] by simp
qed

end
