(* ===== verification/Device_Auth.thy ===== *)
theory Device_Auth
  imports Ota "HOL-Library.Product_Lexorder"
begin

text \<open>
  Model of \<^verbatim>\<open>app/security/protocol.py\<close> and \<^verbatim>\<open>app/security/agent_protocol.py\<close>: the canonical text of a
  request and its signature, the verification of a signed request of a sensor and of a headless
  agent with the tables they read and write, and the digest of a data reset receipt.  SHA-256, HKDF,
  HMAC and the decryption of a stored secret are functions of a record.  Texts are lists of code
  points below 256.  A verification runs in one transaction that is rolled back when it raises, so
  an error leaves the tables as they were.
\<close>

record crypto =
  cr_sha256 :: "string \<Rightarrow> string"
  cr_hkdf :: "string option \<Rightarrow> string \<Rightarrow> string \<Rightarrow> string"
  cr_hmac :: "string \<Rightarrow> string \<Rightarrow> string"
  cr_decrypt :: "string \<Rightarrow> string option"

section \<open>Canonical texts\<close>

definition upper_char :: "char \<Rightarrow> char" where
  "upper_char c = (if CHR ''a'' \<le> c \<and> c \<le> CHR ''z'' then char_of (of_char c - 32 :: nat) else c)"

definition upper_text :: "string \<Rightarrow> string" where
  "upper_text s = map upper_char s"

text \<open>\<^verbatim>\<open>urlsplit\<close> of a target that begins with a slash: tabs and line ends are dropped, then the authority of a double slash (taken to be well formed), the fragment and the query are cut off.\<close>

definition url_clean :: "string \<Rightarrow> string" where
  "url_clean s = filter (\<lambda>c. of_char c \<notin> {9, 10, 13 :: nat}) s"

definition after_authority :: "string \<Rightarrow> string" where
  "after_authority s =
     (if take 2 s = ''//'' then dropWhile (\<lambda>c. c \<notin> {CHR ''/'', CHR ''?'', CHR ''#''}) (drop 2 s) else s)"

definition url_path_query :: "string \<Rightarrow> string \<times> string" where
  "url_path_query target =
     (let u = fst (partition_at (CHR ''#'') (after_authority (url_clean target)));
          (path, query) = partition_at (CHR ''?'') u
      in (path, case query of None \<Rightarrow> [] | Some q \<Rightarrow> q))"

definition hex_value :: "char \<Rightarrow> nat" where
  "hex_value c =
     (let n = of_char c :: nat in if n < 58 then n - 48 else if n < 71 then n - 55 else n - 87)"

text \<open>\<^verbatim>\<open>unquote\<close> on bytes, for queries whose decoded bytes are UTF-8.\<close>

fun unquote :: "string \<Rightarrow> string" where
  "unquote (p # a # b # s) =
     (if p = CHR ''%'' \<and> is_hex a \<and> is_hex b then char_of (hex_value a * 16 + hex_value b) # unquote s
      else p # unquote (a # b # s))"
| "unquote s = s"

definition unreserved :: "char \<Rightarrow> bool" where
  "unreserved c \<longleftrightarrow> is_digit c \<or> is_letter c \<or> c \<in> {CHR ''~'', CHR ''-'', CHR ''.'', CHR ''_''}"

definition quote :: "string \<Rightarrow> string" where
  "quote s = concat (map (\<lambda>c. if unreserved c then [c]
     else let n = of_char c :: nat in [CHR ''%'', upper_char (hex_digit (n div 16)), upper_char (hex_digit (n mod 16))]) s)"

definition plus_to_space :: "string \<Rightarrow> string" where
  "plus_to_space s = map (\<lambda>c. if c = CHR ''+'' then CHR '' '' else c) s"

definition parse_qsl :: "string \<Rightarrow> (string \<times> string) list" where
  "parse_qsl query =
     map (\<lambda>part. case partition_at (CHR ''='') part of (k, v) \<Rightarrow>
            (unquote (plus_to_space k), case v of None \<Rightarrow> [] | Some x \<Rightarrow> unquote (plus_to_space x)))
       (filter (\<lambda>part. part \<noteq> []) (split_on (CHR ''&'') query))"

definition canonical_path_and_query :: "string \<Rightarrow> string" where
  "canonical_path_and_query target =
     (case url_path_query target of (raw_path, raw_query) \<Rightarrow>
        let path = (if raw_path = [] then ''/'' else raw_path);
            pairs = sort (map (\<lambda>(k, v). (quote k, quote v)) (parse_qsl raw_query));
            query = joined ''&'' (map (\<lambda>(k, v). k @ ''='' @ v) pairs)
        in if query = [] then path else path @ ''?'' @ query)"

definition newline :: string where
  "newline = [char_of (10 :: nat)]"

definition canonical_string :: "string \<Rightarrow> string \<Rightarrow> string \<Rightarrow> string \<Rightarrow> string \<Rightarrow> string" where
  "canonical_string method target timestamp nonce content_sha256 =
     joined newline [''PM-HMAC-SHA256-V1'', upper_text method, canonical_path_and_query target, timestamp, nonce,
       content_sha256]"

definition derive_key :: "crypto \<Rightarrow> string \<Rightarrow> string \<Rightarrow> string" where
  "derive_key c secret direction =
     cr_hkdf c None (if direction = ''device-to-server'' then ''pm-device-to-server-v1'' else ''pm-server-to-device-v1'') secret"

definition calculate_signature ::
  "crypto \<Rightarrow> string \<Rightarrow> string \<Rightarrow> string \<Rightarrow> string \<Rightarrow> string \<Rightarrow> string \<Rightarrow> string \<Rightarrow> string"
where
  "calculate_signature c secret direction method target timestamp nonce content_sha256 =
     cr_hmac c (derive_key c secret direction) (utf8 (canonical_string method target timestamp nonce content_sha256))"

definition PROTOCOL :: string where
  "PROTOCOL = ''pm-protocol/1.0.0''"

text \<open>The headers of a signed request, with the keys as the server reads them.\<close>

definition sign_headers ::
  "crypto \<Rightarrow> string \<Rightarrow> string \<Rightarrow> string \<Rightarrow> string \<Rightarrow> string \<Rightarrow> string \<Rightarrow> int \<Rightarrow> string \<Rightarrow> (string, string) dict"
where
  "sign_headers c secret device_id direction method target body timestamp nonce =
     [(''x-pm-protocol'', PROTOCOL), (''x-pm-device-id'', device_id), (''x-pm-timestamp'', int_text timestamp),
      (''x-pm-nonce'', nonce), (''x-pm-content-sha256'', cr_sha256 c body),
      (''x-pm-signature'',
       calculate_signature c secret direction method target (int_text timestamp) nonce (cr_sha256 c body))]"

section \<open>Receipts of a data reset\<close>

fun has_float :: "json \<Rightarrow> bool" where
  "has_float (JFloat t) = True"
| "has_float (JDict d) = list_ex (\<lambda>(k, v). has_float v) d"
| "has_float (JList xs) = list_ex has_float xs"
| "has_float x = False"

definition canonical_data_reset_receipt :: "jdict \<Rightarrow> ota_error + string" where
  "canonical_data_reset_receipt receipt =
     (let unsigned = filter (\<lambda>(k, v). k \<noteq> ''receipt_digest'') receipt in
      if has_float (JDict unsigned) then Inl (ValueError ''data reset receipt decimals must be JSON strings'')
      else Inr (utf8 (dumps (JDict unsigned))))"

definition derive_data_reset_receipt_key :: "crypto \<Rightarrow> string \<Rightarrow> string \<Rightarrow> ota_error + string" where
  "derive_data_reset_receipt_key c secret device_id =
     (case canonical_uuid device_id of
        None \<Rightarrow> Inl (ValueError ''badly formed hexadecimal UUID string'')
      | Some u \<Rightarrow> Inr (cr_hkdf c (Some u) ''pm-data-reset-receipt-v1'' (derive_key c secret ''device-to-server'')))"

definition calculate_data_reset_receipt_digest :: "crypto \<Rightarrow> string \<Rightarrow> string \<Rightarrow> jdict \<Rightarrow> ota_error + string" where
  "calculate_data_reset_receipt_digest c secret device_id receipt =
     bindE (derive_data_reset_receipt_key c secret device_id) (\<lambda>key.
     bindE (canonical_data_reset_receipt receipt) (\<lambda>message. Inr (cr_hmac c key message)))"

definition ascii :: "string \<Rightarrow> bool" where
  "ascii s \<longleftrightarrow> list_all (\<lambda>c. of_char c < (128 :: nat)) s"

definition verify_data_reset_receipt_digest :: "crypto \<Rightarrow> string \<Rightarrow> string \<Rightarrow> jdict \<Rightarrow> ota_error + bool" where
  "verify_data_reset_receipt_digest c secret device_id receipt =
     (case str_value (map_of receipt ''receipt_digest'') of
        None \<Rightarrow> Inr False
      | Some supplied \<Rightarrow> bindE (calculate_data_reset_receipt_digest c secret device_id receipt) (\<lambda>expected.
          if ascii supplied then Inr (supplied = expected)
          else Inl (TypeError ''comparing strings with non-ASCII characters'')))"

section \<open>Tables and errors\<close>

record auth_device =
  av_id :: string
  av_revoked_at :: "instant option"
  av_protocol_version :: string

record device_credential =
  dc_id :: string
  dc_device_id :: string
  dc_encrypted_secret :: string
  dc_valid_from :: instant
  dc_valid_until :: "instant option"
  dc_revoked_at :: "instant option"

record device_nonce =
  dn_device_id :: string
  dn_direction :: string
  dn_nonce_hash :: string
  dn_expires_at :: instant

record agent_boot =
  ab_device_id :: string
  ab_boot_id :: string
  ab_highest_counter :: int
  ab_active :: bool
  ab_first_seen_at :: instant
  ab_last_seen_at :: instant

record auth_db =
  au_devices :: "auth_device list"
  au_credentials :: "device_credential list"
  au_nonces :: "device_nonce list"
  au_boots :: "agent_boot list"

datatype auth_error = Auth string int | Cipher_failure | Compare_type_error | Integrity_error | Value_error

definition nonce_key :: "device_nonce \<Rightarrow> string \<times> string \<times> string" where
  "nonce_key n = (dn_device_id n, dn_direction n, dn_nonce_hash n)"

definition add_nonce :: "device_nonce \<Rightarrow> auth_db \<Rightarrow> auth_error + auth_db" where
  "add_nonce n s =
     (if nonce_key n \<in> nonce_key ` set (au_nonces s) then Inl Integrity_error
      else Inr (s\<lparr>au_nonces := au_nonces s @ [n]\<rparr>))"

definition delete_expired :: "instant \<Rightarrow> auth_db \<Rightarrow> auth_db" where
  "delete_expired now s = s\<lparr>au_nonces := filter (\<lambda>n. now \<le> dn_expires_at n) (au_nonces s)\<rparr>"

definition required_header :: "(string, string) dict \<Rightarrow> string \<Rightarrow> auth_error + string" where
  "required_header headers name =
     (case map_of headers name of
        Some v \<Rightarrow> if v = [] then Inl (Auth ''missing_header'' 401) else Inr v
      | None \<Rightarrow> Inl (Auth ''missing_header'' 401))"

text \<open>\<^verbatim>\<open>hmac.compare_digest\<close> raises for texts outside ASCII.\<close>

definition compare_digest :: "string \<Rightarrow> string \<Rightarrow> auth_error + bool" where
  "compare_digest a b = (if ascii a \<and> ascii b then Inr (a = b) else Inl Compare_type_error)"

text \<open>Python's \<^verbatim>\<open>int\<close> of a text: white space around, a sign, digits with single underscores
  between them, at most 4300 of them.\<close>

definition python_int :: "string \<Rightarrow> int option" where
  "python_int text =
     (let s = strip text;
          (sign, body) = (case s of c # r \<Rightarrow> if c = CHR ''-'' then (-1, r) else if c = CHR ''+'' then (1, r) else (1, s)
                          | [] \<Rightarrow> (1, []));
          groups = split_on (CHR ''_'') body
      in if list_all (\<lambda>g. g \<noteq> [] \<and> list_all is_digit g) groups \<and> length (concat groups) \<le> 4300
         then Some (sign * digits_value (concat groups)) else None)"

definition credential_usable :: "string \<Rightarrow> instant \<Rightarrow> device_credential \<Rightarrow> bool" where
  "credential_usable device_id now c \<longleftrightarrow>
     dc_device_id c = device_id \<and> dc_revoked_at c = None \<and> dc_valid_from c \<le> now
     \<and> (case dc_valid_until c of None \<Rightarrow> True | Some u \<Rightarrow> now \<le> u)"

text \<open>The loop over the usable credentials; the last one whose signature agrees is kept.\<close>

definition match_credentials ::
  "crypto \<Rightarrow> (string \<Rightarrow> auth_error + string) \<Rightarrow> string \<Rightarrow> device_credential list
   \<Rightarrow> auth_error + (device_credential \<times> string) option"
where
  "match_credentials c expected supplied creds =
     foldE (\<lambda>cred matched.
        case cr_decrypt c (dc_encrypted_secret cred) of
          None \<Rightarrow> Inl Cipher_failure
        | Some secret \<Rightarrow> bindE (expected secret) (\<lambda>signature. bindE (compare_digest signature supplied) (\<lambda>same.
            Inr (if same then Some (cred, secret) else matched)))) creds None"

section \<open>Requests of a sensor\<close>

definition load_device :: "auth_db \<Rightarrow> string \<Rightarrow> auth_error + auth_device" where
  "load_device s device_id =
     (case find (\<lambda>d. av_id d = device_id) (au_devices s) of
        None \<Rightarrow> Inl (Auth ''unknown_device'' 401)
      | Some d \<Rightarrow> if av_revoked_at d \<noteq> None then Inl (Auth ''device_revoked'' 403) else Inr d)"

definition verify_device_request ::
  "crypto \<Rightarrow> (string, string) dict \<Rightarrow> string \<Rightarrow> string \<Rightarrow> string \<Rightarrow> string \<Rightarrow> instant \<Rightarrow> int \<Rightarrow> auth_db
   \<Rightarrow> auth_error + (auth_device \<times> device_credential \<times> auth_db)"
where
  "verify_device_request c headers method target body direction now window s =
     bindE (required_header headers ''x-pm-protocol'') (\<lambda>protocol.
     bindE (guard (protocol = PROTOCOL) (Auth ''protocol_incompatible'' 426)) (\<lambda>_.
     bindE (required_header headers ''x-pm-device-id'') (\<lambda>device_id.
     bindE (required_header headers ''x-pm-timestamp'') (\<lambda>timestamp_text.
     bindE (required_header headers ''x-pm-nonce'') (\<lambda>nonce.
     bindE (required_header headers ''x-pm-content-sha256'') (\<lambda>supplied_digest.
     bindE (required_header headers ''x-pm-signature'') (\<lambda>supplied_signature.
     bindE (guard (32 \<le> length nonce \<and> list_all is_hex nonce) (Auth ''invalid_nonce'' 401)) (\<lambda>_.
     bindE (case python_int timestamp_text of None \<Rightarrow> Inl (Auth ''invalid_timestamp'' 401) | Some t \<Rightarrow> Inr t) (\<lambda>timestamp.
     bindE (guard (\<bar>now div 1000000 - timestamp\<bar> \<le> window) (Auth ''stale_timestamp'' 401)) (\<lambda>_.
     bindE (compare_digest (cr_sha256 c body) supplied_digest) (\<lambda>same_body.
     bindE (guard same_body (Auth ''body_digest_mismatch'' 401)) (\<lambda>_.
     bindE (load_device s device_id) (\<lambda>device.
     bindE (match_credentials c
              (\<lambda>secret. Inr (calculate_signature c secret direction method target timestamp_text nonce supplied_digest))
              supplied_signature (filter (credential_usable device_id now) (au_credentials s))) (\<lambda>matched.
     (case matched of
        None \<Rightarrow> Inl (Auth ''invalid_signature'' 401)
      | Some (credential, _) \<Rightarrow>
          (case add_nonce \<lparr>dn_device_id = device_id, dn_direction = direction,
                   dn_nonce_hash = cr_sha256 c (lower nonce), dn_expires_at = now + seconds window\<rparr>
                 (delete_expired now s) of
             Inl _ \<Rightarrow> Inl (Auth ''nonce_replay'' 401)
           | Inr s' \<Rightarrow> Inr (device, credential, s')))))))))))))))))"

section \<open>Requests of a headless agent\<close>

definition AGENT_PROTOCOL :: string where
  "AGENT_PROTOCOL = ''pm-agent/2.0.0''"

definition derive_agent_key :: "crypto \<Rightarrow> string \<Rightarrow> string \<Rightarrow> string" where
  "derive_agent_key c secret direction =
     cr_hkdf c None (if direction = ''device-to-server'' then ''pm-agent-device-to-server-v2''
                     else ''pm-agent-server-to-device-v2'') secret"

definition canonical_agent_request ::
  "string \<Rightarrow> string \<Rightarrow> int \<Rightarrow> string \<Rightarrow> string \<Rightarrow> string \<Rightarrow> string \<Rightarrow> auth_error + string"
where
  "canonical_agent_request device_id boot_id counter nonce method target body_sha256 =
     (case (canonical_uuid device_id, canonical_uuid boot_id) of
        (Some device_uuid, Some boot_uuid) \<Rightarrow>
          Inr (utf8 (joined newline [''PM-AGENT-HMAC-SHA256-V2'', AGENT_PROTOCOL, device_uuid, boot_uuid,
            int_text counter, lower nonce, upper_text method, canonical_path_and_query target, body_sha256]))
      | _ \<Rightarrow> Inl Value_error)"

definition calculate_agent_request_signature ::
  "crypto \<Rightarrow> string \<Rightarrow> string \<Rightarrow> string \<Rightarrow> int \<Rightarrow> string \<Rightarrow> string \<Rightarrow> string \<Rightarrow> string
   \<Rightarrow> auth_error + string"
where
  "calculate_agent_request_signature c secret device_id boot_id counter nonce method target body_sha256 =
     bindE (canonical_agent_request device_id boot_id counter nonce method target body_sha256) (\<lambda>message.
       Inr (cr_hmac c (derive_agent_key c secret ''device-to-server'') message))"

definition canonical_agent_response :: "string \<Rightarrow> int \<Rightarrow> int \<Rightarrow> string \<Rightarrow> string" where
  "canonical_agent_response request_nonce request_counter status body_sha256 =
     utf8 (joined newline [''PM-AGENT-HMAC-SHA256-V2'', ''RESPONSE'', lower request_nonce, int_text request_counter,
       int_text status, body_sha256])"

definition calculate_agent_response_signature ::
  "crypto \<Rightarrow> string \<Rightarrow> string \<Rightarrow> int \<Rightarrow> int \<Rightarrow> string \<Rightarrow> string \<times> string"
where
  "calculate_agent_response_signature c secret request_nonce request_counter status body =
     (let digest = cr_sha256 c body
      in (digest, cr_hmac c (derive_agent_key c secret ''server-to-device'')
            (canonical_agent_response request_nonce request_counter status digest)))"

record verified_agent =
  va_device :: auth_device
  va_credential :: device_credential
  va_secret :: string
  va_boot_id :: string
  va_counter :: int
  va_nonce :: string

definition retire_boots :: "string \<Rightarrow> agent_boot list \<Rightarrow> agent_boot list" where
  "retire_boots device_id bs =
     map (\<lambda>b. if ab_device_id b = device_id \<and> ab_active b then b\<lparr>ab_active := False\<rparr> else b) bs"

text \<open>The replay boundary of a boot: a new boot retires the active one, a known one must count up.\<close>

definition advance_boot :: "string \<Rightarrow> string \<Rightarrow> int \<Rightarrow> instant \<Rightarrow> auth_db \<Rightarrow> auth_error + auth_db" where
  "advance_boot device_id boot_id counter now s =
     (case find (\<lambda>b. ab_device_id b = device_id \<and> ab_boot_id b = boot_id) (au_boots s) of
        Some b \<Rightarrow>
          if \<not> ab_active b then Inl (Auth ''wrong_boot_id'' 401)
          else if counter \<le> ab_highest_counter b then Inl (Auth ''counter_replay'' 401)
          else Inr (s\<lparr>au_boots := map (\<lambda>x. if ab_device_id x = device_id \<and> ab_boot_id x = boot_id
                 then x\<lparr>ab_highest_counter := counter, ab_last_seen_at := now\<rparr> else x) (au_boots s)\<rparr>)
      | None \<Rightarrow>
          Inr (s\<lparr>au_boots := retire_boots device_id (au_boots s) @
                 [\<lparr>ab_device_id = device_id, ab_boot_id = boot_id, ab_highest_counter = counter, ab_active = True,
                   ab_first_seen_at = now, ab_last_seen_at = now\<rparr>]\<rparr>))"

text \<open>
  The two identity headers are read inside a handler for \<^verbatim>\<open>ValueError\<close>, of which the error for a
  missing header is a subclass, so a missing header and a malformed UUID raise the same error.
\<close>

definition identity_header :: "(string, string) dict \<Rightarrow> string \<Rightarrow> auth_error + string" where
  "identity_header headers name =
     (case required_header headers name of
        Inl _ \<Rightarrow> Inl (Auth ''invalid_identity'' 401)
      | Inr v \<Rightarrow> (case canonical_uuid v of None \<Rightarrow> Inl (Auth ''invalid_identity'' 401) | Some u \<Rightarrow> Inr u))"

definition agent_nonce_hours :: int where
  "agent_nonce_hours = 168"

definition verify_agent_request ::
  "crypto \<Rightarrow> (string, string) dict \<Rightarrow> string \<Rightarrow> string \<Rightarrow> string \<Rightarrow> instant \<Rightarrow> auth_db
   \<Rightarrow> auth_error + (verified_agent \<times> auth_db)"
where
  "verify_agent_request c headers method target body now s =
     bindE (required_header headers ''x-pm-agent-protocol'') (\<lambda>protocol.
     bindE (guard (protocol = AGENT_PROTOCOL) (Auth ''protocol_incompatible'' 426)) (\<lambda>_.
     bindE (identity_header headers ''x-pm-device-id'') (\<lambda>device_id.
     bindE (identity_header headers ''x-pm-boot-id'') (\<lambda>boot_id.
     bindE (required_header headers ''x-pm-counter'') (\<lambda>counter_text.
     bindE (required_header headers ''x-pm-nonce'') (\<lambda>nonce_text.
     bindE (required_header headers ''x-pm-content-sha256'') (\<lambda>supplied_digest.
     bindE (required_header headers ''x-pm-signature'') (\<lambda>supplied_signature.
     bindE (case python_int counter_text of None \<Rightarrow> Inl (Auth ''invalid_counter'' 401) | Some n \<Rightarrow> Inr n) (\<lambda>counter.
     bindE (guard (1 \<le> counter \<and> counter \<le> 2 ^ 63 - 1) (Auth ''invalid_counter'' 401)) (\<lambda>_.
     bindE (guard (32 \<le> length nonce_text \<and> list_all is_hex (lower nonce_text)) (Auth ''invalid_nonce'' 401)) (\<lambda>_.
     bindE (compare_digest (cr_sha256 c body) supplied_digest) (\<lambda>same_body.
     bindE (guard same_body (Auth ''body_digest_mismatch'' 401)) (\<lambda>_.
     bindE (load_device s device_id) (\<lambda>device.
     bindE (guard (av_protocol_version device = AGENT_PROTOCOL) (Auth ''protocol_incompatible'' 426)) (\<lambda>_.
     bindE (match_credentials c
              (\<lambda>secret. calculate_agent_request_signature c secret device_id boot_id counter (lower nonce_text)
                          method target supplied_digest)
              supplied_signature (filter (credential_usable device_id now) (au_credentials s))) (\<lambda>matched.
     (case matched of
        None \<Rightarrow> Inl (Auth ''invalid_signature'' 401)
      | Some (credential, secret) \<Rightarrow>
          bindE (advance_boot device_id boot_id counter now s) (\<lambda>s1.
            (case add_nonce \<lparr>dn_device_id = device_id, dn_direction = ''agent-device-to-server'',
                    dn_nonce_hash = cr_sha256 c (lower nonce_text),
                    dn_expires_at = now + seconds (agent_nonce_hours * 3600)\<rparr> s1 of
               Inl _ \<Rightarrow> Inl (Auth ''nonce_replay'' 401)
             | Inr s2 \<Rightarrow> Inr (\<lparr>va_device = device, va_credential = credential, va_secret = secret, va_boot_id = boot_id,
                                va_counter = counter, va_nonce = lower nonce_text\<rparr>, s2))))))))))))))))))))"

end
