(* ===== verification/Device_Auth_Properties.thy ===== *)
theory Device_Auth_Properties
  imports Device_Auth Ota_Properties
begin

text \<open>
  Properties of request authentication.  The table of nonces is a table with a unique key; runs of
  the server are sequences of accepted requests and of other changes at increasing times, and what
  a later verification answers follows from what every step keeps of the tables.
\<close>

interpretation nonces: unique_table nonce_key "\<lambda>_. True" au_nonces add_nonce
  by unfold_locales (auto simp: add_nonce_def)

section \<open>What acceptance implies\<close>

lemma required_header_Inr: "required_header h k = Inr v \<longleftrightarrow> map_of h k = Some v \<and> v \<noteq> []"
  by (auto simp: required_header_def split: option.splits if_splits)

lemma delete_expired_nonces [simp]:
  "au_nonces (delete_expired now s) = filter (\<lambda>n. now \<le> dn_expires_at n) (au_nonces s)"
  "au_boots (delete_expired now s) = au_boots s"
  by (simp_all add: delete_expired_def)

lemma add_nonce_Inr:
  "add_nonce n s = Inr s' \<longleftrightarrow> nonce_key n \<notin> nonce_key ` set (au_nonces s) \<and> s' = s\<lparr>au_nonces := au_nonces s @ [n]\<rparr>"
  by (auto simp: add_nonce_def)

lemma refused_or_kept:
  "(case x of Inl _ \<Rightarrow> Inl e | Inr y \<Rightarrow> Inr (g y)) = Inr z \<longleftrightarrow> (\<exists>y. x = Inr y \<and> g y = z)"
  by (cases x) auto

lemma device_accepted:
  assumes "verify_device_request c h m tg b dir now w s = Inr (d, cr, s')"
  obtains device_id nonce stamp ts where "map_of h ''x-pm-device-id'' = Some device_id"
    "map_of h ''x-pm-nonce'' = Some nonce" "map_of h ''x-pm-timestamp'' = Some stamp" "python_int stamp = Some ts"
    "\<bar>now div 1000000 - ts\<bar> \<le> w"
    "add_nonce \<lparr>dn_device_id = device_id, dn_direction = dir, dn_nonce_hash = cr_sha256 c (lower nonce),
       dn_expires_at = now + seconds w\<rparr> (delete_expired now s) = Inr s'"
  using assms unfolding verify_device_request_def
  by (auto simp: bindE_eq_Inr required_header_Inr refused_or_kept split: option.splits)

lemma load_device_id: "load_device s i = Inr d \<Longrightarrow> av_id d = i"
  by (auto simp: load_device_def find_Some_iff split: option.splits if_splits)

lemma agent_accepted:
  assumes "verify_agent_request c h m tg b now s = Inr (v, s')"
  shows "\<exists>nonce s1. advance_boot (av_id (va_device v)) (va_boot_id v) (va_counter v) now s = Inr s1
    \<and> add_nonce \<lparr>dn_device_id = av_id (va_device v), dn_direction = ''agent-device-to-server'',
         dn_nonce_hash = cr_sha256 c (lower nonce), dn_expires_at = now + seconds (agent_nonce_hours * 3600)\<rparr> s1 = Inr s'"
  using assms unfolding verify_agent_request_def
  by (auto simp: bindE_eq_Inr required_header_Inr refused_or_kept dest!: load_device_id split: option.splits) blast

section \<open>Runs\<close>

text \<open>
  A state of a run is the database with the time of the last step.  Besides the two verifications
  time passes, and enrolment, rotation and revocation change devices and credentials.
\<close>

inductive auth_step :: "crypto \<Rightarrow> int \<Rightarrow> auth_db \<times> instant \<Rightarrow> auth_db \<times> instant \<Rightarrow> bool" for c w where
  Device: "t \<le> now \<Longrightarrow> verify_device_request c h m tg b dir now w s = Inr (d, cr, s') \<Longrightarrow> auth_step c w (s, t) (s', now)"
| Agent: "t \<le> now \<Longrightarrow> verify_agent_request c h m tg b now s = Inr (v, s') \<Longrightarrow> auth_step c w (s, t) (s', now)"
| Enrol: "t \<le> now \<Longrightarrow> au_nonces s' = au_nonces s \<Longrightarrow> au_boots s' = au_boots s \<Longrightarrow> auth_step c w (s, t) (s', now)"

inductive_cases auth_stepE: "auth_step c w (s, t) (s', now)"

lemma auth_step_time: "auth_step c w x y \<Longrightarrow> snd x \<le> snd y"
  by (induction rule: auth_step.induct) auto

lemma advance_boot_nonces: "advance_boot i b k now s = Inr s' \<Longrightarrow> au_nonces s' = au_nonces s"
  by (auto simp: advance_boot_def split: option.splits if_splits)

text \<open>A nonce stays until it has expired.\<close>

lemma auth_step_nonce:
  assumes "auth_step c w x y" and "n \<in> set (au_nonces (fst x))" and "snd y \<le> dn_expires_at n"
  shows "n \<in> set (au_nonces (fst y))"
  using assms
proof (induction rule: auth_step.induct)
  case (Device t now h m tg b dir s d cr s')
  then show ?case by (elim device_accepted) (auto simp: add_nonce_Inr)
next
  case (Agent t now h m tg b s v s')
  then show ?case using agent_accepted[OF Agent(2)] by (auto simp: add_nonce_Inr dest: advance_boot_nonces)
qed simp

lemma run_time: "(auth_step c w)\<^sup>*\<^sup>* x y \<Longrightarrow> snd x \<le> snd y"
  by (induction rule: rtranclp_induct) (auto dest: auth_step_time)

lemma run_nonce:
  assumes "(auth_step c w)\<^sup>*\<^sup>* x y" and "n \<in> set (au_nonces (fst x))" and "snd y \<le> dn_expires_at n"
  shows "n \<in> set (au_nonces (fst y))"
  using assms
proof (induction rule: rtranclp_induct)
  case (step y z)
  have "n \<in> set (au_nonces (fst y))" using step auth_step_time[OF step(2)] by simp
  then show ?case by (rule auth_step_nonce[OF step(2)]) (rule step(5))
qed simp

text \<open>C29. Replay protection of sensor requests.  Once a request is accepted, a request with the same device, direction,
  timestamp and nonce (in either case) is refused ever after, whatever other requests the server has accepted in
  between, provided the timestamp was at least one second in the past when the first one arrived.  While the
  nonce is kept its reuse is refused; when it has expired the timestamp is outside the window.\<close>

theorem accepted_request_not_replayed:
  assumes "verify_device_request c h m tg b dir t1 w s = Inr (d, cr, s1)"
    and "map_of h ''x-pm-timestamp'' = Some stamp" and "python_int stamp = Some ts" and "seconds (ts + 1) \<le> t1"
    and "(auth_step c w)\<^sup>*\<^sup>* (s1, t1) (s2, t2)" and "t2 \<le> t3"
    and "map_of h' ''x-pm-timestamp'' = Some stamp" and "map_of h' ''x-pm-device-id'' = map_of h ''x-pm-device-id''"
    and "map_option lower (map_of h' ''x-pm-nonce'') = map_option lower (map_of h ''x-pm-nonce'')"
  shows "\<exists>e. verify_device_request c h' m' tg' b' dir t3 w s2 = Inl e"
proof (rule ccontr)
  assume "\<not> ?thesis"
  then obtain d' cr' s3 where again: "verify_device_request c h' m' tg' b' dir t3 w s2 = Inr (d', cr', s3)"
    by (metis surj_pair sum.exhaust)
  obtain i nonce where first: "map_of h ''x-pm-device-id'' = Some i" "map_of h ''x-pm-nonce'' = Some nonce"
      and ins: "add_nonce \<lparr>dn_device_id = i, dn_direction = dir, dn_nonce_hash = cr_sha256 c (lower nonce),
        dn_expires_at = t1 + seconds w\<rparr> (delete_expired t1 s) = Inr s1"
    using assms(1) by (rule device_accepted)
  obtain i' nonce' stamp' ts' where snd: "map_of h' ''x-pm-device-id'' = Some i'" "map_of h' ''x-pm-nonce'' = Some nonce'"
      "map_of h' ''x-pm-timestamp'' = Some stamp'" "python_int stamp' = Some ts'" "\<bar>t3 div 1000000 - ts'\<bar> \<le> w"
      and ins': "add_nonce \<lparr>dn_device_id = i', dn_direction = dir, dn_nonce_hash = cr_sha256 c (lower nonce'),
        dn_expires_at = t3 + seconds w\<rparr> (delete_expired t3 s2) = Inr s3"
    using again by (rule device_accepted)
  let ?n = "\<lparr>dn_device_id = i, dn_direction = dir, dn_nonce_hash = cr_sha256 c (lower nonce), dn_expires_at = t1 + seconds w\<rparr>"
  have same: "i' = i" "lower nonce' = lower nonce" "ts' = ts" using assms(2,3,7-9) first snd by auto
  show False
  proof (cases "t3 \<le> t1 + seconds w")
    case True
    have "?n \<in> set (au_nonces s1)" using ins by (simp add: add_nonce_Inr)
    then have "?n \<in> set (au_nonces s2)" using run_nonce[OF assms(5), of ?n] True assms(6) by simp
    then have "?n \<in> set (au_nonces (delete_expired t3 s2))" using True by simp
    then show False using ins' same by (force simp: add_nonce_Inr nonce_key_def)
  next
    case False
    then have "(ts + 1 + w) * 1000000 \<le> t3" using assms(4) by (simp add: seconds_def algebra_simps)
    then have "ts + 1 + w \<le> t3 div 1000000" by simp
    then show False using snd(5) same by simp
  qed
qed

section \<open>Samples\<close>

definition sample_crypto :: crypto where
  "sample_crypto = \<lparr>cr_sha256 = (\<lambda>x. ''h'' @ x), cr_hkdf = (\<lambda>_ info secret. info @ secret),
     cr_hmac = (\<lambda>k m. k @ ''|'' @ m), cr_decrypt = Some\<rparr>"

definition sample_nonce :: string where
  "sample_nonce = replicate 32 (CHR ''a'')"

definition sample_auth :: auth_db where
  "sample_auth = \<lparr>au_devices = [\<lparr>av_id = ''d1'', av_revoked_at = None, av_protocol_version = PROTOCOL\<rparr>],
     au_credentials = [\<lparr>dc_id = ''c1'', dc_device_id = ''d1'', dc_encrypted_secret = ''s1'', dc_valid_from = 0,
       dc_valid_until = None, dc_revoked_at = None\<rparr>], au_nonces = [], au_boots = []\<rparr>"

definition sample_headers :: "int \<Rightarrow> (string, string) dict" where
  "sample_headers ts = sign_headers sample_crypto ''s1'' ''d1'' ''device-to-server'' ''get'' ''/api/x'' [] ts sample_nonce"

definition sample_verify :: "int \<Rightarrow> instant \<Rightarrow> auth_db \<Rightarrow> auth_error + (auth_device \<times> device_credential \<times> auth_db)" where
  "sample_verify ts now s = verify_device_request sample_crypto (sample_headers ts) ''GET'' ''/api/x'' []
     ''device-to-server'' now 300 s"

lemma sample_first: "\<exists>d cr s. sample_verify 1000 1001000000 sample_auth = Inr (d, cr, s)"
proof -
  have "(case sample_verify 1000 1001000000 sample_auth of Inl _ \<Rightarrow> False | Inr _ \<Rightarrow> True)" by code_simp
  then show ?thesis by (cases "sample_verify 1000 1001000000 sample_auth") auto
qed

theorem accepted_request_not_replayed_witness:
  "\<exists>d cr s. sample_verify 1000 1001000000 sample_auth = Inr (d, cr, s)
     \<and> (\<exists>e. sample_verify 1000 1200000000 s = Inl e) \<and> (\<exists>e. sample_verify 1000 1400000000 s = Inl e)"
proof -
  obtain d cr s where f: "sample_verify 1000 1001000000 sample_auth = Inr (d, cr, s)" using sample_first by blast
  have h: "map_of (sample_headers 1000) ''x-pm-timestamp'' = Some (int_text 1000)" by code_simp
  have i: "python_int (int_text 1000) = Some 1000" by code_simp
  note again = accepted_request_not_replayed[OF f[unfolded sample_verify_def] h i _ rtranclp.rtrancl_refl _ h refl refl,
      of _ "''GET''" "''/api/x''" "[]"]
  have "\<exists>e. sample_verify 1000 1200000000 s = Inl e" "\<exists>e. sample_verify 1000 1400000000 s = Inl e"
    unfolding sample_verify_def by (rule again; simp add: seconds_def)+
  then show ?thesis using f by blast
qed

text \<open>
  The proviso is needed: a request stamped ahead of the server clock is valid for longer than its
  nonce is kept, and is accepted a second time once the nonce has been deleted.
\<close>

lemma early_request_replayed:
  "\<exists>d cr s. sample_verify 1300 1000000000 sample_auth = Inr (d, cr, s)
     \<and> (\<exists>d' cr' s'. sample_verify 1300 1300000001 s = Inr (d', cr', s'))"
proof -
  have "(case sample_verify 1300 1000000000 sample_auth of Inl _ \<Rightarrow> False
      | Inr (d, cr, s) \<Rightarrow> (case sample_verify 1300 1300000001 s of Inl _ \<Rightarrow> False | Inr _ \<Rightarrow> True))" by code_simp
  then obtain d cr s where f: "sample_verify 1300 1000000000 sample_auth = Inr (d, cr, s)"
      and g: "\<not> isl (sample_verify 1300 1300000001 s)"
    by (cases "sample_verify 1300 1000000000 sample_auth") (auto simp: isl_def split: sum.splits)
  from g obtain r where "sample_verify 1300 1300000001 s = Inr r" by (metis sum.collapse(2))
  then show ?thesis using f by (cases r) auto
qed

section \<open>Counters of a headless agent\<close>

definition boot_bound :: "string \<Rightarrow> string \<Rightarrow> int \<Rightarrow> auth_db \<Rightarrow> bool" where
  "boot_bound i b k s \<longleftrightarrow>
     (\<exists>x\<in>set (au_boots s). ab_device_id x = i \<and> ab_boot_id x = b)
     \<and> (\<forall>x\<in>set (au_boots s). ab_device_id x = i \<and> ab_boot_id x = b \<longrightarrow> ab_active x \<longrightarrow> k \<le> ab_highest_counter x)"

lemma boot_boundI:
  assumes "au_boots s' = map f (au_boots s) @ ys"
    and "\<And>x. ab_device_id (f x) = ab_device_id x \<and> ab_boot_id (f x) = ab_boot_id x"
    and "(\<exists>x\<in>set (au_boots s). ab_device_id x = i \<and> ab_boot_id x = b) \<or> (\<exists>y\<in>set ys. ab_device_id y = i \<and> ab_boot_id y = b)"
    and "\<And>x. x \<in> set (au_boots s) \<Longrightarrow> ab_device_id x = i \<Longrightarrow> ab_boot_id x = b \<Longrightarrow> ab_active (f x) \<Longrightarrow> k \<le> ab_highest_counter (f x)"
    and "\<And>y. y \<in> set ys \<Longrightarrow> ab_device_id y = i \<Longrightarrow> ab_boot_id y = b \<Longrightarrow> k \<le> ab_highest_counter y"
  shows "boot_bound i b k s'"
proof -
  have "\<exists>x\<in>set (au_boots s'). ab_device_id x = i \<and> ab_boot_id x = b"
  proof (cases "\<exists>y\<in>set ys. ab_device_id y = i \<and> ab_boot_id y = b")
    case True
    then show ?thesis using assms(1) by auto
  next
    case False
    then obtain x where "x \<in> set (au_boots s)" "ab_device_id x = i" "ab_boot_id x = b" using assms(3) by blast
    then have "f x \<in> set (au_boots s')" "ab_device_id (f x) = i" "ab_boot_id (f x) = b" using assms(1,2) by auto
    then show ?thesis by blast
  qed
  then show ?thesis unfolding boot_bound_def using assms(1,2,4,5) by auto
qed

text \<open>The row an advance writes, and the rows it leaves.\<close>

lemma advance_boot_cases:
  assumes "advance_boot i b k now s = Inr s'"
  obtains (known) x where "x \<in> set (au_boots s)" "ab_device_id x = i" "ab_boot_id x = b" "ab_active x"
      "ab_highest_counter x < k"
      "au_boots s' = map (\<lambda>x. if ab_device_id x = i \<and> ab_boot_id x = b
         then x\<lparr>ab_highest_counter := k, ab_last_seen_at := now\<rparr> else x) (au_boots s) @ []"
  | (new) "\<forall>x\<in>set (au_boots s). \<not> (ab_device_id x = i \<and> ab_boot_id x = b)"
      "au_boots s' = map (\<lambda>x. if ab_device_id x = i \<and> ab_active x then x\<lparr>ab_active := False\<rparr> else x) (au_boots s) @
         [\<lparr>ab_device_id = i, ab_boot_id = b, ab_highest_counter = k, ab_active = True,
           ab_first_seen_at = now, ab_last_seen_at = now\<rparr>]"
proof (cases "find (\<lambda>x. ab_device_id x = i \<and> ab_boot_id x = b) (au_boots s)")
  case None
  have "\<forall>x\<in>set (au_boots s). \<not> (ab_device_id x = i \<and> ab_boot_id x = b)" using None by (auto simp: find_None_iff)
  moreover have "s' = s\<lparr>au_boots := retire_boots i (au_boots s) @ [\<lparr>ab_device_id = i, ab_boot_id = b, ab_highest_counter = k,
      ab_active = True, ab_first_seen_at = now, ab_last_seen_at = now\<rparr>]\<rparr>"
    using assms None by (simp add: advance_boot_def)
  ultimately show thesis using that(2) by (simp add: retire_boots_def)
next
  case (Some x)
  then have "x \<in> set (au_boots s)" "ab_device_id x = i" "ab_boot_id x = b" by (auto simp: find_Some_iff)
  then show thesis using assms Some that(1) by (auto simp: advance_boot_def split: if_splits)
qed

lemma advance_boot_bound: "advance_boot i b k now s = Inr s' \<Longrightarrow> boot_bound i b k s'"
  by (elim advance_boot_cases; rule boot_boundI, assumption) auto

lemma advance_boot_keeps:
  assumes "advance_boot i' b' k' now s = Inr s'" and "boot_bound i b k s"
  shows "boot_bound i b k s'"
  using assms(1)
proof (cases rule: advance_boot_cases)
  case (known x)
  have "i = i' \<Longrightarrow> b = b' \<Longrightarrow> k < k'" using assms(2) known(1-5) by (auto simp: boot_bound_def)
  then show ?thesis using known(6) assms(2) by (intro boot_boundI[OF known(6)]) (auto simp: boot_bound_def)
next
  case new
  then show ?thesis using assms(2) by (intro boot_boundI[OF new(2)]) (auto simp: boot_bound_def split: if_splits)
qed

lemma advance_boot_refused:
  assumes "boot_bound i b k s" and "k' \<le> k"
  shows "\<exists>e. advance_boot i b k' now s = Inl e"
proof (cases "find (\<lambda>x. ab_device_id x = i \<and> ab_boot_id x = b) (au_boots s)")
  case None
  then show ?thesis using assms(1) by (auto simp: boot_bound_def find_None_iff)
next
  case (Some x)
  then have "x \<in> set (au_boots s)" "ab_device_id x = i" "ab_boot_id x = b" by (auto simp: find_Some_iff)
  then have "\<not> ab_active x \<or> k' \<le> ab_highest_counter x" using assms by (fastforce simp: boot_bound_def)
  then show ?thesis using Some by (auto simp: advance_boot_def)
qed

lemma auth_step_boot_bound:
  assumes "auth_step c w x y" and "boot_bound i b' k (fst x)"
  shows "boot_bound i b' k (fst y)"
  using assms
proof (induction rule: auth_step.induct)
  case (Device t now h m tg b dir s d cr s')
  then show ?case by (elim device_accepted) (auto simp: add_nonce_Inr boot_bound_def)
next
  case (Agent t now h m tg b s v s')
  then obtain s1 where "advance_boot (av_id (va_device v)) (va_boot_id v) (va_counter v) now s = Inr s1"
      "au_boots s' = au_boots s1"
    using agent_accepted[OF Agent(2)] by (auto simp: add_nonce_Inr)
  moreover from this(1) have "boot_bound i b' k s1" by (rule advance_boot_keeps) (use Agent(3) in simp)
  ultimately show ?case by (simp add: boot_bound_def)
qed (simp add: boot_bound_def)

interpretation boots: invariant_system "\<lambda>x. boot_bound i b k (fst x)" "auth_step c w" "\<lambda>x. boot_bound i b k (fst x)"
  for i b k c w
  by unfold_locales (auto dest: auth_step_boot_bound)

text \<open>C30. A request of a headless agent is accepted at most once, for ever.  After a request of some boot with some
  counter is accepted, no later request of that boot with the same or a smaller counter is accepted, whatever
  happens in between; in particular a boot that another one has retired never comes back.  No clock and no kept
  nonce is needed.\<close>

theorem agent_request_accepted_once:
  assumes "verify_agent_request c h m tg b t1 s = Inr (v, s1)"
    and "(auth_step c w)\<^sup>*\<^sup>* (s1, t1) (s2, t2)"
    and "verify_agent_request c h' m' tg' b' t3 s2 = Inr (v', s3)"
    and "av_id (va_device v') = av_id (va_device v)" and "va_boot_id v' = va_boot_id v"
  shows "va_counter v < va_counter v'"
proof (rule ccontr)
  assume "\<not> ?thesis"
  then have le: "va_counter v' \<le> va_counter v" by simp
  let ?P = "boot_bound (av_id (va_device v)) (va_boot_id v) (va_counter v)"
  obtain s0 where "advance_boot (av_id (va_device v)) (va_boot_id v) (va_counter v) t1 s = Inr s0" "au_boots s1 = au_boots s0"
    using agent_accepted[OF assms(1)] by (auto simp: add_nonce_Inr)
  moreover from this(1) have "?P s0" by (rule advance_boot_bound)
  ultimately have "?P s1" by (simp add: boot_bound_def)
  then have "?P s2" using boots.inv_steps[OF assms(2)] by simp
  from advance_boot_refused[OF this le, of t3] agent_accepted[OF assms(3)] assms(4,5) show False by auto
qed


definition sample_agent :: "int \<Rightarrow> auth_db \<Rightarrow> auth_error + (verified_agent \<times> auth_db)" where
  "sample_agent counter s =
     (let i = ''11111111-1111-1111-1111-111111111111''; b = ''22222222-2222-2222-2222-222222222222'';
          nonce = pad_left 32 (int_text counter)
      in verify_agent_request sample_crypto
           [(''x-pm-agent-protocol'', AGENT_PROTOCOL), (''x-pm-device-id'', i), (''x-pm-boot-id'', b),
            (''x-pm-counter'', int_text counter), (''x-pm-nonce'', nonce), (''x-pm-content-sha256'', ''h''),
            (''x-pm-signature'', projr (calculate_agent_request_signature sample_crypto ''s2'' i b counter nonce ''GET'' ''/a'' ''h''))]
           ''GET'' ''/a'' [] 1000000 s)"

definition sample_agent_db :: auth_db where
  "sample_agent_db = \<lparr>au_devices = [\<lparr>av_id = ''11111111-1111-1111-1111-111111111111'', av_revoked_at = None,
       av_protocol_version = AGENT_PROTOCOL\<rparr>],
     au_credentials = [\<lparr>dc_id = ''c2'', dc_device_id = ''11111111-1111-1111-1111-111111111111'', dc_encrypted_secret = ''s2'',
       dc_valid_from = 0, dc_valid_until = None, dc_revoked_at = None\<rparr>], au_nonces = [], au_boots = []\<rparr>"

theorem agent_request_accepted_once_witness:
  "\<exists>v s v' s'. sample_agent 7 sample_agent_db = Inr (v, s) \<and> sample_agent 9 s = Inr (v', s') \<and> va_counter v < va_counter v'"
proof -
  have "(case sample_agent 7 sample_agent_db of Inl _ \<Rightarrow> False
      | Inr (v, s) \<Rightarrow> (case sample_agent 9 s of Inl _ \<Rightarrow> False
          | Inr (v', s') \<Rightarrow> av_id (va_device v') = av_id (va_device v) \<and> va_boot_id v' = va_boot_id v))" by code_simp
  from returned_pair[OF this] obtain v s where f: "sample_agent 7 sample_agent_db = Inr (v, s)"
      and "(case sample_agent 9 s of Inl _ \<Rightarrow> False
          | Inr (v', s') \<Rightarrow> av_id (va_device v') = av_id (va_device v) \<and> va_boot_id v' = va_boot_id v)" by blast
  from returned_pair[OF this(2)] obtain v' s' where g: "sample_agent 9 s = Inr (v', s')"
      "av_id (va_device v') = av_id (va_device v)" "va_boot_id v' = va_boot_id v" by blast
  have "va_counter v < va_counter v'"
    by (rule agent_request_accepted_once[OF f[unfolded sample_agent_def Let_def] rtranclp.rtrancl_refl
        g(1)[unfolded sample_agent_def Let_def] g(2,3)])
  then show ?thesis using f g(1) by blast
qed

section \<open>The canonical text is unambiguous\<close>

lemma joined_newline_inject:
  assumes "joined newline xs = joined newline ys" and "length xs = length ys"
    and "\<forall>x\<in>set xs \<union> set ys. char_of (10 :: nat) \<notin> set x"
  shows "xs = ys"
  using assms
proof (induction xs arbitrary: ys rule: induct_list012)
  case (3 x x' xs)
  then obtain y y' ys' where ys: "ys = y # y' # ys'" by (metis Suc_length_conv)
  let ?n = "char_of (10 :: nat) :: char"
  have eq: "x @ ?n # joined newline (x' # xs) = y @ ?n # joined newline (y' # ys')"
    using 3(3) by (simp add: ys joined_Cons newline_def)
  have n: "?n \<notin> set x" "?n \<notin> set y" using 3(5) by (auto simp: ys)
  have "takeWhile (\<lambda>c. c \<noteq> ?n) (x @ ?n # joined newline (x' # xs)) = x"
    "takeWhile (\<lambda>c. c \<noteq> ?n) (y @ ?n # joined newline (y' # ys')) = y"
    using n by (auto simp: takeWhile_append)
  then have "x = y" using eq by metis
  moreover have "x' # xs = y' # ys'" using eq 3(4,5) \<open>x = y\<close> ys by (intro "3.IH"(2)) auto
  ultimately show ?case by (simp add: ys)
next
  case (2 x)
  then obtain y where "ys = [y]" by (metis length_0_conv length_Suc_conv)
  then show ?case using 2(1) by (simp add: joined_def)
qed simp

lemma joined_avoids: "\<forall>x\<in>set xs. a \<notin> set x \<Longrightarrow> a \<notin> set sep \<Longrightarrow> a \<notin> set (joined sep xs)"
  by (cases xs) (auto simp: joined_def)

lemma partition_at_set: "set (fst (partition_at c s)) \<subseteq> set s"
  by (auto simp: partition_at_def dest: set_takeWhileD)

lemma url_path_set: "set (fst (url_path_query target)) \<subseteq> set (url_clean target)"
proof -
  have a: "set (after_authority s) \<subseteq> set s" for s
    by (auto simp: after_authority_def dest!: set_dropWhileD in_set_dropD)
  have "fst (url_path_query target)
      = fst (partition_at (CHR ''?'') (fst (partition_at (CHR ''#'') (after_authority (url_clean target)))))"
    by (simp add: url_path_query_def Let_def case_prod_beta)
  then show ?thesis using partition_at_set a by (metis order_trans)
qed

lemma quote_newline: "char_of (10 :: nat) \<notin> set (quote s)"
proof -
  have "char_of (10 :: nat) \<noteq> upper_char (hex_digit n)" if "n < 16" for n :: nat
  proof -
    have "of_char (hex_digit n) = (if n < 10 then 48 + n else 87 + n)" using that by (simp add: hex_digit_def)
    then have "of_char (upper_char (hex_digit n)) \<noteq> (10 :: nat)"
      using that by (auto simp: upper_char_def less_eq_char_def)
    moreover have "of_char (char_of (10 :: nat) :: char) = (10 :: nat)" by simp
    ultimately show ?thesis by metis
  qed
  moreover have "\<not> unreserved (char_of (10 :: nat))" by code_simp
  moreover have "of_char c div 16 < (16 :: nat)" "of_char c mod 16 < (16 :: nat)" for c :: char
    using nat_of_char_less_256[of c] by (simp_all add: less_mult_imp_div_less)
  moreover have "char_of (10 :: nat) \<noteq> CHR ''%''" by code_simp
  ultimately show ?thesis by (auto simp: quote_def Let_def split: if_splits)
qed

lemma canonical_path_newline: "char_of (10 :: nat) \<notin> set (canonical_path_and_query target)"
proof -
  let ?n = "char_of (10 :: nat) :: char"
  have eq: "?n \<noteq> CHR ''=''" "?n \<noteq> CHR ''&''" "?n \<noteq> CHR ''?''" "?n \<noteq> CHR ''/''" by code_simp+
  obtain path query where pq: "url_path_query target = (path, query)" by fastforce
  have path: "?n \<notin> set path"
    using url_path_set[of target] pq by (auto simp: url_clean_def)
  let ?pairs = "sort (map (\<lambda>(k, v). (quote k, quote v)) (parse_qsl query))"
  have "?n \<notin> set (joined ''&'' (map (\<lambda>(k, v). k @ ''='' @ v) ?pairs))"
    by (rule joined_avoids) (use quote_newline eq in auto)
  then show ?thesis using path eq by (simp add: canonical_path_and_query_def pq Let_def)
qed

text \<open>The text that a sensor signs determines the request: two requests whose method, timestamp, nonce and digest
  have no line feed, as HTTP demands, and whose canonical texts are equal have the same method up to case, the same
  canonical path and query, and the same timestamp, nonce and digest.  No field can be shifted into another.\<close>

theorem canonical_request_unambiguous:
  assumes "canonical_string m tg ts n d = canonical_string m' tg' ts' n' d'"
    and "\<forall>x\<in>{upper_text m, ts, n, d, upper_text m', ts', n', d'}. char_of (10 :: nat) \<notin> set x"
  shows "upper_text m = upper_text m' \<and> canonical_path_and_query tg = canonical_path_and_query tg'
    \<and> ts = ts' \<and> n = n' \<and> d = d'"
proof -
  have p: "char_of (10 :: nat) \<notin> set ''PM-HMAC-SHA256-V1''" by code_simp
  have "[''PM-HMAC-SHA256-V1'', upper_text m, canonical_path_and_query tg, ts, n, d]
      = [''PM-HMAC-SHA256-V1'', upper_text m', canonical_path_and_query tg', ts', n', d']"
    by (rule joined_newline_inject[OF assms(1)[unfolded canonical_string_def]])
      (use assms(2) p canonical_path_newline in auto)
  then show ?thesis by simp
qed

theorem canonical_request_unambiguous_witness:
  "canonical_string ''get'' ''/a?b=2&a=1'' ''1'' ''n'' ''d'' = canonical_string ''GET'' ''/a?a=1&b=2'' ''1'' ''n'' ''d''
   \<and> canonical_path_and_query ''/a?b=2&a=1'' = canonical_path_and_query ''/a?a=1&b=2''"
proof -
  have e: "canonical_string ''get'' ''/a?b=2&a=1'' ''1'' ''n'' ''d'' = canonical_string ''GET'' ''/a?a=1&b=2'' ''1'' ''n'' ''d''"
    by code_simp
  have f: "\<forall>x\<in>{upper_text ''get'', ''1'', ''n'', ''d'', upper_text ''GET'', ''1'', ''n'', ''d''}. char_of (10 :: nat) \<notin> set x"
    by code_simp
  show ?thesis using e canonical_request_unambiguous[OF e f] by blast
qed

end
