(* ===== verification/Device_Auth_Signed.thy ===== *)
theory Device_Auth_Signed
  imports Device_Auth_Properties
begin

text \<open>
  The two ends of the sensor protocol agree: the headers that \<^verbatim>\<open>sign_headers\<close> writes pass
  \<^verbatim>\<open>verify_device_request\<close>.  The timestamp is printed and read back, and the signature is found
  among the credentials of the device.
\<close>

section \<open>Printing and reading integers\<close>

lemma digits_text_digits: "list_all is_digit (digits_text n)"
proof (induction n rule: digits_text.induct)
  case (1 n)
  have d: "is_digit (char_of (48 + k))" if "k < 10" for k :: nat
    using that by (simp add: is_digit_def less_eq_char_def)
  then show ?case using 1 by (simp add: digits_text.simps[of n])
qed

lemma digits_value_text: "digits_value (digits_text n) = int n"
proof (induction n rule: digits_text.induct)
  case (1 n)
  show ?case
  proof (cases "n < 10")
    case True
    then show ?thesis by (simp add: digits_text.simps[of n] digits_value_def)
  next
    case False
    then have "digits_value (digits_text n) = int (n div 10) * 10 + int (n mod 10)"
      using 1 by (simp add: digits_text.simps[of n] digits_value_snoc)
    also have "\<dots> = int (n div 10 * 10 + n mod 10)" by (simp only: of_nat_add of_nat_mult of_nat_numeral)
    finally show ?thesis by (simp only: div_mult_mod_eq)
  qed
qed

lemma digits_text_nonempty [simp]: "digits_text n \<noteq> []"
  by (subst digits_text.simps) simp

lemma digits_text_length: "n < 10 ^ Suc k \<Longrightarrow> length (digits_text n) \<le> Suc k"
proof (induction k arbitrary: n)
  case 0
  then show ?case by (simp add: digits_text.simps[of n])
next
  case (Suc k)
  then have "n div 10 < 10 ^ Suc k" by (simp add: less_mult_imp_div_less)
  from Suc.IH[OF this] show ?case by (simp add: digits_text.simps[of n])
qed

lemma digit_not: "is_digit c \<Longrightarrow> c \<noteq> CHR ''-'' \<and> c \<noteq> CHR ''+'' \<and> c \<noteq> CHR ''_'' \<and> \<not> is_space c"
  by (auto simp: is_digit_def is_space_def less_eq_char_def)

lemma python_int_text:
  assumes "0 \<le> ts" and "ts < 10 ^ 18"
  shows "python_int (int_text ts) = Some ts"
proof -
  let ?t = "digits_text (nat ts)"
  have d: "\<forall>c\<in>set ?t. is_digit c" using digits_text_digits[of "nat ts"] by (simp add: list_all_iff)
  then have "\<not> is_space (hd ?t)" "\<not> is_space (last ?t)" using digit_not by auto
  then have sp: "strip ?t = ?t" by (simp add: strip_def dropWhile_eq_self_iff[THEN iffD2] hd_rev)
  obtain c r where cr: "?t = c # r" by (cases ?t) auto
  have "CHR ''_'' \<notin> set ?t" using d digit_not by blast
  then have sl: "split_on (CHR ''_'') ?t = [?t]" by (rule split_on_free)
  have "nat ts < 10 ^ Suc 17" using assms(2) by simp
  then have len: "length ?t \<le> 4300" using digits_text_length[of "nat ts" 17] by simp
  have c: "c \<noteq> CHR ''-''" "c \<noteq> CHR ''+''" using d digit_not cr by auto
  have "(case ?t of c # r \<Rightarrow> if c = CHR ''-'' then (-1, r) else if c = CHR ''+'' then (1, r) else (1, ?t)
      | [] \<Rightarrow> (1 :: int, [])) = (1, ?t)" using c cr by simp
  then show ?thesis
    using assms(1) sp sl len digits_text_digits digits_value_text by (simp add: python_int_def int_text_def Let_def)
qed

section \<open>Finding the credential\<close>

lemma compare_digest_self: "ascii a \<Longrightarrow> ascii b \<Longrightarrow> compare_digest a b = Inr (a = b)"
  by (simp add: compare_digest_def)

text \<open>When every credential can be read, the loop ends with one that has signed, if there is any.\<close>

lemma match_credentials_found:
  assumes "\<forall>x\<in>set creds. \<exists>k. cr_decrypt c (dc_encrypted_secret x) = Some k" and "\<forall>k. ascii (sig k)" and "ascii sg"
    and "y \<in> set creds" and "cr_decrypt c (dc_encrypted_secret y) = Some secret" and "sig secret = sg"
  shows "\<exists>z k. match_credentials c (\<lambda>k. Inr (sig k)) sg creds = Inr (Some (z, k)) \<and> z \<in> set creds
    \<and> cr_decrypt c (dc_encrypted_secret z) = Some k \<and> sig k = sg"
  using assms(1,4)
proof (induction creds rule: rev_induct)
  case (snoc x xs)
  obtain k where k: "cr_decrypt c (dc_encrypted_secret x) = Some k" using snoc.prems(1) by auto
  have total: "\<exists>m. match_credentials c (\<lambda>k. Inr (sig k)) sg xs = Inr m"
  proof -
    have "\<exists>m. match_credentials c (\<lambda>k. Inr (sig k)) sg xs = Inr m \<and> True"
      unfolding match_credentials_def
    proof (rule foldE_total[where P = "\<lambda>_. True"])
      fix x' and m' :: "(device_credential \<times> string) option"
      assume "x' \<in> set xs"
      then obtain k' where "cr_decrypt c (dc_encrypted_secret x') = Some k'" using snoc.prems(1) by auto
      then show "\<exists>t. (case cr_decrypt c (dc_encrypted_secret x') of None \<Rightarrow> Inl Cipher_failure
          | Some secret \<Rightarrow> bindE (Inr (sig secret)) (\<lambda>signature. bindE (compare_digest signature sg) (\<lambda>same.
              Inr (if same then Some (x', secret) else m')))) = Inr t \<and> True"
        using assms(2,3) by (simp add: compare_digest_def)
    qed simp
    then show ?thesis by simp
  qed
  then obtain m where m: "match_credentials c (\<lambda>k. Inr (sig k)) sg xs = Inr m" by blast
  have step: "match_credentials c (\<lambda>k. Inr (sig k)) sg (xs @ [x]) = Inr (if sig k = sg then Some (x, k) else m)"
    using m k assms(2,3) by (simp add: match_credentials_def foldE_append compare_digest_def)
  show ?case
  proof (cases "sig k = sg")
    case True
    then show ?thesis using step k by auto
  next
    case False
    then have "y \<in> set xs" using snoc.prems(2) k assms(5,6) by auto
    then show ?thesis using snoc.IH snoc.prems(1) step False m by auto
  qed
qed simp

text \<open>C31. A request that a sensor signs is accepted.  The headers that the signing side writes with the secret of a
  usable credential pass the verification, when the device is enrolled and not revoked, the timestamp is in the
  window, the nonce has 32 or more hexadecimal digits and is not among the unexpired nonces of the device and
  direction; the credential that is returned is usable and its secret gives that very signature, and the nonce is
  recorded until the window has passed.\<close>

theorem signed_request_accepted:
  assumes "\<forall>x. cr_sha256 c x \<noteq> [] \<and> ascii (cr_sha256 c x)" and "\<forall>k m. cr_hmac c k m \<noteq> [] \<and> ascii (cr_hmac c k m)"
    and "load_device s i = Inr d" and "i \<noteq> []" and "32 \<le> length nonce" and "list_all is_hex nonce"
    and "0 \<le> ts" and "ts < 10 ^ 18" and "\<bar>now div 1000000 - ts\<bar> \<le> w"
    and "cr \<in> set (au_credentials s)" and "credential_usable i now cr" and "cr_decrypt c (dc_encrypted_secret cr) = Some k"
    and "\<forall>x\<in>set (au_credentials s). credential_usable i now x \<longrightarrow> (\<exists>k. cr_decrypt c (dc_encrypted_secret x) = Some k)"
    and "\<forall>n\<in>set (au_nonces s). nonce_key n = (i, dir, cr_sha256 c (lower nonce)) \<longrightarrow> dn_expires_at n < now"
  shows "\<exists>cr' k'. cr' \<in> set (au_credentials s) \<and> credential_usable i now cr'
      \<and> cr_decrypt c (dc_encrypted_secret cr') = Some k'
      \<and> calculate_signature c k' dir m tg (int_text ts) nonce (cr_sha256 c b)
         = calculate_signature c k dir m tg (int_text ts) nonce (cr_sha256 c b)
      \<and> verify_device_request c (sign_headers c k i dir m tg b ts nonce) m tg b dir now w s
         = Inr (d, cr', s\<lparr>au_nonces := filter (\<lambda>n. now \<le> dn_expires_at n) (au_nonces s) @
             [\<lparr>dn_device_id = i, dn_direction = dir, dn_nonce_hash = cr_sha256 c (lower nonce),
               dn_expires_at = now + seconds w\<rparr>]\<rparr>)"
proof -
  let ?h = "sign_headers c k i dir m tg b ts nonce"
  let ?sig = "\<lambda>k. calculate_signature c k dir m tg (int_text ts) nonce (cr_sha256 c b)"
  let ?n = "\<lparr>dn_device_id = i, dn_direction = dir, dn_nonce_hash = cr_sha256 c (lower nonce), dn_expires_at = now + seconds w\<rparr>"
  have sig: "ascii (?sig x)" "?sig x \<noteq> []" for x using assms(2) by (simp_all add: calculate_signature_def)
  have head: "required_header ?h ''x-pm-protocol'' = Inr PROTOCOL" "required_header ?h ''x-pm-device-id'' = Inr i"
    "required_header ?h ''x-pm-timestamp'' = Inr (int_text ts)" "required_header ?h ''x-pm-nonce'' = Inr nonce"
    "required_header ?h ''x-pm-content-sha256'' = Inr (cr_sha256 c b)" "required_header ?h ''x-pm-signature'' = Inr (?sig k)"
    using assms(1,4,5,7) sig by (auto simp: required_header_Inr sign_headers_def PROTOCOL_def int_text_def)
  obtain z k' where z: "match_credentials c (\<lambda>k. Inr (?sig k)) (?sig k) (filter (credential_usable i now) (au_credentials s))
        = Inr (Some (z, k'))" "z \<in> set (au_credentials s)" "credential_usable i now z"
      "cr_decrypt c (dc_encrypted_secret z) = Some k'" "?sig k' = ?sig k"
    using match_credentials_found[of "filter (credential_usable i now) (au_credentials s)" c ?sig "?sig k" cr k]
      assms(10-13) sig by auto
  have ins: "add_nonce ?n (delete_expired now s)
      = Inr (s\<lparr>au_nonces := filter (\<lambda>n. now \<le> dn_expires_at n) (au_nonces s) @ [?n]\<rparr>)"
    using assms(14) by (force simp: add_nonce_Inr nonce_key_def delete_expired_def)
  have "verify_device_request c ?h m tg b dir now w s
      = Inr (d, z, s\<lparr>au_nonces := filter (\<lambda>n. now \<le> dn_expires_at n) (au_nonces s) @ [?n]\<rparr>)"
    using head z(1) ins python_int_text[OF assms(7,8)] assms(1,3,5,6,9)
    by (simp add: verify_device_request_def guard_def compare_digest_def)
  then show ?thesis using z by blast
qed

definition ascii_part :: "string \<Rightarrow> string" where
  "ascii_part s = filter (\<lambda>c. of_char c < (128 :: nat)) s"

definition ascii_crypto :: crypto where
  "ascii_crypto = sample_crypto\<lparr>cr_sha256 := (\<lambda>x. ''h'' @ ascii_part x), cr_hmac := (\<lambda>k m. ascii_part k @ ''|'' @ ascii_part m)\<rparr>"

lemma ascii_part_ascii: "ascii (ascii_part s)"
  by (simp add: ascii_def ascii_part_def list_all_iff)

theorem signed_request_accepted_witness:
  "\<exists>cr s. verify_device_request ascii_crypto (sign_headers ascii_crypto ''s1'' ''d1'' ''device-to-server'' ''GET''
       ''/api/x?b=2&a=1'' ''body'' 1000 sample_nonce) ''GET'' ''/api/x?b=2&a=1'' ''body'' ''device-to-server'' 1001000000 300 sample_auth
     = Inr (hd (au_devices sample_auth), cr, s)"
proof -
  have a: "ascii (x @ y) \<longleftrightarrow> ascii x \<and> ascii y" for x y by (simp add: ascii_def)
  have l: "ascii ''h''" "ascii ''|''" by code_simp+
  have h: "\<forall>x. cr_sha256 ascii_crypto x \<noteq> [] \<and> ascii (cr_sha256 ascii_crypto x)"
    "\<forall>k m. cr_hmac ascii_crypto k m \<noteq> [] \<and> ascii (cr_hmac ascii_crypto k m)"
    using ascii_part_ascii a[of "''h''"] a l by (auto simp: ascii_crypto_def simp del: append_Cons append_Nil)
  have n: "32 \<le> length sample_nonce" "list_all is_hex sample_nonce" by code_simp+
  have d: "load_device sample_auth ''d1'' = Inr (hd (au_devices sample_auth))" by code_simp
  note r = signed_request_accepted[OF h d _ n, where ts = 1000 and w = 300 and now = 1001000000 and k = "''s1''"
      and cr = "hd (au_credentials sample_auth)" and dir = "''device-to-server''" and m = "''GET''"
      and tg = "''/api/x?b=2&a=1''" and b = "''body''"]
  show ?thesis
    using r by (force simp: sample_auth_def credential_usable_def ascii_crypto_def sample_crypto_def)
qed

end
