(* ===== verification/Rate_Versions.thy ===== *)
theory Rate_Versions
  imports Rate_Documents "HOL-Library.Product_Lexorder" "HOL-Library.List_Lexorder" "HOL-Library.Char_ord"
begin

text \<open>
  The tables of rate plans, versions, assignments and electric services, the barrier against a
  running data reset (\<^verbatim>\<open>app/rates/reset_barrier.py\<close>, \<^verbatim>\<open>app/data_reset/service.py\<close>), and the reading,
  validation and activation of a version (\<^verbatim>\<open>app/rates/service.py\<close>).  A call runs in one transaction
  that holds the row locks it takes, so a query that is repeated under the locks sees the same rows;
  its clock is read once.  Optional texts that no operation reads are left out.
\<close>

datatype rate_problem = RateProblem int string | ValidationError | RateIntegrity

section \<open>Tables\<close>

record utility_row =
  ut_id :: string
  ut_name :: string

record plan_row =
  pl_id :: string
  pl_utility_id :: string
  pl_code :: string
  pl_ownership_scope :: string
  pl_owner_site_id :: "string option"
  pl_owner_account_id :: "string option"
  pl_status :: string

text \<open>The payload of a version is the document it was dumped from.\<close>

record version_row =
  rv_id :: string
  rv_plan_id :: string
  rv_effective_from :: date
  rv_effective_to :: "date option"
  rv_timezone :: string
  rv_currency :: string
  rv_pricing_model :: string
  rv_source_kind :: string
  rv_payload :: "document option"
  rv_immutable :: bool
  rv_is_active :: bool
  rv_status :: string
  rv_approved_by :: "string option"
  rv_approved_at :: "instant option"
  rv_activated_by :: "string option"
  rv_activated_at :: "instant option"
  rv_automatically :: bool

record season_row =
  sr_version_id :: string
  sr_name :: string
  sr_start :: month_day
  sr_end :: month_day
  sr_priority :: int

record day_type_row =
  dt_version_id :: string
  dt_name :: string

record period_row =
  pr_version_id :: string
  pr_season_name :: string
  pr_day_type :: string
  pr_start :: int
  pr_end :: int
  pr_bucket :: string
  pr_price :: decimal
  pr_display_order :: int

record account_row =
  ac_id :: string
  ac_site_id :: string
  ac_status :: string
  ac_revision :: int
  ac_active_version :: "string option"

record assignment_row =
  ra_id :: string
  ra_account_id :: string
  ra_version_id :: string
  ra_from :: instant
  ra_to :: "instant option"
  ra_reason :: "string option"
  ra_assigned_by :: "string option"
  ra_revision :: int
  ra_cancelled_at :: "instant option"
  ra_cancelled_by :: "string option"
  ra_cancellation_reason :: "string option"
  ra_key :: "string option"
  ra_created_at :: instant

text \<open>The source link of a version joined with its artifact and extraction result.\<close>

record evidence_row =
  ev_version_id :: string
  ev_artifact_id :: "string option"
  ev_sha256 :: "string option"
  ev_parser_id :: "string option"
  ev_parser_version :: "string option"

record bill_row =
  bi_id :: string
  bi_version_id :: "string option"
  bi_status :: string
  bi_blocking_warnings :: "string list"

record field_conflict_row =
  fc_bill_id :: string
  fc_blocking :: bool
  fc_status :: string

record rate_db =
  rb_sites :: "string list"
  rb_resets :: "(string \<times> string) list"
  rb_utilities :: "utility_row list"
  rb_plans :: "plan_row list"
  rb_versions :: "version_row list"
  rb_seasons :: "season_row list"
  rb_day_types :: "day_type_row list"
  rb_periods :: "period_row list"
  rb_adjustments :: "(string \<times> adjustment) list"
  rb_fixed_charges :: "(string \<times> string \<times> decimal) list"
  rb_baseline_rules :: "(string \<times> decimal) list"
  rb_evidence :: "evidence_row list"
  rb_bills :: "bill_row list"
  rb_conflicts :: "field_conflict_row list"
  rb_accounts :: "account_row list"
  rb_assignments :: "assignment_row list"

definition find_plan :: "rate_db \<Rightarrow> string \<Rightarrow> plan_row option" where
  "find_plan s i = find (\<lambda>p. pl_id p = i) (rb_plans s)"

definition find_version :: "rate_db \<Rightarrow> string \<Rightarrow> version_row option" where
  "find_version s i = find (\<lambda>v. rv_id v = i) (rb_versions s)"

definition find_account :: "rate_db \<Rightarrow> string \<Rightarrow> account_row option" where
  "find_account s i = find (\<lambda>a. ac_id a = i) (rb_accounts s)"

section \<open>The barrier against a data reset\<close>

definition terminal_reset_state :: "string \<Rightarrow> bool" where
  "terminal_reset_state state \<longleftrightarrow> state \<in> {''completed'', ''cancelled'', ''failed_before_commit''}"

definition ensure_site_reset_mutations_allowed :: "rate_db \<Rightarrow> string list \<Rightarrow> rate_problem + unit" where
  "ensure_site_reset_mutations_allowed s site_ids =
     (if \<not> set site_ids \<subseteq> set (rb_sites s) then Inl (RateProblem 404 ''site_missing'')
      else if list_ex (\<lambda>(site, state). site \<in> set site_ids \<and> \<not> terminal_reset_state state) (rb_resets s)
      then Inl (RateProblem 409 ''data_reset_site_mutation_blocked'')
      else Inr ())"

definition rate_plan_site_ids :: "rate_db \<Rightarrow> plan_row \<Rightarrow> string list" where
  "rate_plan_site_ids s p =
     (let version_ids = map rv_id (filter (\<lambda>v. rv_plan_id v = pl_id p) (rb_versions s)) in
      sort (remdups (
        (case pl_owner_site_id p of Some i \<Rightarrow> if i = [] then [] else [i] | None \<Rightarrow> [])
        @ (case pl_owner_account_id p of
             Some a \<Rightarrow> if a = [] then [] else map ac_site_id (filter (\<lambda>x. ac_id x = a) (rb_accounts s))
           | None \<Rightarrow> [])
        @ map ac_site_id (filter (\<lambda>x. case ac_active_version x of Some v \<Rightarrow> v \<in> set version_ids | None \<Rightarrow> False)
            (rb_accounts s))
        @ concat (map (\<lambda>r. if ra_version_id r \<in> set version_ids
            then map ac_site_id (filter (\<lambda>x. ac_id x = ra_account_id r) (rb_accounts s)) else []) (rb_assignments s)))))"

definition lock_rate_plans :: "rate_db \<Rightarrow> string list \<Rightarrow> rate_problem + plan_row list" where
  "lock_rate_plans s plan_ids =
     (if set plan_ids \<subseteq> pl_id ` set (rb_plans s) then Inr (filter (\<lambda>p. pl_id p \<in> set plan_ids) (rb_plans s))
      else Inl (RateProblem 409 ''rate_plan_dependency_scope_changed''))"

definition ensure_rate_plans_reset_mutations_allowed ::
  "rate_db \<Rightarrow> plan_row list \<Rightarrow> string list \<Rightarrow> rate_problem + plan_row list"
where
  "ensure_rate_plans_reset_mutations_allowed s plans extra_site_ids =
     (let held = extra_site_ids @ concat (map (rate_plan_site_ids s) plans) in
      bindE (ensure_site_reset_mutations_allowed s held) (\<lambda>_.
      bindE (lock_rate_plans s (map pl_id plans)) (\<lambda>locked.
        if set (extra_site_ids @ concat (map (rate_plan_site_ids s) locked)) \<subseteq> set held then Inr locked
        else Inl (RateProblem 409 ''rate_plan_dependency_scope_changed''))))"

definition rate_plan_ids_for_versions :: "rate_db \<Rightarrow> string list \<Rightarrow> string list" where
  "rate_plan_ids_for_versions s version_ids =
     map rv_plan_id (filter (\<lambda>v. rv_id v \<in> set version_ids) (rb_versions s))"

definition account_rate_plan_ids :: "rate_db \<Rightarrow> string \<Rightarrow> string list" where
  "account_rate_plan_ids s account_id =
     rate_plan_ids_for_versions s
       (map ra_version_id (filter (\<lambda>r. ra_account_id r = account_id) (rb_assignments s))
        @ (case find_account s account_id of
             Some a \<Rightarrow> (case ac_active_version a of Some v \<Rightarrow> if v = [] then [] else [v] | None \<Rightarrow> [])
           | None \<Rightarrow> []))"

definition ensure_account_rate_mutations_allowed ::
  "rate_db \<Rightarrow> string \<Rightarrow> string list \<Rightarrow> rate_problem + (account_row \<times> plan_row list)"
where
  "ensure_account_rate_mutations_allowed s account_id extra_version_ids =
     (case find_account s account_id of
        None \<Rightarrow> Inl (RateProblem 404 ''not_found'')
      | Some account \<Rightarrow>
          bindE (ensure_site_reset_mutations_allowed s [ac_site_id account]) (\<lambda>_.
          bindE (lock_rate_plans s (account_rate_plan_ids s account_id @ rate_plan_ids_for_versions s extra_version_ids))
            (\<lambda>plans. Inr (account, plans))))"

section \<open>The document of a version\<close>

definition season_document_of :: "day_type_row list \<Rightarrow> period_row list \<Rightarrow> season_row \<Rightarrow> season_document" where
  "season_document_of day_types periods season =
     \<lparr>se_name = sr_name season, se_start = sr_start season, se_end = sr_end season, se_priority = sr_priority season,
      se_schedules = concat (map (\<lambda>dt.
        let matching = filter (\<lambda>q. pr_season_name q = sr_name season \<and> pr_day_type q = dt_name dt) periods
        in if matching = [] then []
           else [\<lparr>sc_day_type = dt_name dt, sc_dates = [],
                  sc_periods = map (\<lambda>q. \<lparr>pd_label = pr_bucket q, pd_start = pr_start q, pd_end = pr_end q,
                    pd_price = pr_price q\<rparr>) matching\<rparr>]) day_types)\<rparr>"

definition adjustment_documents :: "rate_db \<Rightarrow> string \<Rightarrow> adjustment list" where
  "adjustment_documents s version_id =
     (let rows = sort_key ad_order (map snd (filter (\<lambda>(v, a). v = version_id) (rb_adjustments s)))
      in if rows \<noteq> [] then rows
         else (case find (\<lambda>(v, _). v = version_id) (rb_fixed_charges s) of
                 Some (_, name, amount) \<Rightarrow>
                   [\<lparr>ad_name = name, ad_component = ''daily_fixed_charge'', ad_operation = ''add'', ad_value = amount,
                     ad_unit = ''per_day'', ad_scope = ''full_account_estimate'', ad_effective_from = None,
                     ad_effective_to = None, ad_order = 0\<rparr>]
               | None \<Rightarrow> [])
              @ (case find (\<lambda>(v, _). v = version_id) (rb_baseline_rules s) of
                   Some (_, credit) \<Rightarrow>
                     [\<lparr>ad_name = ''Baseline credit'', ad_component = ''baseline_credit'', ad_operation = ''subtract'',
                       ad_value = credit, ad_unit = ''per_kwh'', ad_scope = ''full_account_estimate'',
                       ad_effective_from = None, ad_effective_to = None, ad_order = 0\<rparr>]
                 | None \<Rightarrow> []))"

text \<open>The document of a version without a payload is put together from the rows of its tables.\<close>

definition stored_document :: "rate_db \<Rightarrow> version_row \<Rightarrow> plan_row \<Rightarrow> document" where
  "stored_document s v p =
     (let mine = rv_id v;
          seasons = sort_key (\<lambda>r. (- sr_priority r, sr_name r)) (filter (\<lambda>r. sr_version_id r = mine) (rb_seasons s));
          day_types = filter (\<lambda>r. dt_version_id r = mine) (rb_day_types s);
          periods = sort_key (\<lambda>r. (pr_display_order r, pr_start r)) (filter (\<lambda>r. pr_version_id r = mine) (rb_periods s))
      in \<lparr>do_plan_code = pl_code p,
          do_utility = (case find (\<lambda>u. ut_id u = pl_utility_id p) (rb_utilities s) of Some u \<Rightarrow> ut_name u | None \<Rightarrow> ''custom''),
          do_currency = rv_currency v, do_timezone = rv_timezone v, do_pricing_model = rv_pricing_model v,
          do_flat_rate = None, do_expected_start_day = 1,
          do_threshold = \<lparr>th_basis = ''fixed_cycle_kwh'', th_daily_baseline = None, th_rounding_policy = ''none'', th_seasonal = []\<rparr>,
          do_tiers = [], do_hybrid = None, do_ownership_scope = pl_ownership_scope p,
          do_owner_id = (if truthy (pl_owner_site_id p) then pl_owner_site_id p else pl_owner_account_id p),
          do_effective_from = rv_effective_from v, do_effective_through = rv_effective_to v,
          do_cost_scope_default = ''energy_only'',
          do_provider_mode = (if rv_source_kind v = ''official_sce'' then ''sce_delivery_generation'' else ''custom_combined''),
          do_seasons = map (season_document_of day_types periods) seasons,
          do_adjustments = adjustment_documents s mine\<rparr>)"

definition version_document :: "(string \<Rightarrow> bool) \<Rightarrow> rate_db \<Rightarrow> version_row \<Rightarrow> rate_problem + document" where
  "version_document known_zone s v =
     (let checked = (\<lambda>d. if document_ok known_zone d then Inr d else Inl ValidationError)
      in case rv_payload v of
           Some d \<Rightarrow> checked d
         | None \<Rightarrow> (case find_plan s (rv_plan_id v) of
             None \<Rightarrow> Inl (RateProblem 404 ''rate_plan_missing'')
           | Some p \<Rightarrow> checked (stored_document s v p)))"

section \<open>Validation and activation\<close>

definition candidate_kind :: "version_row \<Rightarrow> bool" where
  "candidate_kind v \<longleftrightarrow> rv_source_kind v \<in> {''official_sce_candidate'', ''utility_bill_candidate''}"

definition version_evidence :: "rate_db \<Rightarrow> version_row \<Rightarrow> (string, string) dict" where
  "version_evidence s v =
     (case find (\<lambda>e. ev_version_id e = rv_id v) (rb_evidence s) of
        None \<Rightarrow> []
      | Some e \<Rightarrow> concat (map (\<lambda>(k, x). case x of Some t \<Rightarrow> [(k, t)] | None \<Rightarrow> [])
          [(''artifact_id'', ev_artifact_id e), (''sha256'', ev_sha256 e), (''parser_id'', ev_parser_id e),
           (''parser_version'', ev_parser_version e)]))"

text \<open>The default limits of \<^verbatim>\<open>validate_document\<close>.\<close>

definition default_energy_limit :: decimal where
  "default_energy_limit = 5"

definition default_fixed_limit :: decimal where
  "default_fixed_limit = 25"

definition validate_version :: "(string \<Rightarrow> bool) \<Rightarrow> rate_db \<Rightarrow> version_row \<Rightarrow> rate_problem + report" where
  "validate_version known_zone s v =
     bindE (version_document known_zone s v) (\<lambda>d.
       Inr (validate_document (candidate_kind v) (if candidate_kind v then version_evidence s v else [])
         default_energy_limit default_fixed_limit d))"

definition bill_blocks :: "rate_db \<Rightarrow> version_row \<Rightarrow> bool \<Rightarrow> bool" where
  "bill_blocks s v automatically \<longleftrightarrow>
     (case find (\<lambda>b. bi_version_id b = Some (rv_id v)) (rb_bills s) of
        None \<Rightarrow> True
      | Some bill \<Rightarrow>
          bi_status bill \<notin> {''ready_to_publish'', ''published''} \<or> bi_blocking_warnings bill \<noteq> []
          \<or> list_ex (\<lambda>c. fc_bill_id c = bi_id bill \<and> fc_blocking c \<and> fc_status c = ''unresolved'') (rb_conflicts s)
          \<or> automatically)"

definition retire_sibling :: "version_row \<Rightarrow> version_row \<Rightarrow> version_row" where
  "retire_sibling v x =
     (if rv_plan_id x = rv_plan_id v \<and> rv_id x \<noteq> rv_id v \<and> rv_is_active x
      then x\<lparr>rv_is_active := False, rv_status := (if rv_status x \<in> {''retired'', ''removed''} then rv_status x else ''superseded'')\<rparr>
      else x)"

definition publish :: "string option \<Rightarrow> instant \<Rightarrow> bool \<Rightarrow> version_row \<Rightarrow> version_row" where
  "publish user_id now automatically v =
     v\<lparr>rv_is_active := True, rv_status := ''published'', rv_immutable := True,
       rv_approved_by := (if truthy (rv_approved_by v) then rv_approved_by v else user_id),
       rv_approved_at := or_else (rv_approved_at v) (Some now), rv_activated_by := user_id, rv_activated_at := Some now,
       rv_automatically := automatically\<rparr>"

definition activate_version ::
  "(string \<Rightarrow> bool) \<Rightarrow> string \<Rightarrow> string option \<Rightarrow> bool \<Rightarrow> instant \<Rightarrow> rate_db \<Rightarrow> rate_problem + (report \<times> rate_db)"
where
  "activate_version known_zone version_id user_id automatically now s =
     (case find_version s version_id of
        None \<Rightarrow> Inl (RateProblem 404 ''rate_version_missing'')
      | Some v \<Rightarrow> (case find_plan s (rv_plan_id v) of
          None \<Rightarrow> Inl (RateProblem 404 ''rate_plan_missing'')
        | Some p \<Rightarrow>
            bindE (ensure_rate_plans_reset_mutations_allowed s [p] []) (\<lambda>_.
            if pl_status p \<in> {''removed'', ''retired''} then Inl (RateProblem 409 ''rate_plan_removed'')
            else if rv_source_kind v = ''utility_bill_candidate'' \<and> bill_blocks s v automatically
            then Inl (RateProblem 409 ''utility_bill_review_required'')
            else bindE (validate_version known_zone s v) (\<lambda>report.
              if \<not> rp_valid report then Inl (RateProblem 422 ''rate_validation_failed'')
              else Inr (report, s\<lparr>rb_versions := map (\<lambda>x. if rv_id x = version_id then publish user_id now automatically x
                                                          else retire_sibling v x) (rb_versions s),
                     rb_plans := map (\<lambda>q. if pl_id q = pl_id p then q\<lparr>pl_status := ''active''\<rparr> else q) (rb_plans s)\<rparr>)))))"

end
