(* ===== verification/Rate_Assignments.thy ===== *)
theory Rate_Assignments
  imports Rate_Versions
begin

text \<open>
  Model of \<^verbatim>\<open>app/rates/assignments.py\<close>, the assignment of rate versions to an electric service over
  time, and of the functions of \<^verbatim>\<open>app/rates/tiered.py\<close> that read the assignments of a billing cycle.
  Instants are UTC, so \<^verbatim>\<open>aware\<close> is the identity.
\<close>

text \<open>\<^verbatim>\<open>datetime.max\<close>, in microseconds.\<close>

definition datetime_max :: instant where
  "datetime_max = naive_at (9999, 12, 31) 0 + 86399999999"

definition end_or_max :: "instant option \<Rightarrow> instant" where
  "end_or_max e = (case e of Some t \<Rightarrow> t | None \<Rightarrow> datetime_max)"

definition overlaps :: "instant \<Rightarrow> instant option \<Rightarrow> instant \<Rightarrow> instant option \<Rightarrow> bool" where
  "overlaps first_start first_end second_start second_end \<longleftrightarrow>
     first_start < end_or_max second_end \<and> second_start < end_or_max first_end"

definition before_end :: "instant option \<Rightarrow> instant \<Rightarrow> bool" where
  "before_end e t = (case e of None \<Rightarrow> True | Some u \<Rightarrow> t < u)"

definition assignment_state :: "assignment_row \<Rightarrow> instant \<Rightarrow> string" where
  "assignment_state r now =
     (if ra_cancelled_at r \<noteq> None then ''cancelled''
      else if now < ra_from r then ''scheduled''
      else if before_end (ra_to r) now then ''current''
      else ''historical'')"

definition account_assignments :: "rate_db \<Rightarrow> string \<Rightarrow> bool \<Rightarrow> assignment_row list" where
  "account_assignments s account_id include_cancelled =
     sort_key (\<lambda>r. (ra_from r, ra_created_at r))
       (filter (\<lambda>r. ra_account_id r = account_id \<and> (include_cancelled \<or> ra_cancelled_at r = None)) (rb_assignments s))"

definition rows_overlap :: "assignment_row \<Rightarrow> assignment_row \<Rightarrow> bool" where
  "rows_overlap a b \<longleftrightarrow> overlaps (ra_from a) (ra_to a) (ra_from b) (ra_to b)"

fun overlap_pairs :: "assignment_row list \<Rightarrow> (assignment_row \<times> assignment_row) list" where
  "overlap_pairs [] = []"
| "overlap_pairs (item # rest) = map (Pair item) (filter (rows_overlap item) rest) @ overlap_pairs rest"

definition conflicting_pairs :: "assignment_row list \<Rightarrow> (assignment_row \<times> assignment_row) list" where
  "conflicting_pairs assignments = overlap_pairs (filter (\<lambda>r. ra_cancelled_at r = None) assignments)"

definition conflict_ids :: "(assignment_row \<times> assignment_row) list \<Rightarrow> string list" where
  "conflict_ids pairs = sort (remdups (concat (map (\<lambda>(a, b). [ra_id a, ra_id b]) pairs)))"

section \<open>Assigning a version\<close>

definition assignable_status :: "string \<Rightarrow> bool" where
  "assignable_status st \<longleftrightarrow> st \<in> {''published'', ''active'', ''approved''}"

record assign_request =
  aq_account_id :: string
  aq_version_id :: string
  aq_from :: instant
  aq_to :: "instant option"
  aq_replace_current :: bool
  aq_reason :: "string option"
  aq_actor_id :: string
  aq_key :: "string option"
  aq_account_revision :: "int option"
  aq_assignment_revision :: "int option"

text \<open>The checks of \<^verbatim>\<open>assign_version\<close> on the service, the version, its plan and its document.\<close>

definition check_assignable :: "(string \<Rightarrow> bool) \<Rightarrow> rate_db \<Rightarrow> assign_request \<Rightarrow> account_row \<Rightarrow> rate_problem + unit" where
  "check_assignable known_zone s q account =
     (if ac_status account \<noteq> ''active'' then Inl (RateProblem 409 ''utility_account_archived'')
      else if (case aq_account_revision q of Some n \<Rightarrow> ac_revision account \<noteq> n | None \<Rightarrow> False)
      then Inl (RateProblem 409 ''stale_electric_service'')
      else case find_version s (aq_version_id q) of
        None \<Rightarrow> Inl (RateProblem 422 ''rate_version_unavailable'')
      | Some v \<Rightarrow>
          if \<not> assignable_status (rv_status v) then Inl (RateProblem 422 ''rate_version_unavailable'')
          else (case find_plan s (rv_plan_id v) of
            None \<Rightarrow> Inl (RateProblem 409 ''rate_plan_removed'')
          | Some p \<Rightarrow>
              if pl_status p \<in> {''removed'', ''retired''} \<or> rv_status v \<in> {''removed'', ''retired''}
              then Inl (RateProblem 409 ''rate_plan_removed'')
              else bindE (version_document known_zone s v) (\<lambda>d.
                if rp_valid (validate_document False [] default_energy_limit default_fixed_limit d) then Inr ()
                else Inl (RateProblem 422 ''rate_version_invalid''))))"

definition current_assignment :: "assignment_row list \<Rightarrow> instant \<Rightarrow> assignment_row option" where
  "current_assignment rows now = find (\<lambda>r. assignment_state r now = ''current'') rows"

definition row_covers :: "assignment_row \<Rightarrow> instant \<Rightarrow> bool" where
  "row_covers r t \<longleftrightarrow> ra_from r \<le> t \<and> before_end (ra_to r) t"

text \<open>The loop over the assignments of the service: rows to replace, and where an open replacement has to end.\<close>

definition plan_replacement ::
  "assign_request \<Rightarrow> assignment_row \<Rightarrow> assignment_row list \<times> instant option
   \<Rightarrow> rate_problem + (assignment_row list \<times> instant option)"
where
  "plan_replacement q item st =
     (case st of (replaced, next_future_start) \<Rightarrow>
        if \<not> overlaps (ra_from item) (ra_to item) (aq_from q) (aq_to q) then Inr st
        else if aq_replace_current q \<and> row_covers item (aq_from q) then Inr (replaced @ [item], next_future_start)
        else if aq_replace_current q \<and> aq_to q = None \<and> aq_from q < ra_from item
        then Inr (replaced, Some (case next_future_start of None \<Rightarrow> ra_from item | Some n \<Rightarrow> min n (ra_from item)))
        else Inl (RateProblem 409 ''rate_assignment_overlap''))"

definition cancel :: "instant \<Rightarrow> string \<Rightarrow> string option \<Rightarrow> assignment_row \<Rightarrow> assignment_row" where
  "cancel now actor_id reason r =
     r\<lparr>ra_cancelled_at := Some now, ra_cancelled_by := Some actor_id, ra_cancellation_reason := reason\<rparr>"

definition replace_row :: "assign_request \<Rightarrow> instant \<Rightarrow> assignment_row \<Rightarrow> assignment_row" where
  "replace_row q now r =
     (if ra_from r = aq_from q
      then cancel now (aq_actor_id q)
             (if truthy (aq_reason q) then aq_reason q else Some ''Replaced at the same effective instant'') r
      else r\<lparr>ra_to := Some (aq_from q)\<rparr>)\<lparr>ra_revision := ra_revision r + 1\<rparr>"

definition new_assignment :: "assign_request \<Rightarrow> string \<Rightarrow> instant option \<Rightarrow> instant \<Rightarrow> assignment_row" where
  "new_assignment q new_id e now =
     \<lparr>ra_id = new_id, ra_account_id = aq_account_id q, ra_version_id = aq_version_id q, ra_from = aq_from q, ra_to = e,
      ra_reason = aq_reason q, ra_assigned_by = Some (aq_actor_id q), ra_revision = 1, ra_cancelled_at = None,
      ra_cancelled_by = None, ra_cancellation_reason = None, ra_key = aq_key q, ra_created_at = now\<rparr>"

definition update_account :: "(account_row \<Rightarrow> account_row) \<Rightarrow> string \<Rightarrow> rate_db \<Rightarrow> rate_db" where
  "update_account f account_id s =
     s\<lparr>rb_accounts := map (\<lambda>a. if ac_id a = account_id then f a else a) (rb_accounts s)\<rparr>"

definition map_rows :: "(assignment_row \<Rightarrow> assignment_row) \<Rightarrow> string list \<Rightarrow> rate_db \<Rightarrow> rate_db" where
  "map_rows f ids s =
     s\<lparr>rb_assignments := map (\<lambda>r. if ra_id r \<in> set ids then f r else r) (rb_assignments s)\<rparr>"

text \<open>An insert is checked against the unique key and the window constraint of the table.\<close>

definition assignment_valid :: "assignment_row \<Rightarrow> bool" where
  "assignment_valid r \<longleftrightarrow> before_end (ra_to r) (ra_from r) \<and> 0 < ra_revision r"

definition insert_assignment :: "assignment_row \<Rightarrow> rate_db \<Rightarrow> rate_problem + rate_db" where
  "insert_assignment r s =
     (if \<not> assignment_valid r \<or> ra_id r \<in> ra_id ` set (rb_assignments s)
         \<or> (ra_key r \<noteq> None \<and> ra_key r \<in> ra_key ` set (rb_assignments s)) then Inl RateIntegrity
      else Inr (s\<lparr>rb_assignments := rb_assignments s @ [r]\<rparr>))"

definition assign_version ::
  "(string \<Rightarrow> bool) \<Rightarrow> assign_request \<Rightarrow> string \<Rightarrow> instant \<Rightarrow> rate_db
   \<Rightarrow> rate_problem + ((assignment_row \<times> string list \<times> bool) \<times> rate_db)"
where
  "assign_version known_zone q new_id now s =
     (case (if truthy (aq_key q) then find (\<lambda>r. ra_key r = aq_key q) (rb_assignments s) else None) of
        Some existing \<Rightarrow> Inr ((existing, [], assignment_state existing now = ''current''), s)
      | None \<Rightarrow>
          bindE (ensure_account_rate_mutations_allowed s (aq_account_id q) [aq_version_id q]) (\<lambda>(account, _).
          bindE (check_assignable known_zone s q account) (\<lambda>_.
          if \<not> before_end (aq_to q) (aq_from q) then Inl (RateProblem 422 ''rate_assignment_invalid'')
          else let assignments = account_assignments s (aq_account_id q) False in
            if (case aq_assignment_revision q of
                  None \<Rightarrow> False
                | Some n \<Rightarrow> (case current_assignment assignments now of None \<Rightarrow> True | Some r \<Rightarrow> ra_revision r \<noteq> n))
            then Inl (RateProblem 409 ''stale_rate_assignment'')
            else if conflicting_pairs assignments \<noteq> [] then Inl (RateProblem 409 ''rate_assignment_repair_required'')
            else bindE (foldE (plan_replacement q) assignments ([], None)) (\<lambda>(replaced, next_future_start).
              let e = (case next_future_start of Some n \<Rightarrow> Some n | None \<Rightarrow> aq_to q);
                  row = new_assignment q new_id e now;
                  effective_now = (aq_from q \<le> now \<and> before_end e now)
              in bindE (insert_assignment row (map_rows (replace_row q now) (map ra_id replaced) s)) (\<lambda>s1.
                   Inr ((row, map ra_id replaced, effective_now),
                        update_account (\<lambda>a. a\<lparr>ac_active_version := (if effective_now then Some (aq_version_id q)
                              else ac_active_version a), ac_revision := ac_revision a + 1\<rparr>) (aq_account_id q) s1))))))"

section \<open>Ending and repairing\<close>

definition end_row :: "instant \<Rightarrow> string \<Rightarrow> string \<Rightarrow> instant \<Rightarrow> assignment_row \<Rightarrow> assignment_row" where
  "end_row instant actor_id reason now r =
     (if ra_from r = instant then cancel now actor_id (Some reason) r else r\<lparr>ra_to := Some instant\<rparr>)
       \<lparr>ra_reason := Some reason, ra_revision := ra_revision r + 1\<rparr>"

definition end_assignment ::
  "string \<Rightarrow> instant \<Rightarrow> string \<Rightarrow> string \<Rightarrow> instant \<Rightarrow> rate_db \<Rightarrow> rate_problem + (assignment_row \<times> rate_db)"
where
  "end_assignment account_id instant reason actor_id now s =
     bindE (ensure_account_rate_mutations_allowed s account_id []) (\<lambda>_.
     (case find (\<lambda>r. row_covers r instant) (account_assignments s account_id False) of
        None \<Rightarrow> Inl (RateProblem 409 ''rate_assignment_not_current'')
      | Some current \<Rightarrow>
          Inr (end_row instant actor_id reason now current,
               update_account (\<lambda>a. a\<lparr>ac_active_version := (if instant \<le> now then None else ac_active_version a),
                     ac_revision := ac_revision a + 1\<rparr>) account_id
                 (map_rows (end_row instant actor_id reason now) [ra_id current] s))))"

definition cancel_row :: "instant \<Rightarrow> string \<Rightarrow> string \<Rightarrow> assignment_row \<Rightarrow> assignment_row" where
  "cancel_row now actor_id reason r = (cancel now actor_id (Some reason) r)\<lparr>ra_revision := ra_revision r + 1\<rparr>"

text \<open>\<^verbatim>\<open>sorted(expected_assignment_ids) != actual_ids\<close>, where the actual ids are sorted and distinct.\<close>

definition resolve_assignment_conflict ::
  "string \<Rightarrow> string \<Rightarrow> string list \<Rightarrow> string \<Rightarrow> string \<Rightarrow> instant \<Rightarrow> rate_db
   \<Rightarrow> rate_problem + (bool \<times> string list \<times> rate_db)"
where
  "resolve_assignment_conflict account_id keep_id expected_ids reason actor_id now s =
     bindE (ensure_account_rate_mutations_allowed s account_id []) (\<lambda>_.
       let assignments = account_assignments s account_id True;
           actual_ids = conflict_ids (conflicting_pairs assignments)
       in if actual_ids = [] then Inr (True, [], s)
          else if sort expected_ids \<noteq> actual_ids then Inl (RateProblem 409 ''stale_assignment_conflicts'')
          else (case find (\<lambda>r. ra_id r = keep_id) assignments of
            None \<Rightarrow> Inl (RateProblem 422 ''rate_assignment_resolution_invalid'')
          | Some keep \<Rightarrow>
              if keep_id \<notin> set actual_ids then Inl (RateProblem 422 ''rate_assignment_resolution_invalid'')
              else let ended = map ra_id (filter (\<lambda>r. ra_id r \<noteq> keep_id \<and> ra_id r \<in> set actual_ids) assignments) in
                if conflicting_pairs (filter (\<lambda>r. ra_id r \<notin> set ended) assignments) \<noteq> []
                then Inl (RateProblem 409 ''rate_assignment_resolution_incomplete'')
                else Inr (False, ended,
                  update_account (\<lambda>a. a\<lparr>ac_active_version := (if assignment_state keep now = ''current''
                        then Some (ra_version_id keep) else None), ac_revision := ac_revision a + 1\<rparr>) account_id
                    (map_rows (cancel_row now actor_id reason) ended s))))"

section \<open>The versions that price a billing cycle\<close>

record rate_context =
  rx_start :: instant
  rx_end :: instant
  rx_version :: version_row
  rx_document :: document

text \<open>The query of \<^verbatim>\<open>_rate_contexts\<close> has no condition on \<^verbatim>\<open>cancelled_at\<close>.\<close>

definition cycle_rows :: "rate_db \<Rightarrow> account_row \<Rightarrow> instant \<Rightarrow> instant \<Rightarrow> (string \<times> instant \<times> instant option) list" where
  "cycle_rows s account cycle_start cycle_end =
     (let rows = sort_key ra_from (filter (\<lambda>r. ra_account_id r = ac_id account \<and> ra_from r < cycle_end
            \<and> (case ra_to r of None \<Rightarrow> True | Some u \<Rightarrow> cycle_start < u)) (rb_assignments s))
      in if rows = [] \<and> truthy (ac_active_version account)
         then (case ac_active_version account of
                 Some v \<Rightarrow> if find_version s v = None then [] else [(v, cycle_start, Some cycle_end)]
               | None \<Rightarrow> [])
         else map (\<lambda>r. (ra_version_id r, ra_from r, ra_to r)) rows)"

definition row_context ::
  "(string \<Rightarrow> bool) \<Rightarrow> rate_db \<Rightarrow> instant \<Rightarrow> instant \<Rightarrow> string \<times> instant \<times> instant option \<Rightarrow> rate_problem + rate_context list"
where
  "row_context known_zone s cycle_start cycle_end row =
     (case row of (version_id, from, until) \<Rightarrow>
        (case find_version s version_id of
           None \<Rightarrow> Inr []
         | Some v \<Rightarrow>
             let start = max cycle_start from;
                 e = min cycle_end (case until of Some u \<Rightarrow> u | None \<Rightarrow> cycle_end)
             in if e \<le> start then Inr []
                else bindE (version_document known_zone s v) (\<lambda>d.
                  Inr [\<lparr>rx_start = start, rx_end = e, rx_version = v, rx_document = d\<rparr>])))"

definition rate_contexts ::
  "(string \<Rightarrow> bool) \<Rightarrow> rate_db \<Rightarrow> account_row \<Rightarrow> instant \<Rightarrow> instant \<Rightarrow> rate_problem + rate_context list"
where
  "rate_contexts known_zone s account cycle_start cycle_end =
     bindE (mapE (row_context known_zone s cycle_start cycle_end) (cycle_rows s account cycle_start cycle_end))
       (\<lambda>cs. Inr (concat cs))"

definition context_at :: "rate_context list \<Rightarrow> instant \<Rightarrow> rate_context option" where
  "context_at contexts instant = find (\<lambda>c. rx_start c \<le> instant \<and> instant < rx_end c) contexts"

end
