(* ===== verification/Rate_Timeline.thy ===== *)
theory Rate_Timeline
  imports Rate_Assignments
begin

text \<open>
  The contract of rate assignments.  The abstract state of an electric service is its timeline, which
  gives for each instant the assignment in force with its version.  Assigning a version and ending an
  assignment are operations on timelines, and the operations on the table implement them.
\<close>

section \<open>Windows\<close>

lemma rows_overlap_sym: "rows_overlap a b \<longleftrightarrow> rows_overlap b a"
  by (auto simp: rows_overlap_def overlaps_def)

lemma before_end_max: "t < datetime_max \<Longrightarrow> before_end e t \<Longrightarrow> t < end_or_max e"
  by (cases e) (auto simp: before_end_def end_or_max_def)

lemma covers_overlap: "row_covers a t \<Longrightarrow> row_covers b t \<Longrightarrow> t < datetime_max \<Longrightarrow> rows_overlap a b"
  using before_end_max[of t "ra_to a"] before_end_max[of t "ra_to b"]
  by (auto simp: row_covers_def rows_overlap_def overlaps_def)

lemma covers_interval: "row_covers r a \<Longrightarrow> row_covers r b \<Longrightarrow> a \<le> x \<Longrightarrow> x \<le> b \<Longrightarrow> row_covers r x"
  by (auto simp: row_covers_def before_end_def split: option.splits)

lemma overlap_pairs_Nil: "overlap_pairs xs = [] \<longleftrightarrow> sorted_wrt (\<lambda>a b. \<not> rows_overlap a b) xs"
  by (induction xs) (auto simp: filter_empty_conv)

lemma sorted_wrt_sym:
  assumes "\<And>a b. P a b \<longleftrightarrow> P b a" and "distinct xs"
  shows "sorted_wrt P xs \<longleftrightarrow> (\<forall>a\<in>set xs. \<forall>b\<in>set xs. a \<noteq> b \<longrightarrow> P a b)"
  using assms(2) by (induction xs) (use assms(1) in auto)

section \<open>The rows that count\<close>

definition lives :: "rate_db \<Rightarrow> string \<Rightarrow> assignment_row set" where
  "lives s acc = {r \<in> set (rb_assignments s). ra_account_id r = acc \<and> ra_cancelled_at r = None}"

definition apart :: "assignment_row set \<Rightarrow> bool" where
  "apart L \<longleftrightarrow> (\<forall>a\<in>L. \<forall>b\<in>L. a \<noteq> b \<longrightarrow> \<not> rows_overlap a b)"

definition table_ok :: "rate_db \<Rightarrow> bool" where
  "table_ok s \<longleftrightarrow> distinct (map ra_id (rb_assignments s)) \<and> (\<forall>r\<in>set (rb_assignments s). assignment_valid r)"

lemma account_assignments_set:
  "set (account_assignments s acc False) = lives s acc"
  "{r \<in> set (account_assignments s acc True). ra_cancelled_at r = None} = lives s acc"
  by (auto simp: account_assignments_def lives_def)

lemma account_assignments_distinct: "table_ok s \<Longrightarrow> distinct (map ra_id (account_assignments s acc b))"
  by (simp add: table_ok_def account_assignments_def distinct_map inj_on_def)

lemma pairs_apart:
  assumes "distinct xs"
  shows "conflicting_pairs xs = [] \<longleftrightarrow> apart {r \<in> set xs. ra_cancelled_at r = None}"
  using sorted_wrt_sym[of "\<lambda>a b. \<not> rows_overlap a b" "filter (\<lambda>r. ra_cancelled_at r = None) xs"] assms rows_overlap_sym
  by (simp add: conflicting_pairs_def overlap_pairs_Nil apart_def)

lemma conflict_free: "table_ok s \<Longrightarrow> conflicting_pairs (account_assignments s acc b) = [] \<longleftrightarrow> apart (lives s acc)"
proof -
  assume "table_ok s"
  then have "distinct (account_assignments s acc b)" using account_assignments_distinct[of s acc b] by (simp add: distinct_map)
  moreover have "{r \<in> set (account_assignments s acc b). ra_cancelled_at r = None} = lives s acc"
    by (auto simp: account_assignments_def lives_def)
  ultimately show ?thesis using pairs_apart by simp
qed

section \<open>Timelines\<close>

type_synonym timeline = "instant \<Rightarrow> (string \<times> string) option"

definition in_force :: "assignment_row list \<Rightarrow> string \<Rightarrow> instant \<Rightarrow> assignment_row option" where
  "in_force rows acc t = find (\<lambda>r. ra_account_id r = acc \<and> ra_cancelled_at r = None \<and> row_covers r t) rows"

definition timeline :: "rate_db \<Rightarrow> string \<Rightarrow> timeline" where
  "timeline s acc t = map_option (\<lambda>r. (ra_id r, ra_version_id r)) (in_force (rb_assignments s) acc t)"

lemma in_force_Some: "in_force (rb_assignments s) acc t = Some x \<Longrightarrow> x \<in> lives s acc \<and> row_covers x t"
  by (auto simp: in_force_def lives_def find_Some_iff)

lemma timeline_None: "timeline s acc t = None \<longleftrightarrow> (\<forall>r\<in>lives s acc. \<not> row_covers r t)"
  by (auto simp: timeline_def in_force_def lives_def find_None_iff)

lemma timeline_Some:
  assumes "apart (lives s acc)" and "t < datetime_max" and "r \<in> lives s acc" and "row_covers r t"
  shows "timeline s acc t = Some (ra_id r, ra_version_id r)"
proof -
  obtain x where x: "in_force (rb_assignments s) acc t = Some x"
    using assms(3,4) timeline_None[of s acc t] by (auto simp: timeline_def)
  from in_force_Some[OF this] have "x = r" using assms covers_overlap[of x t r] by (auto simp: apart_def)
  then show ?thesis using x by (simp add: timeline_def)
qed

lemma timeline_obtain:
  assumes "timeline s acc t = Some p"
  obtains r where "r \<in> lives s acc" "row_covers r t" "p = (ra_id r, ra_version_id r)"
  using assms in_force_Some[of s acc t] by (auto simp: timeline_def)

lemma lives_id: "table_ok s \<Longrightarrow> a \<in> lives s acc \<Longrightarrow> b \<in> lives s acc' \<Longrightarrow> ra_id a = ra_id b \<Longrightarrow> a = b"
  by (auto simp: table_ok_def lives_def distinct_map dest: inj_onD)

text \<open>What assigning and ending do to a timeline; \<^term>\<open>e\<close> is the end that the request asks for.\<close>

definition assigned :: "timeline \<Rightarrow> instant \<Rightarrow> instant option \<Rightarrow> string \<times> string \<Rightarrow> timeline" where
  "assigned T start e new t =
     (if t < start then T t
      else if (case e of Some u \<Rightarrow> t < u | None \<Rightarrow> \<forall>x. start \<le> x \<and> x \<le> t \<longrightarrow> T x = None \<or> T x = T start) then Some new
      else if T t = T start then None
      else T t)"

definition ended :: "timeline \<Rightarrow> instant \<Rightarrow> timeline" where
  "ended T instant t = (if instant \<le> t \<and> T t = T instant then None else T t)"

section \<open>The replacement loop\<close>

definition touched :: "assign_request \<Rightarrow> assignment_row \<Rightarrow> bool" where
  "touched q r \<longleftrightarrow> overlaps (ra_from r) (ra_to r) (aq_from q) (aq_to q)"

definition replaces :: "assign_request \<Rightarrow> assignment_row \<Rightarrow> bool" where
  "replaces q r \<longleftrightarrow> touched q r \<and> aq_replace_current q \<and> row_covers r (aq_from q)"

definition bounds_open :: "assign_request \<Rightarrow> assignment_row \<Rightarrow> bool" where
  "bounds_open q r \<longleftrightarrow> touched q r \<and> \<not> replaces q r \<and> aq_to q = None \<and> aq_from q < ra_from r"

lemma plan_replacement_cases:
  assumes "plan_replacement q r (rep, nf) = Inr (rep', nf')"
  shows "touched q r \<longrightarrow> replaces q r \<or> bounds_open q r"
    and "rep' = rep @ (if replaces q r then [r] else [])"
    and "nf' = (if bounds_open q r then Some (case nf of None \<Rightarrow> ra_from r | Some n \<Rightarrow> min n (ra_from r)) else nf)"
  using assms by (auto simp: plan_replacement_def touched_def replaces_def bounds_open_def split: if_splits)

lemma plan_loop:
  assumes "foldE (plan_replacement q) rows (rep, nf) = Inr (rep', nf')"
  shows "rep' = rep @ filter (replaces q) rows
    \<and> (\<forall>r\<in>set rows. touched q r \<longrightarrow> replaces q r \<or> bounds_open q r)
    \<and> (\<forall>r\<in>set rows. bounds_open q r \<longrightarrow> (\<exists>n. nf' = Some n \<and> n \<le> ra_from r))
    \<and> (\<forall>n. nf = Some n \<longrightarrow> (\<exists>n'. nf' = Some n' \<and> n' \<le> n))
    \<and> (\<forall>n. nf' = Some n \<longrightarrow> nf = Some n \<or> (\<exists>r\<in>set rows. bounds_open q r \<and> ra_from r = n))"
  using assms
proof (induction rows arbitrary: rep nf)
  case (Cons r rows)
  then obtain rep1 nf1 where step: "plan_replacement q r (rep, nf) = Inr (rep1, nf1)"
      and rest: "foldE (plan_replacement q) rows (rep1, nf1) = Inr (rep', nf')"
    by (auto simp: bindE_eq_Inr)
  note c = plan_replacement_cases[OF step]
  from Cons.IH[OF rest] c show ?case
    by (fastforce split: option.splits if_splits simp: min_def)
qed simp

section \<open>What an assignment writes\<close>

definition new_end :: "assign_request \<Rightarrow> instant option \<Rightarrow> instant option" where
  "new_end q nf = (case nf of Some n \<Rightarrow> Some n | None \<Rightarrow> aq_to q)"

lemma map_rows_ids: "(\<And>r. ra_id (f r) = ra_id r) \<Longrightarrow> map ra_id (rb_assignments (map_rows f ids s)) = map ra_id (rb_assignments s)"
  by (simp add: map_rows_def)

lemma assign_version_effect:
  assumes "assign_version known q new_id now s = Inr ((row, ids, eff), s')" and "table_ok s"
    and "truthy (aq_key q) \<longrightarrow> (\<forall>r\<in>set (rb_assignments s). ra_key r \<noteq> aq_key q)"
  obtains nf where "row = new_assignment q new_id (new_end q nf) now" "apart (lives s (aq_account_id q))"
    "ids = map ra_id (filter (replaces q) (account_assignments s (aq_account_id q) False))"
    "foldE (plan_replacement q) (account_assignments s (aq_account_id q) False) ([], None)
       = Inr (filter (replaces q) (account_assignments s (aq_account_id q) False), nf)"
    "before_end (aq_to q) (aq_from q)" "assignment_valid row" "new_id \<notin> ra_id ` set (rb_assignments s)"
    "rb_assignments s' = map (\<lambda>r. if ra_id r \<in> set ids then replace_row q now r else r) (rb_assignments s) @ [row]"
proof -
  let ?as = "account_assignments s (aq_account_id q) False"
  have hit: "(if truthy (aq_key q) then find (\<lambda>r. ra_key r = aq_key q) (rb_assignments s) else None) = None"
    using assms(3) by (auto simp: find_None_iff)
  from assms(1) obtain rep nf s1 where
      e: "before_end (aq_to q) (aq_from q)" and c: "conflicting_pairs ?as = []"
      and loop: "foldE (plan_replacement q) ?as ([], None) = Inr (rep, nf)"
      and row: "row = new_assignment q new_id (new_end q nf) now" and ids: "ids = map ra_id rep"
      and ins: "insert_assignment row (map_rows (replace_row q now) (map ra_id rep) s) = Inr s1"
      and s': "rb_assignments s' = rb_assignments s1"
    unfolding assign_version_def hit
    by (auto simp: bindE_eq_Inr Let_def new_end_def update_account_def split: if_splits) blast+
  have rep: "rep = filter (replaces q) ?as" using plan_loop[OF loop] by simp
  have ap: "apart (lives s (aq_account_id q))" using c conflict_free[OF assms(2)] by simp
  have kept: "ra_id (replace_row q now r) = ra_id r" for r by (simp add: replace_row_def cancel_def)
  have "ra_id ` set (rb_assignments (map_rows (replace_row q now) (map ra_id rep) s)) = ra_id ` set (rb_assignments s)"
    using map_rows_ids[of "replace_row q now"] kept by (metis list.set_map)
  then show thesis
    using that[of nf] row ap ids rep loop e ins s'
    by (auto simp: insert_assignment_def map_rows_def new_assignment_def split: if_splits)
qed

lemma replaced_iff:
  assumes "table_ok s" and "r \<in> set (rb_assignments s)"
  shows "ra_id r \<in> ra_id ` set (filter (replaces q) (account_assignments s acc False)) \<longleftrightarrow> r \<in> lives s acc \<and> replaces q r"
proof -
  have "x = r" if "x \<in> lives s acc" "ra_id x = ra_id r" for x
    using assms that by (auto simp: table_ok_def lives_def distinct_map dest: inj_onD)
  then show ?thesis using account_assignments_set(1)[of s acc] by (auto simp: image_iff)
qed

lemma replace_row_simps [simp]:
  "ra_id (replace_row q now r) = ra_id r" "ra_account_id (replace_row q now r) = ra_account_id r"
  "ra_version_id (replace_row q now r) = ra_version_id r" "ra_from (replace_row q now r) = ra_from r"
  "ra_revision (replace_row q now r) = ra_revision r + 1"
  "ra_cancelled_at (replace_row q now r) = (if ra_from r = aq_from q then Some now else ra_cancelled_at r)"
  "ra_to (replace_row q now r) = (if ra_from r = aq_from q then ra_to r else Some (aq_from q))"
  by (simp_all add: replace_row_def cancel_def)

text \<open>The live rows afterwards: the rows that are cut, the rows that are left, and the new one.\<close>

lemma assign_lives:
  assumes "table_ok s" and "ids = map ra_id (filter (replaces q) (account_assignments s (aq_account_id q) False))"
    and "rb_assignments s' = map (\<lambda>r. if ra_id r \<in> set ids then replace_row q now r else r) (rb_assignments s) @ [row]"
    and "row = new_assignment q new_id e now"
  shows "lives s' (aq_account_id q) = replace_row q now ` {r \<in> lives s (aq_account_id q). replaces q r \<and> ra_from r \<noteq> aq_from q}
      \<union> {r \<in> lives s (aq_account_id q). \<not> replaces q r} \<union> {row}" (is "?l = ?r")
    and "acc \<noteq> aq_account_id q \<Longrightarrow> lives s' acc = lives s acc"
proof -
  let ?f = "\<lambda>r. if r \<in> lives s (aq_account_id q) \<and> replaces q r then replace_row q now r else r"
  have rows: "set (rb_assignments s') = ?f ` set (rb_assignments s) \<union> {row}"
    using assms(3) replaced_iff[OF assms(1)] by (auto simp: assms(2))
  have row: "ra_account_id row = aq_account_id q" "ra_cancelled_at row = None" by (simp_all add: assms(4) new_assignment_def)
  have live: "?f r \<in> lives s' acc \<longleftrightarrow> ra_account_id r = acc \<and> ra_cancelled_at (?f r) = None" if "r \<in> set (rb_assignments s)" for r acc
    using that by (auto simp: lives_def rows)
  show "?l = ?r"
  proof (intro equalityI subsetI)
    fix x assume x: "x \<in> ?l"
    then consider "x = row" | r where "r \<in> set (rb_assignments s)" "x = ?f r" by (auto simp: lives_def rows)
    then show "x \<in> ?r"
    proof cases
      case (2 r)
      then have "ra_account_id r = aq_account_id q" "ra_cancelled_at (?f r) = None" using x live by auto
      then show ?thesis using 2 by (auto simp: lives_def split: if_splits)
    qed simp
  next
    fix x assume "x \<in> ?r"
    then show "x \<in> ?l" using row by (force simp: lives_def rows)
  qed
  show "lives s' acc = lives s acc" if "acc \<noteq> aq_account_id q"
    using that row by (force simp: lives_def rows)
qed

lemma touchedI: "row_covers r t \<Longrightarrow> aq_from q \<le> t \<Longrightarrow> before_end (aq_to q) t \<Longrightarrow> t < datetime_max \<Longrightarrow> touched q r"
  using before_end_max[of t "ra_to r"] before_end_max[of t "aq_to q"] by (auto simp: touched_def overlaps_def row_covers_def)

text \<open>The loop in terms of the live rows.\<close>

lemma loop_lives:
  assumes "foldE (plan_replacement q) (account_assignments s acc False) ([], None) = Inr (rep, nf)"
  shows "r \<in> lives s acc \<Longrightarrow> touched q r \<Longrightarrow> \<not> replaces q r \<Longrightarrow> bounds_open q r"
    and "r \<in> lives s acc \<Longrightarrow> bounds_open q r \<Longrightarrow> \<exists>n. nf = Some n \<and> n \<le> ra_from r"
    and "nf = Some n \<Longrightarrow> \<exists>r\<in>lives s acc. bounds_open q r \<and> ra_from r = n"
  using plan_loop[OF assms] by (auto simp: account_assignments_set(1))

lemma new_row_apart:
  assumes "foldE (plan_replacement q) (account_assignments s acc False) ([], None) = Inr (rep, nf)"
    and "r \<in> lives s acc" and "\<not> replaces q r"
  shows "\<not> overlaps (ra_from r) (ra_to r) (aq_from q) (new_end q nf)"
proof (cases "bounds_open q r")
  case True
  then show ?thesis using loop_lives(2)[OF assms(1,2) True] by (auto simp: overlaps_def new_end_def end_or_max_def)
next
  case False
  then have not: "\<not> touched q r" using loop_lives(1)[OF assms(1,2)] assms(3) by blast
  show ?thesis
  proof (cases nf)
    case (Some n)
    from loop_lives(3)[OF assms(1) this] obtain x where "bounds_open q x" "ra_from x = n" by blast
    then have "n < datetime_max" "aq_to q = None" by (auto simp: bounds_open_def touched_def overlaps_def end_or_max_def)
    then show ?thesis using not by (auto simp: touched_def overlaps_def new_end_def Some end_or_max_def)
  qed (use not in \<open>simp add: new_end_def touched_def\<close>)
qed

lemma cut_apart:
  assumes "replaces q r" and "ra_from r \<noteq> aq_from q" and "\<not> rows_overlap r x"
  shows "\<not> rows_overlap (replace_row q now r) x"
  using assms by (auto simp: rows_overlap_def overlaps_def replaces_def touched_def end_or_max_def split: option.splits)

lemma cuts_apart:
  assumes "replaces q r" and "ra_from r \<noteq> aq_from q" and "replaces q x" and "ra_from x \<noteq> aq_from q" and "\<not> rows_overlap r x"
  shows "\<not> rows_overlap (replace_row q now r) (replace_row q now x)"
  using cut_apart[OF assms(3,4)] cut_apart[OF assms(1,2,5)] rows_overlap_sym by blast

lemma apart_Un:
  assumes "apart A" and "apart B" and "\<And>a b. a \<in> A \<Longrightarrow> b \<in> B \<Longrightarrow> \<not> rows_overlap a b"
  shows "apart (A \<union> B)"
  using assms rows_overlap_sym unfolding apart_def by (metis Un_iff)

lemma assign_apart:
  assumes "assign_version known q new_id now s = Inr ((row, ids, eff), s')" and "table_ok s"
    and "truthy (aq_key q) \<longrightarrow> (\<forall>r\<in>set (rb_assignments s). ra_key r \<noteq> aq_key q)"
  shows "apart (lives s' (aq_account_id q))"
proof -
  obtain nf where row: "row = new_assignment q new_id (new_end q nf) now" and ap: "apart (lives s (aq_account_id q))"
      and ids: "ids = map ra_id (filter (replaces q) (account_assignments s (aq_account_id q) False))"
      and loop: "foldE (plan_replacement q) (account_assignments s (aq_account_id q) False) ([], None)
        = Inr (filter (replaces q) (account_assignments s (aq_account_id q) False), nf)"
      and _: "before_end (aq_to q) (aq_from q)" "assignment_valid row" "new_id \<notin> ra_id ` set (rb_assignments s)"
      and rows: "rb_assignments s' = map (\<lambda>r. if ra_id r \<in> set ids then replace_row q now r else r) (rb_assignments s) @ [row]"
    by (rule assign_version_effect[OF assms])
  let ?L = "lives s (aq_account_id q)"
  have new: "\<not> rows_overlap r row" if "r \<in> ?L" "\<not> replaces q r" for r
    using new_row_apart[OF loop that] by (simp add: rows_overlap_def row new_assignment_def)
  have cut: "\<not> rows_overlap (replace_row q now r) row" if "ra_from r \<noteq> aq_from q" for r
    using that by (simp add: rows_overlap_def overlaps_def row new_assignment_def end_or_max_def)
  let ?C = "{r \<in> ?L. replaces q r \<and> ra_from r \<noteq> aq_from q}" and ?K = "{r \<in> ?L. \<not> replaces q r}"
  have pair: "\<not> rows_overlap a b" if "a \<in> ?L" "b \<in> ?L" "a \<noteq> b" for a b using ap that by (auto simp: apart_def)
  have "apart (replace_row q now ` ?C)"
    unfolding apart_def
  proof (intro ballI impI)
    fix a b assume "a \<in> replace_row q now ` ?C" "b \<in> replace_row q now ` ?C" "a \<noteq> b"
    then obtain x y where xy: "x \<in> ?C" "y \<in> ?C" "x \<noteq> y" "a = replace_row q now x" "b = replace_row q now y" by blast
    then have "\<not> rows_overlap x y" using pair by simp
    then show "\<not> rows_overlap a b" using xy cuts_apart by simp
  qed
  moreover have "apart ?K" using pair by (auto simp: apart_def)
  moreover have "\<not> rows_overlap a b" if ab: "a \<in> replace_row q now ` ?C" "b \<in> ?K" for a b
  proof -
    obtain x where x: "x \<in> ?C" "a = replace_row q now x" using ab(1) by blast
    then have "\<not> rows_overlap x b" using pair[of x b] ab(2) by auto
    then show ?thesis using x cut_apart by simp
  qed
  moreover have "\<not> rows_overlap a row" if "a \<in> replace_row q now ` ?C \<union> ?K" for a
    using that new cut by blast
  ultimately show ?thesis
    unfolding assign_lives(1)[OF assms(2) ids rows row] by (intro apart_Un) (simp_all add: apart_def)
qed

lemma cut_covers: "ra_from r \<noteq> aq_from q \<Longrightarrow> row_covers (replace_row q now r) t \<longleftrightarrow> ra_from r \<le> t \<and> t < aq_from q"
  by (simp add: row_covers_def before_end_def)

lemma replaced_covers: "replaces q r \<Longrightarrow> t < aq_from q \<Longrightarrow> row_covers r t \<longleftrightarrow> ra_from r \<le> t \<and> ra_from r \<noteq> aq_from q"
  by (auto simp: replaces_def row_covers_def before_end_def split: option.splits)

text \<open>Who row_covers an instant afterwards.\<close>

lemma assign_covers:
  assumes "table_ok s" and "ids = map ra_id (filter (replaces q) (account_assignments s (aq_account_id q) False))"
    and "rb_assignments s' = map (\<lambda>r. if ra_id r \<in> set ids then replace_row q now r else r) (rb_assignments s) @ [row]"
    and "row = new_assignment q new_id e now"
  shows "(\<exists>x\<in>lives s' (aq_account_id q). row_covers x t \<and> (ra_id x, ra_version_id x) = p) \<longleftrightarrow>
    aq_from q \<le> t \<and> before_end e t \<and> p = (new_id, aq_version_id q)
    \<or> (\<exists>r\<in>lives s (aq_account_id q). row_covers r t \<and> (ra_id r, ra_version_id r) = p \<and> (t < aq_from q \<or> \<not> replaces q r))"
proof -
  let ?L = "lives s (aq_account_id q)"
  let ?P = "\<lambda>x. row_covers x t \<and> (ra_id x, ra_version_id x) = p"
  have "(\<exists>x\<in>lives s' (aq_account_id q). ?P x)
      \<longleftrightarrow> (\<exists>r\<in>?L. replaces q r \<and> ra_from r \<noteq> aq_from q \<and> ?P (replace_row q now r)) \<or> (\<exists>r\<in>?L. \<not> replaces q r \<and> ?P r) \<or> ?P row"
    unfolding assign_lives(1)[OF assms] by blast
  also have "?P row \<longleftrightarrow> aq_from q \<le> t \<and> before_end e t \<and> p = (new_id, aq_version_id q)"
    by (auto simp: assms(4) new_assignment_def row_covers_def)
  also have "(\<exists>r\<in>?L. replaces q r \<and> ra_from r \<noteq> aq_from q \<and> ?P (replace_row q now r))
      \<longleftrightarrow> (\<exists>r\<in>?L. replaces q r \<and> t < aq_from q \<and> ?P r)"
    using cut_covers[of _ q now t] replaced_covers[of q _ t] by auto
  finally show ?thesis by blast
qed

lemma timeline_iff:
  assumes "apart (lives s acc)" and "t < datetime_max"
  shows "timeline s acc t = Some p \<longleftrightarrow> (\<exists>r\<in>lives s acc. row_covers r t \<and> (ra_id r, ra_version_id r) = p)"
  using timeline_Some[OF assms] timeline_obtain[of s acc t p] by metis

lemma timeline_row:
  assumes "table_ok s" and "apart (lives s acc)" and "t < datetime_max" and "r \<in> lives s acc"
  shows "timeline s acc t = Some (ra_id r, ra_version_id r) \<longleftrightarrow> row_covers r t"
proof
  assume "timeline s acc t = Some (ra_id r, ra_version_id r)"
  then obtain x where "x \<in> lives s acc" "row_covers x t" "ra_id x = ra_id r" using timeline_iff[OF assms(2,3)] by auto
  then show "row_covers r t" using lives_id[OF assms(1) _ assms(4)] by blast
qed (rule timeline_Some[OF assms(2-4)])

text \<open>A live row is replaced exactly when it is in force at the start of the new window.\<close>

lemma replaces_iff:
  assumes "foldE (plan_replacement q) (account_assignments s acc False) ([], None) = Inr (rep, nf)"
    and "table_ok s" and "apart (lives s acc)" and "before_end (aq_to q) (aq_from q)"
    and "r \<in> lives s acc" and "row_covers r t" and "aq_from q \<le> t" and "t < datetime_max"
  shows "replaces q r \<longleftrightarrow> timeline s acc t = timeline s acc (aq_from q)"
proof -
  have "replaces q r \<longleftrightarrow> row_covers r (aq_from q)"
  proof
    assume c: "row_covers r (aq_from q)"
    then have "touched q r" using assms(4,7,8) by (intro touchedI[of r "aq_from q"]) auto
    then show "replaces q r" using loop_lives(1)[OF assms(1,5)] c by (auto simp: bounds_open_def row_covers_def)
  qed (simp add: replaces_def)
  moreover have "timeline s acc t = Some (ra_id r, ra_version_id r)" by (rule timeline_Some[OF assms(3,8,5,6)])
  moreover have "timeline s acc (aq_from q) = Some (ra_id r, ra_version_id r) \<longleftrightarrow> row_covers r (aq_from q)"
    using timeline_row[OF assms(2,3) _ assms(5)] assms(7,8) by simp
  ultimately show ?thesis by auto
qed

text \<open>The window of the new row ends where the request or the next row of the service says.\<close>

lemma new_end_iff:
  assumes "foldE (plan_replacement q) (account_assignments s acc False) ([], None) = Inr (rep, nf)"
    and "table_ok s" and "apart (lives s acc)" and "before_end (aq_to q) (aq_from q)"
    and "aq_from q \<le> t" and "t < datetime_max"
  shows "before_end (new_end q nf) t \<longleftrightarrow> (case aq_to q of Some u \<Rightarrow> t < u
    | None \<Rightarrow> \<forall>x. aq_from q \<le> x \<and> x \<le> t \<longrightarrow> timeline s acc x = None \<or> timeline s acc x = timeline s acc (aq_from q))"
proof (cases "aq_to q")
  case (Some u)
  then have "nf = None" using loop_lives(3)[OF assms(1)] by (cases nf) (auto simp: bounds_open_def)
  then show ?thesis using Some by (simp add: new_end_def before_end_def)
next
  case None
  let ?T = "timeline s acc"
  have "(\<forall>x. aq_from q \<le> x \<and> x \<le> t \<longrightarrow> ?T x = None \<or> ?T x = ?T (aq_from q)) \<longleftrightarrow> before_end nf t"
  proof
    assume all: "\<forall>x. aq_from q \<le> x \<and> x \<le> t \<longrightarrow> ?T x = None \<or> ?T x = ?T (aq_from q)"
    show "before_end nf t"
    proof (rule ccontr)
      assume "\<not> before_end nf t"
      then obtain n where n: "nf = Some n" "n \<le> t" by (cases nf) (auto simp: before_end_def)
      from loop_lives(3)[OF assms(1) n(1)] obtain r where r: "r \<in> lives s acc" "bounds_open q r" "ra_from r = n" by blast
      have c: "row_covers r n" using r assms(2) by (auto simp: row_covers_def table_ok_def lives_def assignment_valid_def)
      have "aq_from q \<le> n" "n < datetime_max" using r n(2) assms(6) by (auto simp: bounds_open_def)
      moreover have "?T n = Some (ra_id r, ra_version_id r)" using timeline_Some[OF assms(3) _ r(1) c] n(2) assms(6) by simp
      ultimately show False using all n(2) replaces_iff[OF assms(1-4) r(1) c] r(2) by (auto simp: bounds_open_def)
    qed
  next
    assume be: "before_end nf t"
    show "\<forall>x. aq_from q \<le> x \<and> x \<le> t \<longrightarrow> ?T x = None \<or> ?T x = ?T (aq_from q)"
    proof (intro allI impI)
      fix x assume x: "aq_from q \<le> x \<and> x \<le> t"
      show "?T x = None \<or> ?T x = ?T (aq_from q)"
      proof (cases "?T x")
        case (Some p)
        then obtain r where r: "r \<in> lives s acc" "row_covers r x" by (rule timeline_obtain)
        have "touched q r" using r(2) x None assms(6) by (intro touchedI[of r x]) (auto simp: before_end_def)
        moreover have "\<not> bounds_open q r"
          using loop_lives(2)[OF assms(1) r(1)] be x r(2) by (auto simp: before_end_def row_covers_def)
        ultimately have "replaces q r" using loop_lives(1)[OF assms(1) r(1)] by blast
        then show ?thesis using replaces_iff[OF assms(1-4) r] x assms(6) by simp
      qed simp
    qed
  qed
  then show ?thesis using None by (simp add: new_end_def split: option.splits)
qed

lemma assign_timeline:
  assumes "assign_version known q new_id now s = Inr ((row, ids, eff), s')" and "table_ok s"
    and "truthy (aq_key q) \<longrightarrow> (\<forall>r\<in>set (rb_assignments s). ra_key r \<noteq> aq_key q)" and "t < datetime_max"
  shows "timeline s' (aq_account_id q) t
    = assigned (timeline s (aq_account_id q)) (aq_from q) (aq_to q) (new_id, aq_version_id q) t"
proof -
  let ?acc = "aq_account_id q"
  obtain nf where row: "row = new_assignment q new_id (new_end q nf) now" and ap: "apart (lives s ?acc)"
      and ids: "ids = map ra_id (filter (replaces q) (account_assignments s ?acc False))"
      and loop: "foldE (plan_replacement q) (account_assignments s ?acc False) ([], None)
        = Inr (filter (replaces q) (account_assignments s ?acc False), nf)"
      and win: "before_end (aq_to q) (aq_from q)" "assignment_valid row" "new_id \<notin> ra_id ` set (rb_assignments s)"
      and rows: "rb_assignments s' = map (\<lambda>r. if ra_id r \<in> set ids then replace_row q now r else r) (rb_assignments s) @ [row]"
    by (rule assign_version_effect[OF assms(1-3)])
  let ?T = "timeline s ?acc"
  have after: "timeline s' ?acc t = Some p \<longleftrightarrow> aq_from q \<le> t \<and> before_end (new_end q nf) t \<and> p = (new_id, aq_version_id q)
      \<or> (\<exists>r\<in>lives s ?acc. row_covers r t \<and> (ra_id r, ra_version_id r) = p \<and> (t < aq_from q \<or> \<not> replaces q r))" for p
    by (simp only: timeline_iff[OF assign_apart[OF assms(1-3)] assms(4)] assign_covers[OF assms(2) ids rows row])
  show ?thesis
  proof (cases "t < aq_from q")
    case True
    then have "timeline s' ?acc t = Some p \<longleftrightarrow> ?T t = Some p" for p
      using after timeline_iff[OF ap assms(4)] by auto
    then show ?thesis using True by (cases "?T t"; cases "timeline s' ?acc t") (auto simp: assigned_def)
  next
    case False
    show ?thesis
    proof (cases "before_end (new_end q nf) t")
      case True
      then have "timeline s' ?acc t = Some (new_id, aq_version_id q)" using after False by simp
      then show ?thesis
        using True False new_end_iff[OF loop assms(2) ap win(1) _ assms(4)] by (simp add: assigned_def)
    next
      case no: False
      have "timeline s' ?acc t = Some p \<longleftrightarrow> ?T t = Some p \<and> ?T t \<noteq> ?T (aq_from q)" for p
        using after no False timeline_iff[OF ap assms(4)] replaces_iff[OF loop assms(2) ap win(1) _ _ _ assms(4)] by auto
      then have "timeline s' ?acc t = (if ?T t = ?T (aq_from q) then None else ?T t)"
        by (cases "?T t"; cases "timeline s' ?acc t") auto
      then show ?thesis
        using no False new_end_iff[OF loop assms(2) ap win(1) _ assms(4)] by (simp add: assigned_def)
    qed
  qed
qed

lemma table_ok_rows:
  assumes "table_ok s" and "rb_assignments s' = map f (rb_assignments s) @ ys" and "\<And>r. ra_id (f r) = ra_id r"
    and "\<And>r. r \<in> set (rb_assignments s) \<Longrightarrow> assignment_valid r \<Longrightarrow> assignment_valid (f r)"
    and "distinct (map ra_id ys)" and "\<forall>y\<in>set ys. assignment_valid y \<and> ra_id y \<notin> ra_id ` set (rb_assignments s)"
  shows "table_ok s'"
proof -
  have "map ra_id (map f (rb_assignments s)) = map ra_id (rb_assignments s)" using assms(3) by simp
  then have "map ra_id (rb_assignments s') = map ra_id (rb_assignments s) @ map ra_id ys" by (simp add: assms(2))
  moreover have "ra_id ` set (rb_assignments s) \<inter> ra_id ` set ys = {}" using assms(6) by (auto simp: image_iff) metis
  ultimately have "distinct (map ra_id (rb_assignments s'))" using assms(1,5) by (simp add: table_ok_def)
  then show ?thesis using assms(1,2,4,6) by (auto simp: table_ok_def)
qed

lemma assign_table:
  assumes "assign_version known q new_id now s = Inr ((row, ids, eff), s')" and "table_ok s"
    and "truthy (aq_key q) \<longrightarrow> (\<forall>r\<in>set (rb_assignments s). ra_key r \<noteq> aq_key q)"
  shows "table_ok s'" and "acc \<noteq> aq_account_id q \<Longrightarrow> lives s' acc = lives s acc"
proof -
  let ?acc = "aq_account_id q"
  obtain nf where row: "row = new_assignment q new_id (new_end q nf) now" and _: "apart (lives s ?acc)"
      and ids: "ids = map ra_id (filter (replaces q) (account_assignments s ?acc False))"
      and _: "foldE (plan_replacement q) (account_assignments s ?acc False) ([], None)
        = Inr (filter (replaces q) (account_assignments s ?acc False), nf)"
      and win: "before_end (aq_to q) (aq_from q)" "assignment_valid row" "new_id \<notin> ra_id ` set (rb_assignments s)"
      and rows: "rb_assignments s' = map (\<lambda>r. if ra_id r \<in> set ids then replace_row q now r else r) (rb_assignments s) @ [row]"
    by (rule assign_version_effect[OF assms])
  have "assignment_valid (replace_row q now r)" if "assignment_valid r" "replaces q r" for r
    using that by (auto simp: assignment_valid_def before_end_def replaces_def row_covers_def split: option.splits)
  then show "table_ok s'"
    using replaced_iff[OF assms(2)] win row
    by (intro table_ok_rows[OF assms(2) rows]) (auto simp: ids new_assignment_def)
  show "acc \<noteq> ?acc \<Longrightarrow> lives s' acc = lives s acc" by (rule assign_lives(2)[OF assms(2) ids rows row])
qed

text \<open>The timeline of a service depends on its own rows only.\<close>

lemma in_force_own:
  assumes "\<And>r. r \<in> set rows \<Longrightarrow> ra_account_id (f r) = ra_account_id r \<and> (ra_account_id r = acc \<longrightarrow> f r = r)"
    and "\<forall>y\<in>set ys. ra_account_id y \<noteq> acc"
  shows "in_force (map f rows @ ys) acc t = in_force rows acc t"
proof -
  have none: "in_force ys acc t = None" using assms(2) by (auto simp: in_force_def find_None_iff)
  from assms(1) show ?thesis
  proof (induction rows)
    case Nil
    then show ?case using none by (simp add: in_force_def)
  next
    case (Cons r rows)
    have "ra_account_id (f r) = ra_account_id r \<and> (ra_account_id r = acc \<longrightarrow> f r = r)" using Cons.prems by simp
    then show ?case using Cons by (auto simp: in_force_def)
  qed
qed

lemma assign_others:
  assumes "assign_version known q new_id now s = Inr ((row, ids, eff), s')" and "table_ok s"
    and "truthy (aq_key q) \<longrightarrow> (\<forall>r\<in>set (rb_assignments s). ra_key r \<noteq> aq_key q)" and "acc \<noteq> aq_account_id q"
  shows "timeline s' acc t = timeline s acc t"
proof -
  let ?acc = "aq_account_id q"
  obtain nf where row: "row = new_assignment q new_id (new_end q nf) now" and _: "apart (lives s ?acc)"
      and ids: "ids = map ra_id (filter (replaces q) (account_assignments s ?acc False))"
      and _: "foldE (plan_replacement q) (account_assignments s ?acc False) ([], None)
        = Inr (filter (replaces q) (account_assignments s ?acc False), nf)"
      and _: "before_end (aq_to q) (aq_from q)" "assignment_valid row" "new_id \<notin> ra_id ` set (rb_assignments s)"
      and rows: "rb_assignments s' = map (\<lambda>r. if ra_id r \<in> set ids then replace_row q now r else r) (rb_assignments s) @ [row]"
    by (rule assign_version_effect[OF assms(1-3)])
  have "ra_id r \<notin> set ids" if "r \<in> set (rb_assignments s)" "ra_account_id r = acc" for r
    using replaced_iff[OF assms(2) that(1), of q ?acc] that(2) assms(4) by (auto simp: ids lives_def)
  then have "in_force (rb_assignments s') acc t = in_force (rb_assignments s) acc t"
    unfolding rows using assms(4) by (intro in_force_own) (auto simp: row new_assignment_def)
  then show ?thesis by (simp add: timeline_def)
qed

lemma timeline_lives:
  assumes "lives s' acc = lives s acc" and "apart (lives s acc)" and "t < datetime_max"
  shows "timeline s' acc t = timeline s acc t"
proof -
  have "timeline s' acc t = Some p \<longleftrightarrow> timeline s acc t = Some p" for p
    using timeline_iff[of s acc t p] timeline_iff[of s' acc t p] assms by simp
  then show ?thesis by (cases "timeline s acc t"; cases "timeline s' acc t") auto
qed

section \<open>Ending and repairing\<close>

lemma end_row_simps [simp]:
  "ra_id (end_row at' actor reason now r) = ra_id r" "ra_account_id (end_row at' actor reason now r) = ra_account_id r"
  "ra_version_id (end_row at' actor reason now r) = ra_version_id r" "ra_from (end_row at' actor reason now r) = ra_from r"
  "ra_revision (end_row at' actor reason now r) = ra_revision r + 1"
  "ra_cancelled_at (end_row at' actor reason now r) = (if ra_from r = at' then Some now else ra_cancelled_at r)"
  "ra_to (end_row at' actor reason now r) = (if ra_from r = at' then ra_to r else Some at')"
  by (simp_all add: end_row_def cancel_def)

lemma end_assignment_effect:
  assumes "end_assignment acc at' reason actor now s = Inr (row, s')"
  obtains r where "r \<in> lives s acc" "row_covers r at'"
    "rb_assignments s' = map (\<lambda>x. if ra_id x = ra_id r then end_row at' actor reason now x else x) (rb_assignments s) @ []"
proof -
  obtain r where r: "find (\<lambda>r. row_covers r at') (account_assignments s acc False) = Some r"
      "rb_assignments s' = map (\<lambda>x. if ra_id x = ra_id r then end_row at' actor reason now x else x) (rb_assignments s)"
    using assms by (auto simp: end_assignment_def bindE_eq_Inr map_rows_def update_account_def split: option.splits)
  then have "r \<in> set (account_assignments s acc False)" "row_covers r at'" by (auto simp: find_Some_iff)
  then show thesis using that r(2) account_assignments_set(1)[of s acc] by simp
qed

lemma end_assignment_timeline:
  assumes "end_assignment acc at' reason actor now s = Inr (row, s')" and "table_ok s" and "apart (lives s acc)"
    and "at' \<le> datetime_max"
  shows "table_ok s'" and "apart (lives s' acc)" and "acc' \<noteq> acc \<Longrightarrow> lives s' acc' = lives s acc'"
    and "t < datetime_max \<Longrightarrow> timeline s' acc t = ended (timeline s acc) at' t"
proof -
  obtain r where r: "r \<in> lives s acc" "row_covers r at'" and rows: "rb_assignments s'
      = map (\<lambda>x. if ra_id x = ra_id r then end_row at' actor reason now x else x) (rb_assignments s) @ []"
    by (rule end_assignment_effect[OF assms(1)])
  let ?e = "end_row at' actor reason now r"
  have same: "x = r" if "x \<in> set (rb_assignments s)" "ra_id x = ra_id r" for x
    using that r(1) assms(2) by (auto simp: table_ok_def lives_def distinct_map dest: inj_onD)
  have "assignment_valid ?e" if "assignment_valid r"
    using r(2) that by (auto simp: assignment_valid_def before_end_def row_covers_def)
  then show "table_ok s'" using same by (intro table_ok_rows[OF assms(2) rows]) auto
  have set: "set (rb_assignments s') = (\<lambda>x. if x = r then ?e else x) ` set (rb_assignments s)"
    unfolding rows append_Nil2 set_map by (rule image_cong) (use same in auto)
  have lives: "lives s' acc = (lives s acc - {r}) \<union> (if ra_from r = at' then {} else {?e})"
  proof -
    have "?e \<noteq> r" by (metis end_row_simps(5) less_add_one less_irrefl)
    then show ?thesis using r(1) by (auto simp: lives_def set split: if_splits)
  qed
  show "acc' \<noteq> acc \<Longrightarrow> lives s' acc' = lives s acc'" using r(1) by (auto simp: lives_def set)
  have sub: "rows_overlap ?e x \<Longrightarrow> rows_overlap r x" if "ra_from r \<noteq> at'" for x
    using that r(2) assms(4)
    by (auto simp: rows_overlap_def overlaps_def end_or_max_def row_covers_def before_end_def split: option.splits)
  show ap: "apart (lives s' acc)"
  proof (cases "ra_from r = at'")
    case True
    then show ?thesis using assms(3) by (simp add: lives apart_def)
  next
    case False
    have "\<not> rows_overlap x ?e" if "x \<in> lives s acc - {r}" for x
      using that sub[OF False, of x] assms(3) r(1) rows_overlap_sym[of x] by (auto simp: apart_def)
    then have "apart ((lives s acc - {r}) \<union> {?e})"
      using assms(3) by (intro apart_Un) (simp_all add: apart_def)
    then show ?thesis using False by (simp add: lives)
  qed
  show "timeline s' acc t = ended (timeline s acc) at' t" if t: "t < datetime_max"
  proof -
    have e: "row_covers ?e t \<longleftrightarrow> row_covers r t \<and> t < at'" if "ra_from r \<noteq> at'"
      using that r(2) by (auto simp: row_covers_def before_end_def split: option.splits)
    have at: "timeline s acc t = timeline s acc at' \<longleftrightarrow> row_covers r t" if "at' \<le> t"
      using that t r(2) timeline_row[OF assms(2,3) t r(1)] timeline_Some[OF assms(3) _ r] by simp
    have early: "\<not> row_covers r t" if "ra_from r = at'" "t < at'" using that by (simp add: row_covers_def)
    have "timeline s' acc t = Some p \<longleftrightarrow> timeline s acc t = Some p \<and> \<not> (at' \<le> t \<and> row_covers r t)" for p
    proof -
      let ?P = "\<lambda>x. row_covers x t \<and> (ra_id x, ra_version_id x) = p"
      have "timeline s' acc t = Some p \<longleftrightarrow> (\<exists>x\<in>lives s acc - {r}. ?P x) \<or> (ra_from r \<noteq> at' \<and> ?P ?e)"
        unfolding timeline_iff[OF ap t] lives by auto
      moreover have "ra_from r \<noteq> at' \<and> ?P ?e \<longleftrightarrow> ?P r \<and> t < at'" using e early by auto
      moreover have "timeline s acc t = Some p \<longleftrightarrow> (\<exists>x\<in>lives s acc - {r}. ?P x) \<or> ?P r"
        unfolding timeline_iff[OF assms(3) t] using r(1) by blast
      moreover have "\<not> row_covers x t" if "x \<in> lives s acc - {r}" "row_covers r t" for x
        using that assms(3) r(1) covers_overlap[OF _ _ t, of x r] by (auto simp: apart_def)
      ultimately show ?thesis by (auto simp: linorder_not_le)
    qed
    then show ?thesis using at by (cases "timeline s acc t"; cases "timeline s' acc t") (auto simp: ended_def)
  qed
qed

text \<open>A repair cancels rows of one service and leaves the rest of the table.\<close>

lemma resolve_effect:
  assumes "resolve_assignment_conflict acc keep expected reason actor now s = Inr (idem, ended_ids, s')" and "table_ok s"
  shows "table_ok s'" and "apart (lives s' acc)" and "acc' \<noteq> acc \<Longrightarrow> lives s' acc' = lives s acc'"
    and "apart (lives s acc) \<Longrightarrow> rb_assignments s' = rb_assignments s"
proof -
  let ?as = "account_assignments s acc True"
  let ?actual = "conflict_ids (conflicting_pairs ?as)"
  have empty: "?actual = [] \<longleftrightarrow> conflicting_pairs ?as = []"
    unfolding set_empty[symmetric] by (cases "conflicting_pairs ?as") (auto simp: conflict_ids_def simp del: set_empty)
  have cases: "(s' = s \<and> conflicting_pairs ?as = []) \<or>
     (conflicting_pairs ?as \<noteq> [] \<and> conflicting_pairs (filter (\<lambda>r. ra_id r \<notin> set ended_ids) ?as) = []
      \<and> (\<forall>i\<in>set ended_ids. i \<in> ra_id ` set ?as)
      \<and> rb_assignments s' = map (\<lambda>r. if ra_id r \<in> set ended_ids then cancel_row now actor reason r else r) (rb_assignments s) @ [])"
    using assms(1) empty
    by (auto simp: resolve_assignment_conflict_def bindE_eq_Inr Let_def map_rows_def update_account_def split: if_splits option.splits)
  show "table_ok s'"
  proof (cases "s' = s")
    case False
    then have "rb_assignments s'
        = map (\<lambda>r. if ra_id r \<in> set ended_ids then cancel_row now actor reason r else r) (rb_assignments s) @ []"
      using cases by blast
    then show ?thesis
      by (rule table_ok_rows[OF assms(2)]) (auto simp: cancel_row_def cancel_def assignment_valid_def)
  qed (use assms(2) in simp)
  have mine: "ra_account_id r = acc"
    if h: "r \<in> set (rb_assignments s)" "ra_id r \<in> set ended_ids" "\<forall>i\<in>set ended_ids. i \<in> ra_id ` set ?as" for r
  proof -
    obtain x where x: "x \<in> set ?as" "ra_id x = ra_id r" using h(2,3) by (metis imageE)
    then have "x = r" using h(1) assms(2) by (auto simp: account_assignments_def table_ok_def distinct_map dest: inj_onD)
    then show ?thesis using x by (simp add: account_assignments_def)
  qed
  show "acc' \<noteq> acc \<Longrightarrow> lives s' acc' = lives s acc'"
    using cases mine by (fastforce simp: lives_def cancel_row_def cancel_def split: if_splits)
  have d: "distinct ?as" using account_assignments_distinct[OF assms(2)] by (simp add: distinct_map)
  have "lives s' acc = {r \<in> set (filter (\<lambda>r. ra_id r \<notin> set ended_ids) ?as). ra_cancelled_at r = None}"
    if "rb_assignments s' = map (\<lambda>r. if ra_id r \<in> set ended_ids then cancel_row now actor reason r else r) (rb_assignments s) @ []"
    using that by (auto simp: lives_def account_assignments_def cancel_row_def cancel_def split: if_splits)
  then show "apart (lives s' acc)"
    using cases pairs_apart[OF distinct_filter[OF d]] conflict_free[OF assms(2)] by auto
  show "apart (lives s acc) \<Longrightarrow> rb_assignments s' = rb_assignments s"
    using cases conflict_free[OF assms(2)] by auto
qed

end
