(* ===== verification/Rate_Assignment_Properties.thy ===== *)
theory Rate_Assignment_Properties
  imports Rate_Timeline Rate_Properties
begin

text \<open>
  Properties of rate assignments and of the activation of a version: assigning implements the
  operation on timelines, a run of the operations keeps the table free of conflicts and moves every
  timeline by a step of its specification, and a plan has one active version.
\<close>

section \<open>Assigning\<close>

text \<open>C32. Assigning a version refines the timeline of the service.  After a successful assignment that is not a
  repetition, an instant before the start has what it had; from the start the new version is in force, to the end the
  request asks for or, for an open request, up to the first instant at which an assignment other than the one in
  force at the start begins; after that a replaced assignment is no longer in force and every other one still is.
  The timelines of all other services are unchanged.\<close>

theorem assign_refines_timeline:
  assumes "table_ok s" and "assign_version known q new_id now s = Inr ((row, ids, eff), s')"
    and "truthy (aq_key q) \<longrightarrow> (\<forall>r\<in>set (rb_assignments s). ra_key r \<noteq> aq_key q)" and "t < datetime_max"
  shows "timeline s' (aq_account_id q) t
      = assigned (timeline s (aq_account_id q)) (aq_from q) (aq_to q) (new_id, aq_version_id q) t
    \<and> (\<forall>acc. acc \<noteq> aq_account_id q \<longrightarrow> timeline s' acc t = timeline s acc t)"
  using assign_timeline[OF assms(2,1,3,4)] assign_others[OF assms(2,1,3)] by blast

section \<open>Runs\<close>

text \<open>
  A step is a successful call, or a change of something other than the assignments; the activation of
  a version is one.  Ids are generated and datetimes end at \<^term>\<open>datetime_max\<close>.
\<close>

inductive rate_step :: "(string \<Rightarrow> bool) \<Rightarrow> rate_db \<Rightarrow> rate_db \<Rightarrow> bool" for known where
  Assign: "assign_version known q new_id now s = Inr (answer, s') \<Longrightarrow> rate_step known s s'"
| End: "instant \<le> datetime_max \<Longrightarrow> end_assignment acc instant reason actor now s = Inr (row, s') \<Longrightarrow> rate_step known s s'"
| Resolve: "resolve_assignment_conflict acc keep expected reason actor now s = Inr (idem, ids, s') \<Longrightarrow> rate_step known s s'"
| Activate: "activate_version known i user auto now s = Inr (rep, s') \<Longrightarrow> rate_step known s s'"
| Other: "rb_assignments s' = rb_assignments s \<Longrightarrow> rate_step known s s'"

definition same_timeline :: "timeline \<Rightarrow> timeline \<Rightarrow> bool" where
  "same_timeline T T' \<longleftrightarrow> (\<forall>t<datetime_max. T' t = T t)"

text \<open>The steps of the specification.\<close>

inductive timeline_step :: "timeline \<Rightarrow> timeline \<Rightarrow> bool" where
  Stay: "same_timeline T T' \<Longrightarrow> timeline_step T T'"
| Assigned: "before_end e start \<Longrightarrow> same_timeline (assigned T start e new) T' \<Longrightarrow> timeline_step T T'"
| Ended: "T instant \<noteq> None \<Longrightarrow> same_timeline (ended T instant) T' \<Longrightarrow> timeline_step T T'"

definition timelines_ok :: "rate_db \<Rightarrow> bool" where
  "timelines_ok s \<longleftrightarrow> table_ok s \<and> (\<forall>acc. conflicting_pairs (account_assignments s acc True) = [])"

lemma timelines_ok_iff: "timelines_ok s \<longleftrightarrow> table_ok s \<and> (\<forall>acc. apart (lives s acc))"
  using conflict_free by (auto simp: timelines_ok_def)

lemma same_rows:
  assumes "rb_assignments s' = rb_assignments s" and "timelines_ok s"
  shows "timelines_ok s' \<and> (\<forall>acc. timeline_step (timeline s acc) (timeline s' acc))"
  using assms by (auto simp: timelines_ok_def table_ok_def account_assignments_def timeline_def same_timeline_def intro!: Stay)

lemma assign_step:
  assumes "assign_version known q new_id now s = Inr ((row, ids, eff), s')" and "timelines_ok s"
  shows "timelines_ok s' \<and> (\<forall>acc. timeline_step (timeline s acc) (timeline s' acc))"
proof (cases "truthy (aq_key q) \<longrightarrow> (\<forall>r\<in>set (rb_assignments s). ra_key r \<noteq> aq_key q)")
  case False
  then obtain x where "(if truthy (aq_key q) then find (\<lambda>r. ra_key r = aq_key q) (rb_assignments s) else None) = Some x"
    by (cases "find (\<lambda>r. ra_key r = aq_key q) (rb_assignments s)") (auto simp: find_None_iff)
  then have "s' = s" using assms(1) by (simp add: assign_version_def)
  then show ?thesis using same_rows assms(2) by simp
next
  case True
  have ok: "table_ok s" "\<And>acc. apart (lives s acc)" using assms(2) by (auto simp: timelines_ok_iff)
  note t = assign_table[OF assms(1) ok(1) True]
  have "apart (lives s' acc)" for acc
    using assign_apart[OF assms(1) ok(1) True] t(2) ok(2) by (cases "acc = aq_account_id q") auto
  moreover have "timeline_step (timeline s acc) (timeline s' acc)" for acc
  proof (cases "acc = aq_account_id q")
    case acc: True
    have win: "before_end (aq_to q) (aq_from q)" by (rule assign_version_effect[OF assms(1) ok(1) True])
    show ?thesis
      by (rule Assigned[OF win, where new = "(new_id, aq_version_id q)"]) (simp add: same_timeline_def acc assign_timeline[OF assms(1) ok(1) True])
  next
    case False
    then show ?thesis using assign_others[OF assms(1) ok(1) True] by (auto simp: same_timeline_def intro!: Stay)
  qed
  ultimately show ?thesis using t(1) by (simp add: timelines_ok_iff)
qed

lemma end_step:
  assumes "end_assignment acc instant reason actor now s = Inr (row, s')" and "timelines_ok s" and "instant \<le> datetime_max"
  shows "timelines_ok s' \<and> (\<forall>acc. timeline_step (timeline s acc) (timeline s' acc))"
proof -
  have ok: "table_ok s" "\<And>acc. apart (lives s acc)" using assms(2) by (auto simp: timelines_ok_iff)
  note e = end_assignment_timeline[OF assms(1) ok assms(3)]
  obtain r where "r \<in> lives s acc" "row_covers r instant" by (rule end_assignment_effect[OF assms(1)])
  then have some: "timeline s acc instant \<noteq> None" by (auto simp: timeline_None)
  have "timeline_step (timeline s acc') (timeline s' acc')" for acc'
  proof (cases "acc' = acc")
    case True
    then show ?thesis using Ended[of "timeline s acc" instant, OF some] e(4) by (auto simp: same_timeline_def)
  next
    case False
    then show ?thesis using timeline_lives[OF e(3)] ok(2) by (auto simp: same_timeline_def intro!: Stay)
  qed
  moreover have "apart (lives s' acc')" for acc' using e(2,3) ok(2) by (cases "acc' = acc") auto
  ultimately show ?thesis using e(1) by (simp add: timelines_ok_iff)
qed

lemma rate_step_simulates:
  assumes "rate_step known s s'" and "timelines_ok s"
  shows "timelines_ok s' \<and> (\<forall>acc. timeline_step (timeline s acc) (timeline s' acc))"
  using assms
proof (induction rule: rate_step.induct)
  case (Assign q new_id now s answer s')
  then show ?case using assign_step by (cases answer) auto
next
  case (End instant acc reason actor now s row s')
  then show ?case using end_step by blast
next
  case (Resolve acc keep expected reason actor now s idem ids s')
  then have "rb_assignments s' = rb_assignments s"
    using resolve_effect(4)[OF Resolve(1)] by (simp add: timelines_ok_iff)
  then show ?case using same_rows Resolve(2) by blast
next
  case (Activate i user auto now s rep s')
  then have "rb_assignments s' = rb_assignments s"
    by (auto simp: activate_version_def bindE_eq_Inr split: option.splits if_splits)
  then show ?case using same_rows Activate by blast
next
  case (Other s' s)
  then show ?case using same_rows by blast
qed

interpretation rates: invariant_system timelines_ok "rate_step known" timelines_ok for known
  by unfold_locales (auto dest: rate_step_simulates)

text \<open>C33. Rate assignments never conflict, and their table implements the specification of timelines.  From a table
  without conflicts, with unique ids and with positive windows, every sequence of assignments, endings, repairs and
  activations leads to such a table again, and each step of it moves the timeline of every service by a step of the
  specification: the timeline stays, a version is assigned to a window, or the assignment in force is ended.\<close>

theorem assignments_never_conflict:
  assumes "timelines_ok s" and "(rate_step known)\<^sup>*\<^sup>* s s'"
  shows "timelines_ok s' \<and> (\<forall>s'' acc. rate_step known s' s'' \<longrightarrow> timeline_step (timeline s' acc) (timeline s'' acc))"
  using rates.reachable_inv[OF assms] rate_step_simulates by blast

text \<open>C34. A repair ends every conflict of the service.  When it succeeds, no two assignments of the service that are not
  cancelled overlap, whatever the table was before, and the rows of other services are untouched.\<close>

theorem repair_resolves_conflicts:
  assumes "table_ok s" and "resolve_assignment_conflict acc keep expected reason actor now s = Inr (idem, ids, s')"
  shows "conflicting_pairs (account_assignments s' acc True) = [] \<and> table_ok s'
    \<and> (\<forall>acc'. acc' \<noteq> acc \<longrightarrow> lives s' acc' = lives s acc')"
  using resolve_effect(1-3)[OF assms(2,1)] conflict_free by blast

section \<open>Activation\<close>

lemma find_map_key: "(\<And>x. key (g x) = key x) \<Longrightarrow> find (\<lambda>x. key x = k) (map g xs) = map_option g (find (\<lambda>x. key x = k) xs)"
  by (induction xs) auto

text \<open>C35. A plan has one active version.  After a successful activation exactly the activated version of its plan is
  active.  It is published and immutable, activated by the user at this time, and approved by the user unless it was
  approved before; nothing else of it changes, and its document passes validation.  Versions of the plan that were active
  are superseded unless they are retired or removed; the versions of other plans and the documents of all versions are
  as before.\<close>

theorem activation_leaves_one_active:
  assumes "activate_version known i user auto now s = Inr (rep, s')" and "distinct (map rv_id (rb_versions s))"
  shows "\<exists>v w. find_version s i = Some v \<and> rp_valid rep \<and> validate_version known s v = Inr rep
    \<and> find_version s' i = Some w \<and> rv_is_active w \<and> rv_status w = ''published'' \<and> rv_immutable w
    \<and> rv_activated_by w = user \<and> rv_activated_at w = Some now \<and> rv_automatically w = auto
    \<and> rv_approved_by w = (if rv_approved_by v \<in> {None, Some []} then user else rv_approved_by v)
    \<and> rv_approved_at w = (case rv_approved_at v of None \<Rightarrow> Some now | Some t \<Rightarrow> Some t)
    \<and> rv_plan_id w = rv_plan_id v \<and> rv_payload w = rv_payload v
    \<and> rv_effective_from w = rv_effective_from v \<and> rv_effective_to w = rv_effective_to v
    \<and> (\<forall>x\<in>set (rb_versions s'). rv_plan_id x = rv_plan_id v \<longrightarrow> (rv_is_active x \<longleftrightarrow> rv_id x = i))
    \<and> (\<forall>x\<in>set (rb_versions s). rv_plan_id x = rv_plan_id v \<and> rv_id x \<noteq> i \<and> rv_is_active x
         \<and> rv_status x \<notin> {''retired'', ''removed''}
         \<longrightarrow> x\<lparr>rv_is_active := False, rv_status := ''superseded''\<rparr> \<in> set (rb_versions s'))
    \<and> (\<forall>x\<in>set (rb_versions s). rv_plan_id x \<noteq> rv_plan_id v \<longrightarrow> x \<in> set (rb_versions s'))
    \<and> map (\<lambda>x. (rv_id x, rv_payload x)) (rb_versions s') = map (\<lambda>x. (rv_id x, rv_payload x)) (rb_versions s)"
proof -
  obtain v p where v: "find_version s i = Some v" and rep: "rp_valid rep" "validate_version known s v = Inr rep"
      and rows: "rb_versions s' = map (\<lambda>x. if rv_id x = i then publish user now auto x else retire_sibling v x) (rb_versions s)"
    using assms(1) by (auto simp: activate_version_def bindE_eq_Inr split: option.splits if_splits)
  let ?g = "\<lambda>x. if rv_id x = i then publish user now auto x else retire_sibling v x"
  have g: "rv_id (?g x) = rv_id x" "rv_plan_id (?g x) = rv_plan_id x" "rv_payload (?g x) = rv_payload x" for x
    by (simp_all add: publish_def retire_sibling_def)
  have vi: "rv_id v = i" using v by (auto simp: find_version_def find_Some_iff)
  have "find_version s' i = Some (publish user now auto v)"
    using v vi find_map_key[of rv_id ?g i "rb_versions s"] g(1) by (simp add: find_version_def rows)
  moreover have "rv_is_active (?g x) \<longleftrightarrow> rv_id x = i" if "rv_plan_id x = rv_plan_id v" for x
    using that vi by (auto simp: publish_def retire_sibling_def)
  then have "\<forall>x\<in>set (rb_versions s'). rv_plan_id x = rv_plan_id v \<longrightarrow> (rv_is_active x \<longleftrightarrow> rv_id x = i)"
    unfolding rows set_map ball_simps(9) using g(1,2) by metis
  moreover have "?g x = x" if "rv_plan_id x \<noteq> rv_plan_id v" "x \<in> set (rb_versions s)" for x
  proof -
    have "v \<in> set (rb_versions s)" using v by (auto simp: find_version_def find_Some_iff)
    then have "rv_id x \<noteq> i" using that vi assms(2) by (auto simp: distinct_map dest: inj_onD)
    then show ?thesis using that(1) by (simp add: retire_sibling_def)
  qed
  then have "x \<in> set (rb_versions s')" if "rv_plan_id x \<noteq> rv_plan_id v" "x \<in> set (rb_versions s)" for x
    unfolding rows set_map using that image_eqI[where f = ?g and b = x and x = x] by (metis (no_types, lifting))
  then have "\<forall>x\<in>set (rb_versions s). rv_plan_id x \<noteq> rv_plan_id v \<longrightarrow> x \<in> set (rb_versions s')" by blast
  moreover have "map (\<lambda>x. (rv_id x, rv_payload x)) (rb_versions s') = map (\<lambda>x. (rv_id x, rv_payload x)) (rb_versions s)"
    using g(1,3) by (simp add: rows)
  moreover have "x\<lparr>rv_is_active := False, rv_status := ''superseded''\<rparr> \<in> set (rb_versions s')"
    if "x \<in> set (rb_versions s)" "rv_plan_id x = rv_plan_id v" "rv_id x \<noteq> i" "rv_is_active x"
      "rv_status x \<notin> {''retired'', ''removed''}" for x
  proof -
    have "?g x = x\<lparr>rv_is_active := False, rv_status := ''superseded''\<rparr>" using that vi by (simp add: retire_sibling_def)
    then show ?thesis unfolding rows set_map using that(1) by (intro image_eqI[of _ ?g x]) auto
  qed
  moreover have w: "rv_is_active (publish user now auto v)" "rv_status (publish user now auto v) = ''published''"
    "rv_immutable (publish user now auto v)" "rv_activated_by (publish user now auto v) = user"
    "rv_activated_at (publish user now auto v) = Some now" "rv_automatically (publish user now auto v) = auto"
    "rv_approved_by (publish user now auto v) = (if rv_approved_by v \<in> {None, Some []} then user else rv_approved_by v)"
    "rv_approved_at (publish user now auto v) = (case rv_approved_at v of None \<Rightarrow> Some now | Some t \<Rightarrow> Some t)"
    "rv_plan_id (publish user now auto v) = rv_plan_id v" "rv_payload (publish user now auto v) = rv_payload v"
    "rv_effective_from (publish user now auto v) = rv_effective_from v"
    "rv_effective_to (publish user now auto v) = rv_effective_to v"
    by (auto simp: publish_def truthy_def or_else_def split: option.splits)
  ultimately show ?thesis using v rep by blast
qed

section \<open>Samples\<close>

definition sample_version :: "string \<Rightarrow> string \<Rightarrow> version_row" where
  "sample_version i status =
     \<lparr>rv_id = i, rv_plan_id = ''p1'', rv_effective_from = (2024, 1, 1), rv_effective_to = None, rv_timezone = ''UTC'',
      rv_currency = ''USD'', rv_pricing_model = do_pricing_model sample_document, rv_source_kind = ''custom'',
      rv_payload = Some sample_document, rv_immutable = False, rv_is_active = (status = ''published''), rv_status = status,
      rv_approved_by = None, rv_approved_at = None, rv_activated_by = None, rv_activated_at = None, rv_automatically = False\<rparr>"

definition sample_assignment :: "string \<Rightarrow> string \<Rightarrow> instant \<Rightarrow> instant option \<Rightarrow> assignment_row" where
  "sample_assignment i v from until =
     \<lparr>ra_id = i, ra_account_id = ''a1'', ra_version_id = v, ra_from = from, ra_to = until, ra_reason = None,
      ra_assigned_by = None, ra_revision = 1, ra_cancelled_at = None, ra_cancelled_by = None, ra_cancellation_reason = None,
      ra_key = None, ra_created_at = 0\<rparr>"

definition sample_rates :: "assignment_row list \<Rightarrow> rate_db" where
  "sample_rates rows =
     \<lparr>rb_sites = [''s1''], rb_resets = [], rb_utilities = [], rb_plans = [\<lparr>pl_id = ''p1'', pl_utility_id = ''u1'', pl_code = ''HOME-1'',
        pl_ownership_scope = ''global'', pl_owner_site_id = None, pl_owner_account_id = None, pl_status = ''active''\<rparr>],
      rb_versions = [sample_version ''v1'' ''published'', sample_version ''v2'' ''draft'', sample_version ''v3'' ''approved''],
      rb_seasons = [], rb_day_types = [], rb_periods = [], rb_adjustments = [], rb_fixed_charges = [], rb_baseline_rules = [],
      rb_evidence = [], rb_bills = [], rb_conflicts = [],
      rb_accounts = [\<lparr>ac_id = ''a1'', ac_site_id = ''s1'', ac_status = ''active'', ac_revision = 1, ac_active_version = Some ''v1''\<rparr>],
      rb_assignments = rows\<rparr>"

definition sample_assign :: assign_request where
  "sample_assign = \<lparr>aq_account_id = ''a1'', aq_version_id = ''v3'', aq_from = 1000, aq_to = Some 2000, aq_replace_current = True,
     aq_reason = None, aq_actor_id = ''user'', aq_key = None, aq_account_revision = Some 1, aq_assignment_revision = None\<rparr>"

definition sample_open :: "assignment_row list" where
  "sample_open = [sample_assignment ''r1'' ''v1'' 0 None]"

lemma sample_assigned:
  "(case assign_version (\<lambda>_. True) sample_assign ''n1'' 1200 (sample_rates sample_open) of Inl _ \<Rightarrow> False
    | Inr ((row, ids, eff), s') \<Rightarrow> ids = [''r1''] \<and> eff \<and> timeline s' ''a1'' 500 = Some (''r1'', ''v1'') \<and>
        timeline s' ''a1'' 1500 = Some (''n1'', ''v3'') \<and> timeline s' ''a1'' 2500 = None)"
  by code_simp

lemma sample_table: "table_ok (sample_rates sample_open)"
  by code_simp

theorem assign_refines_timeline_witness:
  "\<exists>row ids eff s'. assign_version (\<lambda>_. True) sample_assign ''n1'' 1200 (sample_rates sample_open) = Inr ((row, ids, eff), s')
     \<and> timeline s' ''a1'' 1500 = Some (''n1'', ''v3'') \<and> timeline s' ''a1'' 2500 = None"
proof -
  obtain row ids eff s' where a: "assign_version (\<lambda>_. True) sample_assign ''n1'' 1200 (sample_rates sample_open) = Inr ((row, ids, eff), s')"
    using sample_assigned by (auto split: sum.splits)
  have "truthy (aq_key sample_assign) \<longrightarrow> (\<forall>r\<in>set (rb_assignments (sample_rates sample_open)). ra_key r \<noteq> aq_key sample_assign)"
    by (simp add: sample_assign_def)
  note r = assign_refines_timeline[OF sample_table a this]
  have m: "(1500 :: int) < datetime_max" "(2500 :: int) < datetime_max" by code_simp+
  have old: "timeline (sample_rates sample_open) ''a1'' 2500 = timeline (sample_rates sample_open) ''a1'' 1000" by code_simp
  have "timeline s' ''a1'' 1500 = Some (''n1'', ''v3'')" "timeline s' ''a1'' 2500 = None"
    using r[OF m(1)] r[OF m(2)] old by (simp_all add: sample_assign_def assigned_def)
  then show ?thesis using a by blast
qed

lemma sample_rates_ok: "timelines_ok (sample_rates sample_open)"
proof -
  have "lives (sample_rates sample_open) acc \<subseteq> {sample_assignment ''r1'' ''v1'' 0 None}" for acc
    by (auto simp: lives_def sample_rates_def sample_open_def)
  then have "apart (lives (sample_rates sample_open) acc)" for acc unfolding apart_def by blast
  then show ?thesis using sample_table by (simp add: timelines_ok_iff)
qed

theorem assignments_never_conflict_witness:
  "\<exists>answer s'. assign_version (\<lambda>_. True) sample_assign ''n1'' 1200 (sample_rates sample_open) = Inr (answer, s') \<and> timelines_ok s'"
proof -
  obtain answer s' where a: "assign_version (\<lambda>_. True) sample_assign ''n1'' 1200 (sample_rates sample_open) = Inr (answer, s')"
    using sample_assigned by (auto split: sum.splits)
  have "rate_step (\<lambda>_. True) (sample_rates sample_open) s'" by (rule rate_step.Assign[OF a])
  then show ?thesis using a assignments_never_conflict[OF sample_rates_ok, of "\<lambda>_. True" s'] by blast
qed

text \<open>Two assignments that overlap, as a table from before the repair workflow may hold.\<close>

definition sample_overlap :: "assignment_row list" where
  "sample_overlap = [sample_assignment ''r1'' ''v1'' 0 None, sample_assignment ''r2'' ''v3'' 1000 None]"

definition sample_repair :: "rate_problem + (bool \<times> string list \<times> rate_db)" where
  "sample_repair = resolve_assignment_conflict ''a1'' ''r2'' [''r1'', ''r2''] ''duplicate'' ''user'' 3000 (sample_rates sample_overlap)"

lemma sample_repaired: "\<exists>s'. sample_repair = Inr (False, [''r1''], s')"
proof -
  have "(case sample_repair of Inl _ \<Rightarrow> False | Inr (idem, ids, s') \<Rightarrow> \<not> idem \<and> ids = [''r1''])" by code_simp
  then show ?thesis by (auto split: sum.splits)
qed

theorem repair_resolves_conflicts_witness:
  "\<exists>s'. sample_repair = Inr (False, [''r1''], s') \<and> conflicting_pairs (account_assignments s' ''a1'' True) = []
     \<and> conflicting_pairs (account_assignments (sample_rates sample_overlap) ''a1'' True) \<noteq> []"
proof -
  obtain s' where r: "sample_repair = Inr (False, [''r1''], s')" using sample_repaired by blast
  have t: "table_ok (sample_rates sample_overlap)" by code_simp
  have "conflicting_pairs (account_assignments (sample_rates sample_overlap) ''a1'' True) \<noteq> []" by code_simp
  then show ?thesis using r repair_resolves_conflicts[OF t r[unfolded sample_repair_def]] by blast
qed

text \<open>
  The calculation of a billing cycle reads cancelled rows as well: after the repair the service has
  the kept assignment in force, and the cycle is still priced by the cancelled one.
\<close>

lemma cancelled_assignment_still_prices:
  "\<exists>s' cs c. sample_repair = Inr (False, [''r1''], s') \<and> timeline s' ''a1'' 2000 = Some (''r2'', ''v3'')
     \<and> rate_contexts (\<lambda>_. True) s' (hd (rb_accounts s')) 500 5000 = Inr cs
     \<and> context_at cs 2000 = Some c \<and> rv_id (rx_version c) = ''v1''"
proof -
  have k: "(case sample_repair of Inl _ \<Rightarrow> False
      | Inr (idem, ids, s') \<Rightarrow> \<not> idem \<and> ids = [''r1''] \<and> timeline s' ''a1'' 2000 = Some (''r2'', ''v3'')
          \<and> (case rate_contexts (\<lambda>_. True) s' (hd (rb_accounts s')) 500 5000 of Inl _ \<Rightarrow> False
             | Inr cs \<Rightarrow> (case context_at cs 2000 of None \<Rightarrow> False | Some c \<Rightarrow> rv_id (rx_version c) = ''v1'')))"
    by code_simp
  obtain s' where s': "sample_repair = Inr (False, [''r1''], s')" using sample_repaired by blast
  have t: "timeline s' ''a1'' 2000 = Some (''r2'', ''v3'')"
      and c: "(case rate_contexts (\<lambda>_. True) s' (hd (rb_accounts s')) 500 5000 of Inl _ \<Rightarrow> False
        | Inr cs \<Rightarrow> (case context_at cs 2000 of None \<Rightarrow> False | Some c \<Rightarrow> rv_id (rx_version c) = ''v1''))"
    using k unfolding s' sum.case prod.case by blast+
  from c obtain cs where cs: "rate_contexts (\<lambda>_. True) s' (hd (rb_accounts s')) 500 5000 = Inr cs"
      "(case context_at cs 2000 of None \<Rightarrow> False | Some c \<Rightarrow> rv_id (rx_version c) = ''v1'')"
    by (cases "rate_contexts (\<lambda>_. True) s' (hd (rb_accounts s')) 500 5000") auto
  then obtain c where "context_at cs 2000 = Some c" "rv_id (rx_version c) = ''v1''" by (cases "context_at cs 2000") auto
  then show ?thesis using s' t cs(1) by blast
qed

definition sample_activation :: "rate_problem + (report \<times> rate_db)" where
  "sample_activation = activate_version (\<lambda>_. True) ''v2'' (Some ''user'') False 4000 (sample_rates sample_open)"

theorem activation_leaves_one_active_witness:
  "\<exists>rep s'. sample_activation = Inr (rep, s') \<and> rp_valid rep
     \<and> (\<exists>w. find_version s' ''v2'' = Some w \<and> rv_is_active w \<and> rv_status w = ''published'' \<and> rv_immutable w)
     \<and> (\<exists>x\<in>set (rb_versions s'). rv_id x = ''v1'' \<and> rv_status x = ''superseded'')"
proof -
  have "(case sample_activation of Inl _ \<Rightarrow> False | Inr _ \<Rightarrow> True)" by code_simp
  then obtain rep s' where a: "sample_activation = Inr (rep, s')" by (auto split: sum.splits)
  have d: "distinct (map rv_id (rb_versions (sample_rates sample_open)))" by code_simp
  have f: "find_version (sample_rates sample_open) ''v2'' = Some (sample_version ''v2'' ''draft'')" by code_simp
  note c = activation_leaves_one_active[OF a[unfolded sample_activation_def] d]
  have "sample_version ''v1'' ''published'' \<in> set (rb_versions (sample_rates sample_open))" by (simp add: sample_rates_def)
  then have "(sample_version ''v1'' ''published'')\<lparr>rv_is_active := False, rv_status := ''superseded''\<rparr> \<in> set (rb_versions s')"
    using c f by (fastforce simp: sample_version_def)
  then have "\<exists>x\<in>set (rb_versions s'). rv_id x = ''v1'' \<and> rv_status x = ''superseded''"
    by (rule bexI[rotated]) (simp add: sample_version_def)
  then show ?thesis using a c by blast
qed

end
