(* ===== verification/Access_Catalog.thy ===== *)
theory Access_Catalog
  imports Ota
begin

text \<open>
  The permission catalogue of \<^verbatim>\<open>backend/app/access.py\<close>: the registered permissions with their
  group and risk flag, the built-in roles, the dependencies between permissions, and
  \<^verbatim>\<open>validate_permissions\<close>, which every custom role has to pass.  The labels and descriptions
  shown to people are left out, and so are the extra members of a problem document.
  The lemmas show once, by evaluation, that the tables are consistent: the role theories
  rest on them and never unfold the catalogue again.
\<close>

section \<open>Errors\<close>

text \<open>
  \<^verbatim>\<open>Problem\<close> is a \<^verbatim>\<open>ProblemError\<close> with its status and code.  \<^verbatim>\<open>Denied\<close> is one raised after
  \<^verbatim>\<open>_audit_denial\<close> has committed an audit row (with the action and the kind and identifier of the
  object).  The others are uncaught exceptions, answered with status 500.
\<close>

datatype access_error =
    Problem int string
  | Denied int string string string string
  | Runtime_error
  | Type_error_raised
  | Integrity_error_raised
  | Decrypt_error

section \<open>The registered permissions\<close>

record permission_definition =
  pd_code :: string
  pd_group :: string
  pd_high_risk :: bool

definition permission :: "string \<Rightarrow> string \<Rightarrow> bool \<Rightarrow> permission_definition" where
  "permission code group_name high_risk = \<lparr>pd_code = code, pd_group = group_name, pd_high_risk = high_risk\<rparr>"

definition dashboard_permissions :: "permission_definition list" where
  "dashboard_permissions =
    [permission ''overview.view'' ''Dashboard and data'' False,
      permission ''usage.view'' ''Dashboard and data'' False,
      permission ''history.view'' ''Dashboard and data'' False,
      permission ''history.export'' ''Dashboard and data'' False,
      permission ''costs.view'' ''Dashboard and data'' False,
      permission ''costs.export'' ''Dashboard and data'' False,
      permission ''costs.recalculate'' ''Dashboard and data'' True,
      permission ''usage_imports.manage'' ''Dashboard and data'' True]"

definition bill_permissions :: "permission_definition list" where
  "bill_permissions =
    [permission ''utility_bills.view'' ''Rates'' True,
      permission ''utility_bills.manage'' ''Rates'' True]"

definition site_permissions :: "permission_definition list" where
  "site_permissions =
    [permission ''sites.view'' ''Sites and devices'' False,
      permission ''sites.manage'' ''Sites and devices'' True,
      permission ''sites.create'' ''Sites and devices'' True,
      permission ''sites.edit'' ''Sites and devices'' True,
      permission ''sites.set_default'' ''Sites and devices'' True,
      permission ''sites.disable'' ''Sites and devices'' True,
      permission ''sites.remove'' ''Sites and devices'' True,
      permission ''sites.restore'' ''Sites and devices'' True,
      permission ''sites.transfer_resources'' ''Sites and devices'' True,
      permission ''sites.view_audit'' ''Sites and devices'' True,
      permission ''utility_accounts.view'' ''Sites and devices'' False,
      permission ''utility_accounts.manage'' ''Sites and devices'' True,
      permission ''network.view'' ''Sites and devices'' False,
      permission ''network.manage'' ''Sites and devices'' True,
      permission ''topology.view'' ''Sites and devices'' False,
      permission ''topology.manage'' ''Sites and devices'' False,
      permission ''devices.view'' ''Sites and devices'' False,
      permission ''devices.manage'' ''Sites and devices'' False,
      permission ''devices.remove'' ''Sites and devices'' True,
      permission ''storage.view'' ''Sites and devices'' False,
      permission ''storage.manage'' ''Sites and devices'' True,
      permission ''enrollment.view'' ''Sites and devices'' False,
      permission ''enrollment.manage'' ''Sites and devices'' True,
      permission ''firmware.view'' ''Sites and devices'' False,
      permission ''firmware.manage'' ''Sites and devices'' True,
      permission ''firmware.deploy'' ''Sites and devices'' True]"

definition rate_permissions :: "permission_definition list" where
  "rate_permissions =
    [permission ''rates.view'' ''Rates'' False,
      permission ''rates.manage_custom'' ''Rates'' False,
      permission ''rates.manage_sources'' ''Rates'' True,
      permission ''rates.check_sources'' ''Rates'' False,
      permission ''rates.review_candidates'' ''Rates'' False,
      permission ''rates.approve_candidates'' ''Rates'' True,
      permission ''rates.assign'' ''Rates'' True, permission ''adjustments.manage'' ''Rates'' True,
      permission ''rates.remove'' ''Rates'' True, permission ''rates.restore'' ''Rates'' True]"

definition alert_permissions :: "permission_definition list" where
  "alert_permissions =
    [permission ''alerts.view'' ''Alerts'' False,
      permission ''alerts.acknowledge'' ''Alerts'' False,
      permission ''alerts.manage_rules'' ''Alerts'' False,
      permission ''alerts.manage_delivery'' ''Alerts'' True]"

definition backup_permissions :: "permission_definition list" where
  "backup_permissions =
    [permission ''backups.view'' ''Backups and logs'' False,
      permission ''backups.create'' ''Backups and logs'' False,
      permission ''backups.verify'' ''Backups and logs'' True,
      permission ''backups.delete'' ''Backups and logs'' True,
      permission ''backups.restore'' ''Backups and logs'' True,
      permission ''logs.export'' ''Backups and logs'' True]"

definition administration_permissions :: "permission_definition list" where
  "administration_permissions =
    [permission ''users.view'' ''Administration'' False,
      permission ''users.manage'' ''Administration'' True,
      permission ''users.disable'' ''Administration'' True,
      permission ''users.remove'' ''Administration'' True,
      permission ''users.restore'' ''Administration'' True,
      permission ''users.manage_protected'' ''Administration'' True,
      permission ''roles.view'' ''Administration'' False,
      permission ''roles.manage'' ''Administration'' True,
      permission ''audit.view'' ''Administration'' False,
      permission ''settings.view'' ''Administration'' False,
      permission ''settings.manage'' ''Administration'' True,
      permission ''system.data_reset'' ''Administration'' True,
      permission ''interface_text.view'' ''Administration'' False,
      permission ''interface_text.manage'' ''Administration'' True,
      permission ''status_indicators.view'' ''Administration'' False,
      permission ''status_indicators.manage'' ''Administration'' True]"

definition PERMISSION_DEFINITIONS :: "permission_definition list" where
  "PERMISSION_DEFINITIONS =
     dashboard_permissions @
     bill_permissions @
     site_permissions @
     rate_permissions @
     alert_permissions @
     backup_permissions @
     administration_permissions"

definition ALL_PERMISSIONS :: "string set" where
  "ALL_PERMISSIONS = set (map pd_code PERMISSION_DEFINITIONS)"

definition ADMIN_ONLY_PERMISSIONS :: "string set" where
  "ADMIN_ONLY_PERMISSIONS = {''system.data_reset''}"

definition VIEWER_PERMISSIONS :: "string list" where
  "VIEWER_PERMISSIONS =
    [''overview.view'', ''usage.view'', ''history.view'', ''costs.view'', ''sites.view'',
      ''utility_accounts.view'', ''topology.view'', ''devices.view'', ''storage.view'',
      ''rates.view'', ''alerts.view'', ''status_indicators.view'']"

definition OPERATOR_PERMISSIONS :: "string list" where
  "OPERATOR_PERMISSIONS = VIEWER_PERMISSIONS @
    [''topology.manage'', ''devices.manage'', ''storage.manage'', ''enrollment.view'',
      ''enrollment.manage'', ''firmware.view'', ''alerts.acknowledge'', ''alerts.manage_rules'']"

definition RATE_MANAGER_PERMISSIONS :: "string list" where
  "RATE_MANAGER_PERMISSIONS = VIEWER_PERMISSIONS @
    [''rates.manage_custom'', ''rates.manage_sources'', ''rates.check_sources'',
      ''rates.review_candidates'', ''rates.approve_candidates'', ''rates.assign'',
      ''adjustments.manage'', ''rates.remove'', ''rates.restore'']"

definition BUILTIN_ROLE_PERMISSIONS :: "(string, string list) dict" where
  "BUILTIN_ROLE_PERMISSIONS =
     [(''admin'', map pd_code PERMISSION_DEFINITIONS), (''operator'', OPERATOR_PERMISSIONS),
      (''rate-manager'', RATE_MANAGER_PERMISSIONS), (''viewer'', VIEWER_PERMISSIONS)]"

definition BUILTIN_ROLE_NAMES :: "string set" where
  "BUILTIN_ROLE_NAMES = set (map fst BUILTIN_ROLE_PERMISSIONS)"

definition BUILTIN_ROLE_LABELS :: "(string, string) dict" where
  "BUILTIN_ROLE_LABELS =
     [(''admin'', ''Administrator''), (''operator'', ''Operator''), (''rate-manager'', ''Rate Manager''),
      (''viewer'', ''Regular User / Read-Only Viewer'')]"

definition PERMISSION_DEPENDENCIES :: "(string, string list) dict" where
  "PERMISSION_DEPENDENCIES =
    [(''users.manage'', [''users.view'']),
      (''users.disable'', [''users.manage'', ''users.view'']),
      (''users.remove'', [''users.manage'', ''users.view'']),
      (''users.restore'', [''users.manage'', ''users.view'']),
      (''users.manage_protected'', [''users.manage'', ''users.view'']),
      (''roles.manage'', [''roles.view'']), (''rates.manage_custom'', [''rates.view'']),
      (''rates.manage_sources'', [''rates.view'']),
      (''rates.check_sources'', [''rates.manage_sources'', ''rates.view'']),
      (''rates.review_candidates'', [''rates.view'']),
      (''rates.approve_candidates'', [''rates.review_candidates'', ''rates.view'']),
      (''rates.assign'', [''rates.view'']),
      (''adjustments.manage'', [''rates.view'', ''sites.view'']),
      (''rates.remove'', [''rates.manage_custom'', ''rates.view'']),
      (''rates.restore'', [''rates.manage_custom'', ''rates.view'']),
      (''costs.recalculate'', [''costs.view'']),
      (''usage_imports.manage'', [''usage.view'', ''utility_accounts.view'']),
      (''backups.restore'', [''backups.view'']), (''backups.verify'', [''backups.view'']),
      (''backups.delete'', [''backups.view'']),
      (''interface_text.manage'', [''interface_text.view'']),
      (''status_indicators.manage'', [''status_indicators.view'']),
      (''sites.manage'', [''sites.view'']), (''sites.create'', [''sites.view'']),
      (''sites.edit'', [''sites.view'']), (''sites.set_default'', [''sites.view'']),
      (''sites.disable'', [''sites.view'']), (''sites.remove'', [''sites.view'']),
      (''sites.restore'', [''sites.view'']), (''sites.transfer_resources'', [''sites.view'']),
      (''sites.view_audit'', [''sites.view'', ''audit.view'']),
      (''utility_accounts.view'', [''sites.view'']),
      (''utility_accounts.manage'', [''utility_accounts.view'', ''sites.view'']),
      (''network.view'', [''sites.view'']),
      (''network.manage'', [''network.view'', ''sites.view'']),
      (''topology.manage'', [''topology.view'']), (''devices.manage'', [''devices.view'']),
      (''devices.remove'', [''devices.manage'', ''devices.view'']),
      (''storage.view'', [''devices.view'']),
      (''storage.manage'', [''storage.view'', ''devices.manage'', ''devices.view'']),
      (''enrollment.manage'', [''enrollment.view'']), (''firmware.manage'', [''firmware.view'']),
      (''firmware.deploy'', [''firmware.view'']), (''alerts.acknowledge'', [''alerts.view'']),
      (''alerts.manage_rules'', [''alerts.view'']),
      (''alerts.manage_delivery'', [''alerts.view'']), (''backups.create'', [''backups.view'']),
      (''system.data_reset'', [''settings.view'', ''audit.view'', ''backups.view'', ''devices.view'', ''rates.view''])]"

section \<open>Validation of a custom role\<close>

definition dependencies_met :: "string set \<Rightarrow> bool" where
  "dependencies_met codes \<longleftrightarrow>
     list_all (\<lambda>(code, required). code \<in> codes \<longrightarrow> set required \<subseteq> codes) PERMISSION_DEPENDENCIES"

definition validate_permissions :: "string set \<Rightarrow> access_error + unit" where
  "validate_permissions codes =
     bindE (guard (codes \<subseteq> ALL_PERMISSIONS) (Problem 422 ''permission_unknown'')) (\<lambda>_.
     bindE (guard (codes \<inter> ADMIN_ONLY_PERMISSIONS = {}) (Problem 422 ''permission_admin_only'')) (\<lambda>_.
     guard (dependencies_met codes) (Problem 422 ''permission_dependencies_missing'')))"

definition is_high_risk :: "string \<Rightarrow> bool" where
  "is_high_risk code =
     (case find (\<lambda>d. pd_code d = code) PERMISSION_DEFINITIONS of None \<Rightarrow> False | Some d \<Rightarrow> pd_high_risk d)"

section \<open>Facts about the tables\<close>

lemmas catalog_defs = PERMISSION_DEFINITIONS_def permission_def dashboard_permissions_def bill_permissions_def
  site_permissions_def rate_permissions_def alert_permissions_def backup_permissions_def
  administration_permissions_def

lemma dependencies_metD:
  "dependencies_met codes \<Longrightarrow> (code, required) \<in> set PERMISSION_DEPENDENCIES \<Longrightarrow> code \<in> codes \<Longrightarrow>
   set required \<subseteq> codes"
  by (fastforce simp: dependencies_met_def list_all_iff)

lemma dependencies_met_empty [simp]: "dependencies_met {}"
  by (simp add: dependencies_met_def list_all_iff)

lemma dependencies_met_Un:
  "dependencies_met A \<Longrightarrow> dependencies_met B \<Longrightarrow> dependencies_met (A \<union> B)"
  by (fastforce simp: dependencies_met_def list_all_iff)

lemma dependencies_met_UN:
  "(\<And>x. x \<in> X \<Longrightarrow> dependencies_met (F x)) \<Longrightarrow> dependencies_met (\<Union>x\<in>X. F x)"
  by (fastforce simp: dependencies_met_def list_all_iff)

lemma dependencies_ordinary:
  "list_all (\<lambda>(code, required). set required \<inter> ADMIN_ONLY_PERMISSIONS = {}) PERMISSION_DEPENDENCIES"
  by (simp add: PERMISSION_DEPENDENCIES_def ADMIN_ONLY_PERMISSIONS_def)

lemma dependencies_met_ordinary:
  "dependencies_met A \<Longrightarrow> dependencies_met (A - ADMIN_ONLY_PERMISSIONS)"
  using dependencies_ordinary by (fastforce simp: dependencies_met_def list_all_iff)

lemma dependencies_registered:
  "list_all (\<lambda>(code, required). code \<in> ALL_PERMISSIONS \<and> set required \<subseteq> ALL_PERMISSIONS) PERMISSION_DEPENDENCIES"
  by code_simp

lemma all_permissions_closed: "dependencies_met ALL_PERMISSIONS"
  using dependencies_registered by (auto simp: dependencies_met_def list_all_iff)

lemma viewer_closed: "set VIEWER_PERMISSIONS \<subseteq> ALL_PERMISSIONS \<and> dependencies_met (set VIEWER_PERMISSIONS)"
  by code_simp

lemma operator_closed: "set OPERATOR_PERMISSIONS \<subseteq> ALL_PERMISSIONS \<and> dependencies_met (set OPERATOR_PERMISSIONS)"
  by code_simp

lemma rate_manager_closed:
  "set RATE_MANAGER_PERMISSIONS \<subseteq> ALL_PERMISSIONS \<and> dependencies_met (set RATE_MANAGER_PERMISSIONS)"
  by code_simp

lemma builtin_role_closed:
  "(name, codes) \<in> set BUILTIN_ROLE_PERMISSIONS \<Longrightarrow> set codes \<subseteq> ALL_PERMISSIONS \<and> dependencies_met (set codes)"
  using viewer_closed operator_closed rate_manager_closed all_permissions_closed
  by (auto simp: BUILTIN_ROLE_PERMISSIONS_def ALL_PERMISSIONS_def)

lemma data_reset_registered: "''system.data_reset'' \<in> ALL_PERMISSIONS"
  by code_simp

lemma validate_permissions_Inr:
  "validate_permissions codes = Inr u \<longleftrightarrow>
     codes \<subseteq> ALL_PERMISSIONS \<and> codes \<inter> ADMIN_ONLY_PERMISSIONS = {} \<and> dependencies_met codes"
  by (simp add: validate_permissions_def result_simps)

end
