(* ===== verification/Access_Model.thy ===== *)
theory Access_Model
  imports Access_Catalog
begin

text \<open>
  The tables of users, roles, sites and browser sessions, the helpers of
  \<^verbatim>\<open>backend/app/access.py\<close> over them, and the sessions of \<^verbatim>\<open>backend/app/security/browser.py\<close>.
  A table is a list of rows in insertion order.  The columns that the database layer maintains by
  itself (creation and update times) and the source address and user agent of a session are left
  out.  An audit row keeps who did what to which object with which outcome, without its details.
  HMAC, the Argon2 hasher, the cipher of stored secrets and the TOTP verifier are functions of a record;
  random identifiers and tokens are arguments.
\<close>

section \<open>Rows\<close>

record user_row =
  us_id :: string
  us_email :: string
  us_display_name :: string
  us_password_hash :: string
  us_is_active :: bool
  us_lifecycle_state :: string
  us_is_protected :: bool
  us_password_changed_at :: "instant option"
  us_last_login_at :: "instant option"
  us_all_sites :: bool
  us_access_revision :: int
  us_removed_at :: "instant option"
  us_removed_by :: "string option"
  us_removal_reason :: "string option"
  us_restored_at :: "instant option"
  us_restored_by :: "string option"
  us_removed_role_ids :: "string list"
  us_removed_site_ids :: "string list"
  us_removed_all_sites :: bool

record role_row =
  ro_name :: string
  ro_display_name :: string
  ro_description :: string
  ro_is_builtin :: bool
  ro_is_archived :: bool
  ro_revision :: int
  ro_created_by :: "string option"
  ro_updated_by :: "string option"

record role_revision =
  rr_role_name :: string
  rr_revision :: int
  rr_display_name :: string
  rr_description :: string
  rr_permissions :: "string list"
  rr_created_by :: "string option"
  rr_created_at :: instant
  rr_reason :: "string option"

record browser_session =
  bs_id :: string
  bs_user_id :: string
  bs_token_hash :: string
  bs_csrf_hash :: string
  bs_created_at :: instant
  bs_expires_at :: datetime
  bs_last_seen_at :: instant
  bs_revoked_at :: "instant option"
  bs_reauthenticated_at :: "datetime option"

record totp_credential =
  tc_user_id :: string
  tc_encrypted_secret :: string
  tc_confirmed :: bool

record access_event =
  ae_occurred_at :: instant
  ae_actor_type :: string
  ae_actor_id :: "string option"
  ae_action :: string
  ae_object_type :: "string option"
  ae_object_id :: "string option"
  ae_outcome :: string

record access_db =
  users :: "user_row list"
  roles :: "role_row list"
  permission_rows :: "permission_definition list"
  role_permissions :: "(string \<times> string) list"
  user_roles :: "(string \<times> string) list"
  user_sites :: "(string \<times> string) list"
  site_ids :: "string list"
  role_revisions :: "role_revision list"
  sessions :: "browser_session list"
  totp_credentials :: "totp_credential list"
  access_events :: "access_event list"

record access_crypto =
  hmac_sha256_hex :: "string \<Rightarrow> string \<Rightarrow> string"
  argon2_hash :: "string \<Rightarrow> string \<Rightarrow> string"
  argon2_verify :: "string \<Rightarrow> string \<Rightarrow> bool"
  encrypt_secret :: "string \<Rightarrow> string"
  decrypt_secret :: "string \<Rightarrow> string option"
  totp_verify :: "string \<Rightarrow> instant \<Rightarrow> string \<Rightarrow> bool"

definition access_audit ::
  "instant \<Rightarrow> string \<Rightarrow> string option \<Rightarrow> string \<Rightarrow> string option \<Rightarrow> string option \<Rightarrow> string \<Rightarrow> access_event"
where
  "access_audit now actor_type actor_id action object_type object_id outcome =
     \<lparr>ae_occurred_at = now, ae_actor_type = actor_type, ae_actor_id = actor_id, ae_action = action,
      ae_object_type = object_type, ae_object_id = object_id, ae_outcome = outcome\<rparr>"

definition add_access_event :: "access_event \<Rightarrow> access_db \<Rightarrow> access_db" where
  "add_access_event e db = db\<lparr>access_events := access_events db @ [e]\<rparr>"

section \<open>Lookups and row updates\<close>

definition find_user :: "access_db \<Rightarrow> string \<Rightarrow> user_row option" where
  "find_user db user_id = find (\<lambda>u. us_id u = user_id) (users db)"

definition find_role :: "access_db \<Rightarrow> string \<Rightarrow> role_row option" where
  "find_role db name = find (\<lambda>r. ro_name r = name) (roles db)"

definition update_user :: "string \<Rightarrow> (user_row \<Rightarrow> user_row) \<Rightarrow> access_db \<Rightarrow> access_db" where
  "update_user user_id f db = db\<lparr>users := map (\<lambda>u. if us_id u = user_id then f u else u) (users db)\<rparr>"

definition update_role_row :: "string \<Rightarrow> (role_row \<Rightarrow> role_row) \<Rightarrow> access_db \<Rightarrow> access_db" where
  "update_role_row name f db = db\<lparr>roles := map (\<lambda>r. if ro_name r = name then f r else r) (roles db)\<rparr>"

definition replace_user_roles :: "string \<Rightarrow> string set \<Rightarrow> access_db \<Rightarrow> access_db" where
  "replace_user_roles user_id names db =
     db\<lparr>user_roles := filter (\<lambda>(u, _). u \<noteq> user_id) (user_roles db) @
         map (Pair user_id) (sorted_list_of_set names)\<rparr>"

definition replace_role_permissions :: "string \<Rightarrow> string set \<Rightarrow> access_db \<Rightarrow> access_db" where
  "replace_role_permissions name codes db =
     db\<lparr>role_permissions := filter (\<lambda>(r, _). r \<noteq> name) (role_permissions db) @
         map (Pair name) (sorted_list_of_set codes)\<rparr>"

section \<open>The stored catalogue\<close>

definition upsert_permission :: "permission_definition \<Rightarrow> access_db \<Rightarrow> access_db" where
  "upsert_permission d db =
     (if pd_code d \<in> pd_code ` set (permission_rows db)
      then db\<lparr>permission_rows := map (\<lambda>p. if pd_code p = pd_code d then d else p) (permission_rows db)\<rparr>
      else db\<lparr>permission_rows := permission_rows db @ [d]\<rparr>)"

definition builtin_descriptions :: "(string, string) dict" where
  "builtin_descriptions =
     [(''admin'', ''Full system and security administration''),
      (''operator'', ''Devices, enrollment, alerts, firmware, and assigned-site operations''),
      (''rate-manager'', ''Create, review, approve, and assign rate plans''),
      (''viewer'', ''Read-only dashboard and permitted exports'')]"

definition ensure_role_row :: "string \<Rightarrow> access_db \<Rightarrow> access_db" where
  "ensure_role_row name db =
     (case find_role db name of
        None \<Rightarrow> db\<lparr>roles := roles db @
          [\<lparr>ro_name = name, ro_display_name = dict_get BUILTIN_ROLE_LABELS name [],
            ro_description = dict_get builtin_descriptions name [], ro_is_builtin = True, ro_is_archived = False,
            ro_revision = 1, ro_created_by = None, ro_updated_by = None\<rparr>]\<rparr>
      | Some _ \<Rightarrow> update_role_row name
          (\<lambda>r. r\<lparr>ro_display_name := dict_get BUILTIN_ROLE_LABELS name [], ro_is_builtin := True,
                 ro_is_archived := False\<rparr>) db)"

definition sync_role_permissions :: "string \<Rightarrow> string list \<Rightarrow> access_db \<Rightarrow> access_db" where
  "sync_role_permissions name configured db =
     (let existing = snd ` set (filter (\<lambda>(r, _). r = name) (role_permissions db)) in
      db\<lparr>role_permissions :=
           filter (\<lambda>(r, p). r = name \<longrightarrow> p \<in> set configured) (role_permissions db) @
           map (Pair name) (filter (\<lambda>p. p \<notin> existing) configured)\<rparr>)"

definition ensure_access_catalog :: "access_db \<Rightarrow> access_db" where
  "ensure_access_catalog db =
     fold (\<lambda>(name, configured) db. sync_role_permissions name configured (ensure_role_row name db))
       BUILTIN_ROLE_PERMISSIONS (fold upsert_permission PERMISSION_DEFINITIONS db)"

section \<open>Effective access\<close>

definition live_role :: "access_db \<Rightarrow> string \<Rightarrow> bool" where
  "live_role db name \<longleftrightarrow> (\<exists>r\<in>set (roles db). ro_name r = name \<and> \<not> ro_is_archived r)"

definition user_role_names :: "access_db \<Rightarrow> string \<Rightarrow> string set" where
  "user_role_names db user_id =
     snd ` set (filter (\<lambda>(u, name). u = user_id \<and> live_role db name) (user_roles db))"

definition permissions_for_roles :: "access_db \<Rightarrow> string set \<Rightarrow> string set" where
  "permissions_for_roles db role_names =
     (if ''admin'' \<in> role_names then ALL_PERMISSIONS
      else if role_names = {} then {}
      else (let stored = snd ` set (filter (\<lambda>(r, _). r \<in> role_names \<and> live_role db r) (role_permissions db));
                builtin = (\<Union>name\<in>role_names. set (dict_get BUILTIN_ROLE_PERMISSIONS name []))
            in (stored \<union> builtin) - ADMIN_ONLY_PERMISSIONS))"

definition effective_permissions :: "access_db \<Rightarrow> string \<Rightarrow> string set" where
  "effective_permissions db user_id = permissions_for_roles db (user_role_names db user_id)"

definition explicit_site_ids :: "access_db \<Rightarrow> string \<Rightarrow> string set" where
  "explicit_site_ids db user_id = snd ` set (filter (\<lambda>(u, _). u = user_id) (user_sites db))"

definition site_in_scope :: "bool \<Rightarrow> string set \<Rightarrow> string \<Rightarrow> bool" where
  "site_in_scope all_sites allowed site_id \<longleftrightarrow> all_sites \<or> site_id \<in> allowed"

section \<open>Sessions and protected changes\<close>

definition revocable :: "string \<Rightarrow> string option \<Rightarrow> browser_session \<Rightarrow> bool" where
  "revocable user_id exclude s \<longleftrightarrow>
     bs_user_id s = user_id \<and> bs_revoked_at s = None \<and> (truthy exclude \<longrightarrow> exclude \<noteq> Some (bs_id s))"

definition revoke_user_sessions :: "instant \<Rightarrow> string \<Rightarrow> string option \<Rightarrow> access_db \<Rightarrow> access_db \<times> nat" where
  "revoke_user_sessions now user_id exclude db =
     (db\<lparr>sessions := map (\<lambda>s. if revocable user_id exclude s then s\<lparr>bs_revoked_at := Some now\<rparr> else s)
          (sessions db)\<rparr>,
      length (filter (revocable user_id exclude) (sessions db)))"

definition replace_user_sites :: "string \<Rightarrow> string set \<Rightarrow> access_db \<Rightarrow> access_db" where
  "replace_user_sites user_id sites db =
     db\<lparr>user_sites := filter (\<lambda>(u, _). u \<noteq> user_id) (user_sites db) @
         map (Pair user_id) (sorted_list_of_set sites)\<rparr>"

definition recently_reauthenticated :: "instant \<Rightarrow> datetime option \<Rightarrow> access_error + unit" where
  "recently_reauthenticated now reauthenticated_at =
     (case reauthenticated_at of
        None \<Rightarrow> Inl (Problem 428 ''reauthentication_required'')
      | Some t \<Rightarrow> guard (\<not> aware t < now - seconds 300) (Problem 428 ''reauthentication_required''))"

definition require_data_reset_administrator :: "string set \<Rightarrow> string set \<Rightarrow> access_error + unit" where
  "require_data_reset_administrator role_names permissions =
     guard (\<not> (''admin'' \<notin> role_names \<or> ''system.data_reset'' \<notin> permissions))
       (Problem 403 ''data_reset_administrator_required'')"

text \<open>\<^verbatim>\<open>custom_role_identifier\<close>: the prefix before twenty random hexadecimal digits.\<close>

definition custom_role_identifier :: "string \<Rightarrow> string" where
  "custom_role_identifier token_hex = ''custom-'' @ token_hex"

text \<open>\<^verbatim>\<open>value.split()\<close> cuts at runs of white space, and the words are joined by one space.\<close>

fun split_words :: "string \<Rightarrow> string \<Rightarrow> string list" where
  "split_words word [] = (if word = [] then [] else [rev word])"
| "split_words word (c # cs) =
     (if is_space c then (if word = [] then split_words [] cs else rev word # split_words [] cs)
      else split_words (c # word) cs)"

fun join_words :: "string list \<Rightarrow> string" where
  "join_words [] = []"
| "join_words [w] = w"
| "join_words (w # v # ws) = w @ '' '' @ join_words (v # ws)"

definition is_control :: "char \<Rightarrow> bool" where
  "is_control c \<longleftrightarrow> (of_char c :: nat) < 32 \<or> (of_char c :: nat) = 127"

definition validate_role_display_name :: "string \<Rightarrow> access_error + string" where
  "validate_role_display_name v =
     (let normalized = join_words (split_words [] v) in
      bindE (guard (3 \<le> length normalized \<and> length normalized \<le> 120 \<and> \<not> list_ex is_control normalized)
               (Problem 422 ''role_name_invalid'')) (\<lambda>_. Inr normalized))"

section \<open>Administrators\<close>

definition excluded :: "string option \<Rightarrow> string \<Rightarrow> bool" where
  "excluded excluding_user_id user_id \<longleftrightarrow> truthy excluding_user_id \<and> excluding_user_id = Some user_id"

definition active_admin_count :: "access_db \<Rightarrow> string option \<Rightarrow> nat" where
  "active_admin_count db excluding =
     length (filter (\<lambda>(user_id, name). name = ''admin'' \<and> \<not> excluded excluding user_id \<and>
        (\<exists>u\<in>set (users db). us_id u = user_id \<and> us_is_active u)) (user_roles db))"

definition recovery_permissions :: "string set" where
  "recovery_permissions =
     {''users.manage'', ''roles.manage'', ''users.disable'', ''users.remove'', ''users.restore''}"

definition recovery_administrator :: "access_db \<Rightarrow> user_row \<Rightarrow> bool" where
  "recovery_administrator db u \<longleftrightarrow>
     us_is_active u \<and> us_lifecycle_state u = ''active'' \<and> us_all_sites u \<and>
     recovery_permissions \<subseteq> effective_permissions db (us_id u)"

definition active_recovery_administrator_count :: "access_db \<Rightarrow> string option \<Rightarrow> nat" where
  "active_recovery_administrator_count db excluding =
     length (filter (\<lambda>u. \<not> excluded excluding (us_id u) \<and> recovery_administrator db u) (users db))"

section \<open>Passwords and browser sessions\<close>

text \<open>The character tests of Python on the characters up to 255.\<close>

definition is_lower :: "char \<Rightarrow> bool" where
  "is_lower c \<longleftrightarrow> (let n = of_char c :: nat in
     (97 \<le> n \<and> n \<le> 122) \<or> (223 \<le> n \<and> n \<le> 255 \<and> n \<noteq> 247) \<or> n \<in> {170, 181, 186})"

definition is_upper :: "char \<Rightarrow> bool" where
  "is_upper c \<longleftrightarrow> (let n = of_char c :: nat in (65 \<le> n \<and> n \<le> 90) \<or> (192 \<le> n \<and> n \<le> 222 \<and> n \<noteq> 215))"

definition is_digit_char :: "char \<Rightarrow> bool" where
  "is_digit_char c \<longleftrightarrow> (let n = of_char c :: nat in (48 \<le> n \<and> n \<le> 57) \<or> n \<in> {178, 179, 185})"

definition is_alnum :: "char \<Rightarrow> bool" where
  "is_alnum c \<longleftrightarrow> is_lower c \<or> is_upper c \<or> is_digit_char c \<or> (of_char c :: nat) \<in> {188, 189, 190}"

definition password_is_strong :: "string \<Rightarrow> bool" where
  "password_is_strong password \<longleftrightarrow>
     14 \<le> length password \<and>
     3 \<le> length (filter id [list_ex is_lower password, list_ex is_upper password,
        list_ex is_digit_char password, list_ex (\<lambda>c. \<not> is_alnum c) password])"

definition opaque_hash :: "access_crypto \<Rightarrow> string \<Rightarrow> string \<Rightarrow> access_error + string" where
  "opaque_hash cr v pepper =
     bindE (guard (pepper \<noteq> []) Runtime_error) (\<lambda>_. Inr (hmac_sha256_hex cr pepper v))"

definition create_session ::
  "access_crypto \<Rightarrow> instant \<Rightarrow> string \<Rightarrow> string \<Rightarrow> string \<Rightarrow> string \<Rightarrow> string \<Rightarrow> int \<Rightarrow> access_error + browser_session"
where
  "create_session cr now session_id token csrf user_id pepper duration_hours =
     bindE (opaque_hash cr token pepper) (\<lambda>token_hash.
     bindE (opaque_hash cr csrf pepper) (\<lambda>csrf_hash.
     Inr \<lparr>bs_id = session_id, bs_user_id = user_id, bs_token_hash = token_hash, bs_csrf_hash = csrf_hash,
          bs_created_at = now, bs_expires_at = Aware (now + seconds (3600 * duration_hours)),
          bs_last_seen_at = now, bs_revoked_at = None, bs_reauthenticated_at = None\<rparr>))"

record session_principal =
  sp_user :: user_row
  sp_session :: browser_session
  sp_roles :: "string set"
  sp_permissions :: "string set"
  sp_all_sites :: bool
  sp_site_ids :: "string set"

definition live_session :: "access_db \<Rightarrow> instant \<Rightarrow> string \<Rightarrow> (browser_session \<times> user_row) option" where
  "live_session db now token_hash =
     (case find (\<lambda>s. bs_token_hash s = token_hash) (sessions db) of
        None \<Rightarrow> None
      | Some s \<Rightarrow>
          if bs_revoked_at s \<noteq> None \<or> aware (bs_expires_at s) \<le> now then None
          else (case find_user db (bs_user_id s) of
                  None \<Rightarrow> None
                | Some u \<Rightarrow> if us_is_active u then Some (s, u) else None))"

definition update_session :: "string \<Rightarrow> (browser_session \<Rightarrow> browser_session) \<Rightarrow> access_db \<Rightarrow> access_db" where
  "update_session session_id f db =
     db\<lparr>sessions := map (\<lambda>s. if bs_id s = session_id then f s else s) (sessions db)\<rparr>"

definition authenticate_session ::
  "access_crypto \<Rightarrow> instant \<Rightarrow> string \<Rightarrow> string \<Rightarrow> access_db \<Rightarrow> access_error + (session_principal \<times> access_db) option"
where
  "authenticate_session cr now token pepper db =
     bindE (opaque_hash cr token pepper) (\<lambda>token_hash.
     Inr (case live_session db now token_hash of
            None \<Rightarrow> None
          | Some (s, u) \<Rightarrow> Some
              (\<lparr>sp_user = u, sp_session = s\<lparr>bs_last_seen_at := now\<rparr>, sp_roles = user_role_names db (us_id u),
                sp_permissions = effective_permissions db (us_id u), sp_all_sites = us_all_sites u,
                sp_site_ids = explicit_site_ids db (us_id u)\<rparr>,
               update_session (bs_id s) (\<lambda>s. s\<lparr>bs_last_seen_at := now\<rparr>) db)))"

definition csrf_matches :: "access_crypto \<Rightarrow> browser_session \<Rightarrow> string option \<Rightarrow> string \<Rightarrow> access_error + bool" where
  "csrf_matches cr s supplied pepper =
     (if \<not> truthy supplied then Inr False
      else bindE (opaque_hash cr (the supplied) pepper) (\<lambda>h. Inr (bs_csrf_hash s = h)))"

lemma recovery_registered: "recovery_permissions \<subseteq> ALL_PERMISSIONS"
  by code_simp

end
