(* ===== verification/Access_Routes.thy ===== *)
theory Access_Routes
  imports Access_Model
begin

text \<open>
  The routes that change who may do what: sign-in of \<^verbatim>\<open>api/routes/auth.py\<close>, users of
  \<^verbatim>\<open>api/routes/management.py\<close> and the administration of users and roles in
  \<^verbatim>\<open>api/routes/access_control.py\<close>, behind the dependencies of \<^verbatim>\<open>api/deps.py\<close>.

  A route maps a request and the state to an answer and the next state.  The state is the database
  and the two tables of recent attempts that live in the memory of the process.  An uncaught error rolls
  the database back, so \<^verbatim>\<open>conclude\<close> keeps the state from before the request, except that a denial
  commits its audit row first.  The clock is read once per request.  The texts of the answers
  are left out; what a route answers is the number of sessions it revoked, a flag or an identifier.
\<close>

section \<open>State, requests and outcomes\<close>

record access_state =
  as_db :: access_db
  high_risk_attempts :: "(string, instant list) dict"
  login_attempts :: "(string, instant list) dict"

record access_env =
  en_now :: instant
  en_monotonic :: instant
  en_session_pepper :: string
  en_session_hours :: int
  en_bootstrap_secret :: string
  en_crypto :: access_crypto

record access_request =
  rq_token :: "string option"
  rq_csrf :: "string option"

type_synonym 'a outcome = "(access_error + 'a) \<times> access_state"

definition audit_denial :: "access_env \<Rightarrow> session_principal \<Rightarrow> string \<Rightarrow> string \<Rightarrow> string \<Rightarrow> access_db \<Rightarrow> access_db" where
  "audit_denial env pr action object_type object_id db =
     add_access_event (access_audit (en_now env) ''user'' (Some (us_id (sp_user pr))) action (Some object_type)
       (Some object_id) ''denied'') db"

definition conclude ::
  "access_env \<Rightarrow> session_principal \<Rightarrow> access_db \<Rightarrow> access_state \<Rightarrow> access_error + (access_db \<times> 'a) \<Rightarrow> 'a outcome"
where
  "conclude env pr db st r =
     (case r of
        Inr (db', a) \<Rightarrow> (Inr a, st\<lparr>as_db := db'\<rparr>)
      | Inl (Denied status code action object_type object_id) \<Rightarrow>
          (Inl (Denied status code action object_type object_id),
           st\<lparr>as_db := audit_denial env pr action object_type object_id db\<rparr>)
      | Inl e \<Rightarrow> (Inl e, st))"

definition user_event :: "access_env \<Rightarrow> session_principal \<Rightarrow> string \<Rightarrow> string \<Rightarrow> string \<Rightarrow> access_db \<Rightarrow> access_db" where
  "user_event env pr action object_type object_id =
     add_access_event (access_audit (en_now env) ''user'' (Some (us_id (sp_user pr))) action (Some object_type)
       (Some object_id) ''success'')"

section \<open>Dependencies of the routes\<close>

definition current_principal :: "access_env \<Rightarrow> access_request \<Rightarrow> access_db \<Rightarrow> access_error + (session_principal \<times> access_db)" where
  "current_principal env rq db =
     bindE (guard (truthy (rq_token rq)) (Problem 401 ''not_authenticated'')) (\<lambda>_.
     bindE (authenticate_session (en_crypto env) (en_now env) (the (rq_token rq)) (en_session_pepper env) db) (\<lambda>found.
     case found of None \<Rightarrow> Inl (Problem 401 ''session_expired'') | Some x \<Rightarrow> Inr x))"

definition require_csrf :: "access_env \<Rightarrow> access_request \<Rightarrow> access_db \<Rightarrow> access_error + (session_principal \<times> access_db)" where
  "require_csrf env rq db =
     bindE (current_principal env rq db) (\<lambda>(pr, db').
     bindE (csrf_matches (en_crypto env) (sp_session pr) (rq_csrf rq) (en_session_pepper env)) (\<lambda>ok.
     bindE (guard ok (Problem 403 ''csrf_failed'')) (\<lambda>_. Inr (pr, db'))))"

definition signed_in ::
  "access_env \<Rightarrow> access_request \<Rightarrow> access_state \<Rightarrow> (session_principal \<Rightarrow> access_db \<Rightarrow> 'a outcome) \<Rightarrow> 'a outcome"
where
  "signed_in env rq st k =
     (case require_csrf env rq (as_db st) of Inl e \<Rightarrow> (Inl e, st) | Inr (pr, db) \<Rightarrow> k pr db)"

definition require_permission :: "session_principal \<Rightarrow> string \<Rightarrow> access_error + unit" where
  "require_permission pr needed = guard (needed \<in> sp_permissions pr) (Problem 403 ''forbidden'')"

text \<open>Attempts of the last five minutes, and the limit of twenty protected changes in them.\<close>

definition recent_attempts :: "instant \<Rightarrow> instant list \<Rightarrow> instant list" where
  "recent_attempts now attempts = dropWhile (\<lambda>t. t < now - seconds 300) attempts"

definition admit_attempt :: "instant \<Rightarrow> instant list \<Rightarrow> bool \<times> instant list" where
  "admit_attempt now attempts =
     (let kept = recent_attempts now attempts in
      if 20 \<le> length kept then (False, kept) else (True, kept @ [now]))"

definition attempt_key :: "string \<Rightarrow> string \<Rightarrow> string" where
  "attempt_key a b = a @ '':'' @ b"

definition rate_limit :: "access_env \<Rightarrow> session_principal \<Rightarrow> string \<Rightarrow> access_state \<Rightarrow> bool \<times> access_state" where
  "rate_limit env pr action st =
     (let key = attempt_key (us_id (sp_user pr)) action;
          (ok, attempts) = admit_attempt (en_monotonic env) (dict_get (high_risk_attempts st) key [])
      in (ok, st\<lparr>high_risk_attempts := dict_set (high_risk_attempts st) key attempts\<rparr>))"

definition limited ::
  "access_env \<Rightarrow> session_principal \<Rightarrow> string \<Rightarrow> string \<Rightarrow> access_state \<Rightarrow> (access_state \<Rightarrow> 'a outcome) \<Rightarrow> 'a outcome"
where
  "limited env pr needed action st k =
     (case require_permission pr needed of
        Inl e \<Rightarrow> (Inl e, st)
      | Inr _ \<Rightarrow>
          (case rate_limit env pr action st of
             (ok, st') \<Rightarrow> if ok then k st' else (Inl (Problem 429 ''protected_change_throttled''), st')))"

section \<open>Whom the caller may manage\<close>

definition target_scope_allowed :: "access_db \<Rightarrow> session_principal \<Rightarrow> user_row \<Rightarrow> bool" where
  "target_scope_allowed db pr u \<longleftrightarrow>
     (if sp_all_sites pr then True
      else (let removed = us_lifecycle_state u = ''removed'';
                everywhere = (if removed then us_removed_all_sites u else us_all_sites u);
                sites = (if removed then set (us_removed_site_ids u) else explicit_site_ids db (us_id u))
            in if everywhere then False else sites \<subseteq> sp_site_ids pr))"

definition load_manageable_user :: "access_db \<Rightarrow> session_principal \<Rightarrow> string \<Rightarrow> access_error + user_row" where
  "load_manageable_user db pr user_id =
     (case find_user db user_id of
        None \<Rightarrow> Inl (Problem 404 ''user_missing'')
      | Some u \<Rightarrow> bindE (guard (target_scope_allowed db pr u) (Problem 404 ''user_missing'')) (\<lambda>_. Inr u))"

section \<open>Payloads\<close>

record access_update =
  au_role_ids :: "string list"
  au_all_sites :: bool
  au_site_ids :: "string list"
  au_expected_revision :: int
  au_confirm_high_risk :: bool

definition valid_access_update :: "access_update \<Rightarrow> bool" where
  "valid_access_update p \<longleftrightarrow>
     1 \<le> length (au_role_ids p) \<and> length (au_role_ids p) \<le> 20 \<and> length (au_site_ids p) \<le> 500 \<and>
     1 \<le> au_expected_revision p"

record status_change =
  sc_confirm_high_risk :: bool
  sc_expected_revision :: "int option"

record removal_request =
  rm_reason :: string
  rm_confirmation :: string
  rm_expected_revision :: int
  rm_confirm_high_risk :: bool

record restore_request =
  re_expected_revision :: int
  re_confirm_high_risk :: bool

record role_write =
  rw_display_name :: string
  rw_description :: string
  rw_permissions :: "string list"
  rw_expected_revision :: "int option"
  rw_reason :: "string option"
  rw_confirm_high_risk :: bool

definition valid_role_write :: "role_write \<Rightarrow> bool" where
  "valid_role_write p \<longleftrightarrow>
     3 \<le> length (rw_display_name p) \<and> length (rw_display_name p) \<le> 120 \<and>
     3 \<le> length (rw_description p) \<and> length (rw_description p) \<le> 255 \<and>
     1 \<le> length (rw_permissions p) \<and> length (rw_permissions p) \<le> 100"

record user_create =
  uc_email :: string
  uc_display_name :: string
  uc_password :: string
  uc_roles :: "string list"
  uc_confirm_high_risk :: bool

definition valid_user_create :: "user_create \<Rightarrow> bool" where
  "valid_user_create p \<longleftrightarrow>
     1 \<le> length (uc_display_name p) \<and> length (uc_display_name p) \<le> 120 \<and>
     14 \<le> length (uc_password p) \<and> length (uc_password p) \<le> 1024 \<and>
     uc_roles p \<noteq> [] \<and> set (uc_roles p) \<subseteq> BUILTIN_ROLE_NAMES"

section \<open>Changing the access of a user\<close>

definition confirmed_change :: "access_env \<Rightarrow> session_principal \<Rightarrow> bool \<Rightarrow> bool \<Rightarrow> access_error + unit" where
  "confirmed_change env pr high_risk confirm =
     (if high_risk
      then bindE (guard confirm (Problem 409 ''high_risk_confirmation_required'')) (\<lambda>_.
           recently_reauthenticated (en_now env) (bs_reauthenticated_at (sp_session pr)))
      else Inr ())"

definition requested_sites_allowed :: "access_db \<Rightarrow> session_principal \<Rightarrow> access_update \<Rightarrow> access_error + unit" where
  "requested_sites_allowed db pr p =
     (let requested = set (au_site_ids p) in
      bindE (guard (\<not> (au_all_sites p \<and> \<not> sp_all_sites pr)) (Problem 403 ''site_delegation_forbidden'')) (\<lambda>_.
      if au_all_sites p then Inr ()
      else bindE (guard (sp_all_sites pr \<or> requested \<subseteq> sp_site_ids pr) (Problem 403 ''site_delegation_forbidden'')) (\<lambda>_.
           guard (set (site_ids db) \<inter> requested = requested) (Problem 403 ''site_delegation_forbidden''))))"

definition self_restriction :: "session_principal \<Rightarrow> user_row \<Rightarrow> string set \<Rightarrow> access_update \<Rightarrow> bool" where
  "self_restriction pr user requested_permissions p \<longleftrightarrow>
     us_id user = us_id (sp_user pr) \<and>
     (''users.manage'' \<notin> requested_permissions \<or> ''roles.manage'' \<notin> requested_permissions \<or>
      (sp_all_sites pr \<and> \<not> au_all_sites p))"

definition access_change_allowed ::
  "access_env \<Rightarrow> session_principal \<Rightarrow> access_db \<Rightarrow> user_row \<Rightarrow> access_update \<Rightarrow> access_error + unit"
where
  "access_change_allowed env pr db user p =
     (let requested_roles = set (au_role_ids p);
          requested = permissions_for_roles db requested_roles;
          prior_roles = user_role_names db (us_id user);
          prior = effective_permissions db (us_id user);
          others = active_recovery_administrator_count db (Some (us_id user));
          restricts_self = self_restriction pr user requested p;
          high_risk = ((''admin'' \<in> prior_roles) \<noteq> (''admin'' \<in> requested_roles) \<or> \<not> requested \<subseteq> prior \<or> restricts_self)
      in
     bindE (guard (us_lifecycle_state user \<noteq> ''removed'') (Problem 409 ''user_removed'')) (\<lambda>_.
     bindE (guard (us_access_revision user = au_expected_revision p) (Problem 409 ''access_revision_conflict'')) (\<lambda>_.
     bindE (guard (length (filter (\<lambda>r. ro_name r \<in> requested_roles \<and> \<not> ro_is_archived r) (roles db)) = card requested_roles)
              (Problem 422 ''role_invalid'')) (\<lambda>_.
     bindE (guard (requested \<subseteq> sp_permissions pr)
              (Denied 403 ''permission_delegation_forbidden'' ''user.access_change_rejected'' ''user'' (us_id user))) (\<lambda>_.
     bindE (requested_sites_allowed db pr p) (\<lambda>_.
     bindE (guard (\<not> (''admin'' \<in> prior_roles \<and> ''admin'' \<notin> requested_roles \<and> others = 0))
              (Denied 409 ''last_admin_required'' ''user.access_change_rejected'' ''user'' (us_id user))) (\<lambda>_.
     bindE (guard (\<not> (''admin'' \<in> prior_roles \<and> ''users.manage_protected'' \<notin> sp_permissions pr))
              (Problem 403 ''protected_administrator_forbidden'')) (\<lambda>_.
     bindE (confirmed_change env pr high_risk (au_confirm_high_risk p)) (\<lambda>_.
     guard (\<not> (restricts_self \<and> others = 0)) (Problem 409 ''self_lockout_prevented''))))))))))"

definition access_row :: "access_update \<Rightarrow> user_row \<Rightarrow> user_row" where
  "access_row p u = u\<lparr>us_all_sites := au_all_sites p, us_access_revision := us_access_revision u + 1\<rparr>"

definition write_access :: "access_env \<Rightarrow> session_principal \<Rightarrow> user_row \<Rightarrow> access_update \<Rightarrow> access_db \<Rightarrow> access_db \<times> nat" where
  "write_access env pr user p db =
     (let db1 = replace_user_roles (us_id user) (set (au_role_ids p)) db;
          db2 = replace_user_sites (us_id user) (if au_all_sites p then {} else set (au_site_ids p)) db1;
          db3 = update_user (us_id user) (access_row p) db2;
          (db4, revoked) = revoke_user_sessions (en_now env) (us_id user) None db3
      in (user_event env pr ''user.access_updated'' ''user'' (us_id user) db4, revoked))"

definition update_user_access ::
  "access_env \<Rightarrow> access_request \<Rightarrow> string \<Rightarrow> access_update \<Rightarrow> access_state \<Rightarrow> nat outcome"
where
  "update_user_access env rq user_id p st =
     signed_in env rq st (\<lambda>pr db. limited env pr ''users.manage'' ''user-access'' st (\<lambda>st'.
       conclude env pr db st'
         (bindE (load_manageable_user db pr user_id) (\<lambda>user.
          bindE (access_change_allowed env pr db user p) (\<lambda>_.
          Inr (write_access env pr user p db))))))"

section \<open>Enabling and disabling a user\<close>

definition status_change_allowed ::
  "access_env \<Rightarrow> session_principal \<Rightarrow> access_db \<Rightarrow> bool \<Rightarrow> user_row \<Rightarrow> status_change \<Rightarrow> access_error + unit"
where
  "status_change_allowed env pr db active user p =
     (let held_roles = user_role_names db (us_id user);
          recovery = us_is_active user \<and> us_all_sites user \<and>
            recovery_permissions \<subseteq> effective_permissions db (us_id user)
      in
     bindE (guard (us_lifecycle_state user \<noteq> ''removed'') (Problem 409 ''user_removed'')) (\<lambda>_.
     bindE (guard (sc_expected_revision p \<noteq> None \<longrightarrow> sc_expected_revision p = Some (us_access_revision user))
              (Problem 409 ''access_revision_conflict'')) (\<lambda>_.
     bindE (guard (\<not> (active \<and> held_roles = {})) (Problem 409 ''user_access_required'')) (\<lambda>_.
     bindE (guard (\<not> (\<not> active \<and> recovery \<and> active_recovery_administrator_count db (Some (us_id user)) = 0))
              (Denied 409 ''last_admin_required'' ''user.disable_rejected'' ''user'' (us_id user))) (\<lambda>_.
     bindE (guard (\<not> (\<not> active \<and> us_id user = us_id (sp_user pr))) (Problem 409 ''self_deactivation_forbidden'')) (\<lambda>_.
     bindE (guard (\<not> (\<not> active \<and> us_is_protected user)) (Problem 409 ''protected_account'')) (\<lambda>_.
     confirmed_change env pr (\<not> active \<and> (''admin'' \<in> held_roles \<or> recovery)) (sc_confirm_high_risk p))))))))"

definition status_name :: "bool \<Rightarrow> string" where
  "status_name active = (if active then ''active'' else ''disabled'')"

definition status_row :: "bool \<Rightarrow> bool \<Rightarrow> user_row \<Rightarrow> user_row" where
  "status_row active changed u = u\<lparr>us_is_active := active, us_lifecycle_state := status_name active,
     us_access_revision := us_access_revision u + (if changed then 1 else 0)\<rparr>"

definition write_status ::
  "access_env \<Rightarrow> session_principal \<Rightarrow> bool \<Rightarrow> user_row \<Rightarrow> access_db \<Rightarrow> access_db \<times> bool \<times> nat"
where
  "write_status env pr active user db =
     (let changed = (us_is_active user \<noteq> active \<or> us_lifecycle_state user \<noteq> status_name active);
          db1 = update_user (us_id user) (status_row active changed) db;
          (db2, revoked) = (if active then (db1, 0) else revoke_user_sessions (en_now env) (us_id user) None db1);
          db3 = (if changed then user_event env pr (if active then ''user.enabled'' else ''user.disabled'') ''user''
                   (us_id user) db2 else db2)
      in (db3, changed, revoked))"

definition set_user_active ::
  "bool \<Rightarrow> access_env \<Rightarrow> access_request \<Rightarrow> string \<Rightarrow> status_change \<Rightarrow> access_state \<Rightarrow> (bool \<times> nat) outcome"
where
  "set_user_active active env rq user_id p st =
     signed_in env rq st (\<lambda>pr db. limited env pr ''users.disable'' ''user-status'' st (\<lambda>st'.
       conclude env pr db st'
         (bindE (load_manageable_user db pr user_id) (\<lambda>user.
          bindE (status_change_allowed env pr db active user p) (\<lambda>_.
          Inr (write_status env pr active user db))))))"

definition enable_user ::
  "access_env \<Rightarrow> access_request \<Rightarrow> string \<Rightarrow> status_change \<Rightarrow> access_state \<Rightarrow> (bool \<times> nat) outcome" where
  "enable_user = set_user_active True"

definition disable_user ::
  "access_env \<Rightarrow> access_request \<Rightarrow> string \<Rightarrow> status_change \<Rightarrow> access_state \<Rightarrow> (bool \<times> nat) outcome" where
  "disable_user = set_user_active False"

section \<open>Removing and restoring a user\<close>

definition last_eight :: "string \<Rightarrow> string" where
  "last_eight s = drop (length s - 8) s"

definition removal_allowed ::
  "access_env \<Rightarrow> session_principal \<Rightarrow> access_db \<Rightarrow> user_row \<Rightarrow> removal_request \<Rightarrow> access_error + unit"
where
  "removal_allowed env pr db user p =
     (let confirmation = strip (rm_confirmation p);
          recovery = us_is_active user \<and> us_all_sites user \<and>
            recovery_permissions \<subseteq> effective_permissions db (us_id user)
      in
     bindE (guard (us_access_revision user = rm_expected_revision p) (Problem 409 ''access_revision_conflict'')) (\<lambda>_.
     bindE (guard (lower confirmation = lower (us_email user) \<or> confirmation = last_eight (us_id user))
              (Problem 422 ''removal_confirmation_mismatch'')) (\<lambda>_.
     bindE (guard (us_id user \<noteq> us_id (sp_user pr))
              (Denied 409 ''self_removal_forbidden'' ''user.remove_rejected'' ''user'' (us_id user))) (\<lambda>_.
     bindE (guard (\<not> us_is_protected user)
              (Denied 409 ''protected_account'' ''user.remove_rejected'' ''user'' (us_id user))) (\<lambda>_.
     bindE (guard (\<not> (recovery \<and> active_recovery_administrator_count db (Some (us_id user)) = 0))
              (Denied 409 ''last_admin_required'' ''user.remove_rejected'' ''user'' (us_id user))) (\<lambda>_.
     confirmed_change env pr True (rm_confirm_high_risk p)))))))"

definition removed_row :: "access_env \<Rightarrow> session_principal \<Rightarrow> access_db \<Rightarrow> removal_request \<Rightarrow> user_row \<Rightarrow> user_row" where
  "removed_row env pr db p u = u\<lparr>
     us_removed_role_ids := sorted_list_of_set (user_role_names db (us_id u)),
     us_removed_site_ids := sorted_list_of_set (explicit_site_ids db (us_id u)),
     us_removed_all_sites := us_all_sites u, us_all_sites := False, us_is_active := False,
     us_lifecycle_state := ''removed'', us_removed_at := Some (en_now env),
     us_removed_by := Some (us_id (sp_user pr)), us_removal_reason := Some (rm_reason p),
     us_restored_at := None, us_restored_by := None, us_access_revision := us_access_revision u + 1\<rparr>"

definition write_removal ::
  "access_env \<Rightarrow> session_principal \<Rightarrow> user_row \<Rightarrow> removal_request \<Rightarrow> access_db \<Rightarrow> access_db \<times> bool \<times> nat"
where
  "write_removal env pr user p db =
     (let (db1, revoked) = revoke_user_sessions (en_now env) (us_id user) None db;
          db2 = replace_user_roles (us_id user) {} db1;
          db3 = replace_user_sites (us_id user) {} db2;
          db4 = update_user (us_id user) (removed_row env pr db p) db3
      in (user_event env pr ''user.removed'' ''user'' (us_id user) db4, True, revoked))"

definition remove_user ::
  "access_env \<Rightarrow> access_request \<Rightarrow> string \<Rightarrow> removal_request \<Rightarrow> access_state \<Rightarrow> (bool \<times> nat) outcome"
where
  "remove_user env rq user_id p st =
     signed_in env rq st (\<lambda>pr db. limited env pr ''users.remove'' ''user-remove'' st (\<lambda>st'.
       case load_manageable_user db pr user_id of
         Inl e \<Rightarrow> (Inl e, st')
       | Inr user \<Rightarrow>
           if us_lifecycle_state user = ''removed'' then (Inr (False, 0), st')
           else conclude env pr db st'
                  (bindE (removal_allowed env pr db user p) (\<lambda>_. Inr (write_removal env pr user p db)))))"

definition restored_row :: "access_env \<Rightarrow> session_principal \<Rightarrow> user_row \<Rightarrow> user_row" where
  "restored_row env pr u = u\<lparr>us_lifecycle_state := ''disabled'', us_is_active := False, us_all_sites := False,
     us_restored_at := Some (en_now env), us_restored_by := Some (us_id (sp_user pr)),
     us_access_revision := us_access_revision u + 1\<rparr>"

definition restore_user ::
  "access_env \<Rightarrow> access_request \<Rightarrow> string \<Rightarrow> restore_request \<Rightarrow> access_state \<Rightarrow> bool outcome"
where
  "restore_user env rq user_id p st =
     signed_in env rq st (\<lambda>pr db. limited env pr ''users.restore'' ''user-restore'' st (\<lambda>st'.
       case load_manageable_user db pr user_id of
         Inl e \<Rightarrow> (Inl e, st')
       | Inr user \<Rightarrow>
           if us_lifecycle_state user \<noteq> ''removed''
           then (if us_restored_at user \<noteq> None \<and> us_removed_at user \<noteq> None then (Inr False, st')
                 else (Inl (Problem 409 ''user_not_removed''), st'))
           else conclude env pr db st'
             (bindE (guard (us_access_revision user = re_expected_revision p) (Problem 409 ''access_revision_conflict'')) (\<lambda>_.
              bindE (guard (re_confirm_high_risk p) (Problem 409 ''high_risk_confirmation_required'')) (\<lambda>_.
              Inr (user_event env pr ''user.restored'' ''user'' (us_id user)
                     (update_user (us_id user) (restored_row env pr) db), True))))))"

definition revoke_sessions :: "access_env \<Rightarrow> access_request \<Rightarrow> string \<Rightarrow> access_state \<Rightarrow> nat outcome" where
  "revoke_sessions env rq user_id st =
     signed_in env rq st (\<lambda>pr db. conclude env pr db st
       (bindE (require_permission pr ''users.manage'') (\<lambda>_.
        bindE (load_manageable_user db pr user_id) (\<lambda>user.
        let (db1, revoked) = revoke_user_sessions (en_now env) (us_id user) None db
        in Inr (user_event env pr ''user.sessions_revoked'' ''user'' (us_id user) db1, revoked)))))"

end
