(* ===== verification/Access_Accounts.thy ===== *)
theory Access_Accounts
  imports Access_Routes
begin

text \<open>
  The rest of the routes that write the access tables: custom roles
  (\<^verbatim>\<open>api/routes/access_control.py\<close>), accounts (\<^verbatim>\<open>api/routes/management.py\<close>) and sign-in
  (\<^verbatim>\<open>api/routes/auth.py\<close>).
\<close>

section \<open>Custom roles\<close>

definition stored_role_permissions :: "access_db \<Rightarrow> string \<Rightarrow> string list" where
  "stored_role_permissions db name =
     sort (map snd (filter (\<lambda>(r, _). r = name) (role_permissions db)))"

definition display_name_taken :: "access_db \<Rightarrow> string \<Rightarrow> string option \<Rightarrow> bool" where
  "display_name_taken db display_name except \<longleftrightarrow>
     (\<exists>r\<in>set (roles db). lower (ro_display_name r) = lower display_name \<and> Some (ro_name r) \<noteq> except)"

definition revision_of :: "access_env \<Rightarrow> session_principal \<Rightarrow> role_row \<Rightarrow> string set \<Rightarrow> string option \<Rightarrow> role_revision" where
  "revision_of env pr role codes reason =
     \<lparr>rr_role_name = ro_name role, rr_revision = ro_revision role, rr_display_name = ro_display_name role,
      rr_description = ro_description role, rr_permissions = sorted_list_of_set codes,
      rr_created_by = Some (us_id (sp_user pr)), rr_created_at = en_now env, rr_reason = reason\<rparr>"

definition add_revision :: "role_revision \<Rightarrow> access_db \<Rightarrow> access_db" where
  "add_revision r db = db\<lparr>role_revisions := role_revisions db @ [r]\<rparr>"

text \<open>The flush of a new role: its name is the primary key, its display name unique up to case.\<close>

definition insert_role :: "role_row \<Rightarrow> access_db \<Rightarrow> access_error + access_db" where
  "insert_role role db =
     (if ro_name role \<in> ro_name ` set (roles db) \<or> display_name_taken db (ro_display_name role) None
      then Inl (Problem 409 ''role_name_exists'')
      else Inr (db\<lparr>roles := roles db @ [role]\<rparr>))"

definition new_role :: "session_principal \<Rightarrow> string \<Rightarrow> string \<Rightarrow> role_write \<Rightarrow> role_row" where
  "new_role pr token_hex display_name p =
     \<lparr>ro_name = custom_role_identifier token_hex, ro_display_name = display_name,
      ro_description = strip (rw_description p), ro_is_builtin = False, ro_is_archived = False, ro_revision = 1,
      ro_created_by = Some (us_id (sp_user pr)), ro_updated_by = Some (us_id (sp_user pr))\<rparr>"

definition delegated_permissions :: "session_principal \<Rightarrow> string set \<Rightarrow> access_error + unit" where
  "delegated_permissions pr codes =
     bindE (validate_permissions codes) (\<lambda>_.
     guard (codes \<subseteq> sp_permissions pr) (Problem 403 ''permission_delegation_forbidden''))"

definition create_role_in ::
  "access_env \<Rightarrow> session_principal \<Rightarrow> string \<Rightarrow> role_write \<Rightarrow> access_db \<Rightarrow> access_error + (access_db \<times> string)"
where
  "create_role_in env pr token_hex p db =
     (let codes = set (rw_permissions p) in
      bindE (validate_role_display_name (rw_display_name p)) (\<lambda>display_name.
      bindE (delegated_permissions pr codes) (\<lambda>_.
      bindE (confirmed_change env pr (\<exists>code\<in>codes. is_high_risk code) (rw_confirm_high_risk p)) (\<lambda>_.
      bindE (guard (\<not> display_name_taken db display_name None) (Problem 409 ''role_name_exists'')) (\<lambda>_.
      let role = new_role pr token_hex display_name p in
      bindE (insert_role role db) (\<lambda>db1.
      let db2 = db1\<lparr>role_permissions := role_permissions db1 @ map (Pair (ro_name role)) (sorted_list_of_set codes)\<rparr>;
          db3 = add_revision (revision_of env pr role codes (rw_reason p)) db2
      in Inr (user_event env pr ''role.created'' ''role'' (ro_name role) db3, ro_name role)))))))"

definition create_role_as ::
  "access_env \<Rightarrow> session_principal \<Rightarrow> access_db \<Rightarrow> string \<Rightarrow> role_write \<Rightarrow> access_state \<Rightarrow> string outcome"
where
  "create_role_as env pr db token_hex p st =
     limited env pr ''roles.manage'' ''role-write'' st (\<lambda>st'.
       conclude env pr db st' (create_role_in env pr token_hex p db))"

definition create_role ::
  "access_env \<Rightarrow> access_request \<Rightarrow> string \<Rightarrow> role_write \<Rightarrow> access_state \<Rightarrow> string outcome"
where
  "create_role env rq token_hex p st = signed_in env rq st (\<lambda>pr db. create_role_as env pr db token_hex p st)"

definition clone_role ::
  "access_env \<Rightarrow> access_request \<Rightarrow> string \<Rightarrow> string \<Rightarrow> role_write \<Rightarrow> access_state \<Rightarrow> string outcome"
where
  "clone_role env rq token_hex role_id p st =
     signed_in env rq st (\<lambda>pr db.
       case find_role db role_id of
         None \<Rightarrow> (Inl (Problem 404 ''role_missing''), st)
       | Some source \<Rightarrow>
           create_role_as env pr db token_hex
             (p\<lparr>rw_permissions := if rw_permissions p \<noteq> [] then rw_permissions p
                  else stored_role_permissions db (ro_name source), rw_expected_revision := None\<rparr>) st)"

definition revision_row :: "user_row \<Rightarrow> user_row" where
  "revision_row u = u\<lparr>us_access_revision := us_access_revision u + 1\<rparr>"

definition touch_one :: "access_env \<Rightarrow> string \<Rightarrow> access_db \<times> nat \<Rightarrow> access_db \<times> nat" where
  "touch_one env user_id x =
     (let (db, n) = revoke_user_sessions (en_now env) user_id None (fst x)
      in (update_user user_id revision_row db, snd x + n))"

definition touch_affected :: "access_env \<Rightarrow> string list \<Rightarrow> access_db \<Rightarrow> access_db \<times> nat" where
  "touch_affected env impacted db = fold (touch_one env) impacted (db, 0)"

definition role_edit_allowed ::
  "access_env \<Rightarrow> session_principal \<Rightarrow> access_db \<Rightarrow> role_row \<Rightarrow> role_write \<Rightarrow> access_error + string"
where
  "role_edit_allowed env pr db role p =
     (let codes = set (rw_permissions p); prior = set (stored_role_permissions db (ro_name role)) in
      bindE (guard (\<not> ro_is_builtin role) (Problem 409 ''builtin_role_immutable'')) (\<lambda>_.
      bindE (guard (\<not> ro_is_archived role) (Problem 409 ''role_archived'')) (\<lambda>_.
      bindE (guard (rw_expected_revision p = Some (ro_revision role)) (Problem 409 ''role_revision_conflict'')) (\<lambda>_.
      bindE (delegated_permissions pr codes) (\<lambda>_.
      bindE (confirmed_change env pr (\<exists>code\<in>(codes - prior) \<union> (prior - codes). is_high_risk code)
               (rw_confirm_high_risk p)) (\<lambda>_.
      bindE (validate_role_display_name (rw_display_name p)) (\<lambda>display_name.
      bindE (guard (\<not> display_name_taken db display_name (Some (ro_name role))) (Problem 409 ''role_name_exists'')) (\<lambda>_.
      Inr display_name))))))))"

definition edited_role :: "session_principal \<Rightarrow> string \<Rightarrow> role_write \<Rightarrow> role_row \<Rightarrow> role_row" where
  "edited_role pr display_name p r = r\<lparr>ro_display_name := display_name, ro_description := strip (rw_description p),
     ro_revision := ro_revision r + 1, ro_updated_by := Some (us_id (sp_user pr))\<rparr>"

definition write_role ::
  "access_env \<Rightarrow> session_principal \<Rightarrow> role_row \<Rightarrow> string \<Rightarrow> role_write \<Rightarrow> access_db \<Rightarrow> access_db \<times> nat"
where
  "write_role env pr role display_name p db =
     (let codes = set (rw_permissions p);
          impacted = map fst (filter (\<lambda>(_, name). name = ro_name role) (user_roles db));
          db1 = update_role_row (ro_name role) (edited_role pr display_name p) db;
          db2 = replace_role_permissions (ro_name role) codes db1;
          db3 = add_revision (revision_of env pr (edited_role pr display_name p role) codes (rw_reason p)) db2;
          (db4, revoked) = touch_affected env impacted db3
      in (user_event env pr ''role.updated'' ''role'' (ro_name role) db4, revoked))"

definition update_role ::
  "access_env \<Rightarrow> access_request \<Rightarrow> string \<Rightarrow> role_write \<Rightarrow> access_state \<Rightarrow> nat outcome"
where
  "update_role env rq role_id p st =
     signed_in env rq st (\<lambda>pr db. limited env pr ''roles.manage'' ''role-write'' st (\<lambda>st'.
       conclude env pr db st'
         (case find_role db role_id of
            None \<Rightarrow> Inl (Problem 404 ''role_missing'')
          | Some role \<Rightarrow>
              bindE (role_edit_allowed env pr db role p) (\<lambda>display_name.
              Inr (write_role env pr role display_name p db)))))"

definition archive_role :: "access_env \<Rightarrow> access_request \<Rightarrow> string \<Rightarrow> access_state \<Rightarrow> bool outcome" where
  "archive_role env rq role_id st =
     signed_in env rq st (\<lambda>pr db. conclude env pr db st
       (bindE (require_permission pr ''roles.manage'') (\<lambda>_.
        case find_role db role_id of
          None \<Rightarrow> Inl (Problem 404 ''role_missing'')
        | Some role \<Rightarrow>
            bindE (guard (\<not> ro_is_builtin role) (Problem 409 ''builtin_role_immutable'')) (\<lambda>_.
            bindE (guard (filter (\<lambda>(_, name). name = ro_name role) (user_roles db) = []) (Problem 409 ''role_in_use'')) (\<lambda>_.
            let changed = \<not> ro_is_archived role;
                db1 = update_role_row (ro_name role) (\<lambda>r. r\<lparr>ro_is_archived := True, ro_revision := ro_revision r + 1,
                        ro_updated_by := Some (us_id (sp_user pr))\<rparr>) db
            in Inr (if changed then user_event env pr ''role.archived'' ''role'' (ro_name role) db1 else db1, changed))))))"

section \<open>Accounts\<close>

definition new_user :: "string \<Rightarrow> string \<Rightarrow> string \<Rightarrow> string \<Rightarrow> instant \<Rightarrow> bool \<Rightarrow> bool \<Rightarrow> user_row" where
  "new_user user_id email display_name password_hash now protected everywhere =
     \<lparr>us_id = user_id, us_email = email, us_display_name = display_name, us_password_hash = password_hash,
      us_is_active = True, us_lifecycle_state = ''active'', us_is_protected = protected,
      us_password_changed_at = Some now, us_last_login_at = None, us_all_sites = everywhere,
      us_access_revision = 1, us_removed_at = None, us_removed_by = None, us_removal_reason = None,
      us_restored_at = None, us_restored_by = None, us_removed_role_ids = [], us_removed_site_ids = [],
      us_removed_all_sites = False\<rparr>"

text \<open>The flush of a new user: identifier and address are unique.\<close>

definition insert_user :: "user_row \<Rightarrow> access_db \<Rightarrow> access_error + access_db" where
  "insert_user u db =
     (if us_id u \<in> us_id ` set (users db) \<or> us_email u \<in> us_email ` set (users db) then Inl Integrity_error_raised
      else Inr (db\<lparr>users := users db @ [u]\<rparr>))"

definition email_free :: "access_db \<Rightarrow> string \<Rightarrow> access_error + unit" where
  "email_free db email =
     (case find (\<lambda>u. lower (us_email u) = email) (users db) of
        None \<Rightarrow> Inr ()
      | Some u \<Rightarrow> Inl (if us_lifecycle_state u = ''removed'' then Problem 409 ''user_removed_restore_required''
                       else Problem 409 ''user_email_exists''))"

definition effective_roles :: "string list \<Rightarrow> string set" where
  "effective_roles requested = set requested \<union> (if ''rate-manager'' \<in> set requested then {''viewer''} else {})"

definition create_user_in ::
  "access_env \<Rightarrow> session_principal \<Rightarrow> string \<Rightarrow> string \<Rightarrow> user_create \<Rightarrow> access_db \<Rightarrow> access_error + (access_db \<times> string)"
where
  "create_user_in env pr user_id salt p db =
     (let email = lower (uc_email p); names = effective_roles (uc_roles p) in
      bindE (require_permission pr ''users.manage'') (\<lambda>_.
      bindE (guard (password_is_strong (uc_password p)) (Problem 422 ''weak_password'')) (\<lambda>_.
      bindE (email_free db email) (\<lambda>_.
      bindE (insert_user (new_user user_id email (uc_display_name p)
               (argon2_hash (en_crypto env) salt (uc_password p)) (en_now env) False (sp_all_sites pr)) db) (\<lambda>db1.
      bindE (if ''admin'' \<in> names
             then bindE (require_permission pr ''users.manage_protected'') (\<lambda>_.
                  bindE (guard (uc_confirm_high_risk p) (Problem 409 ''protected_confirmation_required'')) (\<lambda>_.
                  recently_reauthenticated (en_now env) (bs_reauthenticated_at (sp_session pr))))
             else Inr ()) (\<lambda>_.
      bindE (guard (permissions_for_roles db1 names \<subseteq> sp_permissions pr)
               (Problem 403 ''permission_delegation_forbidden'')) (\<lambda>_.
      Inr (user_event env pr ''user.created'' ''user'' user_id
             (db1\<lparr>user_roles := user_roles db1 @ map (Pair user_id) (sorted_list_of_set names)\<rparr>), user_id))))))))"

definition create_user ::
  "access_env \<Rightarrow> access_request \<Rightarrow> string \<Rightarrow> string \<Rightarrow> user_create \<Rightarrow> access_state \<Rightarrow> string outcome"
where
  "create_user env rq user_id salt p st =
     signed_in env rq st (\<lambda>pr db. conclude env pr db st (create_user_in env pr user_id salt p db))"

definition target_user_scope_allowed :: "access_db \<Rightarrow> session_principal \<Rightarrow> user_row \<Rightarrow> bool" where
  "target_user_scope_allowed db pr u \<longleftrightarrow>
     (if sp_all_sites pr then True else if us_all_sites u then False
      else explicit_site_ids db (us_id u) \<subseteq> sp_site_ids pr)"

definition load_user :: "access_db \<Rightarrow> string \<Rightarrow> access_error + user_row" where
  "load_user db user_id = (case find_user db user_id of None \<Rightarrow> Inl (Problem 404 ''user_missing'') | Some u \<Rightarrow> Inr u)"

definition password_row :: "access_env \<Rightarrow> string \<Rightarrow> user_row \<Rightarrow> user_row" where
  "password_row env password_hash u = u\<lparr>us_password_hash := password_hash,
     us_password_changed_at := Some (en_now env), us_access_revision := us_access_revision u + 1\<rparr>"

definition admin_password_reset ::
  "access_env \<Rightarrow> access_request \<Rightarrow> string \<Rightarrow> string \<Rightarrow> string \<Rightarrow> access_state \<Rightarrow> bool outcome"
where
  "admin_password_reset env rq salt user_id new_password st =
     signed_in env rq st (\<lambda>pr db. conclude env pr db st
       (bindE (require_permission pr ''users.manage'') (\<lambda>_.
        bindE (guard (password_is_strong new_password) (Problem 422 ''weak_password'')) (\<lambda>_.
        bindE (load_user db user_id) (\<lambda>user.
        bindE (guard (us_lifecycle_state user \<noteq> ''removed'') (Problem 409 ''user_removed'')) (\<lambda>_.
        bindE (guard (target_user_scope_allowed db pr user) (Problem 404 ''user_missing'')) (\<lambda>_.
        bindE (if ''admin'' \<in> user_role_names db (us_id user)
               then bindE (require_permission pr ''users.manage_protected'') (\<lambda>_.
                    recently_reauthenticated (en_now env) (bs_reauthenticated_at (sp_session pr)))
               else Inr ()) (\<lambda>_.
        let db1 = update_user (us_id user) (password_row env (argon2_hash (en_crypto env) salt new_password)) db;
            (db2, revoked) = revoke_user_sessions (en_now env) (us_id user) None db1
        in Inr (user_event env pr ''user.password_reset'' ''user'' (us_id user) db2, 0 < revoked)))))))))"

definition deactivation_target :: "session_principal \<Rightarrow> access_db \<Rightarrow> string \<Rightarrow> access_error + user_row" where
  "deactivation_target pr db user_id =
     bindE (require_permission pr ''users.disable'') (\<lambda>_.
     bindE (load_user db user_id) (\<lambda>user.
     bindE (guard (target_user_scope_allowed db pr user) (Problem 404 ''user_missing'')) (\<lambda>_.
     bindE (guard (us_id user \<noteq> us_id (sp_user pr)) (Problem 409 ''self_deactivation_forbidden'')) (\<lambda>_.
     Inr user))))"

definition deactivation_allowed :: "access_env \<Rightarrow> session_principal \<Rightarrow> access_db \<Rightarrow> user_row \<Rightarrow> access_error + unit" where
  "deactivation_allowed env pr db user =
     bindE (guard (\<not> us_is_protected user) (Problem 409 ''protected_account'')) (\<lambda>_.
     if ''admin'' \<in> user_role_names db (us_id user)
     then bindE (require_permission pr ''users.manage_protected'') (\<lambda>_.
          bindE (recently_reauthenticated (en_now env) (bs_reauthenticated_at (sp_session pr))) (\<lambda>_.
          guard (active_admin_count db (Some (us_id user)) \<noteq> 0) (Problem 409 ''last_admin_required'')))
     else Inr ())"

definition write_deactivation :: "access_env \<Rightarrow> session_principal \<Rightarrow> user_row \<Rightarrow> access_db \<Rightarrow> access_db" where
  "write_deactivation env pr user db =
     user_event env pr ''user.deactivated'' ''user'' (us_id user)
       (fst (revoke_user_sessions (en_now env) (us_id user) None
         (update_user (us_id user) (status_row False True) db)))"

definition deactivate_user :: "access_env \<Rightarrow> access_request \<Rightarrow> string \<Rightarrow> access_state \<Rightarrow> unit outcome" where
  "deactivate_user env rq user_id st =
     signed_in env rq st (\<lambda>pr db.
       case deactivation_target pr db user_id of
         Inl e \<Rightarrow> (Inl e, st)
       | Inr user \<Rightarrow>
           if \<not> us_is_active user then (Inr (), st)
           else conclude env pr db st
             (bindE (deactivation_allowed env pr db user) (\<lambda>_. Inr (write_deactivation env pr user db, ()))))"

section \<open>Sign-in\<close>

text \<open>The flush of a new session: identifier and token hash are unique.\<close>

definition insert_session :: "browser_session \<Rightarrow> access_db \<Rightarrow> access_error + access_db" where
  "insert_session s db =
     (if bs_id s \<in> bs_id ` set (sessions db) \<or> bs_token_hash s \<in> bs_token_hash ` set (sessions db)
      then Inl Integrity_error_raised
      else Inr (db\<lparr>sessions := sessions db @ [s]\<rparr>))"

definition same_secret :: "string \<Rightarrow> string \<Rightarrow> access_error + bool" where
  "same_secret a b =
     bindE (guard (list_all (\<lambda>c. (of_char c :: nat) < 128) (a @ b)) Type_error_raised) (\<lambda>_. Inr (a = b))"

definition anonymous_event :: "access_env \<Rightarrow> string \<Rightarrow> access_db \<Rightarrow> access_db" where
  "anonymous_event env action = add_access_event (access_audit (en_now env) ''anonymous'' None action None None ''denied'')"

record fresh_session =
  fs_session_id :: string
  fs_token :: string
  fs_csrf :: string

record bootstrap_request =
  bo_secret :: string
  bo_email :: string
  bo_display_name :: string
  bo_password :: string

definition bootstrap_in ::
  "access_env \<Rightarrow> fresh_session \<Rightarrow> string \<Rightarrow> string \<Rightarrow> bootstrap_request \<Rightarrow> access_db \<Rightarrow> access_error + access_db"
where
  "bootstrap_in env fresh user_id salt p db =
     bindE (guard (password_is_strong (bo_password p)) (Problem 422 ''weak_password'')) (\<lambda>_.
     bindE (insert_user (new_user user_id (lower (bo_email p)) (bo_display_name p)
              (argon2_hash (en_crypto env) salt (bo_password p)) (en_now env) True True)
              (ensure_access_catalog db)) (\<lambda>db1.
     bindE (create_session (en_crypto env) (en_now env) (fs_session_id fresh) (fs_token fresh) (fs_csrf fresh)
              user_id (en_session_pepper env) (en_session_hours env)) (\<lambda>s.
     bindE (insert_session s (db1\<lparr>user_roles := user_roles db1 @ [(user_id, ''admin'')]\<rparr>)) (\<lambda>db2.
     Inr (add_access_event (access_audit (en_now env) ''user'' (Some user_id) ''auth.bootstrap_completed'' (Some ''user'')
            (Some user_id) ''success'') db2)))))"

definition bootstrap ::
  "access_env \<Rightarrow> fresh_session \<Rightarrow> string \<Rightarrow> string \<Rightarrow> bootstrap_request \<Rightarrow> access_state \<Rightarrow> unit outcome"
where
  "bootstrap env fresh user_id salt p st =
     (if users (as_db st) \<noteq> [] then (Inl (Problem 409 ''bootstrap_closed''), st)
      else case (if en_bootstrap_secret env = [] then Inr False else same_secret (bo_secret p) (en_bootstrap_secret env)) of
        Inl e \<Rightarrow> (Inl e, st)
      | Inr False \<Rightarrow> (Inl (Problem 403 ''bootstrap_denied''),
                      st\<lparr>as_db := anonymous_event env ''auth.bootstrap_failed'' (as_db st)\<rparr>)
      | Inr True \<Rightarrow>
          (case bootstrap_in env fresh user_id salt p (as_db st) of
             Inl e \<Rightarrow> (Inl e, st)
           | Inr db \<Rightarrow> (Inr (), st\<lparr>as_db := db\<rparr>)))"

record login_request =
  lo_source :: "string option"
  lo_email :: string
  lo_password :: string
  lo_totp_code :: "string option"

definition confirmed_totp :: "access_db \<Rightarrow> string \<Rightarrow> totp_credential option" where
  "confirmed_totp db user_id =
     (case find (\<lambda>t. tc_user_id t = user_id) (totp_credentials db) of
        None \<Rightarrow> None | Some t \<Rightarrow> if tc_confirmed t then Some t else None)"

text \<open>The second factor: accepted, or the error and whether it counts as an attempt.\<close>

definition second_factor :: "access_env \<Rightarrow> access_db \<Rightarrow> string \<Rightarrow> string option \<Rightarrow> (access_error \<times> bool) + unit" where
  "second_factor env db user_id code =
     (case confirmed_totp db user_id of
        None \<Rightarrow> Inr ()
      | Some t \<Rightarrow>
          (case code of
             None \<Rightarrow> Inl (Problem 401 ''totp_required'', False)
           | Some c \<Rightarrow>
               (case decrypt_secret (en_crypto env) (tc_encrypted_secret t) of
                  None \<Rightarrow> Inl (Decrypt_error, False)
                | Some secret \<Rightarrow>
                    guard (totp_verify (en_crypto env) secret (en_now env) c) (Problem 401 ''invalid_totp'', True))))"

text \<open>The event is written before the flush, when the row has no identifier yet.\<close>

definition open_session :: "access_env \<Rightarrow> fresh_session \<Rightarrow> user_row \<Rightarrow> access_db \<Rightarrow> access_error + access_db" where
  "open_session env fresh user db =
     bindE (create_session (en_crypto env) (en_now env) (fs_session_id fresh) (fs_token fresh) (fs_csrf fresh)
              (us_id user) (en_session_pepper env) (en_session_hours env)) (\<lambda>s.
     bindE (insert_session s (update_user (us_id user) (\<lambda>u. u\<lparr>us_last_login_at := Some (en_now env)\<rparr>) db)) (\<lambda>db1.
     Inr (add_access_event (access_audit (en_now env) ''user'' (Some (us_id user)) ''auth.login'' (Some ''session'')
            None ''success'') db1)))"

definition known_credentials :: "access_env \<Rightarrow> access_db \<Rightarrow> string \<Rightarrow> string \<Rightarrow> user_row option" where
  "known_credentials env db email password =
     (case find (\<lambda>u. us_email u = email) (users db) of
        None \<Rightarrow> None
      | Some u \<Rightarrow> if us_is_active u \<and> argon2_verify (en_crypto env) (us_password_hash u) password then Some u else None)"

definition login :: "access_env \<Rightarrow> fresh_session \<Rightarrow> login_request \<Rightarrow> access_state \<Rightarrow> unit outcome" where
  "login env fresh p st =
     (let email = lower (lo_email p);
          source = (case lo_source p of None \<Rightarrow> ''unknown'' | Some s \<Rightarrow> s);
          key = attempt_key source email;
          kept = recent_attempts (en_monotonic env) (dict_get (login_attempts st) key []);
          remember = (\<lambda>attempts st. st\<lparr>login_attempts := dict_set (login_attempts st) key attempts\<rparr>);
          db = as_db st
      in
      if 8 \<le> length kept then (Inl (Problem 429 ''login_throttled''), remember kept st)
      else case known_credentials env db email (lo_password p) of
        None \<Rightarrow> (Inl (Problem 401 ''invalid_credentials''),
                 (remember (kept @ [en_monotonic env]) st)\<lparr>as_db := anonymous_event env ''auth.login_failed'' db\<rparr>)
      | Some user \<Rightarrow>
          (case second_factor env db (us_id user) (lo_totp_code p) of
             Inl (e, counted) \<Rightarrow> (Inl e, remember (if counted then kept @ [en_monotonic env] else kept) st)
           | Inr _ \<Rightarrow>
               (case open_session env fresh user db of
                  Inl e \<Rightarrow> (Inl e, remember [] st)
                | Inr db' \<Rightarrow> (Inr (), (remember [] st)\<lparr>as_db := db'\<rparr>))))"

definition session_event :: "access_env \<Rightarrow> session_principal \<Rightarrow> string \<Rightarrow> access_db \<Rightarrow> access_db" where
  "session_event env pr action = user_event env pr action ''session'' (bs_id (sp_session pr))"

definition logout :: "access_env \<Rightarrow> access_request \<Rightarrow> access_state \<Rightarrow> unit outcome" where
  "logout env rq st =
     signed_in env rq st (\<lambda>pr db. conclude env pr db st
       (Inr (session_event env pr ''auth.logout''
               (update_session (bs_id (sp_session pr)) (\<lambda>s. s\<lparr>bs_revoked_at := Some (en_now env)\<rparr>) db), ())))"

definition reauthentication_accepted ::
  "access_env \<Rightarrow> session_principal \<Rightarrow> string option \<Rightarrow> string option \<Rightarrow> access_db \<Rightarrow> access_error + bool"
where
  "reauthentication_accepted env pr password code db =
     (let password_accepted = truthy password \<and>
            argon2_verify (en_crypto env) (us_password_hash (sp_user pr)) (the password)
      in case (if truthy code then confirmed_totp db (us_id (sp_user pr)) else None) of
           None \<Rightarrow> Inr password_accepted
         | Some t \<Rightarrow>
             (case decrypt_secret (en_crypto env) (tc_encrypted_secret t) of
                None \<Rightarrow> Inl Decrypt_error
              | Some secret \<Rightarrow> Inr (password_accepted \<or> totp_verify (en_crypto env) secret (en_now env) (the code))))"

definition reauthenticate ::
  "access_env \<Rightarrow> access_request \<Rightarrow> string option \<Rightarrow> string option \<Rightarrow> access_state \<Rightarrow> unit outcome"
where
  "reauthenticate env rq password code st =
     signed_in env rq st (\<lambda>pr db.
       case reauthentication_accepted env pr password code db of
         Inl e \<Rightarrow> (Inl e, st)
       | Inr False \<Rightarrow> (Inl (Problem 401 ''reauthentication_failed''),
           st\<lparr>as_db := add_access_event (access_audit (en_now env) ''user'' (Some (us_id (sp_user pr)))
                ''auth.reauthentication_failed'' None None ''denied'') db\<rparr>)
       | Inr True \<Rightarrow> (Inr (), st\<lparr>as_db := session_event env pr ''auth.reauthenticated''
           (update_session (bs_id (sp_session pr))
              (\<lambda>s. s\<lparr>bs_reauthenticated_at := Some (Aware (en_now env))\<rparr>) db)\<rparr>))"

definition setup_totp :: "access_env \<Rightarrow> access_request \<Rightarrow> string \<Rightarrow> access_state \<Rightarrow> unit outcome" where
  "setup_totp env rq secret st =
     signed_in env rq st (\<lambda>pr db. conclude env pr db st
       (let user_id = us_id (sp_user pr); encrypted = encrypt_secret (en_crypto env) secret;
            db1 = (if user_id \<in> tc_user_id ` set (totp_credentials db)
                   then db\<lparr>totp_credentials := map (\<lambda>t. if tc_user_id t = user_id
                          then t\<lparr>tc_encrypted_secret := encrypted, tc_confirmed := False\<rparr> else t) (totp_credentials db)\<rparr>
                   else db\<lparr>totp_credentials := totp_credentials db @
                          [\<lparr>tc_user_id = user_id, tc_encrypted_secret = encrypted, tc_confirmed = False\<rparr>]\<rparr>)
        in Inr (add_access_event (access_audit (en_now env) ''user'' (Some user_id) ''auth.totp_setup_started'' None None
                  ''success'') db1, ())))"

definition verify_totp_setup :: "access_env \<Rightarrow> access_request \<Rightarrow> string \<Rightarrow> access_state \<Rightarrow> unit outcome" where
  "verify_totp_setup env rq code st =
     signed_in env rq st (\<lambda>pr db. conclude env pr db st
       (let user_id = us_id (sp_user pr) in
        case find (\<lambda>t. tc_user_id t = user_id) (totp_credentials db) of
          None \<Rightarrow> Inl (Problem 409 ''totp_not_started'')
        | Some t \<Rightarrow>
            (case decrypt_secret (en_crypto env) (tc_encrypted_secret t) of
               None \<Rightarrow> Inl Decrypt_error
             | Some secret \<Rightarrow>
                 bindE (guard (totp_verify (en_crypto env) secret (en_now env) code) (Problem 422 ''invalid_totp'')) (\<lambda>_.
                 Inr (db\<lparr>totp_credentials := map (\<lambda>t. if tc_user_id t = user_id then t\<lparr>tc_confirmed := True\<rparr> else t)
                           (totp_credentials db)\<rparr>, ())))))"

section \<open>Initial users of a new site\<close>

text \<open>The part of the creation of a site (\<^verbatim>\<open>api/routes/site_management.py\<close>) that grants access.\<close>

definition assign_initial_users :: "string \<Rightarrow> string list \<Rightarrow> access_db \<Rightarrow> access_error + access_db" where
  "assign_initial_users site_id user_ids db =
     (let selected = filter (\<lambda>u. us_id u \<in> set user_ids) (users db) in
      bindE (guard (length selected = card (set user_ids)) (Problem 422 ''site_user_missing'')) (\<lambda>_.
      bindE (guard (list_all (\<lambda>u. us_lifecycle_state u = ''active'') selected) (Problem 409 ''site_user_inactive'')) (\<lambda>_.
      Inr (db\<lparr>site_ids := site_ids db @ [site_id],
             user_sites := user_sites db @ map (\<lambda>u. (us_id u, site_id)) (filter (\<lambda>u. \<not> us_all_sites u) selected)\<rparr>))))"

end
