(* ===== verification/Access_Invariant.thy ===== *)
theory Access_Invariant
  imports Access_Accounts
begin

text \<open>
  The invariant of the access tables and its preservation by the writes the routes are made of:
  known users hold live roles, a custom role stores a set of permissions that validation would accept,
  a built-in role stores its configured set, removed users hold nothing, and users with access to all
  sites have no explicit sites.
\<close>

section \<open>The invariant of the tables\<close>

definition role_codes :: "access_db \<Rightarrow> string \<Rightarrow> string set" where
  "role_codes db name = snd ` set (filter (\<lambda>(r, _). r = name) (role_permissions db))"

definition custom_codes_ok :: "string set \<Rightarrow> bool" where
  "custom_codes_ok codes \<longleftrightarrow>
     codes \<subseteq> ALL_PERMISSIONS \<and> codes \<inter> ADMIN_ONLY_PERMISSIONS = {} \<and> dependencies_met codes"

definition role_ok :: "access_db \<Rightarrow> role_row \<Rightarrow> bool" where
  "role_ok db r \<longleftrightarrow>
     (ro_is_builtin r \<longleftrightarrow> ro_name r \<in> BUILTIN_ROLE_NAMES) \<and>
     (if ro_is_builtin r
      then \<not> ro_is_archived r \<and> role_codes db (ro_name r) = set (dict_get BUILTIN_ROLE_PERMISSIONS (ro_name r) [])
      else custom_codes_ok (role_codes db (ro_name r)))"

definition roles_ok :: "access_db \<Rightarrow> bool" where
  "roles_ok db \<longleftrightarrow>
     distinct (map ro_name (roles db)) \<and> (\<forall>r\<in>set (roles db). role_ok db r) \<and>
     fst ` set (role_permissions db) \<subseteq> ro_name ` set (roles db) \<and>
     (users db \<noteq> [] \<longrightarrow> BUILTIN_ROLE_NAMES \<subseteq> ro_name ` set (roles db))"

definition grants_ok :: "access_db \<Rightarrow> bool" where
  "grants_ok db \<longleftrightarrow>
     (\<forall>(u, r)\<in>set (user_roles db). u \<in> us_id ` set (users db) \<and> live_role db r) \<and>
     fst ` set (user_sites db) \<subseteq> us_id ` set (users db)"

definition user_ok :: "access_db \<Rightarrow> user_row \<Rightarrow> bool" where
  "user_ok db u \<longleftrightarrow>
     us_id u \<noteq> [] \<and> us_lifecycle_state u \<in> {''active'', ''disabled'', ''removed''} \<and>
     (us_is_active u \<longleftrightarrow> us_lifecycle_state u = ''active'') \<and>
     (us_all_sites u \<longrightarrow> us_id u \<notin> fst ` set (user_sites db)) \<and>
     (us_lifecycle_state u = ''removed'' \<longrightarrow>
        \<not> us_all_sites u \<and> us_id u \<notin> fst ` set (user_roles db) \<and> us_id u \<notin> fst ` set (user_sites db))"

definition users_ok :: "access_db \<Rightarrow> bool" where
  "users_ok db \<longleftrightarrow> distinct (map us_id (users db)) \<and> (\<forall>u\<in>set (users db). user_ok db u)"

definition sessions_ok :: "access_db \<Rightarrow> bool" where
  "sessions_ok db \<longleftrightarrow>
     distinct (map bs_id (sessions db)) \<and> distinct (map bs_token_hash (sessions db)) \<and>
     bs_user_id ` set (sessions db) \<subseteq> us_id ` set (users db)"

definition access_inv :: "access_db \<Rightarrow> bool" where
  "access_inv db \<longleftrightarrow> roles_ok db \<and> grants_ok db \<and> users_ok db \<and> sessions_ok db"

lemmas inv_defs = access_inv_def roles_ok_def role_ok_def grants_ok_def users_ok_def user_ok_def sessions_ok_def

subsection \<open>Lookups under the invariant\<close>

lemma find_user_Some: "find_user db i = Some u \<Longrightarrow> u \<in> set (users db) \<and> us_id u = i"
  by (auto simp: find_user_def find_Some_iff)

lemma find_role_Some: "find_role db i = Some r \<Longrightarrow> r \<in> set (roles db) \<and> ro_name r = i"
  by (auto simp: find_role_def find_Some_iff)

lemma user_by_id:
  "users_ok db \<Longrightarrow> u \<in> set (users db) \<Longrightarrow> v \<in> set (users db) \<Longrightarrow> us_id u = us_id v \<Longrightarrow> u = v"
  unfolding users_ok_def by (metis distinct_map inj_on_contraD)

lemma role_by_name:
  "roles_ok db \<Longrightarrow> r \<in> set (roles db) \<Longrightarrow> q \<in> set (roles db) \<Longrightarrow> ro_name r = ro_name q \<Longrightarrow> r = q"
  unfolding roles_ok_def by (metis distinct_map inj_on_contraD)

lemma role_codes_iff: "p \<in> role_codes db name \<longleftrightarrow> (name, p) \<in> set (role_permissions db)"
  by (force simp: role_codes_def)

subsection \<open>Writes that leave the access tables alone\<close>

definition same_access :: "access_db \<Rightarrow> access_db \<Rightarrow> bool" where
  "same_access db db' \<longleftrightarrow>
     users db' = users db \<and> roles db' = roles db \<and> role_permissions db' = role_permissions db \<and>
     user_roles db' = user_roles db \<and> user_sites db' = user_sites db"

lemma same_access_refl [simp]: "same_access db db"
  by (simp add: same_access_def)

lemma same_access_trans [trans]: "same_access a b \<Longrightarrow> same_access b c \<Longrightarrow> same_access a c"
  by (simp add: same_access_def)

lemma same_access_simps [simp]:
  "same_access db (add_access_event e db)"
  "same_access db (user_event env pr a t i db)"
  "same_access db (update_session k f db)"
  "same_access db (fst (revoke_user_sessions now i x db))"
  by (simp_all add: same_access_def add_access_event_def user_event_def update_session_def revoke_user_sessions_def)

lemma live_role_cong: "roles db' = roles db \<Longrightarrow> live_role db' = live_role db"
  by (rule ext) (simp add: live_role_def)

lemma effective_permissions_cong:
  assumes "roles db' = roles db" "role_permissions db' = role_permissions db" "user_roles db' = user_roles db"
  shows "effective_permissions db' = effective_permissions db" "user_role_names db' = user_role_names db"
    "permissions_for_roles db' = permissions_for_roles db"
proof -
  note live = live_role_cong[OF assms(1)]
  show names: "user_role_names db' = user_role_names db"
    by (rule ext) (simp only: user_role_names_def live assms)
  show perms: "permissions_for_roles db' = permissions_for_roles db"
    by (rule ext) (simp only: permissions_for_roles_def live assms)
  show "effective_permissions db' = effective_permissions db"
    by (rule ext) (simp only: effective_permissions_def names perms)
qed

lemma same_access_permissions:
  "same_access db db' \<Longrightarrow> effective_permissions db' = effective_permissions db"
  "same_access db db' \<Longrightarrow> user_role_names db' = user_role_names db"
  "same_access db db' \<Longrightarrow> permissions_for_roles db' = permissions_for_roles db"
  unfolding same_access_def by (blast intro: effective_permissions_cong)+

text \<open>The identity of a session, which no write changes.\<close>

definition session_key :: "browser_session \<Rightarrow> string \<times> string \<times> string" where
  "session_key s = (bs_id s, bs_token_hash s, bs_user_id s)"

lemma session_keys_map:
  "(\<And>s. session_key (f s) = session_key s) \<Longrightarrow> map session_key (map f xs) = map session_key xs"
  by simp

lemma sessions_ok_keys:
  assumes "map session_key (sessions db') = map session_key (sessions db)" "users db' = users db"
  shows "sessions_ok db' = sessions_ok db"
proof -
  have *: "map g (map session_key (sessions db')) = map g (map session_key (sessions db))" for g :: "_ \<Rightarrow> string"
    using assms(1) by simp
  have "map bs_id (sessions db') = map bs_id (sessions db)" using *[of fst] by (simp add: session_key_def comp_def)
  moreover have "map bs_token_hash (sessions db') = map bs_token_hash (sessions db)"
    using *[of "fst \<circ> snd"] by (simp add: session_key_def comp_def)
  moreover have "map bs_user_id (sessions db') = map bs_user_id (sessions db)"
    using *[of "snd \<circ> snd"] by (simp add: session_key_def comp_def)
  then have "bs_user_id ` set (sessions db') = bs_user_id ` set (sessions db)" by (metis list.set_map)
  ultimately show ?thesis using assms(2) by (simp add: sessions_ok_def)
qed

lemma access_inv_quiet:
  assumes "access_inv db" "same_access db db'" "map session_key (sessions db') = map session_key (sessions db)"
  shows "access_inv db'"
proof -
  have eq: "users db' = users db" "roles db' = roles db" "role_permissions db' = role_permissions db"
    "user_roles db' = user_roles db" "user_sites db' = user_sites db"
    using assms(2) by (simp_all add: same_access_def)
  have "role_codes db' = role_codes db" by (rule ext) (simp add: role_codes_def eq)
  with assms(1) eq live_role_cong[OF eq(2)] sessions_ok_keys[OF assms(3) eq(1)] show ?thesis
    by (simp add: access_inv_def roles_ok_def role_ok_def grants_ok_def users_ok_def user_ok_def)
qed

lemma session_keys_simps [simp]:
  "map session_key (sessions (add_access_event e db)) = map session_key (sessions db)"
  "map session_key (sessions (user_event env pr a t i db)) = map session_key (sessions db)"
  "map session_key (sessions (fst (revoke_user_sessions now i x db))) = map session_key (sessions db)"
  by (simp_all add: add_access_event_def user_event_def revoke_user_sessions_def session_key_def)

lemma inv_events [simp]:
  "access_inv db \<Longrightarrow> access_inv (add_access_event e db)"
  "access_inv db \<Longrightarrow> access_inv (user_event env pr a t i db)"
  "access_inv db \<Longrightarrow> access_inv (fst (revoke_user_sessions now i x db))"
  by (erule access_inv_quiet; simp)+

lemma inv_update_session:
  "access_inv db \<Longrightarrow> (\<And>s. session_key (f s) = session_key s) \<Longrightarrow> access_inv (update_session k f db)"
  by (erule access_inv_quiet) (auto simp: update_session_def same_access_def comp_def)

subsection \<open>Writes of users and of what they hold\<close>

lemma update_user_simps [simp]:
  "roles (update_user i f db) = roles db" "role_permissions (update_user i f db) = role_permissions db"
  "user_roles (update_user i f db) = user_roles db" "user_sites (update_user i f db) = user_sites db"
  "sessions (update_user i f db) = sessions db" "site_ids (update_user i f db) = site_ids db"
  by (simp_all add: update_user_def)

lemma update_user_ids:
  "(\<And>u. us_id (f u) = us_id u) \<Longrightarrow> map us_id (users (update_user i f db)) = map us_id (users db)"
  by (simp add: update_user_def comp_def if_distrib)

lemma ids_set: "map us_id xs = map us_id ys \<Longrightarrow> us_id ` set xs = us_id ` set ys"
  by (metis list.set_map)

lemma replace_simps [simp]:
  "users (replace_user_roles i N db) = users db" "roles (replace_user_roles i N db) = roles db"
  "role_permissions (replace_user_roles i N db) = role_permissions db"
  "user_sites (replace_user_roles i N db) = user_sites db" "sessions (replace_user_roles i N db) = sessions db"
  "users (replace_user_sites i S db) = users db" "roles (replace_user_sites i S db) = roles db"
  "role_permissions (replace_user_sites i S db) = role_permissions db"
  "user_roles (replace_user_sites i S db) = user_roles db" "sessions (replace_user_sites i S db) = sessions db"
  by (simp_all add: replace_user_roles_def replace_user_sites_def)

lemma replaced_roles:
  "finite N \<Longrightarrow> (u, r) \<in> set (user_roles (replace_user_roles i N db)) \<longleftrightarrow>
     (if u = i then r \<in> N else (u, r) \<in> set (user_roles db))"
  by (auto simp: replace_user_roles_def)

lemma replaced_sites:
  "finite S \<Longrightarrow> (u, s) \<in> set (user_sites (replace_user_sites i S db)) \<longleftrightarrow>
     (if u = i then s \<in> S else (u, s) \<in> set (user_sites db))"
  by (auto simp: replace_user_sites_def)

lemma fst_pairs: "u \<in> fst ` set xs \<longleftrightarrow> (\<exists>v. (u, v) \<in> set xs)"
  by force

text \<open>
  A write that keeps the roles and their permissions, keeps the identifiers of the users, grants live roles
  and sites to known users only and leaves every user consistent keeps the invariant.
\<close>

lemma inv_user_write:
  assumes inv: "access_inv db"
    and keep: "roles db' = roles db" "role_permissions db' = role_permissions db"
      "map session_key (sessions db') = map session_key (sessions db)" "map us_id (users db') = map us_id (users db)"
    and grants: "grants_ok db'" and ok: "\<And>u. u \<in> set (users db') \<Longrightarrow> user_ok db' u"
  shows "access_inv db'"
proof -
  have ids: "us_id ` set (users db') = us_id ` set (users db)" using keep(4) by (rule ids_set)
  have some: "users db' = [] \<longleftrightarrow> users db = []" using keep(4) by (metis map_is_Nil_conv)
  have codes: "role_codes db' = role_codes db" by (rule ext) (simp add: role_codes_def keep)
  have "sessions_ok (db'\<lparr>users := users db\<rparr>)"
    using inv sessions_ok_keys[of "db'\<lparr>users := users db\<rparr>" db] keep(3) by (simp add: access_inv_def)
  then have "sessions_ok db'" using ids by (simp add: sessions_ok_def)
  moreover have "roles_ok db'" using inv keep some codes by (simp add: access_inv_def roles_ok_def role_ok_def)
  moreover have "users_ok db'" using inv keep(4) ok by (simp add: access_inv_def users_ok_def)
  ultimately show ?thesis using grants by (simp add: access_inv_def)
qed

lemma inv_update_user:
  assumes inv: "access_inv db" and id: "\<And>u. us_id (f u) = us_id u"
    and ok: "\<And>u. u \<in> set (users db) \<Longrightarrow> us_id u = i \<Longrightarrow> user_ok db u \<Longrightarrow> user_ok db (f u)"
  shows "access_inv (update_user i f db)"
proof (rule inv_user_write[OF inv])
  show ids: "map us_id (users (update_user i f db)) = map us_id (users db)" using id by (rule update_user_ids)
  show "grants_ok (update_user i f db)"
    using inv ids_set[OF ids] by (simp add: access_inv_def grants_ok_def live_role_cong[of "update_user i f db" db])
  fix u assume "u \<in> set (users (update_user i f db))"
  then have "user_ok db u" using inv ok by (auto simp: update_user_def access_inv_def users_ok_def)
  then show "user_ok (update_user i f db) u" by (simp add: user_ok_def)
qed simp_all

lemma finite_requested [simp]: "sorted_list_of_set (set xs) = sort (remdups xs)"
  by (rule sorted_list_of_set_sort_remdups)

lemma write_access_db:
  "fst (write_access env pr user p db) =
     user_event env pr ''user.access_updated'' ''user'' (us_id user)
       (fst (revoke_user_sessions (en_now env) (us_id user) None
          (update_user (us_id user) (access_row p)
            (replace_user_sites (us_id user) (if au_all_sites p then {} else set (au_site_ids p))
              (replace_user_roles (us_id user) (set (au_role_ids p)) db)))))"
  by (simp add: write_access_def Let_def split: prod.split)

lemma grants_okI:
  "(\<And>u r. (u, r) \<in> set (user_roles db) \<Longrightarrow> u \<in> us_id ` set (users db) \<and> live_role db r) \<Longrightarrow>
   (\<And>u s. (u, s) \<in> set (user_sites db) \<Longrightarrow> u \<in> us_id ` set (users db)) \<Longrightarrow> grants_ok db"
  by (auto simp: grants_ok_def)

lemma grants_okD:
  assumes "grants_ok db"
  shows "(u, r) \<in> set (user_roles db) \<Longrightarrow> u \<in> us_id ` set (users db)"
    and "(u, r) \<in> set (user_roles db) \<Longrightarrow> live_role db r"
    and "(u, s) \<in> set (user_sites db) \<Longrightarrow> u \<in> us_id ` set (users db)"
  using assms by (auto simp: grants_ok_def)

text \<open>Replacing what one user holds, together with a change of the row of that user.\<close>

lemma inv_replace:
  assumes inv: "access_inv db" and user: "user \<in> set (users db)" and fin: "finite N" "finite S"
    and live: "\<And>r. r \<in> N \<Longrightarrow> live_role db r" and id: "\<And>u. us_id (f u) = us_id u"
    and ok: "user_ok (replace_user_sites (us_id user) S (replace_user_roles (us_id user) N db)) (f user)"
  shows "access_inv (update_user (us_id user) f
     (replace_user_sites (us_id user) S (replace_user_roles (us_id user) N db)))" (is "access_inv ?db")
proof (rule inv_user_write[OF inv])
  have users: "users_ok db" and grants: "grants_ok db" using inv by (simp_all add: access_inv_def)
  show ids: "map us_id (users ?db) = map us_id (users db)" by (subst update_user_ids) (simp_all add: id)
  have lv: "live_role ?db = live_role db" by (rule live_role_cong) simp
  show "grants_ok ?db"
    using user live grants_okD[OF grants]
    by (intro grants_okI) (auto simp: ids_set[OF ids] lv replaced_roles replaced_sites fin split: if_splits)
  fix u assume "u \<in> set (users ?db)"
  then obtain v where v: "v \<in> set (users db)" "u = (if us_id v = us_id user then f v else v)"
    by (auto simp: update_user_def)
  show "user_ok ?db u"
  proof (cases "us_id v = us_id user")
    case True
    then have "u = f user" using user_by_id[OF users v(1) user] v(2) by simp
    with ok show ?thesis by (simp add: user_ok_def)
  next
    case False
    have "user_ok db v" using v(1) users by (simp add: users_ok_def)
    with False v(2) show ?thesis by (auto simp: user_ok_def fst_pairs replaced_roles replaced_sites fin)
  qed
qed simp_all

lemma inv_write_access:
  assumes inv: "access_inv db" and user: "user \<in> set (users db)" "us_lifecycle_state user \<noteq> ''removed''"
    and live: "\<And>r. r \<in> set (au_role_ids p) \<Longrightarrow> live_role db r"
  shows "access_inv (fst (write_access env pr user p db))"
proof -
  have "user_ok db user" using inv user(1) by (simp add: access_inv_def users_ok_def)
  then have "access_inv (update_user (us_id user) (access_row p)
      (replace_user_sites (us_id user) (if au_all_sites p then {} else set (au_site_ids p))
         (replace_user_roles (us_id user) (set (au_role_ids p)) db)))"
    using user(2) live
    by (intro inv_replace[OF inv user(1)]) (auto simp: access_row_def user_ok_def fst_pairs replaced_sites)
  then show ?thesis by (simp add: write_access_db)
qed

lemma write_status_db:
  "fst (write_status env pr active user db) =
     (let changed = (us_is_active user \<noteq> active \<or> us_lifecycle_state user \<noteq> status_name active);
          db1 = update_user (us_id user) (status_row active changed) db;
          db2 = (if active then db1 else fst (revoke_user_sessions (en_now env) (us_id user) None db1))
      in if changed then user_event env pr (if active then ''user.enabled'' else ''user.disabled'') ''user'' (us_id user) db2
         else db2)"
  by (simp add: write_status_def Let_def split: prod.split)

lemma inv_write_status:
  assumes inv: "access_inv db" and user: "user \<in> set (users db)" "us_lifecycle_state user \<noteq> ''removed''"
  shows "access_inv (fst (write_status env pr active user db))"
proof -
  have users: "users_ok db" using inv by (simp add: access_inv_def)
  have k: "access_inv (update_user (us_id user) (status_row active k) db)" for k
  proof (rule inv_update_user[OF inv], simp add: status_row_def)
    fix u assume "u \<in> set (users db)" "us_id u = us_id user" and ok: "user_ok db u"
    then have "u = user" using user_by_id[OF users _ user(1)] by simp
    with ok user(2) show "user_ok db (status_row active k u)"
      by (auto simp: user_ok_def status_row_def status_name_def)
  qed
  show ?thesis using k[of True] k[of False] by (cases active) (auto simp: write_status_db Let_def)
qed

lemma write_removal_db:
  "fst (write_removal env pr user p db) =
     user_event env pr ''user.removed'' ''user'' (us_id user)
       (update_user (us_id user) (removed_row env pr db p)
         (replace_user_sites (us_id user) {} (replace_user_roles (us_id user) {}
           (fst (revoke_user_sessions (en_now env) (us_id user) None db)))))"
  by (simp add: write_removal_def Let_def split: prod.split)

lemma inv_write_removal:
  assumes inv: "access_inv db" and user: "user \<in> set (users db)"
  shows "access_inv (fst (write_removal env pr user p db))"
proof -
  let ?db = "fst (revoke_user_sessions (en_now env) (us_id user) None db)"
  have "access_inv ?db" using inv by simp
  moreover have "user \<in> set (users ?db)" using user by (simp add: revoke_user_sessions_def)
  moreover have "us_id user \<noteq> []" using inv user by (simp add: access_inv_def users_ok_def user_ok_def)
  ultimately have "access_inv (update_user (us_id user) (removed_row env pr db p)
      (replace_user_sites (us_id user) {} (replace_user_roles (us_id user) {} ?db)))"
    by (intro inv_replace) (auto simp: removed_row_def user_ok_def fst_pairs replaced_sites replaced_roles)
  then show ?thesis by (simp add: write_removal_db)
qed

lemma inv_restored: "access_inv db \<Longrightarrow> find_user db i = Some user \<Longrightarrow> us_lifecycle_state user = ''removed'' \<Longrightarrow>
   access_inv (update_user (us_id user) (restored_row env pr) db)"
  by (rule inv_update_user) (auto simp: restored_row_def user_ok_def)

subsection \<open>Writes of roles\<close>

lemma custom_name_fresh: "custom_role_identifier h \<notin> BUILTIN_ROLE_NAMES"
  by (simp add: custom_role_identifier_def BUILTIN_ROLE_NAMES_def BUILTIN_ROLE_PERMISSIONS_def)

lemma roles_okI:
  "distinct (map ro_name (roles db)) \<Longrightarrow> (\<And>r. r \<in> set (roles db) \<Longrightarrow> role_ok db r) \<Longrightarrow>
   (\<And>r p. (r, p) \<in> set (role_permissions db) \<Longrightarrow> r \<in> ro_name ` set (roles db)) \<Longrightarrow>
   (users db \<noteq> [] \<Longrightarrow> BUILTIN_ROLE_NAMES \<subseteq> ro_name ` set (roles db)) \<Longrightarrow> roles_ok db"
  by (auto simp: roles_ok_def)

lemma roles_okD:
  assumes "roles_ok db"
  shows "distinct (map ro_name (roles db))" and "r \<in> set (roles db) \<Longrightarrow> role_ok db r"
    and "(n, p) \<in> set (role_permissions db) \<Longrightarrow> n \<in> ro_name ` set (roles db)"
    and "users db \<noteq> [] \<Longrightarrow> BUILTIN_ROLE_NAMES \<subseteq> ro_name ` set (roles db)"
  using assms by (auto simp: roles_ok_def)

text \<open>A write of roles that keeps the assigned ones live keeps the grants.\<close>

lemma inv_role_write:
  assumes inv: "access_inv db"
    and keep: "users db' = users db" "user_roles db' = user_roles db" "user_sites db' = user_sites db"
      "map session_key (sessions db') = map session_key (sessions db)"
    and live: "\<And>u r. (u, r) \<in> set (user_roles db) \<Longrightarrow> live_role db r \<Longrightarrow> live_role db' r"
    and "roles_ok db'"
  shows "access_inv db'"
proof -
  have "grants_ok db'"
    using inv keep live grants_okD[of db] by (intro grants_okI) (auto simp: access_inv_def)
  moreover have "users_ok db'" using inv keep by (simp add: access_inv_def users_ok_def user_ok_def)
  moreover have "sessions_ok db'" using inv sessions_ok_keys[OF keep(4,1)] by (simp add: access_inv_def)
  ultimately show ?thesis using assms(7) by (simp add: access_inv_def)
qed

lemma role_ok_codes:
  "role_codes db' (ro_name r) = role_codes db (ro_name r) \<Longrightarrow> role_ok db' r = role_ok db r"
  by (simp add: role_ok_def)

lemma delegated_Inr:
  "delegated_permissions pr codes = Inr u \<longleftrightarrow> custom_codes_ok codes \<and> codes \<subseteq> sp_permissions pr"
  by (auto simp: delegated_permissions_def bindE_eq_Inr validate_permissions_Inr custom_codes_ok_def)

text \<open>What a successful creation of a role wrote.\<close>

definition role_created :: "access_db \<Rightarrow> role_row \<Rightarrow> string set \<Rightarrow> access_db \<Rightarrow> bool" where
  "role_created db role codes db' \<longleftrightarrow>
     ro_name role \<notin> ro_name ` set (roles db) \<and> \<not> ro_is_builtin role \<and> \<not> ro_is_archived role \<and>
     ro_name role \<notin> BUILTIN_ROLE_NAMES \<and> roles db' = roles db @ [role] \<and>
     set (role_permissions db') = set (role_permissions db) \<union> Pair (ro_name role) ` codes \<and>
     users db' = users db \<and> user_roles db' = user_roles db \<and> user_sites db' = user_sites db \<and> sessions db' = sessions db"

lemma create_role_in_Inr:
  assumes "create_role_in env pr h p db = Inr (db', name)"
  shows "\<exists>role. role_created db role (set (rw_permissions p)) db' \<and> custom_codes_ok (set (rw_permissions p)) \<and>
    set (rw_permissions p) \<subseteq> sp_permissions pr \<and> name = ro_name role"
  using assms custom_name_fresh
  by (auto simp: create_role_in_def Let_def bindE_eq_Inr delegated_Inr insert_role_def new_role_def role_created_def
      user_event_def add_access_event_def add_revision_def split: if_splits)

lemma inv_role_created:
  assumes inv: "access_inv db" and new: "role_created db role codes db'" and codes: "custom_codes_ok codes"
  shows "access_inv db'"
proof (rule inv_role_write[OF inv])
  have ok: "roles_ok db" using inv by (simp add: access_inv_def)
  note n = new[unfolded role_created_def]
  have fresh: "(ro_name role, p) \<notin> set (role_permissions db)" for p using roles_okD(3)[OF ok] n by blast
  have codes_of: "role_codes db' r = (if r = ro_name role then codes else role_codes db r)" for r
    using n fresh by (auto simp: role_codes_iff set_eq_iff)
  show "live_role db' r" if "live_role db r" for r using that n by (auto simp: live_role_def)
  show "roles_ok db'"
  proof (rule roles_okI)
    show "distinct (map ro_name (roles db'))" using n roles_okD(1)[OF ok] by simp
    show "role_ok db' r" if "r \<in> set (roles db')" for r
    proof (cases "r = role")
      case True
      then show ?thesis using n codes codes_of by (simp add: role_ok_def)
    next
      case False
      then have "r \<in> set (roles db)" using that n by simp
      moreover from this have "ro_name r \<noteq> ro_name role" using n by (metis image_eqI)
      ultimately show ?thesis using roles_okD(2)[OF ok] role_ok_codes[of db' r db] codes_of by simp
    qed
    show "r \<in> ro_name ` set (roles db')" if "(r, p) \<in> set (role_permissions db')" for r p
      using that n roles_okD(3)[OF ok] by auto
    show "BUILTIN_ROLE_NAMES \<subseteq> ro_name ` set (roles db')" if "users db' \<noteq> []"
      using that n roles_okD(4)[OF ok] by auto
  qed
qed (use new in \<open>simp_all add: role_created_def\<close>)

lemma update_role_row_simps [simp]:
  "users (update_role_row n f db) = users db" "role_permissions (update_role_row n f db) = role_permissions db"
  "user_roles (update_role_row n f db) = user_roles db" "user_sites (update_role_row n f db) = user_sites db"
  "sessions (update_role_row n f db) = sessions db"
  by (simp_all add: update_role_row_def)

lemma replace_role_permissions_simps [simp]:
  "users (replace_role_permissions n C db) = users db" "roles (replace_role_permissions n C db) = roles db"
  "user_roles (replace_role_permissions n C db) = user_roles db"
  "user_sites (replace_role_permissions n C db) = user_sites db"
  "sessions (replace_role_permissions n C db) = sessions db"
  by (simp_all add: replace_role_permissions_def)

lemma replaced_codes:
  "finite C \<Longrightarrow> role_codes (replace_role_permissions n C db) r = (if r = n then C else role_codes db r)"
  by (auto simp: role_codes_iff set_eq_iff replace_role_permissions_def)

lemma updated_role_names:
  "(\<And>r. ro_name (f r) = ro_name r) \<Longrightarrow> map ro_name (roles (update_role_row n f db)) = map ro_name (roles db)"
  by (simp add: update_role_row_def comp_def if_distrib)

lemma role_names_set: "map ro_name xs = map ro_name ys \<Longrightarrow> ro_name ` set xs = ro_name ` set ys"
  by (metis list.set_map)

lemma inv_update_role_row:
  assumes inv: "access_inv db" and name: "\<And>r. ro_name (f r) = ro_name r" and builtin: "\<And>r. ro_is_builtin (f r) = ro_is_builtin r"
    and custom: "\<And>r. r \<in> set (roles db) \<Longrightarrow> ro_name r = n \<Longrightarrow> \<not> ro_is_builtin r"
    and keep: "\<And>r u. r \<in> set (roles db) \<Longrightarrow> ro_name r = n \<Longrightarrow> (u, n) \<in> set (user_roles db) \<Longrightarrow>
       ro_is_archived (f r) \<Longrightarrow> ro_is_archived r"
  shows "access_inv (update_role_row n f db)"
proof (rule inv_role_write[OF inv])
  have ok: "roles_ok db" using inv by (simp add: access_inv_def)
  let ?db = "update_role_row n f db"
  note names = updated_role_names[of f n db, OF name]
  show "live_role ?db r" if "(u, r) \<in> set (user_roles db)" "live_role db r" for u r
  proof -
    obtain q where q: "q \<in> set (roles db)" "ro_name q = r" "\<not> ro_is_archived q"
      using \<open>live_role db r\<close> by (auto simp: live_role_def)
    let ?q = "if ro_name q = n then f q else q"
    have "?q \<in> set (roles ?db)" using q(1) by (simp add: update_role_row_def)
    moreover have "ro_name ?q = r \<and> \<not> ro_is_archived ?q" using q that(1) keep name by auto
    ultimately show ?thesis unfolding live_role_def by blast
  qed
  show "roles_ok ?db"
  proof (rule roles_okI)
    show "distinct (map ro_name (roles ?db))" using roles_okD(1)[OF ok] names by simp
    have codes: "role_codes ?db = role_codes db" by (rule ext) (simp add: role_codes_def)
    show "role_ok ?db r" if "r \<in> set (roles ?db)" for r
    proof -
      have "r \<in> (\<lambda>q. if ro_name q = n then f q else q) ` set (roles db)"
        using that unfolding update_role_row_def by simp
      then obtain q where q: "q \<in> set (roles db)" "r = (if ro_name q = n then f q else q)" by blast
      have "role_ok db q" using roles_okD(2)[OF ok q(1)] .
      then show ?thesis using q custom[OF q(1)] by (auto simp: role_ok_def codes name builtin)
    qed
    show "r \<in> ro_name ` set (roles ?db)" if "(r, p) \<in> set (role_permissions ?db)" for r p
      using that roles_okD(3)[OF ok] role_names_set[OF names] by simp
    show "BUILTIN_ROLE_NAMES \<subseteq> ro_name ` set (roles ?db)" if "users ?db \<noteq> []"
      using that roles_okD(4)[OF ok] role_names_set[OF names] by simp
  qed
qed simp_all

lemma inv_replace_role_permissions:
  assumes inv: "access_inv db" and codes: "custom_codes_ok C" "finite C"
    and role: "role \<in> set (roles db)" "\<not> ro_is_builtin role"
  shows "access_inv (replace_role_permissions (ro_name role) C db)"
proof (rule inv_role_write[OF inv])
  have ok: "roles_ok db" using inv by (simp add: access_inv_def)
  let ?db = "replace_role_permissions (ro_name role) C db"
  show "live_role ?db r" if "live_role db r" for r using that by (simp add: live_role_def)
  show "roles_ok ?db"
  proof (rule roles_okI)
    show "role_ok ?db r" if "r \<in> set (roles ?db)" for r
    proof (cases "ro_name r = ro_name role")
      case True
      then have "r = role" using role_by_name[OF ok] that role by simp
      then show ?thesis
        using roles_okD(2)[OF ok role(1)] role codes by (simp add: role_ok_def replaced_codes)
    next
      case False
      then show ?thesis
        using roles_okD(2)[OF ok, of r] that codes(2) role_ok_codes[of ?db r db] by (simp add: replaced_codes)
    qed
    show "r \<in> ro_name ` set (roles ?db)" if "(r, p) \<in> set (role_permissions ?db)" for r p
      using that roles_okD(3)[OF ok] role codes(2) by (auto simp: replace_role_permissions_def)
  qed (use roles_okD[OF ok] in simp_all)
qed simp_all

lemma touch_one_db:
  "fst (touch_one env i x) = update_user i revision_row (fst (revoke_user_sessions (en_now env) i None (fst x)))"
  by (simp add: touch_one_def split_beta Let_def)

definition roles_unchanged :: "access_db \<Rightarrow> access_db \<Rightarrow> bool" where
  "roles_unchanged db t \<longleftrightarrow>
     roles t = roles db \<and> role_permissions t = role_permissions db \<and> user_roles t = user_roles db \<and>
     user_sites t = user_sites db \<and> map us_id (users t) = map us_id (users db) \<and> (access_inv db \<longrightarrow> access_inv t)"

lemma touch_one_same: "roles_unchanged (fst x) (fst (touch_one env i x))"
proof -
  let ?d = "fst (revoke_user_sessions (en_now env) i None (fst x))"
  have "access_inv (fst x) \<Longrightarrow> access_inv (update_user i revision_row ?d)"
    by (rule inv_update_user) (auto simp: user_ok_def revision_row_def)
  moreover have "same_access (fst x) ?d" by simp
  ultimately show ?thesis
    by (simp add: roles_unchanged_def touch_one_db same_access_def update_user_ids revision_row_def)
qed

lemma touch_affected_unchanged: "roles_unchanged db (fst (touch_affected env ids db))"
proof -
  have "roles_unchanged (fst x) (fst (fold (touch_one env) ids x))" for x
  proof (induction ids arbitrary: x)
    case (Cons i ids)
    then show ?case
      using touch_one_same[of x env i] Cons.IH[of "touch_one env i x"] by (simp add: roles_unchanged_def)
  qed (simp add: roles_unchanged_def)
  from this[of "(db, 0)"] show ?thesis by (simp add: touch_affected_def)
qed

lemmas touch_affected_same = touch_affected_unchanged[unfolded roles_unchanged_def, THEN conjunct1]
  touch_affected_unchanged[unfolded roles_unchanged_def, THEN conjunct2, THEN conjunct1]
  touch_affected_unchanged[unfolded roles_unchanged_def, THEN conjunct2, THEN conjunct2, THEN conjunct1]
  touch_affected_unchanged[unfolded roles_unchanged_def, THEN conjunct2, THEN conjunct2, THEN conjunct2, THEN conjunct1]

lemma touch_affected_inv: "access_inv db \<Longrightarrow> access_inv (fst (touch_affected env ids db))"
  using touch_affected_unchanged by (simp add: roles_unchanged_def)

lemma add_revision_same [simp]:
  "same_access db (add_revision r db)" "sessions (add_revision r db) = sessions db"
  by (simp_all add: add_revision_def same_access_def)

lemma inv_add_revision [simp]: "access_inv db \<Longrightarrow> access_inv (add_revision r db)"
  by (erule access_inv_quiet) simp_all

lemma write_role_db:
  "fst (write_role env pr role name p db) =
     user_event env pr ''role.updated'' ''role'' (ro_name role)
       (fst (touch_affected env (map fst (filter (\<lambda>(_, n). n = ro_name role) (user_roles db)))
         (add_revision (revision_of env pr (edited_role pr name p role) (set (rw_permissions p)) (rw_reason p))
           (replace_role_permissions (ro_name role) (set (rw_permissions p))
             (update_role_row (ro_name role) (edited_role pr name p) db)))))"
  by (simp add: write_role_def Let_def split: prod.split)

lemma inv_write_role:
  assumes inv: "access_inv db" and role: "role \<in> set (roles db)" "\<not> ro_is_builtin role"
    and codes: "custom_codes_ok (set (rw_permissions p))"
  shows "access_inv (fst (write_role env pr role name p db))"
proof -
  have ok: "roles_ok db" using inv by (simp add: access_inv_def)
  let ?db = "update_role_row (ro_name role) (edited_role pr name p) db"
  have "access_inv ?db"
    using role_by_name[OF ok _ role(1)] role(2) by (intro inv_update_role_row[OF inv]) (auto simp: edited_role_def)
  moreover have "edited_role pr name p role \<in> set (roles ?db)" using role(1) by (auto simp: update_role_row_def)
  ultimately have "access_inv (replace_role_permissions (ro_name role) (set (rw_permissions p)) ?db)"
    using inv_replace_role_permissions[of ?db "set (rw_permissions p)" "edited_role pr name p role"] codes role(2)
    by (simp add: edited_role_def)
  then show ?thesis by (simp add: write_role_db touch_affected_inv)
qed

lemma inv_archived:
  assumes inv: "access_inv db" and role: "role \<in> set (roles db)" "\<not> ro_is_builtin role"
    and unused: "filter (\<lambda>(_, name). name = ro_name role) (user_roles db) = []"
  shows "access_inv (update_role_row (ro_name role) (\<lambda>r. r\<lparr>ro_is_archived := True, ro_revision := ro_revision r + 1,
            ro_updated_by := x\<rparr>) db)"
proof -
  have ok: "roles_ok db" using inv by (simp add: access_inv_def)
  have "(u, ro_name role) \<notin> set (user_roles db)" for u using unused by (auto simp: filter_empty_conv)
  then show ?thesis
    using role_by_name[OF ok _ role(1)] role(2) by (intro inv_update_role_row[OF inv]) auto
qed

subsection \<open>The catalogue at start-up\<close>

definition ensure_role :: "string \<times> string list \<Rightarrow> access_db \<Rightarrow> access_db" where
  "ensure_role = (\<lambda>(name, configured) db. sync_role_permissions name configured (ensure_role_row name db))"

lemma ensure_access_catalog_fold:
  "ensure_access_catalog db = fold ensure_role BUILTIN_ROLE_PERMISSIONS (fold upsert_permission PERMISSION_DEFINITIONS db)"
  by (simp add: ensure_access_catalog_def ensure_role_def)

lemma upsert_same:
  "same_access db (fold upsert_permission ds db) \<and> sessions (fold upsert_permission ds db) = sessions db"
proof (induction ds arbitrary: db)
  case (Cons d ds)
  have "same_access db (upsert_permission d db)" "sessions (upsert_permission d db) = sessions db"
    by (simp_all add: upsert_permission_def same_access_def)
  then show ?case using Cons.IH[of "upsert_permission d db"] same_access_trans by fastforce
qed simp

lemma ensure_role_facts:
  fixes db name cfg
  assumes "access_inv db"
  defines "t \<equiv> ensure_role (name, cfg) db"
  shows "users t = users db" "user_roles t = user_roles db" "user_sites t = user_sites db" "sessions t = sessions db"
    "ro_name ` set (roles t) = insert name (ro_name ` set (roles db))"
    "distinct (map ro_name (roles t))"
    "role_codes t r = (if r = name then set cfg else role_codes db r)"
    "r \<noteq> name \<Longrightarrow> live_role t r = live_role db r" "live_role t name"
    "q \<in> set (roles t) \<Longrightarrow> if ro_name q = name then ro_is_builtin q \<and> \<not> ro_is_archived q else q \<in> set (roles db)"
    "(n, p) \<in> set (role_permissions t) \<Longrightarrow> n = name \<or> (n, p) \<in> set (role_permissions db)"
proof -
  have dist: "distinct (map ro_name (roles db))" using assms(1) by (simp add: access_inv_def roles_ok_def)
  have rows: "users (ensure_role_row name db) = users db" "user_roles (ensure_role_row name db) = user_roles db"
    "user_sites (ensure_role_row name db) = user_sites db" "sessions (ensure_role_row name db) = sessions db"
    "role_permissions (ensure_role_row name db) = role_permissions db"
    by (simp_all add: ensure_role_row_def split: option.split)
  have t: "roles t = roles (ensure_role_row name db)"
    by (simp add: t_def ensure_role_def sync_role_permissions_def Let_def)
  have absent: "find_role db name = None \<longleftrightarrow> name \<notin> ro_name ` set (roles db)"
    by (auto simp: find_role_def find_None_iff)
  show "users t = users db" "user_roles t = user_roles db" "user_sites t = user_sites db" "sessions t = sessions db"
    by (simp_all add: t_def ensure_role_def sync_role_permissions_def Let_def rows)
  show codes: "role_codes t r = (if r = name then set cfg else role_codes db r)"
    by (auto simp: t_def ensure_role_def sync_role_permissions_def Let_def rows role_codes_iff set_eq_iff image_iff)
  show "(n, p) \<in> set (role_permissions t) \<Longrightarrow> n = name \<or> (n, p) \<in> set (role_permissions db)"
    by (auto simp: t_def ensure_role_def sync_role_permissions_def Let_def rows)
  have names: "map ro_name (roles t) = map ro_name (roles db) @ (if name \<in> ro_name ` set (roles db) then [] else [name])"
  proof (cases "find_role db name")
    case None
    then show ?thesis using absent by (simp add: t ensure_role_row_def)
  next
    case (Some r)
    then show ?thesis using absent by (simp add: t ensure_role_row_def updated_role_names)
  qed
  show "distinct (map ro_name (roles t))" using dist by (auto simp: names)
  show "ro_name ` set (roles t) = insert name (ro_name ` set (roles db))"
    using arg_cong[OF names, of set] by auto
  have others: "q \<in> set (roles t) \<longleftrightarrow> q \<in> set (roles db)" if "ro_name q \<noteq> name" for q
  proof (cases "find_role db name")
    case None
    with that show ?thesis by (auto simp: t ensure_role_row_def)
  next
    case (Some r)
    with that show ?thesis by (auto simp: t ensure_role_row_def update_role_row_def image_iff)
  qed
  have named: "\<forall>q\<in>set (roles t). ro_name q = name \<longrightarrow> ro_is_builtin q \<and> \<not> ro_is_archived q"
  proof (cases "find_role db name")
    case None
    with absent show ?thesis by (auto simp: t ensure_role_row_def)
  next
    case (Some r)
    then show ?thesis by (simp add: t ensure_role_row_def update_role_row_def ball_Un ball_simps)
  qed
  show "r \<noteq> name \<Longrightarrow> live_role t r = live_role db r" unfolding live_role_def using others by blast
  have "name \<in> ro_name ` set (roles t)" using arg_cong[OF names, of set] by auto
  then show "live_role t name" unfolding live_role_def using named by auto
  show "q \<in> set (roles t) \<Longrightarrow> if ro_name q = name then ro_is_builtin q \<and> \<not> ro_is_archived q else q \<in> set (roles db)"
    using others[of q] named by auto
qed

lemma builtin_entry:
  "name \<in> BUILTIN_ROLE_NAMES \<Longrightarrow> (name, dict_get BUILTIN_ROLE_PERMISSIONS name []) \<in> set BUILTIN_ROLE_PERMISSIONS"
  by (auto simp: BUILTIN_ROLE_NAMES_def BUILTIN_ROLE_PERMISSIONS_def dict_get_def)

lemma builtin_get:
  "(name, cfg) \<in> set BUILTIN_ROLE_PERMISSIONS \<Longrightarrow> name \<in> BUILTIN_ROLE_NAMES \<and> dict_get BUILTIN_ROLE_PERMISSIONS name [] = cfg"
  by (auto simp: BUILTIN_ROLE_NAMES_def BUILTIN_ROLE_PERMISSIONS_def dict_get_def)

lemma inv_ensure_role:
  assumes inv: "access_inv db" and entry: "(name, cfg) \<in> set BUILTIN_ROLE_PERMISSIONS"
  shows "access_inv (ensure_role (name, cfg) db)"
proof (rule inv_role_write[OF inv])
  let ?t = "ensure_role (name, cfg) db"
  note f = ensure_role_facts[OF inv, where name = name and cfg = cfg]
  note b = builtin_get[OF entry]
  have ok: "roles_ok db" using inv by (simp add: access_inv_def)
  show "users ?t = users db" "user_roles ?t = user_roles db" "user_sites ?t = user_sites db"
    "map session_key (sessions ?t) = map session_key (sessions db)" by (simp_all add: f)
  show "live_role ?t r" if "live_role db r" for r using that f(8,9) by (cases "r = name") auto
  show "roles_ok ?t"
  proof (rule roles_okI)
    show "role_ok ?t q" if "q \<in> set (roles ?t)" for q
      using f(10)[OF that] b roles_okD(2)[OF ok, of q] by (cases "ro_name q = name") (auto simp: role_ok_def f(7))
    show "r \<in> ro_name ` set (roles ?t)" if "(r, p) \<in> set (role_permissions ?t)" for r p
      using f(11)[OF that] roles_okD(3)[OF ok] f(5) by auto
    show "BUILTIN_ROLE_NAMES \<subseteq> ro_name ` set (roles ?t)" if "users ?t \<noteq> []"
      using that roles_okD(4)[OF ok] f(1,5) by auto
  qed (rule f(6))
qed

lemma inv_ensure_roles:
  assumes "access_inv db" "set es \<subseteq> set BUILTIN_ROLE_PERMISSIONS"
  shows "access_inv (fold ensure_role es db) \<and> users (fold ensure_role es db) = users db \<and>
    user_roles (fold ensure_role es db) = user_roles db \<and> user_sites (fold ensure_role es db) = user_sites db \<and>
    sessions (fold ensure_role es db) = sessions db \<and>
    ro_name ` set (roles (fold ensure_role es db)) = fst ` set es \<union> ro_name ` set (roles db)"
  using assms
proof (induction es arbitrary: db)
  case (Cons e es)
  obtain name cfg where e: "e = (name, cfg)" by fastforce
  have "access_inv (ensure_role e db)" using Cons.prems inv_ensure_role e by simp
  from Cons.IH[OF this] Cons.prems ensure_role_facts[OF Cons.prems(1), where name = name and cfg = cfg] show ?case by (auto simp: e)
qed simp

lemma inv_ensure_access_catalog:
  assumes "access_inv db"
  defines "t \<equiv> ensure_access_catalog db"
  shows "access_inv t" "users t = users db" "user_roles t = user_roles db" "user_sites t = user_sites db"
    "sessions t = sessions db" "BUILTIN_ROLE_NAMES \<subseteq> ro_name ` set (roles t)"
proof -
  let ?db = "fold upsert_permission PERMISSION_DEFINITIONS db"
  have same: "same_access db ?db" "sessions ?db = sessions db" using upsert_same by auto
  have "access_inv ?db" using assms(1) same by (auto intro: access_inv_quiet)
  from inv_ensure_roles[OF this order_refl] same
  show "access_inv t" "users t = users db" "user_roles t = user_roles db" "user_sites t = user_sites db"
    "sessions t = sessions db" "BUILTIN_ROLE_NAMES \<subseteq> ro_name ` set (roles t)"
    by (auto simp: t_def ensure_access_catalog_fold same_access_def BUILTIN_ROLE_NAMES_def)
qed

subsection \<open>New users, sessions and sites\<close>

text \<open>What a successful creation of a user wrote.\<close>

definition user_created :: "access_db \<Rightarrow> user_row \<Rightarrow> string set \<Rightarrow> access_db \<Rightarrow> bool" where
  "user_created db u names db' \<longleftrightarrow>
     us_id u \<noteq> [] \<and> us_id u \<notin> us_id ` set (users db) \<and> us_is_active u \<and> us_lifecycle_state u = ''active'' \<and>
     users db' = users db @ [u] \<and> set (user_roles db') = set (user_roles db) \<union> Pair (us_id u) ` names \<and>
     roles db' = roles db \<and> role_permissions db' = role_permissions db \<and> user_sites db' = user_sites db \<and>
     sessions db' = sessions db"

lemma inv_user_created:
  assumes inv: "access_inv db" and new: "user_created db u names db'"
    and names: "names \<subseteq> BUILTIN_ROLE_NAMES" "BUILTIN_ROLE_NAMES \<subseteq> ro_name ` set (roles db)"
  shows "access_inv db'"
proof -
  note n = new[unfolded user_created_def]
  have ok: "roles_ok db" "users_ok db" "grants_ok db" "sessions_ok db" using inv by (simp_all add: access_inv_def)
  have codes: "role_codes db' = role_codes db" by (rule ext) (simp add: role_codes_def n)
  have lv: "live_role db' = live_role db" using n by (intro live_role_cong) simp
  have live: "live_role db r" if r: "r \<in> names" for r
  proof -
    obtain q where q: "q \<in> set (roles db)" "ro_name q = r" using r names by blast
    moreover have "ro_is_builtin q" using roles_okD(2)[OF ok(1) q(1)] q(2) r names(1) by (auto simp: role_ok_def)
    ultimately show ?thesis using roles_okD(2)[OF ok(1) q(1)] by (auto simp: role_ok_def live_role_def)
  qed
  have "roles_ok db'" using ok(1) n names codes by (simp add: roles_ok_def role_ok_def)
  moreover have "grants_ok db'"
    using grants_okD[OF ok(3)] n live by (intro grants_okI) (auto simp: lv)
  moreover have "users_ok db'"
  proof -
    have "user_ok db' v" if v: "v \<in> set (users db')" for v
    proof (cases "v = u")
      case True
      moreover have "(us_id u, s) \<notin> set (user_sites db)" for s using n grants_okD(3)[OF ok(3)] by blast
      ultimately show ?thesis using n by (simp add: user_ok_def fst_pairs)
    next
      case False
      then have "v \<in> set (users db)" using v n by simp
      then have "user_ok db v" "us_id v \<noteq> us_id u" using ok(2) n by (simp add: users_ok_def, metis image_eqI)
      then show ?thesis using n by (auto simp: user_ok_def fst_pairs)
    qed
    then show ?thesis using ok(2) n by (simp add: users_ok_def)
  qed
  moreover have "sessions_ok db'" using ok(4) n by (auto simp: sessions_ok_def)
  ultimately show ?thesis by (simp add: access_inv_def)
qed

lemma effective_roles_builtin: "set xs \<subseteq> BUILTIN_ROLE_NAMES \<Longrightarrow> effective_roles xs \<subseteq> BUILTIN_ROLE_NAMES"
  by (auto simp: effective_roles_def BUILTIN_ROLE_NAMES_def BUILTIN_ROLE_PERMISSIONS_def)

lemma finite_effective_roles [simp]: "finite (effective_roles xs)"
  by (simp add: effective_roles_def)

lemma create_user_in_Inr:
  assumes "create_user_in env pr i salt p db = Inr (db', k)" "i \<noteq> []"
  shows "\<exists>u. user_created db u (effective_roles (uc_roles p)) db' \<and> us_id u = i \<and> us_all_sites u = sp_all_sites pr \<and>
     permissions_for_roles db' (effective_roles (uc_roles p)) \<subseteq> sp_permissions pr"
proof -
  let ?u = "new_user i (lower (uc_email p)) (uc_display_name p) (argon2_hash (en_crypto env) salt (uc_password p))
      (en_now env) False (sp_all_sites pr)"
  from assms(1) obtain db1 where db1: "insert_user ?u db = Inr db1"
    and perms: "permissions_for_roles db1 (effective_roles (uc_roles p)) \<subseteq> sp_permissions pr"
    and db': "db' = user_event env pr ''user.created'' ''user'' i
      (db1\<lparr>user_roles := user_roles db1 @ map (Pair i) (sorted_list_of_set (effective_roles (uc_roles p)))\<rparr>)"
    by (auto simp: create_user_in_def Let_def bindE_eq_Inr)
  have fields: "users db1 = users db @ [?u]" "roles db1 = roles db" "role_permissions db1 = role_permissions db"
    "user_roles db1 = user_roles db" "user_sites db1 = user_sites db" "sessions db1 = sessions db"
    "i \<notin> us_id ` set (users db)"
    using db1 by (auto simp: insert_user_def new_user_def split: if_splits)
  have "user_created db ?u (effective_roles (uc_roles p)) db'"
    using fields assms(2) by (simp add: user_created_def db' user_event_def add_access_event_def new_user_def)
  moreover have "permissions_for_roles db' = permissions_for_roles db1"
    unfolding permissions_for_roles_def live_role_def by (rule ext) (simp add: db' user_event_def add_access_event_def)
  ultimately show ?thesis using perms by (intro exI[of _ ?u]) (simp add: new_user_def)
qed

lemma inv_insert_session:
  assumes inv: "access_inv db" and new: "insert_session s db = Inr db'" and user: "bs_user_id s \<in> us_id ` set (users db)"
  shows "access_inv db'" and "same_access db db'" and "sessions db' = sessions db @ [s]"
    and "bs_token_hash s \<notin> bs_token_hash ` set (sessions db)" and "bs_id s \<notin> bs_id ` set (sessions db)"
proof -
  have db': "db' = db\<lparr>sessions := sessions db @ [s]\<rparr>"
    and fresh: "bs_id s \<notin> bs_id ` set (sessions db)" "bs_token_hash s \<notin> bs_token_hash ` set (sessions db)"
    using new by (auto simp: insert_session_def split: if_splits)
  have codes: "role_codes db' = role_codes db" by (rule ext) (simp add: role_codes_def db')
  show "access_inv db'"
    using inv fresh user live_role_cong[of db' db] codes
    by (simp add: db' access_inv_def roles_ok_def role_ok_def grants_ok_def users_ok_def user_ok_def sessions_ok_def)
  show "same_access db db'" "sessions db' = sessions db @ [s]"
    "bs_token_hash s \<notin> bs_token_hash ` set (sessions db)" "bs_id s \<notin> bs_id ` set (sessions db)"
    using fresh by (simp_all add: db' same_access_def)
qed

lemma create_session_Inr:
  "create_session cr now i t c u pepper h = Inr s \<Longrightarrow>
   bs_user_id s = u \<and> bs_id s = i \<and> bs_token_hash s = hmac_sha256_hex cr pepper t"
  by (auto simp: create_session_def opaque_hash_def bindE_eq_Inr)

lemma open_session_Inr:
  assumes inv: "access_inv db" and user: "user \<in> set (users db)" and new: "open_session env fresh user db = Inr db'"
  shows "access_inv db'" and "effective_permissions db' = effective_permissions db"
    and "\<exists>s. sessions db' = sessions db @ [s] \<and> bs_token_hash s \<notin> bs_token_hash ` set (sessions db)"
proof -
  let ?u = "update_user (us_id user) (\<lambda>u. u\<lparr>us_last_login_at := Some (en_now env)\<rparr>) db"
  have u: "access_inv ?u" by (rule inv_update_user[OF inv]) (auto simp: user_ok_def)
  from new obtain s db1 where s: "bs_user_id s = us_id user" and ins: "insert_session s ?u = Inr db1"
    and db': "db' = add_access_event (access_audit (en_now env) ''user'' (Some (us_id user)) ''auth.login'' (Some ''session'')
            None ''success'') db1"
    by (auto simp: open_session_def bindE_eq_Inr dest: create_session_Inr)
  have "us_id ` set (users ?u) = us_id ` set (users db)" by (rule ids_set) (simp add: update_user_ids)
  then have "bs_user_id s \<in> us_id ` set (users ?u)" using s user by simp
  note f = inv_insert_session[OF u ins this]
  show "access_inv db'" using f(1) by (simp add: db')
  have "same_access ?u db'" using f(2) same_access_trans by (auto simp: db')
  then show "effective_permissions db' = effective_permissions db"
    using same_access_permissions(1) effective_permissions_cong(1)[of ?u db] by simp
  show "\<exists>s. sessions db' = sessions db @ [s] \<and> bs_token_hash s \<notin> bs_token_hash ` set (sessions db)"
    using f(3,4) by (auto simp: db' add_access_event_def)
qed

lemma inv_initial_users:
  assumes inv: "access_inv db" and new: "assign_initial_users site chosen db = Inr db'"
  shows "access_inv db'"
proof -
  define rows where
    "rows = map (\<lambda>u. (us_id u, site)) (filter (\<lambda>u. \<not> us_all_sites u) (filter (\<lambda>u. us_id u \<in> set chosen) (users db)))"
  have db': "db' = db\<lparr>site_ids := site_ids db @ [site], user_sites := user_sites db @ rows\<rparr>"
    and active: "\<And>u. u \<in> set (users db) \<Longrightarrow> us_id u \<in> set chosen \<Longrightarrow> us_lifecycle_state u = ''active''"
    using new by (auto simp: assign_initial_users_def Let_def bindE_eq_Inr list_all_iff rows_def)
  have users: "users_ok db" and grants: "grants_ok db" using inv by (simp_all add: access_inv_def)
  have known: "u \<in> us_id ` set (users db)" if "(u, s) \<in> set rows" for u s using that by (auto simp: rows_def)
  have lv: "live_role db' = live_role db" by (rule live_role_cong) (simp add: db')
  show ?thesis
  proof (rule inv_user_write[OF inv])
    show "grants_ok db'"
      using grants_okD[OF grants] known by (intro grants_okI) (auto simp: lv, auto simp: db')
    fix u assume "u \<in> set (users db')"
    then have u: "u \<in> set (users db)" by (simp add: db')
    have "\<not> us_all_sites u \<and> us_lifecycle_state u = ''active''" if "(us_id u, s) \<in> set rows" for s
    proof -
      from that obtain v where v: "v \<in> set (users db)" "us_id v \<in> set chosen" "\<not> us_all_sites v" "us_id u = us_id v"
        by (auto simp: rows_def)
      then show ?thesis using user_by_id[OF users u v(1)] active by simp
    qed
    moreover have "user_ok db u" using users u by (simp add: users_ok_def)
    ultimately show "user_ok db' u" unfolding user_ok_def by (auto simp: db' fst_pairs)
  qed (simp_all add: db')
qed

end
