(* ===== verification/Access_System.thy ===== *)
theory Access_System
  imports Access_Invariant
begin

text \<open>
  The access administration as a transition system.  A call is one request to one of the routes;
  the start-up of the application re-creates the catalogue, a restart forgets the attempts
  in memory, and a new site grants access to its initial users.  Every route is reduced to the writes of
  one relation, so that a property of all calls is an analysis of the cases of that relation.
\<close>

section \<open>What a signed-in call can write\<close>

text \<open>Sessions are never un-revoked, prolonged or handed to another user.\<close>

definition session_follows :: "browser_session \<Rightarrow> browser_session \<Rightarrow> bool" where
  "session_follows s t \<longleftrightarrow>
     session_key t = session_key s \<and> bs_expires_at t = bs_expires_at s \<and>
     (bs_revoked_at s \<noteq> None \<longrightarrow> bs_revoked_at t \<noteq> None)"

definition sessions_follow :: "browser_session list \<Rightarrow> browser_session list \<Rightarrow> bool" where
  "sessions_follow xs ys \<longleftrightarrow> list_all2 session_follows xs ys"

lemma session_follows_refl [simp]: "session_follows s s"
  by (simp add: session_follows_def)

lemma sessions_follow_refl [simp]: "sessions_follow xs xs"
  by (simp add: sessions_follow_def list_all2_refl)

lemma sessions_follow_trans [trans]: "sessions_follow xs ys \<Longrightarrow> sessions_follow ys zs \<Longrightarrow> sessions_follow xs zs"
  unfolding sessions_follow_def by (rule list_all2_trans) (auto simp: session_follows_def)

lemma sessions_follow_map: "(\<And>s. session_follows s (f s)) \<Longrightarrow> sessions_follow xs (map f xs)"
  by (simp add: sessions_follow_def list_all2_conv_all_nth)

lemma sessions_follow_keys: "sessions_follow xs ys \<Longrightarrow> map session_key ys = map session_key xs"
  unfolding sessions_follow_def by (induction rule: list_all2_induct) (auto simp: session_follows_def)

lemma revoke_follows [simp]: "sessions_follow (sessions db) (sessions (fst (revoke_user_sessions now i x db)))"
  by (simp add: revoke_user_sessions_def) (rule sessions_follow_map, simp add: session_follows_def session_key_def)

lemma event_sessions [simp]:
  "sessions (add_access_event e db) = sessions db" "sessions (user_event env pr a t i db) = sessions db"
  by (simp_all add: add_access_event_def user_event_def)

lemma touch_follows: "sessions_follow (sessions db) (sessions (fst (touch_affected env ids db)))"
proof -
  have "sessions_follow (sessions (fst x)) (sessions (fst (fold (touch_one env) ids x)))" for x
  proof (induction ids arbitrary: x)
    case (Cons i ids)
    have "sessions_follow (sessions (fst x)) (sessions (fst (touch_one env i x)))" by (simp add: touch_one_db)
    then show ?case using Cons.IH[of "touch_one env i x"] sessions_follow_trans by auto
  qed simp
  from this[of "(db, 0)"] show ?thesis by (simp add: touch_affected_def)
qed

text \<open>The kinds of writes that do not ask who else could recover the system are told apart from the others.\<close>

datatype write_kind = By_access string | By_role | By_deactivation | Other

inductive access_write :: "access_env \<Rightarrow> session_principal \<Rightarrow> access_db \<Rightarrow> write_kind \<Rightarrow> access_db \<Rightarrow> bool"
  for env pr db
where
  Write_access: "user \<in> set (users db) \<Longrightarrow> target_scope_allowed db pr user \<Longrightarrow>
    access_change_allowed env pr db user p = Inr () \<Longrightarrow> access_write env pr db (By_access (us_id user)) (fst (write_access env pr user p db))"
| Write_status: "user \<in> set (users db) \<Longrightarrow> status_change_allowed env pr db active user p = Inr () \<Longrightarrow>
    access_write env pr db Other (fst (write_status env pr active user db))"
| Write_removal: "user \<in> set (users db) \<Longrightarrow> removal_allowed env pr db user p = Inr () \<Longrightarrow>
    access_write env pr db Other (fst (write_removal env pr user p db))"
| Write_restored: "user \<in> set (users db) \<Longrightarrow> us_lifecycle_state user = ''removed'' \<Longrightarrow>
    access_write env pr db Other (user_event env pr ''user.restored'' ''user'' (us_id user)
      (update_user (us_id user) (restored_row env pr) db))"
| Write_new_role: "create_role_in env pr h p db = Inr (db', n) \<Longrightarrow> access_write env pr db Other db'"
| Write_role: "role \<in> set (roles db) \<Longrightarrow> role_edit_allowed env pr db role p = Inr name \<Longrightarrow>
    access_write env pr db By_role (fst (write_role env pr role name p db))"
| Write_archived: "role \<in> set (roles db) \<Longrightarrow> \<not> ro_is_builtin role \<Longrightarrow>
    filter (\<lambda>(_, name). name = ro_name role) (user_roles db) = [] \<Longrightarrow>
    d = update_role_row (ro_name role) (\<lambda>r. r\<lparr>ro_is_archived := True, ro_revision := ro_revision r + 1,
          ro_updated_by := Some (us_id (sp_user pr))\<rparr>) db \<Longrightarrow>
    db' = d \<or> db' = user_event env pr ''role.archived'' ''role'' (ro_name role) d \<Longrightarrow> access_write env pr db Other db'"
| Write_new_user: "valid_user_create p \<Longrightarrow> i \<noteq> [] \<Longrightarrow> create_user_in env pr i salt p db = Inr (db', k) \<Longrightarrow> access_write env pr db Other db'"
| Write_password: "user \<in> set (users db) \<Longrightarrow>
    access_write env pr db Other (user_event env pr ''user.password_reset'' ''user'' (us_id user)
      (fst (revoke_user_sessions (en_now env) (us_id user) None (update_user (us_id user) (password_row env h) db))))"
| Write_deactivated: "deactivation_target pr db i = Inr user \<Longrightarrow> us_is_active user \<Longrightarrow>
    deactivation_allowed env pr db user = Inr () \<Longrightarrow> access_write env pr db By_deactivation (write_deactivation env pr user db)"
| Write_sessions: "same_access db db' \<Longrightarrow> sessions_follow (sessions db) (sessions db') \<Longrightarrow> access_write env pr db Other db'"

lemma load_user_Inr: "load_user db i = Inr u \<Longrightarrow> u \<in> set (users db) \<and> us_id u = i"
  by (auto simp: load_user_def split: option.splits dest: find_user_Some)

lemma deactivation_target_Inr:
  "deactivation_target pr db i = Inr user \<Longrightarrow> user \<in> set (users db) \<and> us_id user = i \<and>
     us_id user \<noteq> us_id (sp_user pr) \<and> target_user_scope_allowed db pr user \<and> ''users.disable'' \<in> sp_permissions pr"
  by (auto simp: deactivation_target_def bindE_eq_Inr require_permission_def dest: load_user_Inr)

lemma access_change_not_removed:
  "access_change_allowed env pr db user p = Inr u \<Longrightarrow> us_lifecycle_state user \<noteq> ''removed''"
  by (auto simp: access_change_allowed_def Let_def bindE_eq_Inr)

lemma status_change_not_removed:
  "status_change_allowed env pr db active user p = Inr u \<Longrightarrow> us_lifecycle_state user \<noteq> ''removed''"
  by (auto simp: status_change_allowed_def Let_def bindE_eq_Inr)

text \<open>The number of live rows with a requested name is the number of names only if each name has one.\<close>

lemma requested_roles_live:
  assumes "roles_ok db" "access_change_allowed env pr db user p = Inr u" "r \<in> set (au_role_ids p)"
  shows "live_role db r"
proof -
  let ?rows = "filter (\<lambda>r. ro_name r \<in> set (au_role_ids p) \<and> \<not> ro_is_archived r) (roles db)"
  have len: "length ?rows = card (set (au_role_ids p))"
    using assms(2) by (auto simp: access_change_allowed_def Let_def bindE_eq_Inr)
  have "distinct (map ro_name ?rows)" using roles_okD(1)[OF assms(1)] by (rule distinct_map_filter)
  from distinct_card[OF this] have "card (ro_name ` set ?rows) = length ?rows"
    unfolding list.set_map length_map .
  then have "ro_name ` set ?rows = set (au_role_ids p)"
    using len by (intro card_subset_eq) auto
  with assms(3) have "r \<in> ro_name ` set ?rows" by simp
  then show ?thesis by (auto simp: live_role_def)
qed

lemma role_edit_facts:
  assumes "role_edit_allowed env pr db role p = Inr name"
  shows "\<not> ro_is_builtin role" "\<not> ro_is_archived role" "custom_codes_ok (set (rw_permissions p))"
    "set (rw_permissions p) \<subseteq> sp_permissions pr"
  using assms by (auto simp: role_edit_allowed_def Let_def bindE_eq_Inr delegated_Inr)

theorem access_write_inv: "access_write env pr db k db' \<Longrightarrow> access_inv db \<Longrightarrow> users db \<noteq> [] \<Longrightarrow> access_inv db'"
proof (induction rule: access_write.induct)
  case (Write_access user p)
  then show ?case
    using requested_roles_live access_change_not_removed by (intro inv_write_access) (auto simp: access_inv_def)
next
  case (Write_status user active p)
  then show ?case by (intro inv_write_status) (auto dest: status_change_not_removed)
next
  case (Write_removal user p)
  then show ?case by (intro inv_write_removal)
next
  case (Write_restored user)
  then have "access_inv (update_user (us_id user) (restored_row env pr) db)"
    using user_by_id[of db] by (intro inv_update_user) (auto simp: restored_row_def user_ok_def access_inv_def)
  then show ?case by simp
next
  case (Write_new_role h p db' n)
  then show ?case using create_role_in_Inr inv_role_created by blast
next
  case (Write_role role p name)
  then show ?case by (intro inv_write_role) (auto dest: role_edit_facts)
next
  case (Write_archived role d db')
  then have "access_inv d" by (simp only:) (rule inv_archived)
  then show ?case using Write_archived by auto
next
  case (Write_new_user p i salt db' k)
  then obtain u where "user_created db u (effective_roles (uc_roles p)) db'" using create_user_in_Inr by blast
  moreover have "effective_roles (uc_roles p) \<subseteq> BUILTIN_ROLE_NAMES"
    using Write_new_user(1) by (intro effective_roles_builtin) (simp add: valid_user_create_def)
  moreover have "BUILTIN_ROLE_NAMES \<subseteq> ro_name ` set (roles db)"
    using Write_new_user roles_okD(4) by (simp add: access_inv_def)
  ultimately show ?case using Write_new_user inv_user_created by blast
next
  case (Write_password user h)
  then have "access_inv (update_user (us_id user) (password_row env h) db)"
    by (intro inv_update_user) (auto simp: user_ok_def password_row_def)
  then show ?case by simp
next
  case (Write_deactivated i user)
  from Write_deactivated(1) have user: "user \<in> set (users db)" by (auto dest: deactivation_target_Inr)
  have users: "users_ok db" using Write_deactivated by (simp add: access_inv_def)
  have "access_inv (update_user (us_id user) (status_row False True) db)"
  proof (rule inv_update_user)
    fix u assume "u \<in> set (users db)" "us_id u = us_id user" "user_ok db u"
    then show "user_ok db (status_row False True u)"
      using user_by_id[OF users user] Write_deactivated(2) by (auto simp: user_ok_def status_row_def status_name_def)
  qed (use Write_deactivated in \<open>simp_all add: status_row_def\<close>)
  then show ?case by (simp add: write_deactivation_def)
next
  case (Write_sessions db')
  then show ?case using access_inv_quiet sessions_follow_keys by blast
qed

section \<open>Calls and steps\<close>

definition error_of :: "access_error + 'a \<Rightarrow> access_error option" where
  "error_of r = (case r of Inl e \<Rightarrow> Some e | Inr _ \<Rightarrow> None)"

datatype access_call =
    Update_user_access access_request string access_update
  | Enable_user access_request string status_change
  | Disable_user access_request string status_change
  | Remove_user access_request string removal_request
  | Restore_user access_request string restore_request
  | Revoke_sessions access_request string
  | Create_role access_request string role_write
  | Clone_role access_request string string role_write
  | Update_role access_request string role_write
  | Archive_role access_request string
  | Create_user access_request string string user_create
  | Admin_password_reset access_request string string string
  | Deactivate_user access_request string
  | Logout access_request
  | Reauthenticate access_request "string option" "string option"
  | Setup_totp access_request string
  | Verify_totp_setup access_request string
  | Bootstrap fresh_session string string bootstrap_request
  | Login fresh_session login_request

fun valid_call :: "access_call \<Rightarrow> bool" where
  "valid_call (Update_user_access _ _ p) = valid_access_update p"
| "valid_call (Create_role _ _ p) = valid_role_write p"
| "valid_call (Clone_role _ _ _ p) = valid_role_write p"
| "valid_call (Update_role _ _ p) = valid_role_write p"
| "valid_call (Create_user _ i _ p) = (valid_user_create p \<and> i \<noteq> [])"
| "valid_call (Bootstrap _ i _ _) = (i \<noteq> [])"
| "valid_call _ = True"

fun perform :: "access_env \<Rightarrow> access_call \<Rightarrow> access_state \<Rightarrow> access_error option \<times> access_state" where
  "perform env (Update_user_access rq i p) st = map_prod error_of id (update_user_access env rq i p st)"
| "perform env (Enable_user rq i p) st = map_prod error_of id (enable_user env rq i p st)"
| "perform env (Disable_user rq i p) st = map_prod error_of id (disable_user env rq i p st)"
| "perform env (Remove_user rq i p) st = map_prod error_of id (remove_user env rq i p st)"
| "perform env (Restore_user rq i p) st = map_prod error_of id (restore_user env rq i p st)"
| "perform env (Revoke_sessions rq i) st = map_prod error_of id (revoke_sessions env rq i st)"
| "perform env (Create_role rq h p) st = map_prod error_of id (create_role env rq h p st)"
| "perform env (Clone_role rq h i p) st = map_prod error_of id (clone_role env rq h i p st)"
| "perform env (Update_role rq i p) st = map_prod error_of id (update_role env rq i p st)"
| "perform env (Archive_role rq i) st = map_prod error_of id (archive_role env rq i st)"
| "perform env (Create_user rq i s p) st = map_prod error_of id (create_user env rq i s p st)"
| "perform env (Admin_password_reset rq s i p) st = map_prod error_of id (admin_password_reset env rq s i p st)"
| "perform env (Deactivate_user rq i) st = map_prod error_of id (deactivate_user env rq i st)"
| "perform env (Logout rq) st = map_prod error_of id (logout env rq st)"
| "perform env (Reauthenticate rq p c) st = map_prod error_of id (reauthenticate env rq p c st)"
| "perform env (Setup_totp rq s) st = map_prod error_of id (setup_totp env rq s st)"
| "perform env (Verify_totp_setup rq c) st = map_prod error_of id (verify_totp_setup env rq c st)"
| "perform env (Bootstrap f i s p) st = map_prod error_of id (bootstrap env f i s p st)"
| "perform env (Login f p) st = map_prod error_of id (login env f p st)"

fun call_request :: "access_call \<Rightarrow> access_request option" where
  "call_request (Update_user_access rq _ _) = Some rq"
| "call_request (Enable_user rq _ _) = Some rq"
| "call_request (Disable_user rq _ _) = Some rq"
| "call_request (Remove_user rq _ _) = Some rq"
| "call_request (Restore_user rq _ _) = Some rq"
| "call_request (Revoke_sessions rq _) = Some rq"
| "call_request (Create_role rq _ _) = Some rq"
| "call_request (Clone_role rq _ _ _) = Some rq"
| "call_request (Update_role rq _ _) = Some rq"
| "call_request (Archive_role rq _) = Some rq"
| "call_request (Create_user rq _ _ _) = Some rq"
| "call_request (Admin_password_reset rq _ _ _) = Some rq"
| "call_request (Deactivate_user rq _) = Some rq"
| "call_request (Logout rq) = Some rq"
| "call_request (Reauthenticate rq _ _) = Some rq"
| "call_request (Setup_totp rq _) = Some rq"
| "call_request (Verify_totp_setup rq _) = Some rq"
| "call_request (Bootstrap _ _ _ _) = None"
| "call_request (Login _ _) = None"

section \<open>Every route is one of the writes\<close>

lemma update_session_follows:
  "(\<And>s. session_follows s (f s)) \<Longrightarrow> sessions_follow (sessions db) (sessions (update_session k f db))"
  unfolding update_session_def by (simp add: sessions_follow_map)

lemma require_csrf_Inr:
  assumes "require_csrf env rq db = Inr (pr, d)"
  shows "same_access db d" "sessions_follow (sessions db) (sessions d)" "sp_user pr \<in> set (users db)"
    "us_is_active (sp_user pr)" "sp_roles pr = user_role_names db (us_id (sp_user pr))"
    "sp_permissions pr = effective_permissions db (us_id (sp_user pr))"
    "sp_all_sites pr = us_all_sites (sp_user pr)" "sp_site_ids pr = explicit_site_ids db (us_id (sp_user pr))"
    "site_ids d = site_ids db"
proof -
  obtain h s u where live: "live_session db (en_now env) h = Some (s, u)"
    and d: "d = update_session (bs_id s) (\<lambda>s. s\<lparr>bs_last_seen_at := en_now env\<rparr>) db"
    and pr: "sp_user pr = u" "sp_roles pr = user_role_names db (us_id u)" "sp_permissions pr = effective_permissions db (us_id u)"
      "sp_all_sites pr = us_all_sites u" "sp_site_ids pr = explicit_site_ids db (us_id u)"
    using assms
    by (auto simp: require_csrf_def current_principal_def authenticate_session_def bindE_eq_Inr split: option.splits prod.splits)
  from live have u: "u \<in> set (users db)" "us_is_active u"
    by (auto simp: live_session_def split: option.splits if_splits dest: find_user_Some)
  show "same_access db d" by (simp add: d)
  show "sessions_follow (sessions db) (sessions d)"
    unfolding d by (rule update_session_follows) (simp add: session_follows_def session_key_def)
  show "site_ids d = site_ids db" by (simp add: d update_session_def)
  show "sp_user pr \<in> set (users db)" "us_is_active (sp_user pr)" "sp_roles pr = user_role_names db (us_id (sp_user pr))"
    "sp_permissions pr = effective_permissions db (us_id (sp_user pr))"
    "sp_all_sites pr = us_all_sites (sp_user pr)" "sp_site_ids pr = explicit_site_ids db (us_id (sp_user pr))"
    using u pr by simp_all
qed

lemma signed_in_cases:
  assumes "signed_in env rq st k = (a, st')"
  obtains (refused) "st' = st" | (accepted) pr db where "require_csrf env rq (as_db st) = Inr (pr, db)" "k pr db = (a, st')"
  using assms by (auto simp: signed_in_def split: sum.splits)

lemma limited_cases:
  assumes "limited env pr needed action st k = (a, st')"
  obtains (refused) "as_db st' = as_db st" | (accepted) st1 where "as_db st1 = as_db st" "k st1 = (a, st')"
proof -
  obtain ok st1 where rl: "rate_limit env pr action st = (ok, st1)" by fastforce
  then have "as_db st1 = as_db st" by (auto simp: rate_limit_def Let_def split: prod.splits)
  with assms rl show ?thesis using that by (auto simp: limited_def split: sum.splits if_splits)
qed

lemma denial_write: "access_write env pr db Other (audit_denial env pr a t i db)"
  by (rule Write_sessions) (simp_all add: audit_denial_def)

definition follows_write :: "access_env \<Rightarrow> session_principal \<Rightarrow> access_db \<Rightarrow> write_kind \<Rightarrow> access_db \<Rightarrow> bool" where
  "follows_write env pr db k db' \<longleftrightarrow> access_write env pr db k db' \<or> access_write env pr db Other db'"

lemma concluded_write:
  assumes "conclude env pr db st r = (a, st')" and "as_db st = d" and "\<And>db' x. r = Inr (db', x) \<Longrightarrow> access_write env pr db k db'"
  shows "as_db st' = d \<or> follows_write env pr db k (as_db st')"
  using assms by (auto simp: conclude_def denial_write follows_write_def split: sum.splits prod.splits access_error.splits)

definition written :: "access_env \<Rightarrow> access_request \<Rightarrow> write_kind \<Rightarrow> access_state \<Rightarrow> access_state \<Rightarrow> bool" where
  "written env rq k st st' \<longleftrightarrow> as_db st' = as_db st \<or>
     (\<exists>pr db. require_csrf env rq (as_db st) = Inr (pr, db) \<and> follows_write env pr db k (as_db st'))"

lemma written_signed_in:
  assumes "signed_in env rq st h = (a, st')"
    and "\<And>pr db. require_csrf env rq (as_db st) = Inr (pr, db) \<Longrightarrow> h pr db = (a, st') \<Longrightarrow>
      as_db st' = as_db st \<or> follows_write env pr db k (as_db st')"
  shows "written env rq k st st'"
  using assms(1) by (cases rule: signed_in_cases) (use assms(2) in \<open>auto simp: written_def\<close>)

lemma written_limited:
  assumes "signed_in env rq st (\<lambda>pr db. limited env pr needed action st (h pr db)) = (a, st')"
    and "\<And>pr db st1. as_db st1 = as_db st \<Longrightarrow> h pr db st1 = (a, st') \<Longrightarrow>
      as_db st' = as_db st \<or> follows_write env pr db k (as_db st')"
  shows "written env rq k st st'"
  by (rule written_signed_in[OF assms(1)]) (erule limited_cases, use assms(2) in auto)

lemma load_manageable_Inr:
  "load_manageable_user db pr i = Inr u \<Longrightarrow> u \<in> set (users db) \<and> us_id u = i \<and> target_scope_allowed db pr u"
  by (auto simp: load_manageable_user_def bindE_eq_Inr split: option.splits dest: find_user_Some)

lemma written_update_user_access: "update_user_access env rq i p st = (a, st') \<Longrightarrow> written env rq (By_access i) st st'"
  unfolding update_user_access_def
  by (erule written_limited, erule concluded_write, assumption)
    (auto simp: bindE_eq_Inr dest!: load_manageable_Inr,
     metis Write_access fst_conv)

lemma written_set_user_active: "set_user_active active env rq i p st = (a, st') \<Longrightarrow> written env rq Other st st'"
  unfolding set_user_active_def
  by (erule written_limited, erule concluded_write, assumption)
    (auto simp: bindE_eq_Inr dest!: load_manageable_Inr, metis Write_status fst_conv)

lemma written_remove_user: "remove_user env rq i p st = (a, st') \<Longrightarrow> written env rq Other st st'"
  unfolding remove_user_def
  by (erule written_limited, simp split: sum.splits if_splits, erule concluded_write, assumption)
    (auto simp: bindE_eq_Inr dest!: load_manageable_Inr, metis Write_removal fst_conv)

lemma written_restore_user: "restore_user env rq i p st = (a, st') \<Longrightarrow> written env rq Other st st'"
  unfolding restore_user_def
  by (erule written_limited, simp split: sum.splits if_splits, erule concluded_write, assumption)
    (auto simp: bindE_eq_Inr dest!: load_manageable_Inr intro: Write_restored)

lemma revoked_write:
  "access_write env pr db Other (user_event env pr a t k (fst (revoke_user_sessions now i x db)))"
  by (rule Write_sessions) (rule same_access_trans[OF same_access_simps(4) same_access_simps(2)], simp)

lemma written_revoke_sessions: "revoke_sessions env rq i st = (a, st') \<Longrightarrow> written env rq Other st st'"
  unfolding revoke_sessions_def
  by (erule written_signed_in, erule concluded_write, rule refl)
    (auto simp: bindE_eq_Inr split_beta Let_def intro: revoked_write)

lemma created_role_write:
  assumes "create_role_as env pr db h p st = (a, st')"
  shows "as_db st' = as_db st \<or> follows_write env pr db Other (as_db st')"
  using assms unfolding create_role_as_def
  by (rule limited_cases) (simp, erule concluded_write, auto intro: Write_new_role)

lemma written_create_role: "create_role env rq h p st = (a, st') \<Longrightarrow> written env rq Other st st'"
  unfolding create_role_def by (erule written_signed_in) (rule created_role_write)

lemma written_clone_role: "clone_role env rq h i p st = (a, st') \<Longrightarrow> written env rq Other st st'"
  unfolding clone_role_def
  by (erule written_signed_in) (auto split: option.splits dest: created_role_write)

lemma written_update_role: "update_role env rq i p st = (a, st') \<Longrightarrow> written env rq By_role st st'"
  unfolding update_role_def
  by (erule written_limited, erule concluded_write, assumption)
    (auto simp: bindE_eq_Inr split: option.splits dest!: find_role_Some, metis Write_role fst_conv)

lemma written_archive_role: "archive_role env rq i st = (a, st') \<Longrightarrow> written env rq Other st st'"
  unfolding archive_role_def
  by (erule written_signed_in, erule concluded_write, rule refl)
    (auto simp: bindE_eq_Inr Let_def split: option.splits dest!: find_role_Some intro: Write_archived)

lemma written_create_user: "create_user env rq i salt p st = (a, st') \<Longrightarrow> valid_user_create p \<Longrightarrow> i \<noteq> [] \<Longrightarrow> written env rq Other st st'"
  unfolding create_user_def
  by (erule written_signed_in, erule concluded_write, rule refl) (auto intro: Write_new_user)

lemma written_password_reset: "admin_password_reset env rq salt i w st = (a, st') \<Longrightarrow> written env rq Other st st'"
  unfolding admin_password_reset_def
  by (erule written_signed_in, erule concluded_write, rule refl)
    (auto simp: bindE_eq_Inr Let_def split_beta dest!: load_user_Inr intro: Write_password)

lemma written_deactivate_user: "deactivate_user env rq i st = (a, st') \<Longrightarrow> written env rq By_deactivation st st'"
  unfolding deactivate_user_def
  by (erule written_signed_in, simp split: sum.splits if_splits, erule concluded_write, rule refl)
    (auto simp: bindE_eq_Inr intro: Write_deactivated)

lemma session_write:
  assumes "\<And>s. session_follows s (f s)"
  shows "access_write env pr db Other (session_event env pr a (update_session k f db))"
proof (rule Write_sessions)
  show "same_access db (session_event env pr a (update_session k f db))"
    unfolding session_event_def by (rule same_access_trans[OF same_access_simps(3) same_access_simps(2)])
  show "sessions_follow (sessions db) (sessions (session_event env pr a (update_session k f db)))"
    using update_session_follows[of f db k] assms by (simp add: session_event_def)
qed

lemma written_logout: "logout env rq st = (a, st') \<Longrightarrow> written env rq Other st st'"
  unfolding logout_def
  by (erule written_signed_in, erule concluded_write, rule refl)
    (auto intro!: session_write simp: session_follows_def session_key_def)

lemma written_reauthenticate: "reauthenticate env rq w c st = (a, st') \<Longrightarrow> written env rq Other st st'"
  unfolding reauthenticate_def
proof (erule written_signed_in)
  let ?f = "\<lambda>s. s\<lparr>bs_reauthenticated_at := Some (Aware (en_now env))\<rparr>"
  fix pr db assume "(case reauthentication_accepted env pr w c db of
         Inl e \<Rightarrow> (Inl e, st)
       | Inr False \<Rightarrow> (Inl (Problem 401 ''reauthentication_failed''),
           st\<lparr>as_db := add_access_event (access_audit (en_now env) ''user'' (Some (us_id (sp_user pr)))
                ''auth.reauthentication_failed'' None None ''denied'') db\<rparr>)
       | Inr True \<Rightarrow> (Inr (), st\<lparr>as_db := session_event env pr ''auth.reauthenticated''
           (update_session (bs_id (sp_session pr)) ?f db)\<rparr>)) = (a, st')"
  moreover have "access_write env pr db Other (add_access_event e db)" for e by (rule Write_sessions) simp_all
  moreover have "access_write env pr db Other (session_event env pr ''auth.reauthenticated''
      (update_session (bs_id (sp_session pr)) ?f db))"
    by (rule session_write) (simp add: session_follows_def session_key_def)
  ultimately show "as_db st' = as_db st \<or> follows_write env pr db Other (as_db st')"
    by (auto simp: follows_write_def split: sum.splits bool.splits)
qed

lemma written_setup_totp: "setup_totp env rq x st = (a, st') \<Longrightarrow> written env rq Other st st'"
  unfolding setup_totp_def
  by (erule written_signed_in, erule concluded_write, rule refl)
    (auto simp: Let_def same_access_def add_access_event_def intro!: Write_sessions split: if_splits)

lemma written_verify_totp: "verify_totp_setup env rq c st = (a, st') \<Longrightarrow> written env rq Other st st'"
  unfolding verify_totp_setup_def
  by (erule written_signed_in, erule concluded_write, rule refl)
    (auto simp: Let_def bindE_eq_Inr same_access_def intro!: Write_sessions split: option.splits)

lemmas written_routes = written_update_user_access written_set_user_active written_remove_user written_restore_user
  written_revoke_sessions written_create_role written_clone_role written_update_role written_archive_role
  written_create_user written_password_reset written_deactivate_user written_logout written_reauthenticate
  written_setup_totp written_verify_totp

lemma map_prod_error: "map_prod error_of id x = (e, st) \<longleftrightarrow> (\<exists>a. x = (a, st) \<and> e = error_of a)"
  by (cases x) auto

fun call_kind :: "access_call \<Rightarrow> write_kind" where
  "call_kind (Update_user_access _ i _) = By_access i"
| "call_kind (Update_role _ _ _) = By_role"
| "call_kind (Deactivate_user _ _) = By_deactivation"
| "call_kind _ = Other"

lemma performed_write:
  assumes "perform env call st = (a, st')" "valid_call call" "call_request call = Some rq"
  shows "written env rq (call_kind call) st st'"
  using assms by (cases call) (auto simp: enable_user_def disable_user_def map_prod_error dest: written_routes)

section \<open>Bootstrap and sign-in\<close>

lemma bootstrap_in_Inr:
  assumes inv: "access_inv db" and empty: "users db = []" and id: "i \<noteq> []" and new: "bootstrap_in env fresh i salt p db = Inr db'"
  shows "access_inv db'" and "\<exists>s. sessions db' = sessions db @ [s] \<and> bs_token_hash s \<notin> bs_token_hash ` set (sessions db)"
proof -
  let ?c = "ensure_access_catalog db"
  let ?u = "new_user i (lower (bo_email p)) (bo_display_name p) (argon2_hash (en_crypto env) salt (bo_password p))
      (en_now env) True True"
  note c = inv_ensure_access_catalog[OF inv]
  from new obtain db1 s db2 where ins: "insert_user ?u ?c = Inr db1" and s: "bs_user_id s = i"
    and sess: "insert_session s (db1\<lparr>user_roles := user_roles db1 @ [(i, ''admin'')]\<rparr>) = Inr db2"
    and db': "db' = add_access_event (access_audit (en_now env) ''user'' (Some i) ''auth.bootstrap_completed'' (Some ''user'')
            (Some i) ''success'') db2"
    by (auto simp: bootstrap_in_def bindE_eq_Inr dest: create_session_Inr)
  let ?d = "db1\<lparr>user_roles := user_roles db1 @ [(i, ''admin'')]\<rparr>"
  have created: "user_created ?c ?u {''admin''} ?d"
    using ins empty c id by (auto simp: insert_user_def user_created_def new_user_def split: if_splits)
  have d: "access_inv ?d"
    by (rule inv_user_created[OF c(1) created _ c(6)])
      (simp add: BUILTIN_ROLE_NAMES_def BUILTIN_ROLE_PERMISSIONS_def)
  have "bs_user_id s \<in> us_id ` set (users ?d)" using created s by (simp add: user_created_def new_user_def)
  note f = inv_insert_session[OF d sess this]
  show "access_inv db'" using f(1) by (simp add: db')
  show "\<exists>s. sessions db' = sessions db @ [s] \<and> bs_token_hash s \<notin> bs_token_hash ` set (sessions db)"
    using f(3,4) created c(5) by (auto simp: db' user_created_def)
qed

lemma bootstrap_cases:
  assumes "bootstrap env fresh i salt p st = (a, st')"
  obtains (closed) "as_db st' = as_db st" | (denied) e where "as_db st' = add_access_event e (as_db st)"
  | (opened) "users (as_db st) = []" "bootstrap_in env fresh i salt p (as_db st) = Inr (as_db st')"
  using assms that by (auto simp: bootstrap_def anonymous_event_def split: if_splits sum.splits bool.splits)

lemma known_credentials_Some:
  "known_credentials env db e w = Some user \<Longrightarrow> user \<in> set (users db) \<and> us_is_active user"
  by (auto simp: known_credentials_def find_Some_iff split: option.splits if_splits)

lemma login_cases:
  assumes "login env fresh p st = (a, st')"
  obtains (refused) "as_db st' = as_db st" | (denied) e where "as_db st' = add_access_event e (as_db st)"
  | (opened) user where "user \<in> set (users (as_db st))" "us_is_active user" "open_session env fresh user (as_db st) = Inr (as_db st')"
  using assms that known_credentials_Some
  by (simp add: login_def Let_def anonymous_event_def split: if_splits option.splits sum.splits prod.splits)
    (auto, blast+)

section \<open>Steps and reachable states\<close>

inductive access_step :: "access_state \<Rightarrow> access_state \<Rightarrow> bool" where
  Call: "valid_call call \<Longrightarrow> perform env call st = (a, st') \<Longrightarrow> access_step st st'"
| Start_up: "access_step st \<lparr>as_db = ensure_access_catalog (as_db st), high_risk_attempts = [], login_attempts = []\<rparr>"
| New_site: "assign_initial_users site chosen (as_db st) = Inr db \<Longrightarrow> access_step st (st\<lparr>as_db := db\<rparr>)"

definition empty_access_db :: access_db where
  "empty_access_db = \<lparr>users = [], roles = [], permission_rows = [], role_permissions = [], user_roles = [],
     user_sites = [], site_ids = [], role_revisions = [], sessions = [], totp_credentials = [], access_events = []\<rparr>"

definition fresh_state :: access_state where
  "fresh_state = \<lparr>as_db = empty_access_db, high_risk_attempts = [], login_attempts = []\<rparr>"

definition access_reachable :: "access_state \<Rightarrow> bool" where
  "access_reachable st \<longleftrightarrow> access_step\<^sup>*\<^sup>* fresh_state st"

lemma written_inv:
  assumes "written env rq k st st'" "access_inv (as_db st)"
  shows "access_inv (as_db st')"
proof -
  {
    fix pr db k assume *: "require_csrf env rq (as_db st) = Inr (pr, db)" "access_write env pr db k (as_db st')"
    note r = require_csrf_Inr[OF *(1)]
    have "access_inv db" using access_inv_quiet[OF assms(2) r(1)] sessions_follow_keys[OF r(2)] by simp
    moreover have "users db \<noteq> []" using r(1,3) by (auto simp: same_access_def)
    ultimately have ?thesis using access_write_inv[OF *(2)] by simp
  }
  then show ?thesis using assms by (auto simp: written_def follows_write_def)
qed

lemma call_inv:
  assumes "perform env call st = (a, st')" "valid_call call" "access_inv (as_db st)"
  shows "access_inv (as_db st')"
proof (cases "call_request call")
  case (Some rq)
  then show ?thesis using performed_write[OF assms(1,2)] written_inv assms(3) by blast
next
  case None
  then consider f i s p where "call = Bootstrap f i s p" | f p where "call = Login f p" by (cases call) auto
  then show ?thesis
  proof cases
    case 1
    then obtain b where "bootstrap env f i s p st = (b, st')" using assms(1) by (auto simp: map_prod_error)
    then show ?thesis by (cases rule: bootstrap_cases) (use assms(2,3) 1 bootstrap_in_Inr(1) in auto)
  next
    case 2
    then obtain b where "login env f p st = (b, st')" using assms(1) by (auto simp: map_prod_error)
    then show ?thesis by (cases rule: login_cases) (use assms(3) open_session_Inr(1) in auto)
  qed
qed

lemma empty_inv: "access_inv empty_access_db"
  by (simp add: empty_access_db_def access_inv_def roles_ok_def grants_ok_def users_ok_def sessions_ok_def)

interpretation access: invariant_system "\<lambda>st. st = fresh_state" access_step "\<lambda>st. access_inv (as_db st)"
proof unfold_locales
  show "access_inv (as_db st)" if "st = fresh_state" for st using that empty_inv by (simp add: fresh_state_def)
  show "access_inv (as_db t)" if "access_inv (as_db s)" "access_step s t" for s t
    using that(2,1)
  proof (cases rule: access_step.cases)
    case (Call call env a)
    then show ?thesis using call_inv that(1) by blast
  next
    case Start_up
    then show ?thesis using inv_ensure_access_catalog(1) that(1) by simp
  next
    case (New_site site chosen db)
    then show ?thesis using inv_initial_users that(1) by simp
  qed
qed

lemma access_reachable_inv: "access_reachable st \<Longrightarrow> access_inv (as_db st)"
  using access.inv_steps empty_inv by (auto simp: access_reachable_def fresh_state_def)

lemma reachable_step: "access_reachable st \<Longrightarrow> access_step st st' \<Longrightarrow> access_reachable st'"
  by (simp add: access_reachable_def)

end
