(* ===== verification/Access_Effects.thy ===== *)
theory Access_Effects
  imports Access_System
begin

text \<open>
  The effect of every write on what users may do: the permissions that follow from the roles a
  user holds, who can gain a permission or a site by a call, and which calls keep an administrator who
  can recover the system.
\<close>

section \<open>Effective permissions from the held roles\<close>

definition held_roles :: "access_db \<Rightarrow> string \<Rightarrow> string set" where
  "held_roles db u = {r. (u, r) \<in> set (user_roles db)}"

definition granted :: "string set \<Rightarrow> (string \<Rightarrow> string set) \<Rightarrow> string set" where
  "granted H codes =
     (if ''admin'' \<in> H then ALL_PERMISSIONS
      else (\<Union>r\<in>H. codes r \<union> set (dict_get BUILTIN_ROLE_PERMISSIONS r [])) - ADMIN_ONLY_PERMISSIONS)"

lemma user_role_names_held:
  assumes "grants_ok db"
  shows "user_role_names db u = held_roles db u"
proof -
  have "(u, r) \<in> set (user_roles db) \<and> live_role db r \<longleftrightarrow> (u, r) \<in> set (user_roles db)" for r
    using grants_okD(2)[OF assms] by blast
  then show ?thesis by (force simp: user_role_names_def held_roles_def)
qed

lemma permissions_granted:
  assumes "\<And>r. r \<in> H \<Longrightarrow> live_role db r"
  shows "permissions_for_roles db H = granted H (role_codes db)"
proof -
  have "snd ` set (filter (\<lambda>(r, _). r \<in> H \<and> live_role db r) (role_permissions db)) = (\<Union>r\<in>H. role_codes db r)"
    using assms by (force simp: role_codes_def)
  then show ?thesis by (simp add: permissions_for_roles_def granted_def Let_def UN_Un_distrib)
qed

lemma effective_granted:
  assumes "access_inv db"
  shows "effective_permissions db u = granted (held_roles db u) (role_codes db)"
proof -
  have "grants_ok db" using assms by (simp add: access_inv_def)
  then have "live_role db r" if "r \<in> held_roles db u" for r using that grants_okD(2) by (auto simp: held_roles_def)
  with \<open>grants_ok db\<close> show ?thesis
    by (simp add: effective_permissions_def user_role_names_held permissions_granted)
qed

lemma held_codes:
  assumes inv: "access_inv db" and r: "r \<in> held_roles db u" "r \<noteq> ''admin''"
  shows "role_codes db r \<union> set (dict_get BUILTIN_ROLE_PERMISSIONS r []) \<subseteq> ALL_PERMISSIONS \<and>
    dependencies_met (role_codes db r \<union> set (dict_get BUILTIN_ROLE_PERMISSIONS r []))"
proof -
  have "live_role db r" using inv r(1) by (auto simp: access_inv_def held_roles_def dest: grants_okD(2))
  then obtain q where q: "q \<in> set (roles db)" "ro_name q = r" by (auto simp: live_role_def)
  have ok: "role_ok db q" using inv q(1) by (auto simp: access_inv_def dest: roles_okD(2))
  show ?thesis
  proof (cases "ro_is_builtin q")
    case True
    then show ?thesis using ok q(2) builtin_entry[of r] builtin_role_closed[of r] by (auto simp: role_ok_def)
  next
    case False
    then have "r \<notin> BUILTIN_ROLE_NAMES" using ok q(2) by (simp add: role_ok_def)
    then have "dict_get BUILTIN_ROLE_PERMISSIONS r [] = []"
      by (force simp: BUILTIN_ROLE_NAMES_def dict_get_def split: option.splits dest: map_of_SomeD)
    then show ?thesis using ok q(2) False by (simp add: role_ok_def custom_codes_ok_def)
  qed
qed

lemma granted_consistent:
  assumes "access_inv db"
  shows "granted (held_roles db u) (role_codes db) \<subseteq> ALL_PERMISSIONS"
    and "dependencies_met (granted (held_roles db u) (role_codes db))"
    and "''system.data_reset'' \<in> granted (held_roles db u) (role_codes db) \<longleftrightarrow> ''admin'' \<in> held_roles db u"
proof -
  let ?F = "\<lambda>r. role_codes db r \<union> set (dict_get BUILTIN_ROLE_PERMISSIONS r [])"
  note c = held_codes[OF assms, of _ u]
  show "granted (held_roles db u) (role_codes db) \<subseteq> ALL_PERMISSIONS"
  proof (cases "''admin'' \<in> held_roles db u")
    case False
    then have "?F r \<subseteq> ALL_PERMISSIONS" if "r \<in> held_roles db u" for r using that c by blast
    with False show ?thesis unfolding granted_def by auto
  qed (simp add: granted_def)
  show "''system.data_reset'' \<in> granted (held_roles db u) (role_codes db) \<longleftrightarrow> ''admin'' \<in> held_roles db u"
    by (simp add: granted_def ADMIN_ONLY_PERMISSIONS_def data_reset_registered)
  have "dependencies_met ((\<Union>r\<in>held_roles db u. ?F r) - ADMIN_ONLY_PERMISSIONS)" if "''admin'' \<notin> held_roles db u"
    using that c by (intro dependencies_met_ordinary dependencies_met_UN) metis
  then show "dependencies_met (granted (held_roles db u) (role_codes db))"
    by (simp add: granted_def all_permissions_closed)
qed

section \<open>Who gains what\<close>

lemma granted_mono:
  assumes "H' \<subseteq> H" "\<And>r. r \<in> H' \<Longrightarrow> C' r \<subseteq> C r \<union> P" "granted H' C' \<subseteq> ALL_PERMISSIONS"
  shows "granted H' C' \<subseteq> granted H C \<union> P"
proof (cases "''admin'' \<in> H")
  case True
  then have "granted H C = ALL_PERMISSIONS" by (simp add: granted_def)
  then show ?thesis using assms(3) by blast
next
  case False
  then have "''admin'' \<notin> H'" using assms(1) by blast
  with False show ?thesis using assms(1,2) by (fastforce simp: granted_def)
qed

lemma same_access_fields:
  assumes "same_access db db'"
  shows "users db' = users db" "roles db' = roles db" "role_permissions db' = role_permissions db"
    "user_roles db' = user_roles db" "user_sites db' = user_sites db"
    "held_roles db' = held_roles db" "role_codes db' = role_codes db" "explicit_site_ids db' = explicit_site_ids db"
  using assms by (auto simp: same_access_def held_roles_def role_codes_def explicit_site_ids_def fun_eq_iff)

lemmas quiet_fields [simp] =
  same_access_fields[OF same_access_simps(1)] same_access_fields[OF same_access_simps(2)]
  same_access_fields[OF same_access_simps(4)] same_access_fields[OF add_revision_same(1)]

lemma held_simps [simp]:
  "held_roles (update_user i f db) = held_roles db" "held_roles (replace_user_sites i S db) = held_roles db"
  "finite N \<Longrightarrow> held_roles (replace_user_roles i N db) u = (if u = i then N else held_roles db u)"
  "held_roles (update_role_row n g db) = held_roles db" "held_roles (replace_role_permissions n C db) = held_roles db"
  by (auto simp: held_roles_def fun_eq_iff replaced_roles)

lemma role_codes_simps [simp]:
  "role_codes (update_user i f db) = role_codes db" "role_codes (replace_user_sites i S db) = role_codes db"
  "role_codes (replace_user_roles i N db) = role_codes db" "role_codes (update_role_row n g db) = role_codes db"
  by (auto simp: role_codes_def fun_eq_iff)

lemma touched_fields [simp]:
  "held_roles (fst (touch_affected env ids db)) = held_roles db" "role_codes (fst (touch_affected env ids db)) = role_codes db"
  "user_sites (fst (touch_affected env ids db)) = user_sites db"
  "explicit_site_ids (fst (touch_affected env ids db)) = explicit_site_ids db"
  by (auto simp: held_roles_def role_codes_def explicit_site_ids_def fun_eq_iff touch_affected_same)

lemma write_status_fields:
  "user_roles (fst (write_status env pr active user db)) = user_roles db"
  "role_codes (fst (write_status env pr active user db)) = role_codes db"
  "user_sites (fst (write_status env pr active user db)) = user_sites db"
  "users (fst (write_status env pr active user db)) =
     users (update_user (us_id user) (status_row active
       (us_is_active user \<noteq> active \<or> us_lifecycle_state user \<noteq> status_name active)) db)"
  by (auto simp: write_status_db Let_def)

lemma access_change_facts:
  assumes "access_change_allowed env pr db user p = Inr u"
  shows "permissions_for_roles db (set (au_role_ids p)) \<subseteq> sp_permissions pr"
    and "requested_sites_allowed db pr p = Inr ()"
    and "''admin'' \<in> user_role_names db (us_id user) \<Longrightarrow> ''admin'' \<notin> set (au_role_ids p) \<Longrightarrow>
      active_recovery_administrator_count db (Some (us_id user)) \<noteq> 0"
    and "self_restriction pr user (permissions_for_roles db (set (au_role_ids p))) p \<Longrightarrow>
      active_recovery_administrator_count db (Some (us_id user)) \<noteq> 0"
  using assms by (auto simp: access_change_allowed_def Let_def bindE_eq_Inr)

theorem write_permissions:
  assumes wr: "access_write env pr db k db'" and inv: "access_inv db" and some: "users db \<noteq> []"
  shows "effective_permissions db' u \<subseteq> effective_permissions db u \<union> sp_permissions pr"
proof -
  have inv': "access_inv db'" using access_write_inv[OF wr inv some] .
  have all: "granted (held_roles db' u) (role_codes db') \<subseteq> ALL_PERMISSIONS" using granted_consistent(1)[OF inv'] .
  note eff = effective_granted[OF inv] effective_granted[OF inv']
  have mono: ?thesis if "held_roles db' u \<subseteq> held_roles db u" "\<And>r. r \<in> held_roles db' u \<Longrightarrow> role_codes db' r \<subseteq> role_codes db r \<union> sp_permissions pr"
    using granted_mono[OF that all] by (simp add: eff)
  show ?thesis using wr
  proof (cases rule: access_write.cases)
    case (Write_access user p)
    have H: "held_roles db' u = (if u = us_id user then set (au_role_ids p) else held_roles db u)" and C: "role_codes db' = role_codes db"
      by (simp_all add: Write_access(2) write_access_db)
    show ?thesis
    proof (cases "u = us_id user")
      case True
      have "live_role db r" if "r \<in> set (au_role_ids p)" for r
        using requested_roles_live[OF _ Write_access(5) that] inv by (simp add: access_inv_def)
      moreover have "held_roles db' u = set (au_role_ids p)" using H True by simp
      ultimately have "granted (held_roles db' u) (role_codes db') \<subseteq> sp_permissions pr"
        using access_change_facts(1)[OF Write_access(5)] by (simp add: C permissions_granted)
      then show ?thesis by (auto simp: eff)
    qed (use mono H C in auto)
  next
    case (Write_status user active p)
    then show ?thesis by (intro mono) (simp_all add: held_roles_def write_status_fields)
  next
    case (Write_removal user p)
    then show ?thesis by (intro mono) (simp_all add: write_removal_db)
  next
    case (Write_restored user)
    then show ?thesis by (intro mono) simp_all
  next
    case (Write_new_role h p n)
    then obtain role where r: "role_created db role (set (rw_permissions p)) db'" using create_role_in_Inr by blast
    have "r \<in> ro_name ` set (roles db)" if "r \<in> held_roles db u" for r
      using that inv by (auto simp: held_roles_def access_inv_def live_role_def dest!: grants_okD(2))
    then show ?thesis
      using r by (intro mono) (auto simp: role_created_def held_roles_def role_codes_iff)
  next
    case (Write_role role p name)
    then show ?thesis
      using role_edit_facts(4)[OF Write_role(4)]
      by (intro mono) (auto simp: write_role_db replaced_codes)
  next
    case (Write_archived role d)
    then show ?thesis by (intro mono) auto
  next
    case (Write_new_user p i salt k)
    then obtain v where v: "user_created db v (effective_roles (uc_roles p)) db'" "us_id v = i"
      "permissions_for_roles db' (effective_roles (uc_roles p)) \<subseteq> sp_permissions pr"
      using create_user_in_Inr by blast
    have C: "role_codes db' = role_codes db" using v(1) by (auto simp: user_created_def role_codes_def fun_eq_iff)
    have "(i, r) \<notin> set (user_roles db)" for r
      using inv v(1,2) by (auto simp: access_inv_def user_created_def dest: grants_okD(1))
    then have H: "held_roles db' u = (if u = i then effective_roles (uc_roles p) else held_roles db u)"
      using v(1,2) by (auto simp: user_created_def held_roles_def)
    have "live_role db' r" if "r \<in> held_roles db' u" for r
      using that inv' by (auto simp: held_roles_def access_inv_def dest: grants_okD(2))
    then show ?thesis
      using v(3) H C mono permissions_granted[of "held_roles db' u" db'] by (cases "u = i") (auto simp: eff)
  next
    case (Write_password user h)
    then show ?thesis by (intro mono) simp_all
  next
    case (Write_deactivated i user)
    then show ?thesis by (intro mono) (simp_all add: write_deactivation_def)
  next
    case Write_sessions
    then show ?thesis using same_access_permissions(1) by simp
  qed
qed

definition reaches :: "access_db \<Rightarrow> string \<Rightarrow> string \<Rightarrow> bool" where
  "reaches db u site \<longleftrightarrow>
     (\<exists>v\<in>set (users db). us_id v = u \<and> site_in_scope (us_all_sites v) (explicit_site_ids db u) site)"

lemma explicit_site_ids_iff: "s \<in> explicit_site_ids db u \<longleftrightarrow> (u, s) \<in> set (user_sites db)"
  by (force simp: explicit_site_ids_def)

lemma reaches_mono:
  assumes "reaches db' u site" and "\<And>s. (u, s) \<in> set (user_sites db') \<Longrightarrow> (u, s) \<in> set (user_sites db)"
    and "\<And>v. v \<in> set (users db') \<Longrightarrow> us_id v = u \<Longrightarrow>
      \<exists>w\<in>set (users db). us_id w = u \<and> (us_all_sites v \<longrightarrow> us_all_sites w)"
  shows "reaches db u site"
  using assms unfolding reaches_def site_in_scope_def explicit_site_ids_iff by blast

lemma update_user_rows:
  assumes "v \<in> set (users (update_user i f db))"
  obtains w where "w \<in> set (users db)" "v = (if us_id w = i then f w else w)"
  using assms unfolding update_user_def by auto

lemma touched_rows:
  assumes "v \<in> set (users (fst (touch_affected env ids db)))"
  shows "\<exists>w k. w \<in> set (users db) \<and> v = w\<lparr>us_access_revision := k\<rparr>"
proof -
  have "\<exists>w k. w \<in> set (users (fst x)) \<and> v = w\<lparr>us_access_revision := k\<rparr>"
    if "v \<in> set (users (fst (fold (touch_one env) ids x)))" for x
    using that
  proof (induction ids arbitrary: x)
    case Nil
    then show ?case by (intro exI[of _ v] exI[of _ "us_access_revision v"]) simp
  next
    case (Cons i ids)
    obtain w k where w: "w \<in> set (users (fst (touch_one env i x)))" "v = w\<lparr>us_access_revision := k\<rparr>"
      using Cons.IH[of "touch_one env i x"] Cons.prems by auto
    then obtain w' where "w' \<in> set (users (fst x))" "w = (if us_id w' = i then revision_row w' else w')"
      unfolding touch_one_db by (auto elim!: update_user_rows)
    then show ?case using w(2) by (auto simp: revision_row_def split: if_splits)
  qed
  from this[of "(db, 0)"] assms show ?thesis by (simp add: touch_affected_def)
qed

theorem write_sites:
  assumes wr: "access_write env pr db k db'" and inv: "access_inv db" and reach: "reaches db' u site"
  shows "reaches db u site \<or> site_in_scope (sp_all_sites pr) (sp_site_ids pr) site"
  using wr
proof (cases rule: access_write.cases)
  case (Write_access user p)
  have sites: "(v, s) \<in> set (user_sites db') \<longleftrightarrow>
      (if v = us_id user then s \<in> (if au_all_sites p then {} else set (au_site_ids p)) else (v, s) \<in> set (user_sites db))" for v s
    by (simp add: Write_access(2) write_access_db replaced_sites)
  have users: "users db' = users (update_user (us_id user) (access_row p) db)"
    by (simp add: Write_access(2) write_access_db update_user_def)
  show ?thesis
  proof (cases "u = us_id user")
    case True
    have "au_all_sites p \<or> site \<in> set (au_site_ids p)"
      using reach True by (auto simp: reaches_def site_in_scope_def explicit_site_ids_iff sites users access_row_def
          elim!: update_user_rows split: if_splits)
    then show ?thesis
      using access_change_facts(2)[OF Write_access(5)]
      by (auto simp: requested_sites_allowed_def Let_def bindE_eq_Inr site_in_scope_def split: if_splits)
  next
    case False
    have "v \<in> set (users db)" if "v \<in> set (users db')" "us_id v = u" for v
      using that False by (auto simp: users access_row_def elim!: update_user_rows split: if_splits)
    with False show ?thesis using reach by (intro disjI1, elim reaches_mono) (auto simp: sites)
  qed
next
  case (Write_status user active p)
  show ?thesis using reach unfolding Write_status(2)
    by (intro disjI1, elim reaches_mono) (auto simp: write_status_fields status_row_def elim!: update_user_rows split: if_splits)
next
  case (Write_removal user p)
  show ?thesis using reach unfolding Write_removal(2)
    by (intro disjI1, elim reaches_mono)
      (auto simp: write_removal_db removed_row_def replaced_sites elim!: update_user_rows split: if_splits)
next
  case (Write_restored user)
  show ?thesis using reach unfolding Write_restored(2)
    by (intro disjI1, elim reaches_mono) (auto simp: restored_row_def elim!: update_user_rows split: if_splits)
next
  case (Write_new_role h p n)
  then obtain role where "role_created db role (set (rw_permissions p)) db'" using create_role_in_Inr by blast
  then show ?thesis using reach by (intro disjI1, elim reaches_mono) (auto simp: role_created_def)
next
  case (Write_role role p name)
  show ?thesis using reach unfolding Write_role(2)
    by (intro disjI1, elim reaches_mono) (auto simp: write_role_db dest!: touched_rows)
next
  case (Write_archived role d)
  then show ?thesis using reach by (intro disjI1, elim reaches_mono) auto
next
  case (Write_new_user p i salt k)
  then obtain v where v: "user_created db v (effective_roles (uc_roles p)) db'" "us_all_sites v = sp_all_sites pr"
    using create_user_in_Inr by blast
  have fresh: "(us_id v, s) \<notin> set (user_sites db)" for s
    using inv v(1) by (auto simp: access_inv_def user_created_def dest: grants_okD(3))
  show ?thesis
    using reach v fresh
    by (auto simp: user_created_def reaches_def site_in_scope_def explicit_site_ids_iff)
next
  case (Write_password user h)
  show ?thesis using reach unfolding Write_password(2)
    by (intro disjI1, elim reaches_mono) (auto simp: password_row_def elim!: update_user_rows split: if_splits)
next
  case (Write_deactivated i user)
  show ?thesis using reach unfolding Write_deactivated(2)
    by (intro disjI1, elim reaches_mono)
      (auto simp: write_deactivation_def status_row_def elim!: update_user_rows split: if_splits)
next
  case Write_sessions
  then show ?thesis using reach same_access_fields by (intro disjI1, elim reaches_mono) auto
qed

section \<open>Administrators who can recover the system\<close>

definition recoverable :: "access_db \<Rightarrow> bool" where
  "recoverable db \<longleftrightarrow> (\<exists>u\<in>set (users db). recovery_administrator db u)"

lemma other_recovery_administrator:
  "i \<noteq> [] \<Longrightarrow> active_recovery_administrator_count db (Some i) \<noteq> 0 \<longleftrightarrow>
     (\<exists>u\<in>set (users db). us_id u \<noteq> i \<and> recovery_administrator db u)"
  by (auto simp: active_recovery_administrator_count_def excluded_def filter_empty_conv)

lemma recovery_kept:
  assumes "w \<in> set (users db')" "recovery_administrator db w" "effective_permissions db' (us_id w) = effective_permissions db (us_id w)"
  shows "recoverable db'"
  using assms by (auto simp: recoverable_def recovery_administrator_def)

text \<open>Where neither the roles of a user nor the codes of these roles change, the permissions stay.\<close>

lemma effective_same:
  assumes "access_inv db" "access_inv db'" "held_roles db' u = held_roles db u" "\<And>r. r \<in> held_roles db u \<Longrightarrow> role_codes db' r = role_codes db r"
  shows "effective_permissions db' u = effective_permissions db u"
  using assms by (auto simp: effective_granted granted_def)

lemma update_user_other: "w \<in> set (users db) \<Longrightarrow> us_id w \<noteq> i \<Longrightarrow> w \<in> set (users (update_user i f db))"
  by (force simp: update_user_def)

lemma update_user_self: "w \<in> set (users db) \<Longrightarrow> f w \<in> set (users (update_user (us_id w) f db))"
  by (force simp: update_user_def)

text \<open>The target of a status change or removal is spared when nobody else could recover the system.\<close>

lemma spared_or_other:
  assumes inv: "access_inv db" and user: "user \<in> set (users db)" and rec: "recoverable db"
    and spared: "us_is_active user \<and> us_all_sites user \<and> recovery_permissions \<subseteq> effective_permissions db (us_id user) \<Longrightarrow>
      active_recovery_administrator_count db (Some (us_id user)) \<noteq> 0"
  shows "\<exists>w\<in>set (users db). us_id w \<noteq> us_id user \<and> recovery_administrator db w"
proof -
  have users: "users_ok db" and id: "us_id user \<noteq> []" using inv user by (auto simp: access_inv_def users_ok_def user_ok_def)
  obtain w where w: "w \<in> set (users db)" "recovery_administrator db w" using rec by (auto simp: recoverable_def)
  show ?thesis
  proof (cases "us_id w = us_id user")
    case True
    then have "w = user" using user_by_id[OF users w(1) user] by simp
    then have "active_recovery_administrator_count db (Some (us_id user)) \<noteq> 0"
      using w(2) spared by (simp add: recovery_administrator_def)
    then show ?thesis using other_recovery_administrator[OF id] by blast
  qed (use w in blast)
qed

definition may_lose_recovery :: "access_db \<Rightarrow> access_call \<Rightarrow> bool" where
  "may_lose_recovery db call =
     (case call of
        Update_user_access _ i _ \<Rightarrow> ''admin'' \<notin> user_role_names db i
      | Update_role _ _ _ \<Rightarrow> True
      | Deactivate_user _ _ \<Rightarrow> True
      | _ \<Rightarrow> False)"

text \<open>The writes apart from the three that do not look at who else could recover the system.\<close>

lemma write_recoverable:
  assumes wr: "access_write env pr db k db'" and inv: "access_inv db" and some: "users db \<noteq> []" and rec: "recoverable db"
    and caller: "sp_user pr \<in> set (users db)" "us_is_active (sp_user pr)"
      "sp_permissions pr = effective_permissions db (us_id (sp_user pr))" "sp_all_sites pr = us_all_sites (sp_user pr)"
    and kind: "k \<noteq> By_role" "k \<noteq> By_deactivation" "\<And>i. k = By_access i \<Longrightarrow> ''admin'' \<in> user_role_names db i"
  shows "recoverable db'"
proof -
  have inv': "access_inv db'" using access_write_inv[OF wr inv some] .
  have users: "users_ok db" using inv by (simp add: access_inv_def)
  note same = effective_same[OF inv inv']
  have keep: "recoverable db'" if "\<exists>w\<in>set (users db). P w \<and> recovery_administrator db w"
    "\<And>w. w \<in> set (users db) \<Longrightarrow> P w \<Longrightarrow> w \<in> set (users db')"
    "\<And>w. w \<in> set (users db) \<Longrightarrow> P w \<Longrightarrow> held_roles db' (us_id w) = held_roles db (us_id w)" "role_codes db' = role_codes db" for P
    using that same recovery_kept by (metis (full_types))
  show ?thesis using wr
  proof (cases rule: access_write.cases)
    case (Write_access user p)
    let ?i = "us_id user"
    have fields: "users db' = users (update_user ?i (access_row p) db)" "role_codes db' = role_codes db"
      "held_roles db' v = (if v = ?i then set (au_role_ids p) else held_roles db v)" for v
      by (simp add: Write_access(2) write_access_db update_user_def, simp_all add: Write_access(2) write_access_db)
    have id: "?i \<noteq> []" and state: "us_is_active user \<longleftrightarrow> us_lifecycle_state user = ''active''"
      using users Write_access(3) by (auto simp: users_ok_def user_ok_def)
    have other: ?thesis if "\<exists>w\<in>set (users db). us_id w \<noteq> ?i \<and> recovery_administrator db w"
      by (rule keep[OF that]) (auto simp: fields update_user_other)
    note facts = access_change_facts[OF Write_access(5)]
    have admin: "''admin'' \<in> user_role_names db ?i" using kind(3) Write_access by blast
    show ?thesis
    proof -
      obtain w where w: "w \<in> set (users db)" "recovery_administrator db w" using rec by (auto simp: recoverable_def)
      show ?thesis
      proof (cases "us_id w \<noteq> ?i \<or> ''admin'' \<notin> set (au_role_ids p) \<or>
          self_restriction pr user (permissions_for_roles db (set (au_role_ids p))) p")
        case True
        then have "\<exists>w\<in>set (users db). us_id w \<noteq> ?i \<and> recovery_administrator db w"
          using w facts(3)[OF admin] facts(4) other_recovery_administrator[OF id, of db] by blast
        then show ?thesis by (rule other)
      next
        case False
        then have "w = user" using user_by_id[OF users w(1) Write_access(3)] by simp
        then have user: "us_is_active user" "us_all_sites user" using w(2) by (auto simp: recovery_administrator_def)
        have all: "sp_permissions pr \<supseteq> ALL_PERMISSIONS"
          using False facts(1) by (simp add: permissions_for_roles_def)
        have everywhere: "us_all_sites (sp_user pr)"
          using Write_access(4) user caller(4) False Write_access(5) state
          by (auto simp: target_scope_allowed_def Let_def split: if_splits)
        have req: "recovery_permissions \<subseteq> ALL_PERMISSIONS" by (rule recovery_registered)
        have c: "us_lifecycle_state (sp_user pr) = ''active''"
          using users caller(1,2) by (auto simp: users_ok_def user_ok_def)
        show ?thesis
        proof (cases "us_id (sp_user pr) = ?i")
          case True
          then have "au_all_sites p" using False caller(4) everywhere by (auto simp: self_restriction_def)
          moreover have "effective_permissions db' ?i = ALL_PERMISSIONS"
            using False effective_granted[OF inv'] by (simp add: fields granted_def)
          moreover have "access_row p user \<in> set (users db')"
            unfolding fields by (rule update_user_self[OF Write_access(3)])
          ultimately show ?thesis
            unfolding recoverable_def recovery_administrator_def using user state req
            by (intro bexI[of _ "access_row p user"]) (simp_all add: access_row_def)
        next
          case False
          have "recovery_administrator db (sp_user pr)"
            using caller everywhere all req c by (auto simp: recovery_administrator_def)
          with False caller(1) have "\<exists>w\<in>set (users db). us_id w \<noteq> ?i \<and> recovery_administrator db w" by blast
          then show ?thesis by (rule other)
        qed
      qed
    qed
  next
    case (Write_role role p name)
    then show ?thesis using kind by blast
  next
    case (Write_deactivated i user)
    then show ?thesis using kind by blast
  next
    case (Write_status user active p)
    have fields: "held_roles db' = held_roles db" "role_codes db' = role_codes db"
      by (auto simp: Write_status(2) write_status_fields held_roles_def fun_eq_iff)
    obtain w where w: "w \<in> set (users db)" "recovery_administrator db w" using rec by (auto simp: recoverable_def)
    show ?thesis
    proof (cases active)
      case True
      show ?thesis
      proof (cases "us_id w = us_id user")
        case True
        let ?c = "us_is_active user \<noteq> active \<or> us_lifecycle_state user \<noteq> status_name active"
        have "w = user" using user_by_id[OF users w(1) Write_status(3) True] .
        moreover have "status_row active ?c user \<in> set (users db')"
          unfolding Write_status(2) write_status_fields by (rule update_user_self[OF Write_status(3)])
        ultimately show ?thesis
          unfolding recoverable_def recovery_administrator_def
          using w(2) \<open>active\<close> same[of "us_id user"] fields
          by (intro bexI[of _ "status_row active ?c user"])
            (auto simp: status_row_def status_name_def recovery_administrator_def)
      next
        case False
        then have "w \<in> set (users db')" unfolding Write_status(2) write_status_fields using w(1) update_user_other by blast
        then show ?thesis using recovery_kept w(2) same[of "us_id w"] fields by simp
      qed
    next
      case False
      have "\<exists>w\<in>set (users db). us_id w \<noteq> us_id user \<and> recovery_administrator db w"
        using Write_status(4) False
        by (intro spared_or_other[OF inv Write_status(3) rec]) (auto simp: status_change_allowed_def Let_def bindE_eq_Inr)
      then show ?thesis
        by (rule keep) (simp add: Write_status(2) write_status_fields update_user_other, simp_all add: fields)
    qed
  next
    case (Write_removal user p)
    have "\<exists>w\<in>set (users db). us_id w \<noteq> us_id user \<and> recovery_administrator db w"
      using Write_removal(4)
      by (intro spared_or_other[OF inv Write_removal(3) rec]) (auto simp: removal_allowed_def Let_def bindE_eq_Inr)
    then show ?thesis
      by (rule keep) (auto simp: Write_removal(2) write_removal_db intro!: update_user_other)
  next
    case (Write_restored user)
    have "\<exists>w\<in>set (users db). us_id w \<noteq> us_id user \<and> recovery_administrator db w"
      using Write_restored(4) users Write_restored(3)
      by (intro spared_or_other[OF inv Write_restored(3) rec]) (auto simp: users_ok_def user_ok_def)
    then show ?thesis by (rule keep) (simp_all add: Write_restored(2) update_user_other)
  next
    case (Write_new_role h p n)
    then obtain new where new: "role_created db new (set (rw_permissions p)) db'" using create_role_in_Inr by blast
    obtain w where w: "w \<in> set (users db)" "recovery_administrator db w" using rec by (auto simp: recoverable_def)
    have "r \<in> ro_name ` set (roles db)" if "r \<in> held_roles db (us_id w)" for r
      using that inv by (auto simp: held_roles_def access_inv_def live_role_def dest!: grants_okD(2))
    then have "effective_permissions db' (us_id w) = effective_permissions db (us_id w)"
      using new by (intro same) (auto simp: role_created_def held_roles_def role_codes_iff set_eq_iff)
    moreover have "w \<in> set (users db')" using new w(1) by (simp add: role_created_def)
    ultimately show ?thesis using recovery_kept w(2) by blast
  next
    case (Write_archived r d)
    then show ?thesis using rec by (intro keep[of "\<lambda>_. True"]) (auto simp: recoverable_def)
  next
    case (Write_new_user p i salt k)
    then obtain v where v: "user_created db v (effective_roles (uc_roles p)) db'" using create_user_in_Inr by blast
    have "us_id w \<noteq> us_id v" if "w \<in> set (users db)" for w using that v unfolding user_created_def by (metis image_eqI)
    then show ?thesis
      using rec v by (intro keep[of "\<lambda>_. True"]) (auto simp: recoverable_def user_created_def held_roles_def role_codes_def fun_eq_iff)
  next
    case (Write_password user h)
    obtain w where w: "w \<in> set (users db)" "recovery_administrator db w" using rec by (auto simp: recoverable_def)
    let ?w = "if us_id w = us_id user then password_row env h w else w"
    have "?w \<in> set (users db')" using w(1) by (simp add: Write_password(2) update_user_def)
    moreover have "effective_permissions db' (us_id w) = effective_permissions db (us_id w)"
      by (rule same) (simp_all add: Write_password(2))
    ultimately show ?thesis
      using w(2) unfolding recoverable_def recovery_administrator_def
      by (intro bexI[of _ ?w]) (auto simp: password_row_def)
  next
    case Write_sessions
    then show ?thesis
      using rec same_access_fields(1) same_access_permissions(1) by (auto simp: recoverable_def recovery_administrator_def)
  qed
qed

section \<open>The calls\<close>

definition caller :: "access_env \<Rightarrow> access_call \<Rightarrow> access_db \<Rightarrow> session_principal option" where
  "caller env call db =
     (case call_request call of
        None \<Rightarrow> None
      | Some rq \<Rightarrow> (case require_csrf env rq db of Inl _ \<Rightarrow> None | Inr (pr, _) \<Rightarrow> Some pr))"

lemma touched_inv:
  assumes "access_inv db" "require_csrf env rq db = Inr (pr, d)"
  shows "access_inv d" "users d \<noteq> []"
  using access_inv_quiet[OF assms(1) require_csrf_Inr(1)[OF assms(2)]] sessions_follow_keys[OF require_csrf_Inr(2)[OF assms(2)]]
    require_csrf_Inr(1,3)[OF assms(2)] by (auto simp: same_access_def)

lemma reaches_same: "same_access db d \<Longrightarrow> reaches d = reaches db"
  by (simp add: reaches_def fun_eq_iff same_access_fields)

lemma recoverable_same: "same_access db d \<Longrightarrow> recoverable d = recoverable db"
  by (simp add: recoverable_def recovery_administrator_def same_access_fields same_access_permissions)

text \<open>Sign-in and bootstrap leave what users hold alone, apart from the first user.\<close>

lemma open_session_users:
  assumes "open_session env fresh user db = Inr db'"
  shows "user_sites db' = user_sites db"
    "users db' = users (update_user (us_id user) (\<lambda>u. u\<lparr>us_last_login_at := Some (en_now env)\<rparr>) db)"
  using assms by (auto simp: open_session_def insert_session_def bindE_eq_Inr update_user_def split: if_splits)

lemma login_keeps:
  assumes inv: "access_inv (as_db st)" and login: "login env fresh p st = (a, st')"
  shows "effective_permissions (as_db st') = effective_permissions (as_db st)" (is ?P)
    and "reaches (as_db st') u site \<Longrightarrow> reaches (as_db st) u site" (is "PROP ?R")
    and "recoverable (as_db st) \<Longrightarrow> recoverable (as_db st')" (is "PROP ?S")
proof -
  have quiet: "?P" "PROP ?R" "PROP ?S" if "same_access (as_db st) (as_db st')"
    using that by (simp_all add: same_access_permissions reaches_same recoverable_same)
  have opened: "?P" "PROP ?R" "PROP ?S"
    if "user \<in> set (users (as_db st))" and new: "open_session env fresh user (as_db st) = Inr (as_db st')" for user
  proof -
    show eff: ?P using open_session_Inr(2)[OF inv that] .
    note f = open_session_users[OF new]
    show "PROP ?R"
      by (erule reaches_mono) (auto simp: f elim!: update_user_rows split: if_splits)
    assume "recoverable (as_db st)"
    then obtain w where w: "w \<in> set (users (as_db st))" "recovery_administrator (as_db st) w" by (auto simp: recoverable_def)
    let ?w = "if us_id w = us_id user then w\<lparr>us_last_login_at := Some (en_now env)\<rparr> else w"
    have "?w \<in> set (users (as_db st'))" using w(1) by (simp add: f update_user_def)
    then show "recoverable (as_db st')"
      using w(2) eff unfolding recoverable_def recovery_administrator_def by (intro bexI[of _ ?w]) auto
  qed
  from login show "?P" by (cases rule: login_cases) (use quiet(1) opened(1) in auto)
  from login show "PROP ?R" by (cases rule: login_cases) (use quiet(2) opened(2) in auto)
  from login show "PROP ?S" by (cases rule: login_cases) (use quiet(3) opened(3) in auto)
qed

lemma call_gains:
  assumes inv: "access_inv (as_db st)" and valid: "valid_call call" and perf: "perform env call st = (a, st')"
    and not_first: "\<And>f i s p. call \<noteq> Bootstrap f i s p"
  shows "c \<in> effective_permissions (as_db st') u \<Longrightarrow> c \<in> effective_permissions (as_db st) u \<or>
      (\<exists>pr. caller env call (as_db st) = Some pr \<and> c \<in> sp_permissions pr)"
    and "reaches (as_db st') u site \<Longrightarrow> reaches (as_db st) u site \<or>
      (\<exists>pr. caller env call (as_db st) = Some pr \<and> site_in_scope (sp_all_sites pr) (sp_site_ids pr) site)"
proof -
  have "(c \<in> effective_permissions (as_db st') u \<longrightarrow> c \<in> effective_permissions (as_db st) u \<or>
      (\<exists>pr. caller env call (as_db st) = Some pr \<and> c \<in> sp_permissions pr)) \<and>
    (reaches (as_db st') u site \<longrightarrow> reaches (as_db st) u site \<or>
      (\<exists>pr. caller env call (as_db st) = Some pr \<and> site_in_scope (sp_all_sites pr) (sp_site_ids pr) site))"
  proof (cases "call_request call")
    case None
    then obtain f p where "call = Login f p" using not_first by (cases call) auto
    then obtain b where "login env f p st = (b, st')" using perf by (auto simp: map_prod_error)
    then show ?thesis using login_keeps[OF inv] by auto
  next
    case (Some rq)
    have "written env rq (call_kind call) st st'" using performed_write[OF perf valid Some] .
    then consider "as_db st' = as_db st"
      | pr db k where "require_csrf env rq (as_db st) = Inr (pr, db)" "access_write env pr db k (as_db st')"
      by (auto simp: written_def follows_write_def)
    then show ?thesis
    proof cases
      case 2
      note d = touched_inv[OF inv 2(1)] and same = require_csrf_Inr(1)[OF 2(1)]
      show ?thesis
        using write_permissions[OF 2(2) d, of u] write_sites[OF 2(2) d(1), of u site] Some 2(1)
        by (auto simp: caller_def same_access_permissions[OF same] reaches_same[OF same])
    qed simp
  qed
  then show "c \<in> effective_permissions (as_db st') u \<Longrightarrow> c \<in> effective_permissions (as_db st) u \<or>
      (\<exists>pr. caller env call (as_db st) = Some pr \<and> c \<in> sp_permissions pr)"
    and "reaches (as_db st') u site \<Longrightarrow> reaches (as_db st) u site \<or>
      (\<exists>pr. caller env call (as_db st) = Some pr \<and> site_in_scope (sp_all_sites pr) (sp_site_ids pr) site)"
    by blast+
qed

lemma call_recoverable:
  assumes inv: "access_inv (as_db st)" and valid: "valid_call call" and perf: "perform env call st = (a, st')"
    and rec: "recoverable (as_db st)" and safe: "\<not> may_lose_recovery (as_db st) call"
  shows "recoverable (as_db st')"
proof (cases "call_request call")
  case None
  then consider f i s p where "call = Bootstrap f i s p" | f p where "call = Login f p" by (cases call) auto
  then show ?thesis
  proof cases
    case 1
    then obtain b where "bootstrap env f i s p st = (b, st')" using perf by (auto simp: map_prod_error)
    then show ?thesis
      by (cases rule: bootstrap_cases) (use rec recoverable_same[OF same_access_simps(1)] in \<open>auto simp: recoverable_def\<close>)
  next
    case 2
    then obtain b where "login env f p st = (b, st')" using perf by (auto simp: map_prod_error)
    then show ?thesis using login_keeps(3)[OF inv] rec by blast
  qed
next
  case (Some rq)
  have "written env rq (call_kind call) st st'" using performed_write[OF perf valid Some] .
  then consider "as_db st' = as_db st"
    | pr db k where "require_csrf env rq (as_db st) = Inr (pr, db)" "access_write env pr db k (as_db st')" "k = call_kind call \<or> k = Other"
    by (auto simp: written_def follows_write_def)
  then show ?thesis
  proof cases
    case 2
    note d = touched_inv[OF inv 2(1)] and r = require_csrf_Inr[OF 2(1)]
    have "k \<noteq> By_role \<and> k \<noteq> By_deactivation" using 2(3) safe by (cases call) (auto simp: may_lose_recovery_def)
    moreover have "''admin'' \<in> user_role_names db i" if "k = By_access i" for i
      using 2(3) safe that same_access_permissions(2)[OF r(1)] by (cases call) (auto simp: may_lose_recovery_def)
    ultimately show ?thesis
      using r(3-7) rec
      by (intro write_recoverable[OF 2(2) d])
        (auto simp: same_access_fields[OF r(1)] recoverable_same[OF r(1)] same_access_permissions[OF r(1)])
  qed (use rec in simp)
qed

end
