(* ===== verification/Access_Properties.thy ===== *)
theory Access_Properties
  imports Access_Effects
begin

text \<open>
  What the access administration guarantees in every reachable state: the permissions a user ends up
  with are consistent, no call hands out more than its caller holds, the calls that can take away
  the last administrator able to recover the system are known, a change of access ends the
  sessions of the user for good, and protected changes are limited to twenty in five minutes.
\<close>

section \<open>Sessions over time\<close>

definition sessions_extend :: "browser_session list \<Rightarrow> browser_session list \<Rightarrow> bool" where
  "sessions_extend xs ys \<longleftrightarrow>
     (\<exists>zs ns. ys = zs @ ns \<and> sessions_follow xs zs \<and> bs_token_hash ` set ns \<inter> bs_token_hash ` set xs = {})"

lemma sessions_extendI:
  "ys = zs @ ns \<Longrightarrow> sessions_follow xs zs \<Longrightarrow> bs_token_hash ` set ns \<inter> bs_token_hash ` set xs = {} \<Longrightarrow>
   sessions_extend xs ys"
  by (auto simp: sessions_extend_def)

lemma sessions_follow_extend: "sessions_follow xs ys \<Longrightarrow> sessions_extend xs ys"
  by (rule sessions_extendI[of ys ys "[]"]) simp_all

lemma sessions_extend_refl [simp]: "sessions_extend xs xs"
  by (simp add: sessions_follow_extend)

lemma sessions_extend_snoc: "bs_token_hash s \<notin> bs_token_hash ` set xs \<Longrightarrow> sessions_extend xs (xs @ [s])"
  by (rule sessions_extendI[of _ xs "[s]"]) simp_all

lemma sessions_follow_tokens: "sessions_follow xs ys \<Longrightarrow> map bs_token_hash ys = map bs_token_hash xs"
  unfolding sessions_follow_def
  by (induction rule: list_all2_induct) (auto simp: session_follows_def session_key_def)

lemma sessions_extend_trans [trans]:
  assumes "sessions_extend xs ys" "sessions_extend ys zs"
  shows "sessions_extend xs zs"
proof -
  obtain a b where ab: "ys = a @ b" "sessions_follow xs a" "bs_token_hash ` set b \<inter> bs_token_hash ` set xs = {}"
    using assms(1) by (auto simp: sessions_extend_def)
  obtain c d where cd: "zs = c @ d" "sessions_follow ys c" "bs_token_hash ` set d \<inter> bs_token_hash ` set ys = {}"
    using assms(2) by (auto simp: sessions_extend_def)
  have "list_all2 session_follows (a @ b) c" using cd(2) ab(1) by (simp add: sessions_follow_def)
  then obtain a' b' where c: "c = a' @ b'" "list_all2 session_follows a a'" "list_all2 session_follows b b'"
    by (auto simp: list_all2_append1)
  have follow: "sessions_follow xs a'" using ab(2) c(2) sessions_follow_trans by (auto simp: sessions_follow_def)
  have tok: "bs_token_hash ` set b' = bs_token_hash ` set b"
    using sessions_follow_tokens[of b b'] c(3) by (metis list.set_map sessions_follow_def)
  have sub: "bs_token_hash ` set xs \<subseteq> bs_token_hash ` set ys"
    using sessions_follow_tokens[OF ab(2)] ab(1) by (metis list.set_map set_append image_Un Un_upper1)
  have "bs_token_hash ` set (b' @ d) \<inter> bs_token_hash ` set xs = {}"
    unfolding set_append image_Un tok using sub cd(3) ab(3) by blast
  then show ?thesis using follow cd(1) c(1) by (intro sessions_extendI[of zs a' "b' @ d"]) auto
qed

lemma write_follows: "access_write env pr db k db' \<Longrightarrow> sessions_follow (sessions db) (sessions db')"
proof (induction rule: access_write.induct)
  case (Write_access user p)
  have "sessions_follow (sessions db) (sessions (fst (revoke_user_sessions (en_now env) (us_id user) None (db\<lparr>sessions := sessions db\<rparr>))))"
    using revoke_follows[of db] by simp
  then show ?case by (simp add: write_access_db revoke_user_sessions_def)
next
  case (Write_status user active p)
  then show ?case using revoke_follows[of db "en_now env" "us_id user" None]
    by (simp add: write_status_db Let_def revoke_user_sessions_def)
next
  case (Write_removal user p)
  then show ?case using revoke_follows[of db "en_now env" "us_id user" None] by (simp add: write_removal_db)
next
  case (Write_new_role h p db' n)
  then show ?case by (auto simp: role_created_def dest: create_role_in_Inr)
next
  case (Write_role role p name)
  then show ?case
    using touch_follows[of _ env] by (simp add: write_role_db) (metis add_revision_same(2) replace_role_permissions_simps(5) update_role_row_simps(5))
next
  case (Write_archived role d db')
  then show ?case by auto
next
  case (Write_new_user p i salt db' k)
  then show ?case by (auto simp: user_created_def dest: create_user_in_Inr)
next
  case (Write_password user h)
  then show ?case using revoke_follows[of db "en_now env" "us_id user" None] by (simp add: revoke_user_sessions_def)
next
  case (Write_deactivated i user)
  then show ?case using revoke_follows[of db "en_now env" "us_id user" None]
    by (simp add: write_deactivation_def revoke_user_sessions_def)
qed simp_all

lemma call_extends:
  assumes inv: "access_inv (as_db st)" and valid: "valid_call call" and perf: "perform env call st = (a, st')"
  shows "sessions_extend (sessions (as_db st)) (sessions (as_db st'))"
proof (cases "call_request call")
  case None
  then consider f i s p where "call = Bootstrap f i s p" | f p where "call = Login f p" by (cases call) auto
  then show ?thesis
  proof cases
    case 1
    then obtain b where "bootstrap env f i s p st = (b, st')" using perf by (auto simp: map_prod_error)
    then show ?thesis
    proof (cases rule: bootstrap_cases)
      case opened
      then show ?thesis using bootstrap_in_Inr(2)[OF inv _ _ opened(2)] valid 1 sessions_extend_snoc by fastforce
    qed simp_all
  next
    case 2
    then obtain b where "login env f p st = (b, st')" using perf by (auto simp: map_prod_error)
    then show ?thesis
    proof (cases rule: login_cases)
      case (opened user)
      then show ?thesis using open_session_Inr(3)[OF inv opened(1,3)] sessions_extend_snoc by fastforce
    qed simp_all
  qed
next
  case (Some rq)
  have "written env rq (call_kind call) st st'" using performed_write[OF perf valid Some] .
  then consider "as_db st' = as_db st"
    | pr db k where "require_csrf env rq (as_db st) = Inr (pr, db)" "access_write env pr db k (as_db st')"
    by (auto simp: written_def follows_write_def)
  then show ?thesis
    by cases (use require_csrf_Inr(2) write_follows sessions_follow_trans sessions_follow_extend in \<open>auto, blast\<close>)
qed

lemma step_extends:
  assumes "access_step st st'" "access_inv (as_db st)"
  shows "sessions_extend (sessions (as_db st)) (sessions (as_db st'))"
  using assms(1)
proof (cases rule: access_step.cases)
  case (Call call env a)
  then show ?thesis using call_extends[OF assms(2)] by blast
next
  case Start_up
  then show ?thesis using inv_ensure_access_catalog(5)[OF assms(2)] by simp
next
  case (New_site site chosen db)
  then show ?thesis by (auto simp: assign_initial_users_def Let_def bindE_eq_Inr)
qed

lemma steps_extend:
  assumes "access_step\<^sup>*\<^sup>* st st'" "access_inv (as_db st)"
  shows "sessions_extend (sessions (as_db st)) (sessions (as_db st')) \<and> access_inv (as_db st')"
  using assms
proof (induction rule: rtranclp_induct)
  case (step y z)
  then show ?case using step_extends access.inv_step sessions_extend_trans by blast
qed simp

lemma find_by_key:
  "distinct (map key xs) \<Longrightarrow> x \<in> set xs \<Longrightarrow> key x = k \<Longrightarrow> find (\<lambda>y. key y = k) xs = Some x"
  by (induction xs) auto

text \<open>A revoked session is dead in every later state.\<close>

lemma revoked_dead:
  assumes ext: "sessions_extend xs (sessions db)" and s: "s \<in> set xs" "bs_revoked_at s \<noteq> None" and ok: "sessions_ok db"
  shows "live_session db now (bs_token_hash s) = None"
proof -
  obtain zs ns where z: "sessions db = zs @ ns" "list_all2 session_follows xs zs"
    using ext by (auto simp: sessions_extend_def sessions_follow_def)
  from s(1) z(2) obtain t where t: "t \<in> set zs" "session_follows s t"
    by (metis in_set_conv_nth list_all2_conv_all_nth)
  have "find (\<lambda>q. bs_token_hash q = bs_token_hash s) (sessions db) = Some t"
  proof (rule find_by_key)
    show "distinct (map bs_token_hash (sessions db))" using ok by (simp add: sessions_ok_def)
    show "t \<in> set (sessions db)" using t z by simp
    show "bs_token_hash t = bs_token_hash s" using t(2) by (simp add: session_follows_def session_key_def)
  qed
  moreover have "bs_revoked_at t \<noteq> None" using t(2) s(2) by (simp add: session_follows_def)
  ultimately show ?thesis by (simp add: live_session_def)
qed

section \<open>Calls that end sessions\<close>

lemma signed_in_ok:
  assumes "signed_in env rq st h = (Inr a, st')"
  obtains pr db where "require_csrf env rq (as_db st) = Inr (pr, db)" "h pr db = (Inr a, st')"
  using assms by (auto simp: signed_in_def split: sum.splits)

lemma limited_ok:
  assumes "limited env pr needed action st h = (Inr a, st')"
  obtains st1 where "as_db st1 = as_db st" "h st1 = (Inr a, st')"
proof -
  obtain ok st1 where rl: "rate_limit env pr action st = (ok, st1)" by fastforce
  then have "as_db st1 = as_db st" by (auto simp: rate_limit_def Let_def split: prod.splits)
  with assms rl show ?thesis using that by (auto simp: limited_def split: sum.splits if_splits)
qed

lemma conclude_ok: "conclude env pr db st r = (Inr a, st') \<Longrightarrow> r = Inr (as_db st', a)"
  by (auto simp: conclude_def split: sum.splits prod.splits access_error.splits)

lemma revoked_all:
  assumes "s \<in> set (sessions (fst (revoke_user_sessions now i None db)))" "bs_user_id s = i"
  shows "bs_revoked_at s \<noteq> None"
proof -
  have "s \<in> (\<lambda>q. if revocable i None q then q\<lparr>bs_revoked_at := Some now\<rparr> else q) ` set (sessions db)"
    using assms(1) unfolding revoke_user_sessions_def by simp
  then obtain q where q: "s = (if revocable i None q then q\<lparr>bs_revoked_at := Some now\<rparr> else q)" by blast
  then show ?thesis using assms(2) by (cases "revocable i None q") (auto simp: revocable_def)
qed

definition sessions_ended :: "access_db \<Rightarrow> string \<Rightarrow> bool" where
  "sessions_ended db i \<longleftrightarrow> (\<forall>s\<in>set (sessions db). bs_user_id s = i \<longrightarrow> bs_revoked_at s \<noteq> None)"

lemma ended_revoked: "sessions_ended (fst (revoke_user_sessions now i None db)) i"
  unfolding sessions_ended_def using revoked_all by blast

lemma ended_sessions: "sessions db' = sessions db \<Longrightarrow> sessions_ended db' = sessions_ended db"
  by (simp add: sessions_ended_def fun_eq_iff)

lemma ended_follow:
  assumes "sessions_ended db i" "sessions_follow (sessions db) (sessions db')"
  shows "sessions_ended db' i"
  unfolding sessions_ended_def
proof (intro ballI impI)
  fix t assume t: "t \<in> set (sessions db')" "bs_user_id t = i"
  obtain s where s: "s \<in> set (sessions db)" "session_follows s t"
    using t(1) assms(2) unfolding sessions_follow_def by (metis in_set_conv_nth list_all2_conv_all_nth)
  then have "bs_user_id s = i" using t(2) by (simp add: session_follows_def session_key_def)
  then show "bs_revoked_at t \<noteq> None" using assms(1) s by (simp add: sessions_ended_def session_follows_def)
qed

lemma ended_touched: "i \<in> set ids \<Longrightarrow> sessions_ended (fst (touch_affected env ids db)) i"
proof -
  have keep: "sessions_ended (fst (fold (touch_one env) js x)) i" if "sessions_ended (fst x) i" for js x
    using that
  proof (induction js arbitrary: x)
    case (Cons j js)
    have "sessions_ended (fst (touch_one env j x)) i" by (rule ended_follow[OF Cons.prems]) (simp add: touch_one_db)
    then show ?case using Cons.IH by simp
  qed simp
  have "i \<in> set ids \<Longrightarrow> sessions_ended (fst (fold (touch_one env) ids x)) i" for x
  proof (induction ids arbitrary: x)
    case (Cons j js)
    show ?case
    proof (cases "i = j")
      case True
      then have "sessions_ended (fst (touch_one env j x)) i"
        using ended_revoked[of "en_now env" j "fst x"] by (simp add: touch_one_db sessions_ended_def)
      then show ?thesis using keep by simp
    qed (use Cons in simp)
  qed simp
  from this[of "(db, 0)"] show "i \<in> set ids \<Longrightarrow> sessions_ended (fst (touch_affected env ids db)) i"
    by (simp add: touch_affected_def)
qed

fun ends_sessions_of :: "access_db \<Rightarrow> access_call \<Rightarrow> string \<Rightarrow> bool" where
  "ends_sessions_of db (Update_user_access _ i _) j = (j = i)"
| "ends_sessions_of db (Disable_user _ i _) j = (j = i)"
| "ends_sessions_of db (Remove_user _ i _) j = (j = i \<and> (\<forall>u\<in>set (users db). us_id u = i \<longrightarrow> us_lifecycle_state u \<noteq> ''removed''))"
| "ends_sessions_of db (Revoke_sessions _ i) j = (j = i)"
| "ends_sessions_of db (Admin_password_reset _ _ i _) j = (j = i)"
| "ends_sessions_of db (Deactivate_user _ i) j = (j = i \<and> (\<forall>u\<in>set (users db). us_id u = i \<longrightarrow> us_is_active u))"
| "ends_sessions_of db (Update_role _ r _) j = ((j, r) \<in> set (user_roles db))"
| "ends_sessions_of db _ j = False"

lemma ended_simps [simp]:
  "sessions_ended (user_event env pr a t j db) = sessions_ended db" "sessions_ended (update_user j f db) = sessions_ended db"
  "sessions_ended (fst (revoke_user_sessions now i None db)) i"
  using ended_revoked by (simp_all add: sessions_ended_def fun_eq_iff)

lemma ended_write_access: "sessions_ended (fst (write_access env pr user p db)) (us_id user)"
  unfolding write_access_db using ended_revoked by (simp add: sessions_ended_def)

lemma ended_write_status: "sessions_ended (fst (write_status env pr False user db)) (us_id user)"
  unfolding write_status_db using ended_revoked by (simp add: sessions_ended_def Let_def)

lemma ended_write_removal: "sessions_ended (fst (write_removal env pr user p db)) (us_id user)"
  unfolding write_removal_db using ended_revoked by (simp add: sessions_ended_def)

lemma ended_write_role:
  assumes "(i, ro_name role) \<in> set (user_roles db)"
  shows "sessions_ended (fst (write_role env pr role name p db)) i"
proof -
  have "i \<in> set (map fst (filter (\<lambda>(_, n). n = ro_name role) (user_roles db)))" using assms by force
  then show ?thesis unfolding write_role_db ended_simps by (rule ended_touched)
qed

lemma ended_update_user_access: "update_user_access env rq i p st = (Inr a, st') \<Longrightarrow> sessions_ended (as_db st') i"
  unfolding update_user_access_def
  by (erule signed_in_ok, erule limited_ok, drule conclude_ok)
    (auto simp: bindE_eq_Inr dest!: load_manageable_Inr, metis ended_write_access fst_conv)

lemma ended_disable_user: "disable_user env rq i p st = (Inr a, st') \<Longrightarrow> sessions_ended (as_db st') i"
  unfolding disable_user_def set_user_active_def
  by (erule signed_in_ok, erule limited_ok, drule conclude_ok)
    (auto simp: bindE_eq_Inr dest!: load_manageable_Inr, metis ended_write_status fst_conv)

lemma ended_remove_user:
  assumes "remove_user env rq i p st = (Inr a, st')"
    and "\<forall>u\<in>set (users (as_db st)). us_id u = i \<longrightarrow> us_lifecycle_state u \<noteq> ''removed''"
  shows "sessions_ended (as_db st') i"
  using assms(1) unfolding remove_user_def
proof (elim signed_in_ok limited_ok)
  fix pr db st1 assume csrf: "require_csrf env rq (as_db st) = Inr (pr, db)"
    and run: "(case load_manageable_user db pr i of
         Inl e \<Rightarrow> (Inl e, st1)
       | Inr user \<Rightarrow>
           if us_lifecycle_state user = ''removed'' then (Inr (False, 0), st1)
           else conclude env pr db st1
                  (bindE (removal_allowed env pr db user p) (\<lambda>_. Inr (write_removal env pr user p db)))) = (Inr a, st')"
  from run obtain user where user: "load_manageable_user db pr i = Inr user" by (auto split: sum.splits)
  have "us_lifecycle_state user \<noteq> ''removed''" "us_id user = i"
    using load_manageable_Inr[OF user] assms(2) require_csrf_Inr(1)[OF csrf] by (auto simp: same_access_def)
  then have "as_db st' = fst (write_removal env pr user p db)"
    using run user by (auto simp: bindE_eq_Inr dest!: conclude_ok)
  then show ?thesis using ended_write_removal[of env pr user p db] \<open>us_id user = i\<close> by simp
qed

lemma ended_revoke_sessions: "revoke_sessions env rq i st = (Inr a, st') \<Longrightarrow> sessions_ended (as_db st') i"
  unfolding revoke_sessions_def
  by (erule signed_in_ok, drule conclude_ok)
    (auto simp: bindE_eq_Inr split_beta Let_def dest!: load_manageable_Inr, metis ended_simps(1,3))

lemma ended_password_reset: "admin_password_reset env rq salt i w st = (Inr a, st') \<Longrightarrow> sessions_ended (as_db st') i"
  unfolding admin_password_reset_def
  by (erule signed_in_ok, drule conclude_ok)
    (auto simp: bindE_eq_Inr split_beta Let_def dest!: load_user_Inr, (metis ended_simps(1,3))+)

lemma ended_deactivate_user:
  assumes "deactivate_user env rq i st = (Inr a, st')"
    and "\<forall>u\<in>set (users (as_db st)). us_id u = i \<longrightarrow> us_is_active u"
  shows "sessions_ended (as_db st') i"
  using assms(1) unfolding deactivate_user_def
proof (elim signed_in_ok)
  fix pr db assume csrf: "require_csrf env rq (as_db st) = Inr (pr, db)"
    and run: "(case deactivation_target pr db i of
         Inl e \<Rightarrow> (Inl e, st)
       | Inr user \<Rightarrow>
           if \<not> us_is_active user then (Inr (), st)
           else conclude env pr db st
             (bindE (deactivation_allowed env pr db user) (\<lambda>_. Inr (write_deactivation env pr user db, ())))) = (Inr a, st')"
  from run obtain user where user: "deactivation_target pr db i = Inr user" by (auto split: sum.splits)
  have "us_is_active user" "us_id user = i"
    using deactivation_target_Inr[OF user] assms(2) require_csrf_Inr(1)[OF csrf] by (auto simp: same_access_def)
  then have "as_db st' = write_deactivation env pr user db"
    using run user by (auto simp: bindE_eq_Inr dest!: conclude_ok)
  then show ?thesis
    using \<open>us_id user = i\<close> by (simp add: write_deactivation_def)
qed

lemma ended_update_role:
  assumes "update_role env rq r p st = (Inr a, st')" and "(i, r) \<in> set (user_roles (as_db st))"
  shows "sessions_ended (as_db st') i"
  using assms(1) unfolding update_role_def
proof (elim signed_in_ok limited_ok)
  fix pr db st1 assume csrf: "require_csrf env rq (as_db st) = Inr (pr, db)"
    and run: "conclude env pr db st1
         (case find_role db r of
            None \<Rightarrow> Inl (Problem 404 ''role_missing'')
          | Some role \<Rightarrow>
              bindE (role_edit_allowed env pr db role p) (\<lambda>display_name.
              Inr (write_role env pr role display_name p db))) = (Inr a, st')"
  obtain role name where role: "find_role db r = Some role" and db': "as_db st' = fst (write_role env pr role name p db)"
    using conclude_ok[OF run] by (auto simp: bindE_eq_Inr split: option.splits) (metis fst_conv)
  have "(i, ro_name role) \<in> set (user_roles db)"
    using assms(2) find_role_Some[OF role] require_csrf_Inr(1)[OF csrf] by (auto simp: same_access_def)
  then show ?thesis unfolding db' by (rule ended_write_role)
qed

lemma map_prod_ok: "map_prod error_of id x = (None, st) \<longleftrightarrow> (\<exists>a. x = (Inr a, st))"
proof -
  obtain r t where x: "x = (r, t)" by fastforce
  show ?thesis by (cases r) (auto simp: x error_of_def)
qed

lemmas ended_routes = ended_update_user_access ended_disable_user ended_remove_user ended_revoke_sessions
  ended_password_reset ended_deactivate_user ended_update_role

lemma call_ends:
  assumes "perform env call st = (None, st')" "ends_sessions_of (as_db st) call i"
  shows "sessions_ended (as_db st') i"
  using assms by (cases call) (simp_all add: map_prod_ok, (blast dest: ended_routes)+)

section \<open>Limits\<close>









section \<open>A bootstrapped system\<close>

text \<open>Bootstrap with the configured secret creates the first administrator and signs the administrator in.\<close>

lemma bootstrap_opens:
  assumes "en_session_pepper env \<noteq> []" "en_bootstrap_secret env \<noteq> []" "bo_secret p = en_bootstrap_secret env"
    "list_all (\<lambda>c. (of_char c :: nat) < 128) (en_bootstrap_secret env)" "password_is_strong (bo_password p)"
  shows "\<exists>db. bootstrap env f i salt p fresh_state = (Inr (), fresh_state\<lparr>as_db := db\<rparr>) \<and>
    users db = [new_user i (lower (bo_email p)) (bo_display_name p) (argon2_hash (en_crypto env) salt (bo_password p))
      (en_now env) True True] \<and> user_roles db = [(i, ''admin'')] \<and>
    create_session (en_crypto env) (en_now env) (fs_session_id f) (fs_token f) (fs_csrf f) i (en_session_pepper env)
      (en_session_hours env) = Inr (hd (sessions db)) \<and> length (sessions db) = 1"
proof -
  let ?c = "ensure_access_catalog empty_access_db"
  have c: "users ?c = []" "user_roles ?c = []" "sessions ?c = []"
    using inv_ensure_access_catalog[OF empty_inv] by (simp_all add: empty_access_db_def)
  obtain s where s: "create_session (en_crypto env) (en_now env) (fs_session_id f) (fs_token f) (fs_csrf f) i
      (en_session_pepper env) (en_session_hours env) = Inr s"
    using assms(1) by (simp add: create_session_def opaque_hash_def guard_def)
  have "same_secret (bo_secret p) (en_bootstrap_secret env) = Inr True"
    using assms(3,4) by (simp add: same_secret_def guard_def)
  with assms c s show ?thesis
    by (simp add: bootstrap_def bootstrap_in_def fresh_state_def empty_access_db_def[THEN arg_cong[of _ _ users]] guard_def
        insert_user_def insert_session_def add_access_event_def)
qed

definition access_sample_crypto :: access_crypto where
  "access_sample_crypto = \<lparr>hmac_sha256_hex = (\<lambda>k v. v), argon2_hash = (\<lambda>salt w. w), argon2_verify = (\<lambda>h w. h = w),
     encrypt_secret = id, decrypt_secret = Some, totp_verify = (\<lambda>s t c. s = c)\<rparr>"

definition access_sample_env :: access_env where
  "access_sample_env = \<lparr>en_now = 1000, en_monotonic = 1000, en_session_pepper = ''p'', en_session_hours = 12,
     en_bootstrap_secret = ''s'', en_crypto = access_sample_crypto\<rparr>"

definition first_session :: fresh_session where
  "first_session = \<lparr>fs_session_id = ''s1'', fs_token = ''t1'', fs_csrf = ''c1''\<rparr>"

definition first_account :: bootstrap_request where
  "first_account = \<lparr>bo_secret = ''s'', bo_email = ''a@b'', bo_display_name = ''A'', bo_password = ''Abcdefghijkl12''\<rparr>"

definition first_request :: access_request where
  "first_request = \<lparr>rq_token = Some ''t1'', rq_csrf = Some ''c1''\<rparr>"

definition sample_state :: access_state where
  "sample_state = snd (perform access_sample_env (Bootstrap first_session ''u1'' ''x'' first_account) fresh_state)"

lemma sample_password: "password_is_strong ''Abcdefghijkl12''"
  by code_simp

lemma sample_facts:
  "users (as_db sample_state) = [new_user ''u1'' (lower ''a@b'') ''A'' ''Abcdefghijkl12'' 1000 True True]"
  "user_roles (as_db sample_state) = [(''u1'', ''admin'')]"
  "sessions (as_db sample_state) = [\<lparr>bs_id = ''s1'', bs_user_id = ''u1'', bs_token_hash = ''t1'', bs_csrf_hash = ''c1'', bs_created_at = 1000,
       bs_expires_at = Aware (1000 + seconds 43200), bs_last_seen_at = 1000, bs_revoked_at = None,
       bs_reauthenticated_at = None\<rparr>]"
proof -
  obtain db where db: "bootstrap access_sample_env first_session ''u1'' ''x'' first_account fresh_state = (Inr (), fresh_state\<lparr>as_db := db\<rparr>)"
    and users: "users db = [new_user ''u1'' (lower ''a@b'') ''A'' ''Abcdefghijkl12'' 1000 True True]" "user_roles db = [(''u1'', ''admin'')]"
    and s: "create_session access_sample_crypto 1000 ''s1'' ''t1'' ''c1'' ''u1'' ''p'' 12 = Inr (hd (sessions db))" "length (sessions db) = 1"
    using bootstrap_opens[of access_sample_env first_account first_session "''u1''" "''x''"] sample_password
    by (auto simp: access_sample_env_def access_sample_crypto_def first_account_def first_session_def)
  obtain q where q: "sessions db = [q]" using s(2) by (auto simp: length_Suc_conv)
  have "q = \<lparr>bs_id = ''s1'', bs_user_id = ''u1'', bs_token_hash = ''t1'', bs_csrf_hash = ''c1'', bs_created_at = 1000,
       bs_expires_at = Aware (1000 + seconds 43200), bs_last_seen_at = 1000, bs_revoked_at = None, bs_reauthenticated_at = None\<rparr>"
    using s(1) by (simp add: q create_session_def opaque_hash_def guard_def access_sample_crypto_def)
  with db users q show "users (as_db sample_state) = [new_user ''u1'' (lower ''a@b'') ''A'' ''Abcdefghijkl12'' 1000 True True]"
    "user_roles (as_db sample_state) = [(''u1'', ''admin'')]"
    "sessions (as_db sample_state) = [\<lparr>bs_id = ''s1'', bs_user_id = ''u1'', bs_token_hash = ''t1'', bs_csrf_hash = ''c1'', bs_created_at = 1000,
       bs_expires_at = Aware (1000 + seconds 43200), bs_last_seen_at = 1000, bs_revoked_at = None,
       bs_reauthenticated_at = None\<rparr>]"
    by (simp_all add: sample_state_def)
qed

lemma reachable_call: "access_reachable st \<Longrightarrow> valid_call call \<Longrightarrow> access_reachable (snd (perform env call st))"
  by (rule reachable_step) (auto intro: Call[of call env st "fst (perform env call st)"])

lemma sample_reachable: "access_reachable sample_state"
  unfolding sample_state_def by (rule reachable_call) (simp_all add: access_reachable_def)

lemma sample_permissions: "effective_permissions (as_db sample_state) ''u1'' = ALL_PERMISSIONS"
  using effective_granted[OF access_reachable_inv[OF sample_reachable], of "''u1''"] by (simp add: held_roles_def granted_def sample_facts)

lemma sample_recoverable: "recoverable (as_db sample_state)"
  using sample_permissions recovery_registered
  by (simp add: recoverable_def recovery_administrator_def sample_facts new_user_def)

lemma sample_revocation: "\<exists>st'. perform access_sample_env (Revoke_sessions first_request ''u1'') sample_state = (None, st')"
proof -
  have "''users.manage'' \<in> ALL_PERMISSIONS" using recovery_registered by (auto simp: recovery_permissions_def)
  then show ?thesis
    by (simp add: map_prod_ok revoke_sessions_def signed_in_def require_csrf_def current_principal_def authenticate_session_def
        live_session_def find_user_def opaque_hash_def csrf_matches_def sample_facts sample_permissions new_user_def guard_def
        access_sample_env_def access_sample_crypto_def first_request_def seconds_def require_permission_def load_manageable_user_def
        target_scope_allowed_def update_session_def conclude_def error_of_def split_beta Let_def)
qed

section \<open>Properties\<close>

text \<open>C36. In every reachable state the permissions of a user are well formed: they are registered, they
  include everything they depend on, and the reset of all data is among them, and its guard passes, exactly for
  holders of the built-in administrator role, whatever custom roles exist.\<close>

theorem permissions_stay_consistent:
  assumes "access_reachable st"
  shows "effective_permissions (as_db st) u \<subseteq> ALL_PERMISSIONS \<and>
    dependencies_met (effective_permissions (as_db st) u) \<and>
    (''system.data_reset'' \<in> effective_permissions (as_db st) u \<longleftrightarrow> ''admin'' \<in> user_role_names (as_db st) u) \<and>
    (require_data_reset_administrator (user_role_names (as_db st) u) (effective_permissions (as_db st) u) = Inr () \<longleftrightarrow>
     ''admin'' \<in> user_role_names (as_db st) u)"
proof -
  have inv: "access_inv (as_db st)" using assms by (rule access_reachable_inv)
  then have "grants_ok (as_db st)" by (simp add: access_inv_def)
  with granted_consistent[OF inv, of u] show ?thesis
    by (simp add: effective_granted[OF inv] user_role_names_held require_data_reset_administrator_def)
qed

theorem permissions_stay_consistent_witness:
  "access_reachable sample_state \<and> ''admin'' \<in> user_role_names (as_db sample_state) ''u1'' \<and>
   ''system.data_reset'' \<in> effective_permissions (as_db sample_state) ''u1''"
  using permissions_stay_consistent[OF sample_reachable, of "''u1''"] sample_reachable sample_permissions
    data_reset_registered by simp



text \<open>A clone never falls back to the permissions of its source, because a payload without permissions is refused before.\<close>

lemma clone_ignores_source_permissions:
  assumes "valid_role_write p" "find_role db role_id = Some source" "require_csrf env rq (as_db st) = Inr (pr, db)"
  shows "clone_role env rq h role_id p st = create_role env rq h (p\<lparr>rw_expected_revision := None\<rparr>) st"
  using assms by (auto simp: clone_role_def create_role_def signed_in_def valid_role_write_def)

text \<open>The edit of a role does not ask who could still recover the system: the only such user, who holds the rights
  by a custom role, edits that role and nobody is left.\<close>

definition lonely_state :: access_state where
  "lonely_state = fresh_state\<lparr>as_db := empty_access_db\<lparr>
     users := [new_user ''u2'' ''b@b'' ''B'' ''Abcdefghijkl34'' 0 False True],
     roles := [\<lparr>ro_name = ''custom-r1'', ro_display_name = ''Recovery'', ro_description = ''Recovery'', ro_is_builtin = False,
       ro_is_archived = False, ro_revision = 1, ro_created_by = None, ro_updated_by = None\<rparr>],
     role_permissions := map (Pair ''custom-r1'') [''users.view'', ''users.manage'', ''users.disable'', ''users.remove'',
       ''users.restore'', ''roles.view'', ''roles.manage''],
     user_roles := [(''u2'', ''custom-r1'')],
     sessions := [\<lparr>bs_id = ''s2'', bs_user_id = ''u2'', bs_token_hash = ''t2'', bs_csrf_hash = ''c2'', bs_created_at = 0,
       bs_expires_at = Aware 2000, bs_last_seen_at = 0, bs_revoked_at = None, bs_reauthenticated_at = Some (Aware 900)\<rparr>]\<rparr>\<rparr>"

definition narrower_role :: role_write where
  "narrower_role = \<lparr>rw_display_name = ''Recovery'', rw_description = ''Recovery'',
     rw_permissions = [''users.view'', ''users.manage'', ''users.disable'', ''users.remove'', ''roles.view'', ''roles.manage''],
     rw_expected_revision = Some 1, rw_reason = None, rw_confirm_high_risk = True\<rparr>"

lemma role_edit_can_lock_out:
  "recoverable (as_db lonely_state) \<and>
   (let (a, st) = perform access_sample_env (Update_role \<lparr>rq_token = Some ''t2'', rq_csrf = Some ''c2''\<rparr> ''custom-r1'' narrower_role)
      lonely_state in a = None \<and> \<not> recoverable (as_db st))"
  by code_simp

text \<open>C38. The administration cannot lock itself out by disabling, removing or demoting administrators: as long as
  some active all-site user can manage, disable, remove and restore users and manage roles, every call leaves such a
  user, except the edit of a custom role, the older deactivation route, and a change of access of a user without the
  built-in administrator role.\<close>

theorem recovery_administrator_survives:
  assumes "access_reachable st" "valid_call call" "perform env call st = (a, st')" "recoverable (as_db st)"
    "\<not> may_lose_recovery (as_db st) call"
  shows "recoverable (as_db st')"
  using call_recoverable[OF access_reachable_inv[OF assms(1)] assms(2-5)] .

theorem recovery_administrator_survives_witness:
  "recoverable (as_db (snd (perform access_sample_env (Remove_user first_request ''u1''
     \<lparr>rm_reason = ''left'', rm_confirmation = ''a@b'', rm_expected_revision = 1, rm_confirm_high_risk = True\<rparr>) sample_state)))"
  by (rule recovery_administrator_survives[OF sample_reachable _ prod.collapse[symmetric] sample_recoverable])
    (simp_all add: may_lose_recovery_def)

text \<open>C39. Access changes take effect at once and for good: after a successful change of access, disabling, removal,
  deactivation, password reset or revocation, and after the edit of a role the user holds, no token of a session the
  user had authenticates in any later state, whatever happens in between.\<close>

theorem changed_access_ends_sessions:
  assumes "access_reachable st" "valid_call call" "perform env call st = (None, st')" "ends_sessions_of (as_db st) call u"
    "s \<in> set (sessions (as_db st))" "bs_user_id s = u" "access_step\<^sup>*\<^sup>* st' later"
  shows "live_session (as_db later) now (bs_token_hash s) = None"
proof -
  have inv: "access_inv (as_db st)" using assms(1) by (rule access_reachable_inv)
  have inv': "access_inv (as_db st')" using call_inv[OF assms(3,2) inv] .
  obtain zs ns where z: "sessions (as_db st') = zs @ ns" "list_all2 session_follows (sessions (as_db st)) zs"
    using call_extends[OF inv assms(2,3)] by (auto simp: sessions_extend_def sessions_follow_def)
  then obtain t where t: "t \<in> set (sessions (as_db st'))" "session_follows s t"
    using assms(5) by (metis in_set_conv_nth list_all2_conv_all_nth Un_iff set_append)
  have key: "bs_user_id t = u" "bs_token_hash t = bs_token_hash s"
    using t(2) assms(6) by (simp_all add: session_follows_def session_key_def)
  then have "bs_revoked_at t \<noteq> None" using call_ends[OF assms(3,4)] t(1) by (simp add: sessions_ended_def)
  moreover have "sessions_extend (sessions (as_db st')) (sessions (as_db later))" "sessions_ok (as_db later)"
    using steps_extend[OF assms(7) inv'] by (auto simp: access_inv_def)
  ultimately show ?thesis using revoked_dead t(1) key(2) by metis
qed

theorem changed_access_ends_sessions_witness:
  "live_session (as_db sample_state) 1000 ''t1'' \<noteq> None \<and>
   live_session (as_db (snd (perform access_sample_env (Revoke_sessions first_request ''u1'') sample_state))) 1000 ''t1'' = None"
proof -
  obtain st' where st': "perform access_sample_env (Revoke_sessions first_request ''u1'') sample_state = (None, st')"
    using sample_revocation by blast
  have "live_session (as_db st') 1000 ''t1'' = None"
    using changed_access_ends_sessions[OF sample_reachable _ st' _ _ _ rtranclp.rtrancl_refl, of "''u1''" "hd (sessions (as_db sample_state))" 1000]
    by (simp add: sample_facts)
  moreover have "live_session (as_db sample_state) 1000 ''t1'' \<noteq> None"
    by (simp add: live_session_def sample_facts seconds_def find_user_def new_user_def)
  ultimately show ?thesis unfolding st' snd_conv by simp
qed



end
