(* ===== verification/Spec2Isabelle.thy ===== *)
theory Spec2Isabelle
  imports Ingestion_Properties Ota_Properties Firmware_Properties Firmware_Evidence Rate_Properties
    Device_Auth_Signed Rate_Assignment_Properties Access_Properties
begin

text \<open>
  \<^bold>\<open>Verification of the power-monitor server.\<close>

  The program is a server for electricity sensors: a FastAPI backend and a worker over one SQL
  database (\<^verbatim>\<open>src/backend/app\<close>, \<^verbatim>\<open>src/worker/app\<close>).  Sensors and headless agents send signed requests
  with readings, heartbeats and reports; the server stores the readings, installs firmware on the
  sensors, and prices the usage of an electric service with the rate versions assigned to it.
  This library models the parts of the backend that carry this logic and proves what they promise.

  \<^bold>\<open>Conventions.\<close>  A row of a table is a record, a table a list of rows in the order of insertion, the
  database of a component a record of its tables.  An operation is a function from its arguments, the
  clock and the database to \<^verbatim>\<open>Inl\<close> of an error or \<^verbatim>\<open>Inr\<close> of its answer and the new database: each
  request is one transaction, rolled back on an error, and row locks serialise requests, so an
  interleaving is a sequence of operations (the step relations below).  Unique and check constraints
  are tested at the flush.  Python integers are \<^verbatim>\<open>int\<close>, \<^verbatim>\<open>Decimal\<close> is a rational with the rounding of the
  28-digit context written out, instants are microseconds since the epoch.  Code outside the
  repository is a parameter: SHA-256, HKDF, HMAC and decryption, the time zone database, the file
  system of firmware images; what a theorem needs of it is a hypothesis, met in its witness.

  \<^bold>\<open>Shared theories.\<close>  \<^verbatim>\<open>Prelude\<close> has the error monad with its loops, dictionaries, decimal text and the
  two interfaces \<^verbatim>\<open>unique_table\<close> (a table with a unique key) and \<^verbatim>\<open>invariant_system\<close> (a transition system
  with an invariant); \<^verbatim>\<open>Decimals\<close> the decimal context with its interface \<^verbatim>\<open>decimal_context\<close>; \<^verbatim>\<open>Datetimes\<close>
  the calendar; \<^verbatim>\<open>Json\<close> decoded JSON and its canonical dump.

  \<^bold>\<open>Readings\<close> (\<^verbatim>\<open>ingestion/service.py\<close>).  \<^verbatim>\<open>Ingestion_Model\<close> follows \<^verbatim>\<open>ingest_readings\<close> and all it calls:
  the generation gate, the cursor, gaps and permanent losses, energy selection, stored rows and
  events.  \<^verbatim>\<open>Ingestion\<close> and \<^verbatim>\<open>Ingestion_Properties\<close> show that cursor and missing ranges describe exactly
  what is stored, that retries are recognised, and what a batch may change.

  \<^bold>\<open>Firmware\<close> (\<^verbatim>\<open>ota.py\<close>, \<^verbatim>\<open>firmware_lifecycle.py\<close>, the firmware parts of \<^verbatim>\<open>api/routes/firmware.py\<close>,
  \<^verbatim>\<open>device_protocol.py\<close> and \<^verbatim>\<open>agent_protocol.py\<close>).  \<^verbatim>\<open>Ota\<close> has versions, compatibility and manifests;
  \<^verbatim>\<open>Firmware_Model\<close> the deployment rows, transitions and the reconciler; \<^verbatim>\<open>Firmware_Handlers\<close> and
  \<^verbatim>\<open>Firmware_Routes\<close> the hooks and the routes.  \<^verbatim>\<open>Firmware_Lifecycle\<close> says how a handler may change a
  row, \<^verbatim>\<open>Firmware_System\<close> makes all of them one transition system with its invariant,
  \<^verbatim>\<open>Firmware_Reconcile\<close> relates the reconciler to a reference predicate; \<^verbatim>\<open>Firmware_Properties\<close>,
  \<^verbatim>\<open>Firmware_Evidence\<close> and \<^verbatim>\<open>Ota_Properties\<close> hold the properties, on the installation of
  \<^verbatim>\<open>Firmware_Samples\<close>.

  \<^bold>\<open>Request authentication\<close> (\<^verbatim>\<open>security/protocol.py\<close>, \<^verbatim>\<open>security/agent_protocol.py\<close>).  \<^verbatim>\<open>Device_Auth\<close> has the
  canonical texts, the signatures and the two verifications with the tables of devices, credentials,
  nonces and boots.  \<^verbatim>\<open>Device_Auth_Properties\<close> shows over runs of the server that requests are not
  replayed, and that the signed text is unambiguous; \<^verbatim>\<open>Device_Auth_Signed\<close> that what the signing side
  writes the server accepts.

  \<^bold>\<open>Access administration\<close> (\<^verbatim>\<open>access.py\<close>, \<^verbatim>\<open>security/browser.py\<close>, \<^verbatim>\<open>api/deps.py\<close>, \<^verbatim>\<open>api/routes/access_control.py\<close>,
  \<^verbatim>\<open>auth.py\<close> and the user routes of \<^verbatim>\<open>management.py\<close>).  \<^verbatim>\<open>Access_Catalog\<close> has the registered permissions and their
  validation, \<^verbatim>\<open>Access_Model\<close> users, roles, sessions and the effective permissions, \<^verbatim>\<open>Access_Routes\<close> the changes of
  users with their guards and the limit on protected changes, \<^verbatim>\<open>Access_Accounts\<close> roles, new accounts, bootstrap,
  sign-in and the second factor.  \<^verbatim>\<open>Access_Invariant\<close> shows what every write keeps, \<^verbatim>\<open>Access_System\<close> makes all
  routes one transition system, \<^verbatim>\<open>Access_Effects\<close> bounds what one call changes, \<^verbatim>\<open>Access_Properties\<close> has the
  properties.  Argon2, HMAC, the cipher and TOTP are functions of a record; a request reads the clock once;
  display texts and the details of audit events are left out.

  \<^bold>\<open>Rates\<close> (\<^verbatim>\<open>rates/engine.py\<close>, \<^verbatim>\<open>documents.py\<close>, \<^verbatim>\<open>service.py\<close>, \<^verbatim>\<open>reset_barrier.py\<close>, \<^verbatim>\<open>assignments.py\<close>).
  \<^verbatim>\<open>Rate_Engine\<close> is the calculation, \<^verbatim>\<open>Rate_Documents\<close> the plan document with its validation and its
  translation to the engine.  \<^verbatim>\<open>Rate_Periods\<close>, \<^verbatim>\<open>Rate_Boundaries\<close>, \<^verbatim>\<open>Rate_Tiers\<close>, \<^verbatim>\<open>Rate_Allocation\<close>,
  \<^verbatim>\<open>Rate_Exact\<close> and \<^verbatim>\<open>Rate_Cycles\<close> have the lemmas on schedules, boundaries, tiers, the allocation loop,
  the tariff it computes and billing cycles; \<^verbatim>\<open>Rate_Accepted\<close> what an accepted document guarantees;
  \<^verbatim>\<open>Rate_Properties\<close> the properties.  \<^verbatim>\<open>Rate_Versions\<close> and \<^verbatim>\<open>Rate_Assignments\<close> model versions, their
  activation and their assignment to services; \<^verbatim>\<open>Rate_Timeline\<close> states the contract as operations on
  timelines and proves the refinement, \<^verbatim>\<open>Rate_Assignment_Properties\<close> the properties over runs.

  \<^bold>\<open>Loops and bounds.\<close>  Recursion is structural or has a termination proof, except the allocation of
  energy to tiers, which in Python ends only because rounded arithmetic moves the usage to the bound
  of the tier: it is a partial function, and it is proved to return for every accepted plan.  The
  bisection for an offset change and the search over days end by their measures.  Agent counters have
  the bound of the source, the timestamps of the round trip are below \<^verbatim>\<open>10 ^ 18\<close>, and timelines are stated
  before \<^verbatim>\<open>datetime.max\<close>, which the source uses as the end of an open assignment.

  \<^bold>\<open>Not modelled.\<close>  The management and rate administration endpoints, the data reset service beyond its
  mutation guards, custom plan editing, bill extraction, status indicators, history queries, polling
  and retention tasks, browser sessions and the network policy, exports and logs, the firmware upload
  and the frontend: they are I/O, SQL aggregation or third-party parsing around the modelled core, or
  planned.  The plan continues with the state machine of a data reset, the weekly rate schedule, the
  tier status of a billing cycle and custom plan editing.
\<close>

end
